(* ===== verification/Prelude.thy ===== *)
theory Prelude
  imports Main "HOL-Library.List_Lexorder" "HOL-Library.Char_ord"
begin

text \<open>
  What the components share: JavaScript strings as char lists (a \<^typ>\<open>char\<close> is one UTF-16
  code unit below 256, the range every literal of the program lies in), the string methods the
  program calls, sets kept in insertion order, decimal rendering of numbers, and results whose
  left side is the error. The collections \<open>js_simps\<close> and \<open>result_simps\<close> hold the
  rewrite rules the component theories pass to the simplifier.
\<close>

named_theorems js_simps
named_theorems result_simps

section \<open>Strings\<close>

definition js_space :: "char \<Rightarrow> bool" where
  "js_space c \<longleftrightarrow> (of_char c :: nat) \<in> {9, 10, 11, 12, 13, 32, 160}"

definition js_trim :: "string \<Rightarrow> string" where
  "js_trim s = rev (dropWhile js_space (rev (dropWhile js_space s)))"

definition js_starts_with :: "string \<Rightarrow> string \<Rightarrow> bool" where
  "js_starts_with p s \<longleftrightarrow> take (length p) s = p"

definition js_ends_with :: "string \<Rightarrow> string \<Rightarrow> bool" where
  "js_ends_with p s \<longleftrightarrow> length p \<le> length s \<and> drop (length s - length p) s = p"

fun js_includes :: "string \<Rightarrow> string \<Rightarrow> bool" where
  "js_includes p [] = (p = [])"
| "js_includes p (x # xs) = (js_starts_with p (x # xs) \<or> js_includes p xs)"

fun js_split :: "char \<Rightarrow> string \<Rightarrow> string list" where
  "js_split c [] = [[]]"
| "js_split c (x # xs) =
     (if x = c then [] # js_split c xs
      else (case js_split c xs of [] \<Rightarrow> [[x]] | y # ys \<Rightarrow> (x # y) # ys))"

fun js_join :: "string \<Rightarrow> string list \<Rightarrow> string" where
  "js_join sep [] = []"
| "js_join sep [x] = x"
| "js_join sep (x # y # ys) = x @ sep @ js_join sep (y # ys)"

text \<open>Lower case on the Latin-1 range: A-Z and the accented capitals.\<close>

definition js_lower_char :: "char \<Rightarrow> char" where
  "js_lower_char c =
     (let n = (of_char c :: nat) in
      if 65 \<le> n \<and> n \<le> 90 \<or> 192 \<le> n \<and> n \<le> 222 \<and> n \<noteq> 215 then char_of (n + 32) else c)"

definition js_lower :: "string \<Rightarrow> string" where
  "js_lower s = map js_lower_char s"

definition is_ascii_letter :: "char \<Rightarrow> bool" where
  "is_ascii_letter c \<longleftrightarrow>
     (let n = (of_char c :: nat) in 65 \<le> n \<and> n \<le> 90 \<or> 97 \<le> n \<and> n \<le> 122)"

definition is_digit :: "char \<Rightarrow> bool" where
  "is_digit c \<longleftrightarrow> (let n = (of_char c :: nat) in 48 \<le> n \<and> n \<le> 57)"

definition is_lower_hex :: "char \<Rightarrow> bool" where
  "is_lower_hex c \<longleftrightarrow> is_digit c \<or> (let n = (of_char c :: nat) in 97 \<le> n \<and> n \<le> 102)"

fun show_nat :: "nat \<Rightarrow> string" where
  "show_nat n =
     (if n < 10 then [char_of (48 + n)] else show_nat (n div 10) @ [char_of (48 + n mod 10)])"

declare show_nat.simps [simp del]

definition show_int :: "int \<Rightarrow> string" where
  "show_int i = (if i < 0 then CHR ''-'' # show_nat (nat (- i)) else show_nat (nat i))"

text \<open>Pieces of the error texts: \<open>field[3]\<close> and a value in double quotes.\<close>

definition at_index :: "string \<Rightarrow> nat \<Rightarrow> string" where
  "at_index field index = field @ ''['' @ show_nat index @ '']''"

definition quoted :: "string \<Rightarrow> string" where
  "quoted s = [CHR 0x22] @ s @ [CHR 0x22]"

subsection \<open>Facts about strings\<close>

lemma js_starts_with_conv: "js_starts_with p s \<longleftrightarrow> (\<exists>r. s = p @ r)"
  unfolding js_starts_with_def by (metis append_eq_conv_conj append_take_drop_id)

lemma js_starts_with_length: "js_starts_with p s \<Longrightarrow> length p \<le> length s"
  by (auto simp: js_starts_with_conv)

lemma js_split_nonempty [simp]: "js_split c s \<noteq> []"
  by (induction s) (auto split: list.splits)

lemma js_split_no_sep: "x \<in> set (js_split c s) \<Longrightarrow> c \<notin> set x"
  by (induction s arbitrary: x) (auto split: list.splits if_splits)

lemma js_split_join: "js_join [c] (js_split c s) = s"
proof (induction s)
  case (Cons x xs)
  obtain y ys where "js_split c xs = y # ys"
    using js_split_nonempty [of c xs] by (cases "js_split c xs") auto
  with Cons show ?case by (cases ys) auto
qed simp

lemma js_split_single: "c \<notin> set s \<Longrightarrow> js_split c s = [s]"
  by (induction s) auto

lemma js_split_append:
  "c \<notin> set a \<Longrightarrow> js_split c (a @ c # b) = a # js_split c b"
  by (induction a) auto

lemma js_join_split:
  "xs \<noteq> [] \<Longrightarrow> \<forall>x \<in> set xs. c \<notin> set x \<Longrightarrow> js_split c (js_join [c] xs) = xs"
proof (induction "[c]" xs rule: js_join.induct)
  case (2 x)
  then show ?case by (simp add: js_split_single)
next
  case (3 x y ys)
  then show ?case by (simp add: js_split_append)
qed simp

lemma js_join_inj:
  assumes "xs \<noteq> []" "ys \<noteq> []" "\<forall>x \<in> set xs. c \<notin> set x" "\<forall>y \<in> set ys. c \<notin> set y"
    and "js_join [c] xs = js_join [c] ys"
  shows "xs = ys"
  using assms js_join_split by metis

lemma js_split_empty_iff: "js_split c s = [[]] \<longleftrightarrow> s = []"
  by (cases s) (auto split: list.splits)

lemma js_trim_not_space_ends:
  "js_trim s \<noteq> [] \<Longrightarrow> \<not> js_space (hd (js_trim s)) \<and> \<not> js_space (last (js_trim s))"
proof -
  assume ne: "js_trim s \<noteq> []"
  define d where "d = dropWhile js_space s"
  have t: "js_trim s = rev (dropWhile js_space (rev d))"
    by (simp add: js_trim_def d_def)
  have last: "\<not> js_space (last (js_trim s))"
    using ne hd_dropWhile [of js_space "rev d"] by (simp add: t last_rev)
  obtain u where u: "d = js_trim s @ u"
    unfolding t by (metis rev_append rev_rev_ident takeWhile_dropWhile_id)
  have "d \<noteq> []" using u ne by auto
  then have "\<not> js_space (hd d)" using hd_dropWhile [of js_space s] by (simp add: d_def)
  moreover have "hd d = hd (js_trim s)" using u ne by (metis hd_append2)
  ultimately show ?thesis using last by simp
qed

lemma js_trim_fixed: "s \<noteq> [] \<Longrightarrow> \<not> js_space (hd s) \<Longrightarrow> \<not> js_space (last s) \<Longrightarrow> js_trim s = s"
  unfolding js_trim_def
  by (metis dropWhile_eq_self_iff hd_rev rev_rev_ident)

lemma js_trim_idem [simp]: "js_trim (js_trim s) = js_trim s"
proof (cases "js_trim s = []")
  case True
  then show ?thesis by (simp only: True) (simp add: js_trim_def)
next
  case False
  then show ?thesis using js_trim_fixed js_trim_not_space_ends by blast
qed

lemma js_trim_set: "set (js_trim s) \<subseteq> set s"
  by (auto simp: js_trim_def dest!: set_dropWhileD)

subsection \<open>Decimal numbers\<close>

lemma of_char_digit: "n < 10 \<Longrightarrow> (of_char (char_of (48 + n) :: char) :: nat) = 48 + n"
  by simp

lemma show_nat_nonempty [simp]: "show_nat n \<noteq> []"
  by (subst show_nat.simps) simp

lemma show_nat_digits: "c \<in> set (show_nat n) \<Longrightarrow> is_digit c"
proof (induction n arbitrary: c rule: show_nat.induct)
  case (1 n)
  show ?case
  proof (cases "n < 10")
    case True
    with "1.prems" show ?thesis by (subst (asm) show_nat.simps) (auto simp: is_digit_def)
  next
    case False
    have m: "is_digit (char_of (48 + n mod 10))"
    proof -
      have "n mod 10 < 10" by simp
      then show ?thesis unfolding is_digit_def Let_def using of_char_digit by presburger
    qed
    with False "1" show ?thesis by (subst (asm) show_nat.simps) auto
  qed
qed

lemma show_nat_inj: "show_nat m = show_nat n \<Longrightarrow> m = n"
proof (induction m arbitrary: n rule: show_nat.induct)
  case (1 m)
  have digit_inj: "a < 10 \<Longrightarrow> b < 10 \<Longrightarrow> (char_of (48 + a) :: char) = char_of (48 + b) \<Longrightarrow> a = b"
    for a b :: nat
    using of_char_digit by (metis add_left_cancel)
  show ?case
  proof (cases "m < 10")
    case True
    show ?thesis
    proof (cases "n < 10")
      case True
      with \<open>m < 10\<close> "1.prems" show ?thesis
        by (simp add: show_nat.simps [of m] show_nat.simps [of n] digit_inj)
    next
      case False
      with \<open>m < 10\<close> "1.prems" show_nat_nonempty [of "n div 10"] show ?thesis
        by (auto simp: show_nat.simps [of m] show_nat.simps [of n])
    qed
  next
    case False
    show ?thesis
    proof (cases "n < 10")
      case True
      with False "1.prems" show ?thesis
        by (simp add: show_nat.simps [of m] show_nat.simps [of n])
    next
      case n: False
      from "1.prems" False n have "show_nat (m div 10) = show_nat (n div 10)"
        and c: "(char_of (48 + m mod 10) :: char) = char_of (48 + n mod 10)"
        by (simp_all add: show_nat.simps [of m] show_nat.simps [of n])
      then have "m div 10 = n div 10" using "1.IH" False by blast
      moreover have "m mod 10 = n mod 10" by (rule digit_inj) (use c in simp_all)
      ultimately show ?thesis by (metis div_mult_mod_eq)
    qed
  qed
qed

section \<open>Sets kept in insertion order\<close>

definition set_add :: "'a \<Rightarrow> 'a list \<Rightarrow> 'a list" where
  "set_add x xs = (if x \<in> set xs then xs else xs @ [x])"

definition set_of_list :: "'a list \<Rightarrow> 'a list" where
  "set_of_list xs = foldl (\<lambda>acc x. set_add x acc) [] xs"

lemma set_set_add [simp]: "set (set_add x xs) = insert x (set xs)"
  by (auto simp: set_add_def)

lemma distinct_set_add [simp]: "distinct (set_add x xs) = distinct xs"
  by (auto simp: set_add_def)

lemma foldl_set_add:
  "set (foldl (\<lambda>acc x. set_add x acc) acc xs) = set acc \<union> set xs"
  "distinct acc \<Longrightarrow> distinct (foldl (\<lambda>acc x. set_add x acc) acc xs)"
  by (induction xs arbitrary: acc) auto

lemma set_set_of_list [simp]: "set (set_of_list xs) = set xs"
  by (simp add: set_of_list_def foldl_set_add)

lemma distinct_set_of_list [simp]: "distinct (set_of_list xs)"
  by (simp add: set_of_list_def foldl_set_add)

lemma sort_eq_iff_set_eq:
  fixes xs ys :: "'a :: linorder list"
  assumes "distinct xs" "distinct ys"
  shows "sort xs = sort ys \<longleftrightarrow> set xs = set ys"
proof
  assume "sort xs = sort ys"
  then have "set (sort xs) = set (sort ys)" by simp
  then show "set xs = set ys" by simp
next
  assume "set xs = set ys"
  then show "sort xs = sort ys"
    using assms by (intro sorted_distinct_set_unique) auto
qed

section \<open>Indexing\<close>

text \<open>Reading past the end of an array gives \<open>undefined\<close>.\<close>

definition js_nth :: "'a list \<Rightarrow> nat \<Rightarrow> 'a option" where
  "js_nth xs i = (if i < length xs then Some (xs ! i) else None)"

fun index_of :: "'a list \<Rightarrow> 'a \<Rightarrow> nat option" where
  "index_of [] y = None"
| "index_of (x # xs) y = (if x = y then Some 0 else map_option Suc (index_of xs y))"

lemma index_of_Some: "index_of xs y = Some i \<Longrightarrow> i < length xs \<and> xs ! i = y"
  by (induction xs arbitrary: i) (auto split: if_splits)

lemma index_of_member: "y \<in> set xs \<Longrightarrow> \<exists>i. index_of xs y = Some i"
  by (induction xs) auto

section \<open>Results\<close>

definition rbind :: "'e + 'a \<Rightarrow> ('a \<Rightarrow> 'e + 'b) \<Rightarrow> 'e + 'b" where
  "rbind r f = (case r of Inl e \<Rightarrow> Inl e | Inr x \<Rightarrow> f x)"

definition require :: "bool \<Rightarrow> 'e \<Rightarrow> 'e + unit" where
  "require b e = (if b then Inr () else Inl e)"

fun rall :: "('a \<Rightarrow> 'e + 'b) \<Rightarrow> 'a list \<Rightarrow> 'e + 'b list" where
  "rall f [] = Inr []"
| "rall f (x # xs) = rbind (f x) (\<lambda>y. rbind (rall f xs) (\<lambda>ys. Inr (y # ys)))"

lemma rbind_simps [simp, result_simps]:
  "rbind (Inl e) f = Inl e"
  "rbind (Inr x) f = f x"
  by (simp_all add: rbind_def)

lemma rbind_Inr [result_simps]: "rbind r f = Inr y \<longleftrightarrow> (\<exists>x. r = Inr x \<and> f x = Inr y)"
  by (cases r) auto

lemma rbind_Inl [result_simps]:
  "rbind r f = Inl e \<longleftrightarrow> r = Inl e \<or> (\<exists>x. r = Inr x \<and> f x = Inl e)"
  by (cases r) auto

lemma require_Inr [result_simps]: "require b e = Inr u \<longleftrightarrow> b"
  by (auto simp: require_def)

lemma require_Inl [result_simps]: "require b e = Inl e' \<longleftrightarrow> \<not> b \<and> e' = e"
  by (auto simp: require_def)

lemma rall_Inr_iff: "rall f xs = Inr ys \<longleftrightarrow> list_all2 (\<lambda>x y. f x = Inr y) xs ys"
  by (induction xs arbitrary: ys) (auto simp: rbind_Inr list_all2_Cons1)

lemma rall_cong_Inr: "(\<And>x. x \<in> set xs \<Longrightarrow> f x = Inr (g x)) \<Longrightarrow> rall f xs = Inr (map g xs)"
  by (induction xs) auto

end
