(* ===== verification/Normalize.thy ===== *)
theory Normalize
  imports Prelude
begin

text \<open>
  Repository-relative paths, \<open>plugins/_shared/lib/normalize.ts\<close>: a path is trimmed, refused
  when it names a drive, is absolute, holds a backslash, climbs to a parent or doubles a slash,
  and loses its leading \<open>./\<close> prefixes. The left side of a result is the code's \<open>reason\<close>.
\<close>

section \<open>Definitions\<close>

definition drive_letter :: "string \<Rightarrow> bool" where
  "drive_letter s \<longleftrightarrow> (case s of a # b # _ \<Rightarrow> is_ascii_letter a \<and> b = CHR '':'' | _ \<Rightarrow> False)"

definition absolute_unix :: "string \<Rightarrow> bool" where
  "absolute_unix s \<longleftrightarrow> js_starts_with ''/'' s"

definition absolute_win :: "string \<Rightarrow> bool" where
  "absolute_win s \<longleftrightarrow> js_starts_with [CHR 0x5C] s"

text \<open>The regular expression \<open>(^|/)\.\.(/|$)\<close> finds a segment that is exactly two dots.\<close>

definition parent_segment :: "string \<Rightarrow> bool" where
  "parent_segment s \<longleftrightarrow> ''..'' \<in> set (js_split (CHR ''/'') s)"

definition backslashes_to_slashes :: "string \<Rightarrow> string" where
  "backslashes_to_slashes s = map (\<lambda>c. if c = CHR 0x5C then CHR ''/'' else c) s"

text \<open>The loop that drops leading \<open>./\<close>; it shortens the string at every turn.\<close>

function strip_dot_slash :: "string \<Rightarrow> string" where
  "strip_dot_slash s = (if js_starts_with ''./'' s then strip_dot_slash (drop 2 s) else s)"
  by pat_completeness auto
termination
  by (relation "measure length") (auto dest: js_starts_with_length)

declare strip_dot_slash.simps [simp del]

definition normalizePath :: "string \<Rightarrow> string + string" where
  "normalizePath input =
     (let trimmed = js_trim input in
      if trimmed = [] then Inl ''empty path''
      else if drive_letter trimmed then Inl ''drive letter paths are not allowed''
      else if absolute_unix trimmed \<or> absolute_win trimmed
      then Inl ''absolute paths are not allowed''
      else if js_includes [CHR 0x5C] trimmed
      then Inl ''backslashes are not allowed; use forward slashes''
      else
        let normalized = strip_dot_slash (backslashes_to_slashes trimmed) in
        if normalized = [] then Inl ''empty path after normalization''
        else if parent_segment normalized
        then Inl ''parent directory segments (..) are not allowed''
        else if js_includes ''//'' normalized then Inl ''duplicate slashes are not allowed''
        else Inr normalized)"

definition normalizePaths :: "string list \<Rightarrow> string + string list" where
  "normalizePaths inputs = rall normalizePath inputs"

section \<open>Facts\<close>

lemma js_includes_single [simp]: "js_includes [c] s \<longleftrightarrow> c \<in> set s"
  by (induction s) (auto simp: js_starts_with_def)

lemma js_includes_conv: "js_includes p s \<longleftrightarrow> (\<exists>a b. s = a @ p @ b)"
proof (induction s)
  case (Cons x xs)
  show ?case
  proof
    assume "js_includes p (x # xs)"
    then consider r where "x # xs = p @ r" | a b where "xs = a @ p @ b"
      using Cons by (auto simp: js_starts_with_conv)
    then show "\<exists>a b. x # xs = a @ p @ b"
    proof cases
      case (1 r)
      then have "x # xs = [] @ p @ r" by simp
      then show ?thesis by blast
    next
      case (2 a b)
      then have "x # xs = (x # a) @ p @ b" by simp
      then show ?thesis by blast
    qed
  next
    assume "\<exists>a b. x # xs = a @ p @ b"
    then obtain a b where ab: "x # xs = a @ p @ b" by blast
    show "js_includes p (x # xs)"
    proof (cases a)
      case Nil
      with ab have "js_starts_with p (x # xs)" by (auto simp: js_starts_with_conv)
      then show ?thesis by simp
    next
      case (Cons a' as)
      with ab have "xs = as @ p @ b" by simp
      with Cons.IH show ?thesis by auto
    qed
  qed
qed auto

lemma strip_dot_slash_suffix: "\<exists>a. s = a @ strip_dot_slash s"
proof (induction s rule: strip_dot_slash.induct)
  case (1 s)
  show ?case
  proof (cases "js_starts_with ''./'' s")
    case True
    with 1 obtain a where "drop 2 s = a @ strip_dot_slash (drop 2 s)" by blast
    with True show ?thesis
      by (metis append_assoc append_take_drop_id strip_dot_slash.simps)
  next
    case False
    then show ?thesis by (auto simp: strip_dot_slash.simps)
  qed
qed

lemma strip_dot_slash_stripped: "\<not> js_starts_with ''./'' (strip_dot_slash s)"
proof (induction s rule: strip_dot_slash.induct)
  case (1 s)
  then show ?case by (cases "js_starts_with ''./'' s") (simp_all add: strip_dot_slash.simps [of s])
qed

lemma strip_dot_slash_fixed: "\<not> js_starts_with ''./'' s \<Longrightarrow> strip_dot_slash s = s"
  by (simp add: strip_dot_slash.simps)

lemma backslashes_to_slashes_id: "CHR 0x5C \<notin> set s \<Longrightarrow> backslashes_to_slashes s = s"
  by (induction s) (auto simp: backslashes_to_slashes_def)

lemma normalizePath_Inr:
  assumes "normalizePath input = Inr p"
  shows "p = strip_dot_slash (js_trim input)" "p \<noteq> []" "\<not> parent_segment p"
    "\<not> js_includes ''//'' p" "CHR 0x5C \<notin> set p" "\<not> js_starts_with ''./'' p"
proof -
  have nb: "CHR 0x5C \<notin> set (js_trim input)" and
    p: "p = strip_dot_slash (js_trim input)" "p \<noteq> []" "\<not> parent_segment p" "\<not> js_includes ''//'' p"
    using assms
    by (auto simp: normalizePath_def Let_def backslashes_to_slashes_id split: if_splits)
  obtain a where a: "js_trim input = a @ p" using strip_dot_slash_suffix p(1) by blast
  show "p = strip_dot_slash (js_trim input)" "p \<noteq> []" "\<not> parent_segment p" "\<not> js_includes ''//'' p"
    by (fact p)+
  show "CHR 0x5C \<notin> set p" using nb by (simp add: a)
  show "\<not> js_starts_with ''./'' p" using p(1) strip_dot_slash_stripped by simp
qed

lemma normalizePath_fixed:
  assumes "normalizePath input = Inr p"
  shows "normalizePath p = Inr p \<longleftrightarrow> js_trim p = p \<and> \<not> drive_letter p \<and> \<not> absolute_unix p"
proof
  note n = normalizePath_Inr [OF assms]
  assume fix_p: "normalizePath p = Inr p"
  from normalizePath_Inr(1) [OF this] obtain a where "js_trim p = a @ p"
    using strip_dot_slash_suffix by metis
  moreover have "length (js_trim p) \<le> length p"
    unfolding js_trim_def by (metis length_dropWhile_le length_rev order_trans)
  ultimately have t: "js_trim p = p" by simp
  then show "js_trim p = p \<and> \<not> drive_letter p \<and> \<not> absolute_unix p"
    using fix_p by (auto simp: normalizePath_def Let_def split: if_splits)
next
  note n = normalizePath_Inr [OF assms]
  assume r: "js_trim p = p \<and> \<not> drive_letter p \<and> \<not> absolute_unix p"
  have "\<not> absolute_win p" using n(5) by (auto simp: absolute_win_def js_starts_with_conv)
  then show "normalizePath p = Inr p"
    using r n(2-6)
    by (simp add: normalizePath_def Let_def backslashes_to_slashes_id strip_dot_slash_fixed)
qed

lemma normalizePaths_Inr:
  "normalizePaths inputs = Inr ps \<longleftrightarrow> list_all2 (\<lambda>i p. normalizePath i = Inr p) inputs ps"
  by (simp add: normalizePaths_def rall_Inr_iff)

text \<open>A path that was normalized once never normalizes to one with an empty segment.\<close>

lemma js_join_append:
  "xs \<noteq> [] \<Longrightarrow> ys \<noteq> [] \<Longrightarrow> js_join sep (xs @ ys) = js_join sep xs @ sep @ js_join sep ys"
proof (induction sep xs rule: js_join.induct)
  case (2 sep x)
  then show ?case by (cases ys) auto
qed auto

lemma js_split_empty_segment:
  assumes "[] \<in> set (js_split c s)"
  shows "s = [] \<or> js_starts_with [c] s \<or> js_ends_with [c] s \<or> js_includes [c, c] s"
proof -
  from assms obtain a b where ab: "js_split c s = a @ [] # b" by (auto simp: in_set_conv_decomp)
  have s: "s = js_join [c] (a @ [] # b)" using js_split_join [of c s] ab by simp
  have b: "js_join [c] ([] # b) = (if b = [] then [] else c # js_join [c] b)" by (cases b) auto
  show ?thesis
  proof (cases "a = []")
    case True
    then show ?thesis using s b by (auto simp: js_starts_with_conv)
  next
    case False
    then have s': "s = js_join [c] a @ [c] @ (if b = [] then [] else c # js_join [c] b)"
      using s b by (simp add: js_join_append)
    show ?thesis
    proof (cases "b = []")
      case True
      with s' show ?thesis by (simp add: js_ends_with_def)
    next
      case False
      with s' have "s = js_join [c] a @ [c, c] @ js_join [c] b" by simp
      then show ?thesis using js_includes_conv by blast
    qed
  qed
qed

lemma strip_dot_slash_slash:
  "js_starts_with ''/'' (strip_dot_slash s) \<Longrightarrow> js_starts_with ''/'' s \<or> js_includes ''//'' s"
proof (induction s rule: strip_dot_slash.induct)
  case (1 s)
  show ?case
  proof (cases "js_starts_with ''./'' s")
    case True
    then obtain r where r: "s = ''./'' @ r" by (auto simp: js_starts_with_conv)
    have "strip_dot_slash s = strip_dot_slash r"
      unfolding strip_dot_slash.simps [of s] using True by (simp add: r)
    with 1 True r have "js_starts_with ''/'' r \<or> js_includes ''//'' r" by simp
    then show ?thesis
      using r by (auto simp: js_starts_with_conv)
  next
    case False
    with 1 show ?thesis by (simp add: strip_dot_slash.simps [of s])
  qed
qed

lemma js_trim_infix: "\<exists>a b. s = a @ js_trim s @ b"
proof -
  let ?d = "dropWhile js_space s"
  have "s = takeWhile js_space s @ ?d" by simp
  moreover have "?d = js_trim s @ rev (takeWhile js_space (rev ?d))"
    unfolding js_trim_def by (metis rev_append rev_rev_ident takeWhile_dropWhile_id)
  ultimately show ?thesis by metis
qed

lemma renormalized_segments:
  assumes "normalizePath raw = Inr p" "normalizePath p = Inr q" "\<not> js_ends_with ''/'' q"
  shows "[] \<notin> set (js_split (CHR ''/'') q)"
proof
  assume "[] \<in> set (js_split (CHR ''/'') q)"
  from js_split_empty_segment [OF this] normalizePath_Inr(2,4) [OF assms(2)] assms(3)
  have "js_starts_with ''/'' q" by auto
  moreover have "\<not> js_starts_with ''/'' (js_trim p)"
    using assms(2) by (auto simp: normalizePath_def absolute_unix_def Let_def split: if_splits)
  ultimately have "js_includes ''//'' (js_trim p)"
    using strip_dot_slash_slash normalizePath_Inr(1) [OF assms(2)] by metis
  then have "js_includes ''//'' p"
    using js_trim_infix [of p] unfolding js_includes_conv by (metis append.assoc)
  then show False using normalizePath_Inr(4) [OF assms(1)] by blast
qed

section \<open>Properties\<close>

text \<open>
  an accepted path is never empty, never climbs out of the repository through a \<open>..\<close>
  segment, has no doubled slash and no backslash, and keeps no leading \<open>./\<close>.
\<close>

theorem normalizePath_safe:
  assumes "normalizePath input = Inr p"
  shows "p \<noteq> [] \<and> ''..'' \<notin> set (js_split (CHR ''/'') p) \<and> \<not> js_includes ''//'' p
    \<and> CHR 0x5C \<notin> set p \<and> \<not> js_starts_with ''./'' p"
  using normalizePath_Inr(2-6) [OF assms] by (simp add: parent_segment_def)

theorem normalizePath_safe_witness:
  "normalizePath '' ./src/a.ts '' = Inr ''src/a.ts''
    \<and> ''..'' \<notin> set (js_split (CHR ''/'') ''src/a.ts'')"
proof -
  have h: "normalizePath '' ./src/a.ts '' = Inr ''src/a.ts''" by code_simp
  show ?thesis using h normalizePath_safe [OF h] by simp
qed

text \<open>
  a leading \<open>./\<close> hides an absolute path from the test for one: the test runs before the
  prefixes are dropped, so the result of normalization can start with a slash.
\<close>

theorem normalizePath_admits_absolute:
  "normalizePath ''.//etc/passwd'' = Inr ''/etc/passwd'' \<and> absolute_unix ''/etc/passwd''"
  by code_simp

end
