(* ===== verification/Glob.thy ===== *)
theory Glob
  imports Prelude
begin

text \<open>
  The matcher and the position automaton behind \<open>plugins/_shared/lib/path_pattern.ts\<close>. The
  program uses one scheme at two levels: characters of a segment pattern (\<open>*\<close> is the star, a
  character matches itself) and tokens of a path pattern (\<open>**\<close> is the star, a segment token
  matches a segment). Here the scheme is stated once over any token type: \<open>gmatch\<close> is the
  reference meaning, \<open>glob_visit\<close> the memoised recursion of the code, \<open>eps_loop\<close> its closure
  loop, and the locale \<open>glob_automaton\<close> the contract between a closure, a move and \<open>gmatch\<close>.
\<close>

section \<open>The reference matcher\<close>

fun gmatch :: "('t \<Rightarrow> bool) \<Rightarrow> ('t \<Rightarrow> 'a \<Rightarrow> bool) \<Rightarrow> 't list \<Rightarrow> 'a list \<Rightarrow> bool" where
  "gmatch star sat [] ws = (ws = [])"
| "gmatch star sat (t # ts) [] = (star t \<and> gmatch star sat ts [])"
| "gmatch star sat (t # ts) (w # ws) =
     (if star t then gmatch star sat ts (w # ws) \<or> gmatch star sat (t # ts) ws
      else sat t w \<and> gmatch star sat ts ws)"

section \<open>The memoised recursion of the code\<close>

type_synonym memo = "nat \<times> nat \<Rightarrow> bool option"

text \<open>
  The inner function \<open>visit\<close>: the memo's string key \<open>i:j\<close> is the pair \<open>(i, j)\<close>, and the
  disjunction and conjunctions evaluate from the left and stop early, as in the code.
\<close>

function glob_visit ::
  "('t \<Rightarrow> bool) \<Rightarrow> ('t \<Rightarrow> 'a \<Rightarrow> bool) \<Rightarrow> 't list \<Rightarrow> 'a list \<Rightarrow> nat \<Rightarrow> nat \<Rightarrow> memo \<Rightarrow> bool \<times> memo"
where
  "glob_visit star sat toks ws i j memo =
     (case memo (i, j) of
        Some cached \<Rightarrow> (cached, memo)
      | None \<Rightarrow>
          (let (result, memo') =
             (if length toks \<le> i then (j = length ws, memo)
              else if star (toks ! i) then
                (case glob_visit star sat toks ws (Suc i) j memo of
                   (True, memo1) \<Rightarrow> (True, memo1)
                 | (False, memo1) \<Rightarrow>
                     (if j < length ws then glob_visit star sat toks ws i (Suc j) memo1
                      else (False, memo1)))
              else if j < length ws \<and> sat (toks ! i) (ws ! j)
              then glob_visit star sat toks ws (Suc i) (Suc j) memo
              else (False, memo))
           in (result, memo'((i, j) \<mapsto> result))))"
  by pat_completeness auto
termination
  by (relation "measure (\<lambda>(star, sat, toks, ws, i, j, memo). (length toks - i) + (length ws - j))")
    auto

declare glob_visit.simps [simp del]

text \<open>The memo only ever holds right answers.\<close>

definition memo_ok ::
  "('t \<Rightarrow> bool) \<Rightarrow> ('t \<Rightarrow> 'a \<Rightarrow> bool) \<Rightarrow> 't list \<Rightarrow> 'a list \<Rightarrow> memo \<Rightarrow> bool" where
  "memo_ok star sat toks ws m \<longleftrightarrow>
     (\<forall>i j b. m (i, j) = Some b \<longrightarrow> b = gmatch star sat (drop i toks) (drop j ws))"

lemma memo_ok_empty [simp]: "memo_ok star sat toks ws Map.empty"
  by (simp add: memo_ok_def)

lemma memo_ok_update:
  "memo_ok star sat toks ws m \<Longrightarrow> b = gmatch star sat (drop i toks) (drop j ws)
    \<Longrightarrow> memo_ok star sat toks ws (m((i, j) \<mapsto> b))"
  by (auto simp: memo_ok_def)

lemma memo_ok_if:
  "memo_ok star sat toks ws m \<Longrightarrow> b = gmatch star sat (drop i toks) (drop j ws)
    \<Longrightarrow> memo_ok star sat toks ws (\<lambda>a. if a = (i, j) then Some b else m a)"
  by (auto simp: memo_ok_def)

lemma gmatch_star:
  "star t \<Longrightarrow> gmatch star sat (t # ts) ws \<longleftrightarrow>
     gmatch star sat ts ws \<or> (\<exists>w ws'. ws = w # ws' \<and> gmatch star sat (t # ts) ws')"
  by (cases ws) auto

lemma gmatch_literal:
  "\<not> star t \<Longrightarrow> gmatch star sat (t # ts) ws \<longleftrightarrow>
     (\<exists>w ws'. ws = w # ws' \<and> sat t w \<and> gmatch star sat ts ws')"
  by (cases ws) auto

lemma gmatch_drop_star:
  assumes "i < length toks" "star (toks ! i)"
  shows "gmatch star sat (drop i toks) (drop j ws) \<longleftrightarrow>
    gmatch star sat (drop (Suc i) toks) (drop j ws) \<or>
    (j < length ws \<and> gmatch star sat (drop i toks) (drop (Suc j) ws))"
proof -
  have d: "drop i toks = toks ! i # drop (Suc i) toks"
    using assms(1) by (rule Cons_nth_drop_Suc [symmetric])
  show ?thesis
  proof (cases "j < length ws")
    case True
    then have e: "drop j ws = ws ! j # drop (Suc j) ws" by (rule Cons_nth_drop_Suc [symmetric])
    show ?thesis using assms(2) True by (simp only: d e) simp
  next
    case False
    then show ?thesis using assms(2) by (simp add: d)
  qed
qed

lemma gmatch_drop_literal:
  assumes "i < length toks" "\<not> star (toks ! i)"
  shows "gmatch star sat (drop i toks) (drop j ws) \<longleftrightarrow>
    j < length ws \<and> sat (toks ! i) (ws ! j) \<and> gmatch star sat (drop (Suc i) toks) (drop (Suc j) ws)"
proof -
  have d: "drop i toks = toks ! i # drop (Suc i) toks"
    using assms(1) by (rule Cons_nth_drop_Suc [symmetric])
  show ?thesis
  proof (cases "j < length ws")
    case True
    then have e: "drop j ws = ws ! j # drop (Suc j) ws" by (rule Cons_nth_drop_Suc [symmetric])
    show ?thesis using assms(2) True by (simp only: d e) simp
  next
    case False
    then show ?thesis using assms(2) by (simp add: d)
  qed
qed

lemma glob_visit_correct:
  assumes "memo_ok star sat toks ws memo" "j \<le> length ws"
  shows "fst (glob_visit star sat toks ws i j memo) = gmatch star sat (drop i toks) (drop j ws)
    \<and> memo_ok star sat toks ws (snd (glob_visit star sat toks ws i j memo))"
  using assms
proof (induction star sat toks ws i j memo rule: glob_visit.induct)
  case (1 star sat toks ws i j memo)
  let ?g = "\<lambda>i j. gmatch star sat (drop i toks) (drop j ws)"
  show ?case
  proof (cases "memo (i, j)")
    case (Some b)
    with "1.prems" show ?thesis by (auto simp: glob_visit.simps memo_ok_def)
  next
    case None
    note unfold = glob_visit.simps [of star sat toks ws i j memo] None
    consider "length toks \<le> i" | "i < length toks" "star (toks ! i)"
      | "i < length toks" "\<not> star (toks ! i)" by linarith
    then show ?thesis
    proof cases
      case 1
      then have "?g i j = (j = length ws)" using "1.prems" by auto
      moreover have "glob_visit star sat toks ws i j memo
          = (j = length ws, memo((i, j) \<mapsto> (j = length ws)))"
        using 1 by (simp add: unfold)
      ultimately show ?thesis
        using memo_ok_update [OF "1.prems"(1), of "j = length ws" i j] by (metis fst_conv snd_conv)
    next
      case 2
      obtain r1 m1 where v1: "glob_visit star sat toks ws (Suc i) j memo = (r1, m1)"
        by (metis surj_pair)
      have ih1: "r1 = ?g (Suc i) j" "memo_ok star sat toks ws m1"
        using "1.IH"(1) [OF None] 2 "1.prems" v1 by auto
      show ?thesis
      proof (cases "r1 \<or> \<not> j < length ws")
        case True
        then have "?g i j = r1" using 2 ih1(1) gmatch_drop_star [of i toks star sat j ws] by auto
        with True 2 v1 ih1(2) show ?thesis
          by (cases r1) (auto simp: unfold intro!: memo_ok_if memo_ok_update)
      next
        case False
        obtain r2 m2 where v2: "glob_visit star sat toks ws i (Suc j) m1 = (r2, m2)"
          by (metis surj_pair)
        have ih2: "r2 = ?g i (Suc j)" "memo_ok star sat toks ws m2"
          using "1.IH"(2) [OF None] 2 False v1 v2 ih1(2) by auto
        have "?g i j = r2"
          using 2 False ih1(1) ih2(1) gmatch_drop_star [of i toks star sat j ws] by auto
        with 2 False v1 v2 ih2(2) show ?thesis by (auto simp: unfold intro!: memo_ok_if memo_ok_update)
      qed
    next
      case 3
      note g = gmatch_drop_literal [of i toks star sat j ws, OF 3]
      show ?thesis
      proof (cases "j < length ws \<and> sat (toks ! i) (ws ! j)")
        case False
        then have "?g i j = False" using g by auto
        with False 3 "1.prems" show ?thesis by (auto simp: unfold intro!: memo_ok_if memo_ok_update)
      next
        case True
        obtain r2 m2 where v2: "glob_visit star sat toks ws (Suc i) (Suc j) memo = (r2, m2)"
          by (metis surj_pair)
        have ih2: "r2 = ?g (Suc i) (Suc j)" "memo_ok star sat toks ws m2"
          using "1.IH"(3) [OF None] 3 True "1.prems" v2 by auto
        with True g have "?g i j = r2" by auto
        with 3 True v2 ih2(2) show ?thesis by (auto simp: unfold intro!: memo_ok_if memo_ok_update)
      qed
    qed
  qed
qed

lemma glob_visit_start:
  "fst (glob_visit star sat toks ws 0 0 Map.empty) = gmatch star sat toks ws"
  using glob_visit_correct [of star sat toks ws Map.empty 0 0] by simp

section \<open>Concatenation\<close>

lemma gmatch_appendI:
  "gmatch star sat a u \<Longrightarrow> gmatch star sat b v \<Longrightarrow> gmatch star sat (a @ b) (u @ v)"
proof (induction star sat a u rule: gmatch.induct)
  case (2 star sat t ts)
  then have "star t" "gmatch star sat (ts @ b) v" by simp_all
  then show ?case using gmatch_star [of star t sat "ts @ b" v] by simp
next
  case (3 star sat t ts w ws)
  then show ?case by (auto split: if_splits)
qed simp

lemma gmatch_appendD:
  "gmatch star sat (a @ b) s \<Longrightarrow>
     \<exists>u v. s = u @ v \<and> gmatch star sat a u \<and> gmatch star sat b v"
proof (induction star sat a s rule: gmatch.induct)
  case (1 star sat ws)
  then have "ws = [] @ ws \<and> gmatch star sat [] [] \<and> gmatch star sat b ws" by simp
  then show ?case by blast
next
  case (2 star sat t ts)
  then show ?case by simp
next
  case (3 star sat t ts w ws)
  show ?case
  proof (cases "star t")
    case True
    consider "gmatch star sat (ts @ b) (w # ws)" | "gmatch star sat ((t # ts) @ b) ws"
      using "3.prems" True by auto
    then show ?thesis
    proof cases
      case 1
      with "3.IH"(1) True obtain u v where "w # ws = u @ v" "gmatch star sat ts u" "gmatch star sat b v"
        by blast
      moreover from this True have "gmatch star sat (t # ts) u"
        using gmatch_star [of star t sat ts u] by simp
      ultimately show ?thesis by blast
    next
      case 2
      with "3.IH"(2) True obtain u v where uv: "ws = u @ v" "gmatch star sat (t # ts) u" "gmatch star sat b v"
        by blast
      with True have "gmatch star sat (t # ts) (w # u)" by simp
      moreover from uv have "w # ws = (w # u) @ v" by simp
      ultimately show ?thesis using uv(3) by blast
    qed
  next
    case False
    with "3.prems" have "sat t w" "gmatch star sat (ts @ b) ws" by auto
    with "3.IH"(3) False obtain u v where uv: "ws = u @ v" "gmatch star sat ts u" "gmatch star sat b v"
      by blast
    with False \<open>sat t w\<close> have "gmatch star sat (t # ts) (w # u)" by simp
    moreover from uv have "w # ws = (w # u) @ v" by simp
    ultimately show ?thesis using uv(3) by blast
  qed
qed

lemma gmatch_append:
  "gmatch star sat (a @ b) s \<longleftrightarrow> (\<exists>u v. s = u @ v \<and> gmatch star sat a u \<and> gmatch star sat b v)"
  using gmatch_appendI gmatch_appendD by metis

lemma gmatch_star_any:
  assumes "star t"
  shows "gmatch star sat [t] s"
  using assms by (induction s) auto

lemma gmatch_star_split:
  assumes "star t"
  shows "gmatch star sat (t # b) s \<longleftrightarrow> (\<exists>v w. s = v @ w \<and> gmatch star sat b w)"
  using gmatch_append [of star sat "[t]" b s] gmatch_star_any [of star t sat] assms by simp

section \<open>Changing the letters\<close>

lemma gmatch_map:
  "gmatch star sat toks (map f ws) = gmatch star (\<lambda>t w. sat t (f w)) toks ws"
  by (induction star "\<lambda>t w. sat t (f w)" toks ws rule: gmatch.induct) auto

lemma gmatch_cong:
  assumes "\<And>t w. t \<in> set toks \<Longrightarrow> w \<in> set ws \<Longrightarrow> \<not> star t \<Longrightarrow> sat t w = sat' t w"
  shows "gmatch star sat toks ws = gmatch star sat' toks ws"
  using assms by (induction star sat toks ws rule: gmatch.induct) auto

lemma gmatch_mono:
  assumes "\<And>t w. t \<in> set toks \<Longrightarrow> w \<in> set ws \<Longrightarrow> \<not> star t \<Longrightarrow> sat t w \<Longrightarrow> sat' t w"
    and "gmatch star sat toks ws"
  shows "gmatch star sat' toks ws"
  using assms by (induction star sat toks ws rule: gmatch.induct) (auto split: if_splits)

section \<open>The closure loop\<close>

text \<open>
  \<open>closure\<close> and \<open>pathClosure\<close> of the code: \<open>pending\<close> is a stack (pushed and popped at the
  end), \<open>result\<close> the growing set. Positions at or past the last token are never stars.
\<close>

definition star_at :: "('t \<Rightarrow> bool) \<Rightarrow> 't list \<Rightarrow> nat \<Rightarrow> bool" where
  "star_at star toks p \<longleftrightarrow> p < length toks \<and> star (toks ! p)"

function eps_loop :: "('t \<Rightarrow> bool) \<Rightarrow> 't list \<Rightarrow> nat list \<Rightarrow> nat list \<Rightarrow> nat list" where
  "eps_loop star toks result pending =
     (if pending = [] then result
      else
        let position = last pending; rest = butlast pending in
        if star_at star toks position \<and> Suc position \<notin> set result
        then eps_loop star toks (set_add (Suc position) result) (rest @ [Suc position])
        else eps_loop star toks result rest)"
  by pat_completeness auto
termination
proof (relation "measures [\<lambda>(star, toks, result, pending). card ({..length toks} - set result),
                           \<lambda>(star, toks, result, pending). length pending]", goal_cases)
  case (2 star toks result pending position rest)
  then have "Suc position \<in> {..length toks} - set result" by (simp add: star_at_def)
  then have "card ({..length toks} - set (set_add (Suc position) result))
    < card ({..length toks} - set result)"
    by (intro psubset_card_mono) auto
  then show ?case by simp
qed auto

declare eps_loop.simps [simp del]

definition eps_closure :: "('t \<Rightarrow> bool) \<Rightarrow> 't list \<Rightarrow> nat list \<Rightarrow> nat list" where
  "eps_closure star toks input = eps_loop star toks input input"

text \<open>Its meaning: everything reachable by stepping over stars.\<close>

definition star_run :: "('t \<Rightarrow> bool) \<Rightarrow> 't list \<Rightarrow> nat \<Rightarrow> nat \<Rightarrow> bool" where
  "star_run star toks p q \<longleftrightarrow> p \<le> q \<and> (\<forall>i. p \<le> i \<and> i < q \<longrightarrow> star_at star toks i)"

definition star_closed :: "('t \<Rightarrow> bool) \<Rightarrow> 't list \<Rightarrow> nat set \<Rightarrow> bool" where
  "star_closed star toks P \<longleftrightarrow> (\<forall>p \<in> P. star_at star toks p \<longrightarrow> Suc p \<in> P)"

lemma star_run_refl [simp]: "star_run star toks p p"
  by (auto simp: star_run_def)

lemma star_run_Suc: "star_run star toks p q \<Longrightarrow> star_at star toks q \<Longrightarrow> star_run star toks p (Suc q)"
  by (auto simp: star_run_def less_Suc_eq)

lemma star_closed_run:
  assumes "star_closed star toks P" "p \<in> P" "star_run star toks p q"
  shows "q \<in> P"
proof -
  have "\<lbrakk>k \<le> q - p\<rbrakk> \<Longrightarrow> p + k \<in> P" for k
  proof (induction k)
    case (Suc k)
    then have "p + k \<in> P" "star_at star toks (p + k)" using assms(3) by (auto simp: star_run_def)
    then show ?case using assms(1) by (auto simp: star_closed_def)
  qed (simp add: assms(2))
  from this [of "q - p"] assms(3) show ?thesis by (auto simp: star_run_def)
qed

lemma eps_loop_sound:
  "\<lbrakk>set pending \<subseteq> set result; \<forall>q \<in> set result. \<exists>p \<in> I. star_run star toks p q;
    q \<in> set (eps_loop star toks result pending)\<rbrakk> \<Longrightarrow> \<exists>p \<in> I. star_run star toks p q"
proof (induction star toks result pending arbitrary: q rule: eps_loop.induct)
  case (1 star toks result pending)
  show ?case
  proof (cases "pending = []")
    case True
    with "1.prems" show ?thesis by (auto simp: eps_loop.simps)
  next
    case False
    let ?p = "last pending"
    from False "1.prems"(1) have lp: "?p \<in> set result" and b: "set (butlast pending) \<subseteq> set result"
      by (auto dest: in_set_butlastD)
    show ?thesis
    proof (cases "star_at star toks ?p \<and> Suc ?p \<notin> set result")
      case True
      have "\<forall>q \<in> set (set_add (Suc ?p) result). \<exists>p \<in> I. star_run star toks p q"
        using "1.prems"(2) lp True by (auto intro: star_run_Suc)
      moreover have "q \<in> set (eps_loop star toks (set_add (Suc ?p) result) (butlast pending @ [Suc ?p]))"
        using "1.prems"(3) False True by (subst (asm) eps_loop.simps) (simp add: Let_def)
      ultimately show ?thesis using "1.IH"(1) [OF False refl refl True] b by auto
    next
      case F: False
      have "q \<in> set (eps_loop star toks result (butlast pending))"
        using "1.prems"(3) False F by (subst (asm) eps_loop.simps) (auto simp: Let_def)
      then show ?thesis using "1.IH"(2) [OF False refl refl F] b "1.prems"(2) by auto
    qed
  qed
qed

lemma eps_loop_closed:
  "\<lbrakk>\<forall>p \<in> set result - set pending. star_at star toks p \<longrightarrow> Suc p \<in> set result\<rbrakk>
   \<Longrightarrow> set result \<subseteq> set (eps_loop star toks result pending)
     \<and> star_closed star toks (set (eps_loop star toks result pending))"
proof (induction star toks result pending rule: eps_loop.induct)
  case (1 star toks result pending)
  show ?case
  proof (cases "pending = []")
    case True
    with "1.prems" show ?thesis by (auto simp: eps_loop.simps star_closed_def)
  next
    case False
    let ?p = "last pending"
    have s: "set pending = insert ?p (set (butlast pending))"
      using False by (metis append_butlast_last_id list.set(1) list.simps(15) set_append
          sup_bot_right sup_commute insert_is_Un)
    show ?thesis
    proof (cases "star_at star toks ?p \<and> Suc ?p \<notin> set result")
      case True
      have "\<forall>p \<in> set (set_add (Suc ?p) result) - set (butlast pending @ [Suc ?p]).
        star_at star toks p \<longrightarrow> Suc p \<in> set (set_add (Suc ?p) result)"
        using "1.prems" s by auto
      from "1.IH"(1) [OF False refl refl True this] show ?thesis
        using False True by (subst (1 2) eps_loop.simps) (auto simp: Let_def)
    next
      case F: False
      have "\<forall>p \<in> set result - set (butlast pending). star_at star toks p \<longrightarrow> Suc p \<in> set result"
        using "1.prems" s F by auto
      from "1.IH"(2) [OF False refl refl F this] show ?thesis
        using False F by (subst (1 2) eps_loop.simps) (auto simp: Let_def)
    qed
  qed
qed

lemma eps_loop_distinct: "distinct result \<Longrightarrow> distinct (eps_loop star toks result pending)"
proof (induction star toks result pending rule: eps_loop.induct)
  case (1 star toks result pending)
  show ?case using 1 by (subst eps_loop.simps) (simp add: Let_def)
qed

lemma set_eps_closure:
  "set (eps_closure star toks I) = {q. \<exists>p \<in> set I. star_run star toks p q}"
proof
  show "set (eps_closure star toks I) \<subseteq> {q. \<exists>p \<in> set I. star_run star toks p q}"
  proof
    fix q
    assume "q \<in> set (eps_closure star toks I)"
    moreover have "\<forall>q \<in> set I. \<exists>p \<in> set I. star_run star toks p q"
      using star_run_refl by blast
    ultimately show "q \<in> {q. \<exists>p \<in> set I. star_run star toks p q}"
      using eps_loop_sound [of I I "set I" star toks q] unfolding eps_closure_def by blast
  qed
  have "set I \<subseteq> set (eps_closure star toks I)" "star_closed star toks (set (eps_closure star toks I))"
    using eps_loop_closed [of I I star toks] by (auto simp: eps_closure_def)
  then show "{q. \<exists>p \<in> set I. star_run star toks p q} \<subseteq> set (eps_closure star toks I)"
    using star_closed_run by blast
qed

lemma distinct_eps_closure: "distinct I \<Longrightarrow> distinct (eps_closure star toks I)"
  by (simp add: eps_closure_def eps_loop_distinct)

lemma eps_closure_bound:
  "set I \<subseteq> {..length toks} \<Longrightarrow> set (eps_closure star toks I) \<subseteq> {..length toks}"
proof
  fix q
  assume I: "set I \<subseteq> {..length toks}" and "q \<in> set (eps_closure star toks I)"
  then obtain p where p: "p \<in> set I" "star_run star toks p q" by (auto simp: set_eps_closure)
  show "q \<in> {..length toks}"
  proof (cases "p = q")
    case True
    with p I show ?thesis by auto
  next
    case False
    with p(2) have "p < q" and "p \<le> q - 1 \<and> q - 1 < q \<longrightarrow> star_at star toks (q - 1)"
      by (auto simp: star_run_def)
    then have "star_at star toks (q - 1)" by linarith
    then show ?thesis by (auto simp: star_at_def)
  qed
qed

section \<open>The position automaton\<close>

definition glob_advance ::
  "('t \<Rightarrow> bool) \<Rightarrow> ('t \<Rightarrow> 'a \<Rightarrow> bool) \<Rightarrow> 't list \<Rightarrow> nat set \<Rightarrow> 'a \<Rightarrow> nat set" where
  "glob_advance star sat toks P a =
     {p \<in> P. star_at star toks p} \<union>
     Suc ` {p \<in> P. p < length toks \<and> \<not> star (toks ! p) \<and> sat (toks ! p) a}"

definition accepts_from ::
  "('t \<Rightarrow> bool) \<Rightarrow> ('t \<Rightarrow> 'a \<Rightarrow> bool) \<Rightarrow> 't list \<Rightarrow> nat set \<Rightarrow> 'a list \<Rightarrow> bool" where
  "accepts_from star sat toks P ws \<longleftrightarrow>
     (\<exists>p \<in> P. p \<le> length toks \<and> gmatch star sat (drop p toks) ws)"

definition star_hull :: "('t \<Rightarrow> bool) \<Rightarrow> 't list \<Rightarrow> nat set \<Rightarrow> nat set" where
  "star_hull star toks P = {q. \<exists>p \<in> P. star_run star toks p q}"

lemma star_run_trans: "star_run star toks p q \<Longrightarrow> star_run star toks q r \<Longrightarrow> star_run star toks p r"
  unfolding star_run_def by (meson le_trans linorder_not_less)

lemma star_hull_closed: "star_closed star toks (star_hull star toks P)"
  by (auto simp: star_closed_def star_hull_def intro: star_run_Suc)

lemma star_run_gmatch:
  assumes "star_run star toks p q" "q \<le> length toks" "gmatch star sat (drop q toks) ws"
  shows "gmatch star sat (drop p toks) ws"
proof -
  have "\<lbrakk>k \<le> q - p\<rbrakk> \<Longrightarrow> gmatch star sat (drop (q - k) toks) ws" for k
  proof (induction k)
    case (Suc k)
    then have q: "q - k = Suc (q - Suc k)" "p \<le> q - Suc k" "q - Suc k < q" by auto
    then have s: "q - Suc k < length toks" "star (toks ! (q - Suc k))"
      using assms(1) by (auto simp: star_run_def star_at_def)
    from Suc have "gmatch star sat (drop (Suc (q - Suc k)) toks) ws" using q by simp
    then show ?case using s gmatch_drop_star [of "q - Suc k" toks star sat 0 ws] by simp
  qed (simp add: assms(3))
  from this [of "q - p"] assms(1) show ?thesis by (simp add: star_run_def)
qed

lemma accepts_from_hull:
  "accepts_from star sat toks (star_hull star toks P) ws = accepts_from star sat toks P ws"
proof
  assume "accepts_from star sat toks (star_hull star toks P) ws"
  then obtain p q where pq: "p \<in> P" "star_run star toks p q" "q \<le> length toks"
    "gmatch star sat (drop q toks) ws" by (auto simp: accepts_from_def star_hull_def)
  have "gmatch star sat (drop p toks) ws" by (rule star_run_gmatch [OF pq(2-4)])
  moreover have "p \<le> length toks" using pq(2,3) by (simp add: star_run_def)
  ultimately show "accepts_from star sat toks P ws" using pq(1) by (auto simp: accepts_from_def)
next
  assume "accepts_from star sat toks P ws"
  then show "accepts_from star sat toks (star_hull star toks P) ws"
    unfolding accepts_from_def star_hull_def using star_run_refl by blast
qed

lemma gmatch_Cons_run:
  assumes "gmatch star sat (drop p toks) (a # ws)" "p \<le> length toks"
  shows "\<exists>q. star_run star toks p q \<and>
    (\<exists>r \<in> glob_advance star sat toks {q} a. r \<le> length toks \<and> gmatch star sat (drop r toks) ws)"
  using assms
proof (induction "length toks - p" arbitrary: p)
  case 0
  then show ?case by simp
next
  case (Suc n)
  then have p: "p < length toks" by simp
  show ?case
  proof (cases "star (toks ! p)")
    case False
    then have "sat (toks ! p) a \<and> gmatch star sat (drop (Suc p) toks) ws"
      using Suc.prems p False gmatch_drop_literal [of p toks star sat 0 "a # ws"] by simp
    with p False have "Suc p \<in> glob_advance star sat toks {p} a" by (auto simp: glob_advance_def)
    with p \<open>_ \<and> _\<close> show ?thesis using star_run_refl by (metis Suc_leI)
  next
    case True
    then have at: "star_at star toks p" using p by (simp add: star_at_def)
    consider "gmatch star sat (drop (Suc p) toks) (a # ws)" | "gmatch star sat (drop p toks) ws"
      using Suc.prems p True gmatch_drop_star [of p toks star sat 0 "a # ws"] by auto
    then show ?thesis
    proof cases
      case 1
      have "n = length toks - Suc p" using Suc.hyps by simp
      from Suc.hyps(1) [OF this 1] p obtain q r where qr: "star_run star toks (Suc p) q"
        "r \<in> glob_advance star sat toks {q} a" "r \<le> length toks" "gmatch star sat (drop r toks) ws"
        by auto
      have "star_run star toks p q"
        using star_run_trans [OF star_run_Suc [OF star_run_refl at] qr(1)] .
      with qr show ?thesis by blast
    next
      case 2
      have "p \<in> glob_advance star sat toks {p} a" using at by (simp add: glob_advance_def)
      with 2 p show ?thesis using star_run_refl by (metis less_imp_le)
    qed
  qed
qed

lemma accepts_from_advance:
  assumes "star_closed star toks P"
  shows "accepts_from star sat toks P (a # ws) \<longleftrightarrow>
    accepts_from star sat toks (glob_advance star sat toks P a) ws"
proof
  assume "accepts_from star sat toks P (a # ws)"
  then obtain p where p: "p \<in> P" "p \<le> length toks" "gmatch star sat (drop p toks) (a # ws)"
    by (auto simp: accepts_from_def)
  from gmatch_Cons_run [OF p(3,2)] obtain q r where q: "star_run star toks p q"
    "r \<in> glob_advance star sat toks {q} a" "r \<le> length toks" "gmatch star sat (drop r toks) ws"
    by blast
  have "q \<in> P" using star_closed_run [OF assms p(1) q(1)] .
  then have "glob_advance star sat toks {q} a \<subseteq> glob_advance star sat toks P a"
    by (auto simp: glob_advance_def)
  with q show "accepts_from star sat toks (glob_advance star sat toks P a) ws"
    by (auto simp: accepts_from_def)
next
  assume "accepts_from star sat toks (glob_advance star sat toks P a) ws"
  then obtain r where r: "r \<in> glob_advance star sat toks P a" "r \<le> length toks"
    "gmatch star sat (drop r toks) ws" by (auto simp: accepts_from_def)
  from r(1) consider (star) "r \<in> P" "star_at star toks r"
    | (lit) p where "p \<in> P" "p < length toks" "\<not> star (toks ! p)" "sat (toks ! p) a" "r = Suc p"
    by (auto simp: glob_advance_def)
  then show "accepts_from star sat toks P (a # ws)"
  proof cases
    case star
    then have "gmatch star sat (drop r toks) (a # ws)"
      using r(3) gmatch_drop_star [of r toks star sat 0 "a # ws"] by (simp add: star_at_def)
    with star(1) r(2) show ?thesis by (auto simp: accepts_from_def)
  next
    case (lit p)
    then have "gmatch star sat (drop p toks) (a # ws)"
      using r(3) gmatch_drop_literal [of p toks star sat 0 "a # ws"] by simp
    moreover have "p \<le> length toks" using lit(2) by simp
    ultimately show ?thesis unfolding accepts_from_def using lit(1) by blast
  qed
qed

text \<open>
  The interface the language comparison relies on: a closure and a move over positions with the
  laws the code's two automata satisfy. Both are interpreted where the code defines them.
\<close>

locale glob_automaton =
  fixes star :: "'t \<Rightarrow> bool"
    and sat :: "'t \<Rightarrow> 'a \<Rightarrow> bool"
    and eps :: "'t list \<Rightarrow> nat list \<Rightarrow> nat list"
    and move :: "'t list \<Rightarrow> nat list \<Rightarrow> 'a \<Rightarrow> nat list"
  assumes eps: "set (eps toks P) = star_hull star toks (set P)"
    and move: "set (move toks P a) = star_hull star toks (glob_advance star sat toks (set P) a)"
    and eps_distinct: "distinct P \<Longrightarrow> distinct (eps toks P)"
    and move_distinct: "distinct (move toks P a)"
begin

definition run :: "'t list \<Rightarrow> 'a list \<Rightarrow> nat list" where
  "run toks ws = foldl (move toks) (eps toks [0]) ws"

lemma run_snoc: "run toks (ws @ [a]) = move toks (run toks ws) a"
  by (simp add: run_def)

lemma run_Nil: "run toks [] = eps toks [0]"
  by (simp add: run_def)

lemma accepting_end:
  "star_closed star toks P \<Longrightarrow> length toks \<in> P \<longleftrightarrow> accepts_from star sat toks P []"
proof
  assume "length toks \<in> P"
  then show "accepts_from star sat toks P []" by (force simp: accepts_from_def)
next
  assume c: "star_closed star toks P" and "accepts_from star sat toks P []"
  then obtain p where p: "p \<in> P" "p \<le> length toks" "gmatch star sat (drop p toks) []"
    by (auto simp: accepts_from_def)
  have all: "gmatch star sat ts [] \<Longrightarrow> t \<in> set ts \<Longrightarrow> star t" for ts t
    by (induction ts) auto
  have "star_run star toks p (length toks)"
    unfolding star_run_def star_at_def
  proof (intro conjI allI impI p(2))
    fix i
    assume i: "p \<le> i \<and> i < length toks"
    then have "drop p toks ! (i - p) = toks ! i" "i - p < length (drop p toks)" by auto
    then have "toks ! i \<in> set (drop p toks)" using nth_mem by metis
    then show "star (toks ! i)" using all p(3) by blast
    show "i < length toks" using i by simp
  qed
  then show "length toks \<in> P" using star_closed_run c p(1) by blast
qed

lemma foldl_move_accepts:
  "star_closed star toks (set P) \<Longrightarrow>
     length toks \<in> set (foldl (move toks) P ws) \<longleftrightarrow> accepts_from star sat toks (set P) ws"
proof (induction ws arbitrary: P)
  case Nil
  then show ?case by (simp add: accepting_end)
next
  case (Cons a ws)
  have "length toks \<in> set (foldl (move toks) (move toks P a) ws) \<longleftrightarrow>
    accepts_from star sat toks (set (move toks P a)) ws"
    by (rule Cons.IH) (simp add: move star_hull_closed)
  also have "\<dots> \<longleftrightarrow> accepts_from star sat toks (set P) (a # ws)"
    by (simp add: move accepts_from_hull accepts_from_advance [OF Cons.prems])
  finally show ?case by simp
qed

lemma run_accepts: "length toks \<in> set (run toks ws) \<longleftrightarrow> gmatch star sat toks ws"
proof -
  have "length toks \<in> set (run toks ws) \<longleftrightarrow>
    accepts_from star sat toks (star_hull star toks {0}) ws"
    unfolding run_def by (subst foldl_move_accepts) (simp_all add: eps star_hull_closed)
  then show ?thesis by (simp add: accepts_from_hull) (simp add: accepts_from_def)
qed

lemma run_bound: "set (run toks ws) \<subseteq> {..length toks}"
proof (induction ws rule: rev_induct)
  case Nil
  show ?case using eps_closure_bound [of "[0]" toks star]
    by (simp add: run_Nil eps star_hull_def set_eps_closure)
next
  case (snoc a ws)
  let ?A = "glob_advance star sat toks (set (run toks ws)) a"
  have A: "?A \<subseteq> {..length toks}" using snoc by (auto simp: glob_advance_def)
  then have "finite ?A" using finite_subset by blast
  then obtain xs where xs: "set xs = ?A" using finite_list by blast
  then show ?case using eps_closure_bound [of xs toks star] A
    by (simp add: run_snoc move star_hull_def set_eps_closure)
qed

lemma run_distinct: "distinct (run toks ws)"
  by (cases ws rule: rev_cases) (simp_all add: run_snoc run_Nil move_distinct eps_distinct)

lemma move_set_cong: "set P = set Q \<Longrightarrow> set (move toks P a) = set (move toks Q a)"
  by (simp add: move)

end

end
