(* ===== verification/Path_Pattern.thy ===== *)
theory Path_Pattern
  imports Normalize Glob
begin

text \<open>
  Path patterns and their matching, the first half of
  \<open>plugins/_shared/lib/path_pattern.ts\<close>: parsing a pattern into tokens, parsing a concrete
  path, and the two memoised matchers. The theorems relate both matchers to \<open>gmatch\<close>.
\<close>

section \<open>Data\<close>

datatype pattern_kind = Exact | Directory | Pattern

datatype segment_token = DoubleStar | Segment string

record parsed_pattern =
  pp_source :: string
  pp_kind :: pattern_kind
  pp_tokens :: "segment_token list"

section \<open>Parsing\<close>

definition unsupported_syntax :: "string \<Rightarrow> bool" where
  "unsupported_syntax s \<longleftrightarrow> (\<exists>c \<in> set s. c \<in> set ''[]{}?'')"

text \<open>
  \<open>(?:^|[^\\])[@+?!*]\(\<close>: an operator followed by a parenthesis, at the start or after a
  character that is no backslash. The flag says whether the previous character allows a match.
\<close>

fun extglob_from :: "bool \<Rightarrow> string \<Rightarrow> bool" where
  "extglob_from ok (a # b # s) =
     (ok \<and> a \<in> set ''@+?!*'' \<and> b = CHR ''('' \<or> extglob_from (a \<noteq> CHR 0x5C) (b # s))"
| "extglob_from ok _ = False"

definition extglob_syntax :: "string \<Rightarrow> bool" where
  "extglob_syntax s = extglob_from True s"

definition fail :: "string \<Rightarrow> string \<Rightarrow> string + 'a" where
  "fail source reason = Inl (''\"'' @ source @ ''\": '' @ reason)"

text \<open>The loop over the segments: \<open>last\<close> is the test \<open>index = segments.length - 1\<close>.\<close>

fun parse_segments :: "string \<Rightarrow> bool \<Rightarrow> string list \<Rightarrow> string + segment_token list" where
  "parse_segments source trailing [] = Inr []"
| "parse_segments source trailing (segment # rest) =
     (if segment = ''**'' then
        (if trailing
         then fail source ''a trailing-slash directory marker must contain only literal segments''
         else rbind (parse_segments source trailing rest) (\<lambda>toks. Inr (DoubleStar # toks)))
      else if js_includes ''**'' segment
      then fail source ''double-star must occupy a complete path segment''
      else if js_includes ''*'' segment \<and> rest \<noteq> []
      then fail source ''single-star is supported only in the final path segment''
      else if trailing \<and> js_includes ''*'' segment
      then fail source ''a trailing-slash directory marker must contain only literal segments''
      else rbind (parse_segments source trailing rest) (\<lambda>toks. Inr (Segment segment # toks)))"

fun is_double_star :: "segment_token \<Rightarrow> bool" where
  "is_double_star DoubleStar = True"
| "is_double_star (Segment p) = False"

fun starred_token :: "segment_token \<Rightarrow> bool" where
  "starred_token DoubleStar = True"
| "starred_token (Segment p) = js_includes ''*'' p"

definition parsePathPattern :: "string \<Rightarrow> string + parsed_pattern" where
  "parsePathPattern source =
     (case normalizePath source of
        Inl reason \<Rightarrow> fail source reason
      | Inr path \<Rightarrow>
          let trailing = js_ends_with ''/'' path;
              val = (if trailing then butlast path else path)
          in if unsupported_syntax val \<or> extglob_syntax val
             then fail source ''unsupported pattern syntax''
             else rbind (parse_segments source trailing (js_split (CHR ''/'') val)) (\<lambda>tokens.
               if trailing
               then Inr \<lparr>pp_source = path, pp_kind = Directory, pp_tokens = tokens @ [DoubleStar]\<rparr>
               else
                 let terminal_directory =
                       1 < length tokens \<and> last tokens = DoubleStar \<and>
                       list_all (\<lambda>t. \<not> starred_token t) (butlast tokens);
                     has_pattern = list_ex starred_token tokens
                 in Inr \<lparr>pp_source = path,
                         pp_kind = (if terminal_directory then Directory
                                    else if has_pattern then Pattern else Exact),
                         pp_tokens = tokens\<rparr>))"

definition parseConcretePath :: "string \<Rightarrow> string + string list" where
  "parseConcretePath source =
     (case normalizePath source of
        Inl reason \<Rightarrow> Inl reason
      | Inr path \<Rightarrow>
          if js_ends_with ''/'' path then Inl ''concrete paths must not use a trailing slash''
          else if js_includes ''*'' path \<or> unsupported_syntax path \<or> extglob_syntax path
          then Inl ''concrete paths must not contain pattern syntax''
          else Inr (js_split (CHR ''/'') path))"

section \<open>Matching\<close>

definition is_star_char :: "char \<Rightarrow> bool" where
  "is_star_char c \<longleftrightarrow> c = CHR ''*''"

definition segmentMatches :: "string \<Rightarrow> string \<Rightarrow> bool" where
  "segmentMatches pattern val \<longleftrightarrow>
     val \<noteq> [] \<and> fst (glob_visit is_star_char (=) pattern val 0 0 Map.empty)"

fun token_matches :: "segment_token \<Rightarrow> string \<Rightarrow> bool" where
  "token_matches DoubleStar s = True"
| "token_matches (Segment p) s = segmentMatches p s"

definition matchesParsed :: "parsed_pattern \<Rightarrow> string list \<Rightarrow> bool" where
  "matchesParsed pattern segments \<longleftrightarrow>
     segments \<noteq> [] \<and>
     fst (glob_visit is_double_star token_matches (pp_tokens pattern) segments 0 0 Map.empty)"

definition matchesPathPattern :: "string \<Rightarrow> string \<Rightarrow> bool" where
  "matchesPathPattern pattern path \<longleftrightarrow>
     (case (parsePathPattern pattern, parseConcretePath path) of
        (Inr p, Inr segments) \<Rightarrow> matchesParsed p segments
      | _ \<Rightarrow> False)"

definition pathMatchesAnyPattern :: "string \<Rightarrow> string list \<Rightarrow> bool" where
  "pathMatchesAnyPattern path patterns \<longleftrightarrow> list_ex (\<lambda>p. matchesPathPattern p path) patterns"

section \<open>Facts\<close>

lemma segmentMatches_gmatch:
  "segmentMatches p s \<longleftrightarrow> s \<noteq> [] \<and> gmatch is_star_char (=) p s"
  by (simp add: segmentMatches_def glob_visit_start)

lemma matchesParsed_gmatch:
  "matchesParsed p segs \<longleftrightarrow> segs \<noteq> [] \<and> gmatch is_double_star token_matches (pp_tokens p) segs"
  by (simp add: matchesParsed_def glob_visit_start)

lemma segmentMatches_literal: "CHR ''*'' \<notin> set p \<Longrightarrow> segmentMatches p s \<longleftrightarrow> s \<noteq> [] \<and> s = p"
proof -
  assume "CHR ''*'' \<notin> set p"
  then have "gmatch is_star_char (=) p s \<longleftrightarrow> s = p"
  proof (induction p arbitrary: s)
    case (Cons c p)
    then show ?case by (cases s) (auto simp: is_star_char_def)
  qed simp
  then show ?thesis by (simp add: segmentMatches_gmatch)
qed

lemma parse_segments_Inr:
  assumes "parse_segments source trailing segs = Inr toks"
  shows "toks = map (\<lambda>s. if s = ''**'' then DoubleStar else Segment s) segs"
  using assms
  by (induction segs arbitrary: toks) (auto simp: fail_def rbind_Inr split: if_splits)

lemma parse_segments_single_star:
  assumes "parse_segments source trailing segs = Inr toks" "s \<in> set (butlast segs)" "s \<noteq> ''**''"
  shows "CHR ''*'' \<notin> set s"
  using assms
  by (induction segs arbitrary: toks) (auto simp: fail_def rbind_Inr split: if_splits)

lemma parse_segments_trailing:
  assumes "parse_segments source True segs = Inr toks"
  shows "\<forall>s \<in> set segs. CHR ''*'' \<notin> set s"
  using assms
  by (induction segs arbitrary: toks) (auto simp: fail_def rbind_Inr split: if_splits)

lemma parsePathPattern_source: "parsePathPattern s = Inr p \<Longrightarrow> normalizePath s = Inr (pp_source p)"
  by (auto simp: parsePathPattern_def fail_def Let_def rbind_Inr split: sum.splits if_splits)

lemma parseConcretePath_Inr:
  assumes "parseConcretePath s = Inr segs"
  shows "\<exists>path. normalizePath s = Inr path \<and> segs = js_split (CHR ''/'') path \<and> segs \<noteq> []
    \<and> CHR ''*'' \<notin> set path \<and> \<not> js_ends_with ''/'' path"
  using assms by (auto simp: parseConcretePath_def split: sum.splits if_splits)

lemma matchesPathPattern_iff:
  "matchesPathPattern pat path \<longleftrightarrow>
     (\<exists>p segs. parsePathPattern pat = Inr p \<and> parseConcretePath path = Inr segs \<and> matchesParsed p segs)"
  by (auto simp: matchesPathPattern_def split: sum.splits)

lemma pathMatchesAnyPattern_iff:
  "pathMatchesAnyPattern path pats \<longleftrightarrow> (\<exists>p \<in> set pats. matchesPathPattern p path)"
  by (simp add: pathMatchesAnyPattern_def list_ex_iff)

text \<open>A pattern of kind \<open>Exact\<close> has only literal segments, so it matches one path.\<close>

lemma Exact_tokens:
  assumes "parsePathPattern s = Inr p" "pp_kind p = Exact"
  shows "pp_tokens p = map Segment (js_split (CHR ''/'') (pp_source p))"
    and "\<forall>seg \<in> set (js_split (CHR ''/'') (pp_source p)). CHR ''*'' \<notin> set seg"
proof -
  from assms obtain toks where
    toks: "parse_segments s False (js_split (CHR ''/'') (pp_source p)) = Inr toks"
      "pp_tokens p = toks" "\<not> list_ex starred_token toks"
    by (auto simp: parsePathPattern_def fail_def Let_def rbind_Inr split: sum.splits if_splits)
  note m = parse_segments_Inr [OF toks(1)]
  have "seg \<noteq> ''**'' \<and> CHR ''*'' \<notin> set seg" if "seg \<in> set (js_split (CHR ''/'') (pp_source p))" for seg
  proof -
    have "(if seg = ''**'' then DoubleStar else Segment seg) \<in> set toks" using that m by auto
    then show ?thesis using toks(3) by (auto simp: list_ex_iff split: if_splits)
  qed
  then show "pp_tokens p = map Segment (js_split (CHR ''/'') (pp_source p))"
    and "\<forall>seg \<in> set (js_split (CHR ''/'') (pp_source p)). CHR ''*'' \<notin> set seg"
    using m toks(2) by auto
qed

lemma gmatch_literal_tokens:
  assumes "\<forall>seg \<in> set segs. CHR ''*'' \<notin> set seg"
  shows "gmatch is_double_star token_matches (map Segment segs) ws \<longleftrightarrow> ws = segs \<and> [] \<notin> set segs"
  using assms
proof (induction segs arbitrary: ws)
  case (Cons a segs)
  then show ?case by (cases ws) (auto simp: segmentMatches_literal)
qed auto

lemma Exact_matches:
  assumes "parsePathPattern s = Inr p" "pp_kind p = Exact" "segs \<noteq> []"
  shows "matchesParsed p segs \<longleftrightarrow> segs = js_split (CHR ''/'') (pp_source p) \<and> [] \<notin> set segs"
  using gmatch_literal_tokens [OF Exact_tokens(2) [OF assms(1,2)]] Exact_tokens(1) [OF assms(1,2)] assms(3)
  by (auto simp: matchesParsed_gmatch)

section \<open>Properties\<close>

text \<open>
  the memoised segment matcher computes the meaning of the pattern: it holds of a non-empty
  value exactly when the value is the pattern with every star replaced by some string, which
  \<open>gmatch\<close> states without a memo.
\<close>

theorem segmentMatches_meaning:
  "segmentMatches (a @ ''*'' @ b) s \<longleftrightarrow>
     s \<noteq> [] \<and> (\<exists>u v w. s = u @ v @ w \<and> gmatch is_star_char (=) a u \<and> gmatch is_star_char (=) b w)"
proof -
  have "gmatch is_star_char (=) (a @ ''*'' @ b) s \<longleftrightarrow>
    (\<exists>u t. s = u @ t \<and> gmatch is_star_char (=) a u \<and> gmatch is_star_char (=) (CHR ''*'' # b) t)"
    by (simp add: gmatch_append)
  also have "\<dots> \<longleftrightarrow> (\<exists>u v w. s = u @ v @ w \<and> gmatch is_star_char (=) a u \<and> gmatch is_star_char (=) b w)"
    by (subst gmatch_star_split) (auto simp: is_star_char_def)
  finally show ?thesis by (simp add: segmentMatches_gmatch)
qed

end
