(* ===== verification/Worklist.thy ===== *)
theory Worklist
  imports Prelude "HOL-Library.While_Combinator"
begin

text \<open>
  The worklist loop of \<open>path_pattern.ts\<close>: states wait in a queue, \<open>seen\<close> holds the string key
  of every state queued so far, a dequeued state is either final (the loop stops) or recorded and
  expanded. Both searches of the file have this loop; the locale \<open>worklist\<close> states what a
  search must provide (finitely many keys, expansion respects keys) and derives that the loop
  ends and that it visits exactly the reachable states, up to their keys.
\<close>

section \<open>The loop\<close>

record ('s, 'k, 'r) wl_state =
  queue :: "'s list"
  seen :: "'k list"
  acc :: "'r"
  halted :: bool

text \<open>\<open>if (!seen.has(key)) { seen.add(key); queue.push(next); }\<close>\<close>

definition wl_push :: "('s \<Rightarrow> 'k) \<Rightarrow> 's list \<times> 'k list \<Rightarrow> 's \<Rightarrow> 's list \<times> 'k list" where
  "wl_push key = (\<lambda>(q, sn) n. if key n \<in> set sn then (q, sn) else (q @ [n], sn @ [key n]))"

definition wl_body ::
  "('s \<Rightarrow> 's list) \<Rightarrow> ('s \<Rightarrow> 'k) \<Rightarrow> ('s \<Rightarrow> bool) \<Rightarrow> ('s \<Rightarrow> 'r \<Rightarrow> 'r)
     \<Rightarrow> ('s, 'k, 'r) wl_state \<Rightarrow> ('s, 'k, 'r) wl_state" where
  "wl_body succ key stop visit st =
     (case queue st of
        [] \<Rightarrow> st
      | current # rest \<Rightarrow>
          if stop current then st\<lparr>queue := rest, halted := True\<rparr>
          else let (q, sn) = foldl (wl_push key) (rest, seen st) (succ current)
               in st\<lparr>queue := q, seen := sn, acc := visit current (acc st)\<rparr>)"

definition wl_guard :: "('s, 'k, 'r) wl_state \<Rightarrow> bool" where
  "wl_guard st \<longleftrightarrow> queue st \<noteq> [] \<and> \<not> halted st"

definition wl_init :: "('s \<Rightarrow> 'k) \<Rightarrow> 's \<Rightarrow> 'r \<Rightarrow> ('s, 'k, 'r) wl_state" where
  "wl_init key start r = \<lparr>queue = [start], seen = [key start], acc = r, halted = False\<rparr>"

definition wl_run ::
  "('s \<Rightarrow> 's list) \<Rightarrow> ('s \<Rightarrow> 'k) \<Rightarrow> ('s \<Rightarrow> bool) \<Rightarrow> ('s \<Rightarrow> 'r \<Rightarrow> 'r) \<Rightarrow> 's \<Rightarrow> 'r
     \<Rightarrow> ('s, 'k, 'r) wl_state option" where
  "wl_run succ key stop visit start r =
     while_option wl_guard (wl_body succ key stop visit) (wl_init key start r)"

section \<open>Pushing successors\<close>

lemma wl_push_simps:
  "key n \<in> set sn \<Longrightarrow> wl_push key (q, sn) n = (q, sn)"
  "key n \<notin> set sn \<Longrightarrow> wl_push key (q, sn) n = (q @ [n], sn @ [key n])"
  by (simp_all add: wl_push_def)

definition pushed_ok ::
  "('s \<Rightarrow> 'k) \<Rightarrow> 's list \<Rightarrow> 's list \<times> 'k list \<Rightarrow> 's list \<times> 'k list \<Rightarrow> bool" where
  "pushed_ok key ns st st' \<longleftrightarrow>
     (let (q, sn) = st; (q', sn') = st' in
        distinct sn' \<and> set sn' = set sn \<union> key ` set ns \<and> set q \<subseteq> set q' \<and> set q' \<subseteq> set q \<union> set ns
        \<and> length sn' + length q = length q' + length sn \<and> set sn' \<subseteq> set sn \<union> key ` set q')"

lemma wl_push_fold_ok:
  "distinct sn \<Longrightarrow> pushed_ok key ns (q, sn) (foldl (wl_push key) (q, sn) ns)"
proof (induction ns arbitrary: q sn)
  case Nil
  then show ?case by (simp add: pushed_ok_def)
next
  case (Cons n ns)
  show ?case
  proof (cases "key n \<in> set sn")
    case True
    from Cons.IH [OF Cons.prems, of q] True show ?thesis
      by (auto simp: pushed_ok_def wl_push_simps split: prod.splits)
  next
    case False
    obtain q' sn' where r: "foldl (wl_push key) (q @ [n], sn @ [key n]) ns = (q', sn')"
      by (metis surj_pair)
    have "pushed_ok key ns (q @ [n], sn @ [key n]) (q', sn')"
      using Cons.IH [of "sn @ [key n]" "q @ [n]"] Cons.prems False r by simp
    then have "distinct sn'" "set sn' = set sn \<union> key ` set (n # ns)" "set q \<subseteq> set q'"
      "set q' \<subseteq> set q \<union> set (n # ns)" "length sn' + length q = length q' + length sn"
      "n \<in> set q'" "set sn' \<subseteq> insert (key n) (set sn) \<union> key ` set q'"
      by (auto simp: pushed_ok_def)
    then show ?thesis using False r by (auto simp: pushed_ok_def wl_push_simps)
  qed
qed

lemma wl_push_fold:
  assumes "foldl (wl_push key) (q, sn) ns = (q', sn')" "distinct sn"
  shows "distinct sn'" "set sn' = set sn \<union> key ` set ns"
    "set q \<subseteq> set q'" "set q' \<subseteq> set q \<union> set ns"
    "length sn' + length q = length q' + length sn"
    "set sn' \<subseteq> set sn \<union> key ` set q'"
proof -
  have "pushed_ok key ns (q, sn) (q', sn')" using wl_push_fold_ok [OF assms(2)] assms(1) by metis
  then show "distinct sn'" "set sn' = set sn \<union> key ` set ns"
    "set q \<subseteq> set q'" "set q' \<subseteq> set q \<union> set ns"
    "length sn' + length q = length q' + length sn"
    "set sn' \<subseteq> set sn \<union> key ` set q'"
    unfolding pushed_ok_def by auto
qed

section \<open>The contract and its consequences\<close>

locale worklist =
  fixes succ :: "'s \<Rightarrow> 's list"
    and key :: "'s \<Rightarrow> 'k"
    and start :: 's
    and valid :: "'s \<Rightarrow> bool"
  assumes finite_keys: "finite (key ` {s. valid s})"
    and valid_start: "valid start"
    and valid_succ: "valid s \<Longrightarrow> t \<in> set (succ s) \<Longrightarrow> valid t"
    and succ_key: "valid s \<Longrightarrow> valid t \<Longrightarrow> key s = key t \<Longrightarrow> key ` set (succ s) = key ` set (succ t)"
begin

inductive reach :: "'s \<Rightarrow> bool" where
  reach_start: "reach start"
| reach_step: "reach s \<Longrightarrow> t \<in> set (succ s) \<Longrightarrow> reach t"

lemma reach_valid: "reach s \<Longrightarrow> valid s"
  by (induction rule: reach.induct) (auto intro: valid_start valid_succ)

text \<open>
  The invariant: some list \<open>done\<close> of expanded states accounts for the accumulator; what was seen
  are the keys of the expanded and the queued states; expanded states are not final and all
  their successors were seen.
\<close>

definition wl_inv :: "('s \<Rightarrow> bool) \<Rightarrow> ('s \<Rightarrow> 'r \<Rightarrow> 'r) \<Rightarrow> 'r \<Rightarrow> ('s, 'k, 'r) wl_state \<Rightarrow> bool" where
  "wl_inv stop visit r st \<longleftrightarrow>
     (\<exists>done. acc st = foldl (\<lambda>a s. visit s a) r done
       \<and> (\<forall>s \<in> set done \<union> set (queue st). reach s)
       \<and> distinct (seen st) \<and> key start \<in> set (seen st)
       \<and> set (seen st) \<subseteq> key ` {s. valid s}
       \<and> (\<forall>s \<in> set done. \<not> stop s \<and> key ` set (succ s) \<subseteq> set (seen st))
       \<and> (if halted st then \<exists>s. reach s \<and> stop s
          else set (seen st) = key ` (set done \<union> set (queue st))))"

lemma wl_inv_init: "wl_inv stop visit r (wl_init key start r)"
  unfolding wl_inv_def wl_init_def
  by (rule exI [of _ "[]"]) (auto intro: reach_start valid_start)

lemma wl_inv_body:
  assumes inv: "wl_inv stop visit r st" and g: "wl_guard st"
  shows "wl_inv stop visit r (wl_body succ key stop visit st)"
proof -
  from g obtain c rest where q: "queue st = c # rest" and nh: "\<not> halted st"
    by (cases "queue st") (auto simp: wl_guard_def)
  from inv nh obtain ds where ds: "acc st = foldl (\<lambda>a s. visit s a) r ds"
    "\<forall>s \<in> set ds \<union> set (queue st). reach s" "distinct (seen st)" "key start \<in> set (seen st)"
    "set (seen st) \<subseteq> key ` {s. valid s}"
    "\<forall>s \<in> set ds. \<not> stop s \<and> key ` set (succ s) \<subseteq> set (seen st)"
    "set (seen st) = key ` (set ds \<union> set (queue st))"
    unfolding wl_inv_def by auto
  show ?thesis
  proof (cases "stop c")
    case True
    have "reach c" using ds(2) q by simp
    with True ds q show ?thesis
      unfolding wl_inv_def wl_body_def by (intro exI [of _ ds]) auto
  next
    case False
    obtain q' sn' where p: "foldl (wl_push key) (rest, seen st) (succ c) = (q', sn')"
      by (metis surj_pair)
    note P = wl_push_fold [OF p ds(3)]
    have c: "reach c" using ds(2) q by simp
    have succs: "\<forall>t \<in> set (succ c). reach t \<and> valid t"
      using c reach_step reach_valid by blast
    have body: "wl_body succ key stop visit st
        = st\<lparr>queue := q', seen := sn', acc := visit c (acc st)\<rparr>"
      using q False p by (simp add: wl_body_def)
    have keys: "set sn' = key ` (set (ds @ [c]) \<union> set q')"
    proof
      show "set sn' \<subseteq> key ` (set (ds @ [c]) \<union> set q')"
      proof -
        have "set (seen st) \<subseteq> key ` (set (ds @ [c]) \<union> set q')" using ds(7) q P(3) by auto
        then show ?thesis using P(6) by auto
      qed
      have "key ` set rest \<subseteq> set (seen st)" using ds(7) q by auto
      then have "key ` set q' \<subseteq> set sn'" using P(4) P(2) by blast
      moreover have "key ` set (ds @ [c]) \<subseteq> set sn'" using P(2) ds(7) q by auto
      ultimately show "key ` (set (ds @ [c]) \<union> set q') \<subseteq> set sn'" by auto
    qed
    have "set sn' \<subseteq> key ` {s. valid s}" using P(2) ds(5) succs by auto
    moreover have "\<forall>s \<in> set (ds @ [c]) \<union> set q'. reach s"
      using ds(2) q succs P(4) by auto
    moreover have "\<forall>s \<in> set (ds @ [c]). \<not> stop s \<and> key ` set (succ s) \<subseteq> set sn'"
      using ds(6) False P(2) by auto
    ultimately show ?thesis
      unfolding wl_inv_def body using ds(1,4) P(1,2) keys nh
      by (intro exI [of _ "ds @ [c]"]) auto
  qed
qed

definition wl_measure :: "('s, 'k, 'r) wl_state \<Rightarrow> nat" where
  "wl_measure st = 2 * card (key ` {s. valid s} - set (seen st)) + length (queue st)"

lemma wl_measure_body:
  assumes inv: "wl_inv stop visit r st" and g: "wl_guard st"
  shows "wl_measure (wl_body succ key stop visit st) < wl_measure st"
proof -
  from g obtain c rest where q: "queue st = c # rest"
    by (cases "queue st") (auto simp: wl_guard_def)
  have d: "distinct (seen st)" using inv by (auto simp: wl_inv_def)
  show ?thesis
  proof (cases "stop c")
    case True
    then show ?thesis using q by (simp add: wl_measure_def wl_body_def)
  next
    case False
    obtain q' sn' where p: "foldl (wl_push key) (rest, seen st) (succ c) = (q', sn')"
      by (metis surj_pair)
    note P = wl_push_fold [OF p d]
    have body: "wl_body succ key stop visit st
        = st\<lparr>queue := q', seen := sn', acc := visit c (acc st)\<rparr>"
      using q False p by (simp add: wl_body_def)
    have sub: "set sn' \<subseteq> key ` {s. valid s}"
      using wl_inv_body [OF inv g] by (auto simp: wl_inv_def body)
    have sub0: "set (seen st) \<subseteq> key ` {s. valid s}" using inv by (auto simp: wl_inv_def)
    have card: "card (key ` {s. valid s} - set xs) = card (key ` {s. valid s}) - length xs"
      if "set xs \<subseteq> key ` {s. valid s}" "distinct xs" for xs
      using that finite_keys by (simp add: card_Diff_subset distinct_card)
    have "length sn' \<le> card (key ` {s. valid s})"
      using sub P(1) finite_keys by (metis card_mono distinct_card)
    moreover have "length (seen st) \<le> length sn'"
    proof -
      have "card (set (seen st)) \<le> card (set sn')" using P(2) by (intro card_mono) auto
      then show ?thesis using d P(1) by (simp add: distinct_card)
    qed
    ultimately show ?thesis
      using card [OF sub P(1)] card [OF sub0 d] P(5) q by (simp add: wl_measure_def body)
  qed
qed

lemma wl_run_terminates: "\<exists>st. wl_run succ key stop visit start r = Some st"
proof -
  have "\<exists>st. while_option wl_guard (wl_body succ key stop visit) (wl_init key start r) = Some st"
    by (rule measure_while_option_Some [where P = "wl_inv stop visit r" and f = wl_measure])
      (auto intro: wl_inv_body wl_inv_init wl_measure_body)
  then show ?thesis by (simp add: wl_run_def)
qed

lemma wl_run_inv:
  assumes "wl_run succ key stop visit start r = Some st"
  shows "wl_inv stop visit r st" "\<not> wl_guard st"
proof -
  show "wl_inv stop visit r st"
    by (rule while_option_rule [where P = "wl_inv stop visit r", OF _ assms [unfolded wl_run_def]])
      (auto intro: wl_inv_body wl_inv_init)
  show "\<not> wl_guard st" by (rule while_option_stop [OF assms [unfolded wl_run_def]])
qed

text \<open>When the loop ran dry, every reachable state has the key of an expanded one.\<close>

lemma wl_run_exhausts:
  assumes run: "wl_run succ key stop visit start r = Some st" and nh: "\<not> halted st"
  shows "\<exists>done. acc st = foldl (\<lambda>a s. visit s a) r done \<and> (\<forall>s \<in> set done. reach s \<and> \<not> stop s)
    \<and> (\<forall>s. reach s \<longrightarrow> key s \<in> key ` set done)"
proof -
  note inv = wl_run_inv [OF run]
  have "queue st = []" using inv(2) nh by (simp add: wl_guard_def)
  with inv(1) nh obtain ds where ds: "acc st = foldl (\<lambda>a s. visit s a) r ds"
    "\<forall>s \<in> set ds. reach s" "key start \<in> set (seen st)"
    "\<forall>s \<in> set ds. \<not> stop s \<and> key ` set (succ s) \<subseteq> set (seen st)" "set (seen st) = key ` set ds"
    unfolding wl_inv_def by auto
  have "key s \<in> key ` set ds" if "reach s" for s
    using that
  proof induction
    case reach_start
    then show ?case using ds(3,5) by simp
  next
    case (reach_step s t)
    then obtain d where d: "d \<in> set ds" "key d = key s" by auto
    have "key t \<in> key ` set (succ d)"
      using succ_key [OF _ _ d(2)] reach_valid ds(2) d(1) reach_step.hyps by blast
    then show ?case using ds(4,5) d(1) by blast
  qed
  with ds show ?thesis by blast
qed

lemma wl_run_halted:
  assumes "wl_run succ key stop visit start r = Some st" "halted st"
  shows "\<exists>s. reach s \<and> stop s"
  using wl_run_inv(1) [OF assms(1)] assms(2) by (auto simp: wl_inv_def)

text \<open>If being final depends on the key only, the loop halts exactly when a final state is reachable.\<close>

lemma wl_run_decides:
  assumes "wl_run succ key stop visit start r = Some st"
    and "\<And>s t. valid s \<Longrightarrow> valid t \<Longrightarrow> key s = key t \<Longrightarrow> stop s = stop t"
  shows "halted st \<longleftrightarrow> (\<exists>s. reach s \<and> stop s)"
proof
  show "halted st \<Longrightarrow> \<exists>s. reach s \<and> stop s" by (rule wl_run_halted [OF assms(1)])
  assume "\<exists>s. reach s \<and> stop s"
  then obtain s where s: "reach s" "stop s" by blast
  show "halted st"
  proof (rule ccontr)
    assume "\<not> halted st"
    from wl_run_exhausts [OF assms(1) this] obtain ds where
      "\<forall>s \<in> set ds. reach s \<and> \<not> stop s" "key s \<in> key ` set ds" using s(1) by blast
    then show False using assms(2) s reach_valid by (metis imageE)
  qed
qed

end

end
