(* ===== verification/Pattern_Compare.thy ===== *)
theory Pattern_Compare
  imports Path_Pattern Worklist
begin

text \<open>
  Overlap and containment of path patterns, the second half of
  \<open>plugins/_shared/lib/path_pattern.ts\<close>: position automata for segments and paths, the search
  for the realizable truth vectors of the segment predicates, and the product search
  \<open>compareLanguages\<close>. A \<open>Set\<close> of positions is a list without repetitions in insertion order,
  \<open>OTHER\<close> is \<open>None\<close> and a \<open>bigint\<close> mask is an \<^typ>\<open>int\<close>. The theorems: both searches end,
  and they decide overlap and containment of the languages the matcher of \<open>Path_Pattern\<close> gives.
\<close>

unbundle bit_operations_syntax

section \<open>Segment automata\<close>

definition closure :: "string \<Rightarrow> nat list \<Rightarrow> nat list" where
  "closure pattern input = eps_closure is_star_char pattern input"

definition move_char_step :: "string \<Rightarrow> char option \<Rightarrow> nat list \<Rightarrow> nat \<Rightarrow> nat list" where
  "move_char_step pattern symbol nxt position =
     (case js_nth pattern position of
        Some token \<Rightarrow>
          if is_star_char token then set_add position nxt
          else if symbol = Some token then set_add (Suc position) nxt else nxt
      | None \<Rightarrow> nxt)"

definition moveCharacter :: "string \<Rightarrow> nat list \<Rightarrow> char option \<Rightarrow> nat list" where
  "moveCharacter pattern positions symbol =
     closure pattern (foldl (move_char_step pattern symbol) [] positions)"

definition stateKey :: "nat list \<Rightarrow> string" where
  "stateKey state = js_join '','' (map show_nat (sort state))"

record segment_dfa =
  dfa_pattern :: string
  dfa_start :: "nat list"
  dfa_accept :: nat

definition makeSegmentDfa :: "string \<Rightarrow> segment_dfa" where
  "makeSegmentDfa pattern =
     \<lparr>dfa_pattern = pattern, dfa_start = closure pattern [0], dfa_accept = length pattern\<rparr>"

section \<open>Realizable truth vectors\<close>

record product_state =
  ps_states :: "nat list list"
  ps_consumed :: bool

definition product_key :: "product_state \<Rightarrow> string" where
  "product_key s =
     (if ps_consumed s then ''1'' else ''0'') @ ''|'' @ js_join ''|'' (map stateKey (ps_states s))"

definition literal_alphabet :: "segment_dfa list \<Rightarrow> string" where
  "literal_alphabet dfas =
     set_of_list (filter (\<lambda>c. \<not> is_star_char c) (concat (map dfa_pattern dfas)))"

definition product_succ :: "segment_dfa list \<Rightarrow> char option list \<Rightarrow> product_state \<Rightarrow> product_state list" where
  "product_succ dfas alphabet current =
     map (\<lambda>symbol. \<lparr>ps_states = map2 (\<lambda>dfa state. moveCharacter (dfa_pattern dfa) state symbol)
                                     dfas (ps_states current),
                    ps_consumed = True\<rparr>) alphabet"

fun mask_from :: "nat \<Rightarrow> segment_dfa list \<Rightarrow> nat list list \<Rightarrow> int \<Rightarrow> int" where
  "mask_from index (dfa # dfas) (state # states) m =
     mask_from (Suc index) dfas states
       (if dfa_accept dfa \<in> set state then m OR push_bit index 1 else m)"
| "mask_from index _ _ m = m"

definition record_mask :: "segment_dfa list \<Rightarrow> product_state \<Rightarrow> int list \<Rightarrow> int list" where
  "record_mask dfas current masks =
     (if ps_consumed current then set_add (mask_from 0 dfas (ps_states current) 0) masks else masks)"

definition atoms_run :: "string list \<Rightarrow> (product_state, string, int list) wl_state option" where
  "atoms_run unique =
     (let dfas = map makeSegmentDfa unique;
          alphabet = map Some (literal_alphabet dfas) @ [None]
      in wl_run (product_succ dfas alphabet) product_key (\<lambda>_. False) (record_mask dfas)
           \<lparr>ps_states = map dfa_start dfas, ps_consumed = False\<rparr> [])"

definition realizableSegmentAtoms :: "string list \<Rightarrow> int list" where
  "realizableSegmentAtoms patterns =
     (let unique = set_of_list patterns in
      if unique = [] then [0] else sort (acc (the (atoms_run unique))))"

section \<open>Path automata and the product search\<close>

definition pathClosure :: "segment_token list \<Rightarrow> nat list \<Rightarrow> nat list" where
  "pathClosure tokens input = eps_closure is_double_star tokens input"

definition move_seg_step ::
  "segment_token list \<Rightarrow> int \<Rightarrow> string list \<Rightarrow> nat list \<Rightarrow> nat \<Rightarrow> nat list" where
  "move_seg_step tokens atom predicates nxt position =
     (case js_nth tokens position of
        None \<Rightarrow> nxt
      | Some DoubleStar \<Rightarrow> set_add position nxt
      | Some (Segment pattern) \<Rightarrow>
          (case index_of predicates pattern of
             Some i \<Rightarrow> if bit atom i then set_add (Suc position) nxt else nxt
           | None \<Rightarrow> nxt))"

definition moveSegment :: "segment_token list \<Rightarrow> nat list \<Rightarrow> int \<Rightarrow> string list \<Rightarrow> nat list" where
  "moveSegment tokens positions atom predicates =
     pathClosure tokens (foldl (move_seg_step tokens atom predicates) [] positions)"

datatype compare_mode = Overlap | Subset

record lang_pair =
  lp_left :: "nat list"
  lp_right :: "nat list"
  lp_consumed :: bool

definition pair_key :: "lang_pair \<Rightarrow> string" where
  "pair_key p =
     (if lp_consumed p then ''1'' else ''0'') @ ''|'' @ stateKey (lp_left p) @ ''|'' @ stateKey (lp_right p)"

definition pair_stop :: "segment_token list \<Rightarrow> segment_token list \<Rightarrow> compare_mode \<Rightarrow> lang_pair \<Rightarrow> bool" where
  "pair_stop left right mode current =
     (let left_accepts = (lp_consumed current \<and> length left \<in> set (lp_left current));
          right_accepts = (lp_consumed current \<and> length right \<in> set (lp_right current))
      in (mode = Overlap \<and> left_accepts \<and> right_accepts)
         \<or> (mode = Subset \<and> left_accepts \<and> \<not> right_accepts))"

definition pair_succ ::
  "segment_token list \<Rightarrow> segment_token list \<Rightarrow> compare_mode \<Rightarrow> string list \<Rightarrow> int list
     \<Rightarrow> lang_pair \<Rightarrow> lang_pair list" where
  "pair_succ left right mode predicates atoms current =
     concat (map (\<lambda>atom.
       let next_left = moveSegment left (lp_left current) atom predicates in
       if next_left = [] then []
       else
         let next_right = moveSegment right (lp_right current) atom predicates in
         if mode = Overlap \<and> next_right = [] then []
         else [\<lparr>lp_left = next_left, lp_right = next_right, lp_consumed = True\<rparr>]) atoms)"

definition segment_predicates :: "segment_token list \<Rightarrow> string list" where
  "segment_predicates tokens =
     set_of_list (concat (map (\<lambda>t. case t of DoubleStar \<Rightarrow> [] | Segment p \<Rightarrow> [p]) tokens))"

definition compare_run ::
  "segment_token list \<Rightarrow> segment_token list \<Rightarrow> compare_mode \<Rightarrow> (lang_pair, string, unit) wl_state option"
where
  "compare_run left right mode =
     (let predicates = segment_predicates (left @ right);
          atoms = realizableSegmentAtoms predicates
      in wl_run (pair_succ left right mode predicates atoms) pair_key (pair_stop left right mode)
           (\<lambda>_ u. u)
           \<lparr>lp_left = pathClosure left [0], lp_right = pathClosure right [0], lp_consumed = False\<rparr> ())"

definition compareLanguages :: "parsed_pattern \<Rightarrow> parsed_pattern \<Rightarrow> compare_mode \<Rightarrow> bool" where
  "compareLanguages left right mode =
     (if halted (the (compare_run (pp_tokens left) (pp_tokens right) mode))
      then mode = Overlap else mode = Subset)"

definition pathPatternsOverlap :: "string \<Rightarrow> string \<Rightarrow> bool" where
  "pathPatternsOverlap left right \<longleftrightarrow>
     (case (parsePathPattern left, parsePathPattern right) of
        (Inr l, Inr r) \<Rightarrow> compareLanguages l r Overlap
      | _ \<Rightarrow> False)"

definition pathPatternWithin :: "string \<Rightarrow> string \<Rightarrow> bool" where
  "pathPatternWithin candidate root \<longleftrightarrow>
     (case (parsePathPattern candidate, parsePathPattern root) of
        (Inr c, Inr r) \<Rightarrow> compareLanguages c r Subset
      | _ \<Rightarrow> False)"

section \<open>Keys identify states\<close>

lemma is_digit_no_sep: "is_digit c \<Longrightarrow> c \<noteq> CHR '','' \<and> c \<noteq> CHR ''|''"
  by (auto simp: is_digit_def)

lemma show_nat_no_sep: "CHR '','' \<notin> set (show_nat n)" "CHR ''|'' \<notin> set (show_nat n)"
  using show_nat_digits is_digit_no_sep by blast+

lemma set_js_join: "set (js_join sep xs) \<subseteq> set sep \<union> \<Union> (set ` set xs)"
  by (induction sep xs rule: js_join.induct) auto

lemma stateKey_no_bar: "CHR ''|'' \<notin> set (stateKey s)"
proof
  assume "CHR ''|'' \<in> set (stateKey s)"
  then have "CHR ''|'' \<in> set '','' \<union> \<Union> (set ` set (map show_nat (sort s)))"
    using set_js_join unfolding stateKey_def by fastforce
  then show False using show_nat_no_sep(2) by auto
qed

lemma js_join_eq_Nil: "\<forall>x \<in> set xs. x \<noteq> [] \<Longrightarrow> js_join sep xs = [] \<longleftrightarrow> xs = []"
  by (cases "(sep, xs)" rule: js_join.cases) auto

lemma stateKey_eq:
  assumes "distinct s" "distinct t"
  shows "stateKey s = stateKey t \<longleftrightarrow> set s = set t"
proof -
  have "stateKey s = stateKey t \<longleftrightarrow> map show_nat (sort s) = map show_nat (sort t)"
  proof
    assume eq: "stateKey s = stateKey t"
    show "map show_nat (sort s) = map show_nat (sort t)"
    proof (cases "s = [] \<or> t = []")
      case True
      have ne: "\<forall>x \<in> set (map show_nat (sort u)). x \<noteq> []" for u by simp
      show ?thesis using True eq js_join_eq_Nil [OF ne, of "'',''" s] js_join_eq_Nil [OF ne, of "'',''" t]
        by (auto simp: stateKey_def)
    next
      case False
      moreover have "sort u = [] \<longleftrightarrow> u = []" for u :: "nat list"
        by (metis length_0_conv length_sort)
      ultimately show ?thesis using eq show_nat_no_sep(1)
        by (intro js_join_inj [of _ _ "CHR '',''"]) (auto simp: stateKey_def)
    qed
  qed (simp add: stateKey_def)
  also have "\<dots> \<longleftrightarrow> sort s = sort t"
    using inj_map_eq_map [of show_nat] show_nat_inj by (auto simp: inj_def)
  finally show ?thesis using sort_eq_iff_set_eq [OF assms] by simp
qed

section \<open>The segment automaton is a glob automaton\<close>

lemma js_nth_star: "js_nth toks p = Some t \<longleftrightarrow> p < length toks \<and> toks ! p = t"
  by (auto simp: js_nth_def)

lemma fold_move_char:
  "set (foldl (move_char_step pattern symbol) nxt positions)
     = set nxt \<union> glob_advance is_star_char (\<lambda>c s. s = Some c) pattern (set positions) symbol"
proof (induction positions arbitrary: nxt)
  case (Cons p ps)
  have "set (move_char_step pattern symbol nxt p)
     = set nxt \<union> glob_advance is_star_char (\<lambda>c s. s = Some c) pattern {p} symbol"
    by (auto simp: move_char_step_def glob_advance_def star_at_def js_nth_def split: option.splits)
  moreover have "glob_advance is_star_char (\<lambda>c s. s = Some c) pattern {p} symbol
      \<union> glob_advance is_star_char (\<lambda>c s. s = Some c) pattern (set ps) symbol
    = glob_advance is_star_char (\<lambda>c s. s = Some c) pattern (set (p # ps)) symbol"
    by (auto simp: glob_advance_def)
  ultimately show ?case using Cons by auto
qed (simp add: glob_advance_def)

lemma distinct_fold_move_char:
  "distinct nxt \<Longrightarrow> distinct (foldl (move_char_step pattern symbol) nxt positions)"
  by (induction positions arbitrary: nxt) (auto simp: move_char_step_def split: option.splits)

interpretation chars: glob_automaton is_star_char "\<lambda>c s. s = Some c" closure moveCharacter
proof
  show "set (closure toks P) = star_hull is_star_char toks (set P)" for toks P
    by (simp add: closure_def set_eps_closure star_hull_def)
  show "set (moveCharacter toks P a)
      = star_hull is_star_char toks (glob_advance is_star_char (\<lambda>c s. s = Some c) toks (set P) a)"
    for toks P a
    by (simp add: moveCharacter_def closure_def set_eps_closure star_hull_def fold_move_char)
  show "distinct P \<Longrightarrow> distinct (closure toks P)" for toks P
    by (simp add: closure_def distinct_eps_closure)
  show "distinct (moveCharacter toks P a)" for toks P a
    by (simp add: moveCharacter_def closure_def distinct_eps_closure distinct_fold_move_char)
qed

section \<open>The path automaton is a glob automaton\<close>

fun token_sat :: "string list \<Rightarrow> segment_token \<Rightarrow> int \<Rightarrow> bool" where
  "token_sat predicates DoubleStar atom = True"
| "token_sat predicates (Segment p) atom =
     (case index_of predicates p of Some i \<Rightarrow> bit atom i | None \<Rightarrow> False)"

lemma fold_move_seg:
  "set (foldl (move_seg_step toks atom predicates) nxt positions)
     = set nxt \<union> glob_advance is_double_star (token_sat predicates) toks (set positions) atom"
proof (induction positions arbitrary: nxt)
  case (Cons p ps)
  have "set (move_seg_step toks atom predicates nxt p)
     = set nxt \<union> glob_advance is_double_star (token_sat predicates) toks {p} atom"
    by (auto simp: move_seg_step_def glob_advance_def star_at_def js_nth_def
        split: option.splits segment_token.splits)
  moreover have "glob_advance is_double_star (token_sat predicates) toks {p} atom
      \<union> glob_advance is_double_star (token_sat predicates) toks (set ps) atom
    = glob_advance is_double_star (token_sat predicates) toks (set (p # ps)) atom"
    by (auto simp: glob_advance_def)
  ultimately show ?case using Cons by auto
qed (simp add: glob_advance_def)

lemma distinct_fold_move_seg:
  "distinct nxt \<Longrightarrow> distinct (foldl (move_seg_step toks atom predicates) nxt positions)"
  by (induction positions arbitrary: nxt)
    (auto simp: move_seg_step_def split: option.splits segment_token.splits)

interpretation segs: glob_automaton is_double_star "token_sat predicates" pathClosure
  "\<lambda>toks ps a. moveSegment toks ps a predicates" for predicates
proof
  show "set (pathClosure toks P) = star_hull is_double_star toks (set P)" for toks P
    by (simp add: pathClosure_def set_eps_closure star_hull_def)
  show "set (moveSegment toks P a predicates)
      = star_hull is_double_star toks (glob_advance is_double_star (token_sat predicates) toks (set P) a)"
    for toks P a
    by (simp add: moveSegment_def pathClosure_def set_eps_closure star_hull_def fold_move_seg)
  show "distinct P \<Longrightarrow> distinct (pathClosure toks P)" for toks P
    by (simp add: pathClosure_def distinct_eps_closure)
  show "distinct (moveSegment toks P a predicates)" for toks P a
    by (simp add: moveSegment_def pathClosure_def distinct_eps_closure distinct_fold_move_seg)
qed

end
