(* ===== verification/Pattern_Language.thy ===== *)
theory Pattern_Language
  imports Pattern_Compare
begin

text \<open>
  Correctness of the searches of \<open>Pattern_Compare\<close>: the loops end, \<open>realizableSegmentAtoms\<close> is
  the set of truth vectors that non-empty segments give the predicates, and \<open>compareLanguages\<close>
  decides overlap and containment of the two languages of segment lists.
\<close>

section \<open>Truth vectors of the predicates\<close>

text \<open>What a segment says about a list of predicates: bit \<open>i\<close> is the answer of predicate \<open>i\<close>.\<close>

fun vector_from :: "nat \<Rightarrow> bool list \<Rightarrow> int \<Rightarrow> int" where
  "vector_from i (b # bs) m = vector_from (Suc i) bs (if b then m OR push_bit i 1 else m)"
| "vector_from i [] m = m"

definition vector :: "bool list \<Rightarrow> int" where
  "vector bs = vector_from 0 bs 0"

definition atom_of :: "string list \<Rightarrow> string \<Rightarrow> int" where
  "atom_of predicates s = vector (map (\<lambda>p. segmentMatches p s) predicates)"

lemma bit_one_shift: "bit (push_bit i 1 :: int) n \<longleftrightarrow> n = i" "bit (2 ^ i :: int) n \<longleftrightarrow> n = i"
  by (auto simp: bit_exp_iff)

lemma bit_vector_from:
  "bit (vector_from i bs m) n \<longleftrightarrow> bit m n \<or> (i \<le> n \<and> n < i + length bs \<and> bs ! (n - i))"
proof (induction i bs m rule: vector_from.induct)
  case (1 i b bs m)
  have "bit (if b then m OR push_bit i 1 else m) n \<longleftrightarrow> bit m n \<or> (b \<and> n = i)"
    by (auto simp: bit_or_iff bit_one_shift)
  then have "bit (vector_from i (b # bs) m) n \<longleftrightarrow>
      (bit m n \<or> b \<and> n = i) \<or> (Suc i \<le> n \<and> n < Suc i + length bs \<and> bs ! (n - Suc i))"
    using 1 by simp
  also have "\<dots> \<longleftrightarrow> bit m n \<or> (i \<le> n \<and> n < i + length (b # bs) \<and> (b # bs) ! (n - i))"
    by (cases "n \<le> i") (auto simp: nth_Cons')
  finally show ?case .
qed auto

lemma bit_vector: "bit (vector bs) n \<longleftrightarrow> n < length bs \<and> bs ! n"
  by (simp add: vector_def bit_vector_from)

lemma mask_from_vector:
  "length dfas = length states \<Longrightarrow>
     mask_from i dfas states m = vector_from i (map2 (\<lambda>d s. dfa_accept d \<in> set s) dfas states) m"
  by (induction i dfas states m rule: mask_from.induct) auto

lemma token_sat_atom_of:
  assumes "is_double_star t \<or> (\<exists>p \<in> set predicates. t = Segment p)"
  shows "token_sat predicates t (atom_of predicates s) = token_matches t s"
proof (cases t)
  case (Segment p)
  with assms obtain i where "index_of predicates p = Some i" using index_of_member by fastforce
  with Segment index_of_Some [OF this] show ?thesis by (simp add: atom_of_def bit_vector)
qed simp

lemma segment_predicates_set: "set (segment_predicates toks) = {p. Segment p \<in> set toks}"
  by (auto simp: segment_predicates_def split: segment_token.splits)

lemma gmatch_atoms:
  assumes "\<And>p. Segment p \<in> set toks \<Longrightarrow> p \<in> set predicates"
  shows "gmatch is_double_star (token_sat predicates) toks (map (atom_of predicates) segs)
    = gmatch is_double_star token_matches toks segs"
  unfolding gmatch_map
proof (rule gmatch_cong)
  fix t s
  assume "t \<in> set toks" "\<not> is_double_star t"
  then show "token_sat predicates t (atom_of predicates s) = token_matches t s"
    using assms by (intro token_sat_atom_of) (cases t; auto)
qed

section \<open>The search for atoms\<close>

definition atoms_alphabet :: "string list \<Rightarrow> char option list" where
  "atoms_alphabet patterns = map Some (literal_alphabet (map makeSegmentDfa patterns)) @ [None]"

definition product_after :: "string list \<Rightarrow> char option list \<Rightarrow> product_state" where
  "product_after patterns w =
     \<lparr>ps_states = map (\<lambda>p. chars.run p w) patterns, ps_consumed = (w \<noteq> [])\<rparr>"

definition product_valid :: "string list \<Rightarrow> product_state \<Rightarrow> bool" where
  "product_valid patterns s \<longleftrightarrow>
     length (ps_states s) = length patterns \<and>
     (\<forall>st \<in> set (ps_states s). distinct st \<and> set st \<subseteq> {..Max (set (map length patterns))})"

lemma product_after_start:
  "product_after patterns [] = \<lparr>ps_states = map dfa_start (map makeSegmentDfa patterns), ps_consumed = False\<rparr>"
  by (simp add: product_after_def makeSegmentDfa_def chars.run_Nil o_def)

lemma map2_map_same: "map2 f (map g xs) (map h xs) = map (\<lambda>x. f (g x) (h x)) xs"
  by (induction xs) auto

lemma product_succ_after:
  "product_succ (map makeSegmentDfa patterns) alphabet (product_after patterns w)
     = map (\<lambda>a. product_after patterns (w @ [a])) alphabet"
  by (simp add: product_succ_def product_after_def map2_map_same makeSegmentDfa_def chars.run_snoc)

lemma product_key_eq:
  assumes "product_valid patterns s" "product_valid patterns t"
  shows "product_key s = product_key t \<longleftrightarrow>
    ps_consumed s = ps_consumed t \<and> list_all2 (\<lambda>a b. set a = set b) (ps_states s) (ps_states t)"
proof (cases "patterns = []")
  case True
  with assms show ?thesis by (auto simp: product_valid_def product_key_def)
next
  case False
  with assms have len: "length (ps_states s) = length (ps_states t)" "ps_states s \<noteq> []" "ps_states t \<noteq> []"
    by (auto simp: product_valid_def)
  have "js_join ''|'' (map stateKey (ps_states s)) = js_join ''|'' (map stateKey (ps_states t))
    \<longleftrightarrow> map stateKey (ps_states s) = map stateKey (ps_states t)"
    using len stateKey_no_bar js_join_inj [of "map stateKey (ps_states s)" "map stateKey (ps_states t)"]
    by auto
  also have "\<dots> \<longleftrightarrow> list_all2 (\<lambda>a b. set a = set b) (ps_states s) (ps_states t)"
  proof -
    have "map stateKey (ps_states s) = map stateKey (ps_states t) \<longleftrightarrow>
      list_all2 (\<lambda>a b. stateKey a = stateKey b) (ps_states s) (ps_states t)"
      by (simp add: list_all2_eq list_all2_map1 list_all2_map2)
    also have "\<dots> \<longleftrightarrow> list_all2 (\<lambda>a b. set a = set b) (ps_states s) (ps_states t)"
      by (rule list.rel_cong) (use assms(1,2) in \<open>auto simp: product_valid_def stateKey_eq\<close>)
    finally show ?thesis .
  qed
  finally show ?thesis by (auto simp: product_key_def)
qed

lemma finite_position_lists: "finite {xs :: nat list. distinct xs \<and> set xs \<subseteq> {..N}}"
  using finite_subset_distinct [of "{..N}"] by (auto elim: rev_finite_subset)

lemma finite_product_valid: "finite {s. product_valid patterns s}"
proof -
  let ?A = "{xs :: nat list. distinct xs \<and> set xs \<subseteq> {..Max (set (map length patterns))}}"
  let ?L = "{xss. set xss \<subseteq> ?A \<and> length xss = length patterns}"
  have "finite ?L" using finite_lists_length_eq [OF finite_position_lists] by simp
  moreover have "s \<in> (\<lambda>(xss, b). \<lparr>ps_states = xss, ps_consumed = b\<rparr>) ` (?L \<times> UNIV)"
    if "product_valid patterns s" for s
  proof -
    have "s = (\<lambda>(xss, b). \<lparr>ps_states = xss, ps_consumed = b\<rparr>) (ps_states s, ps_consumed s)" by simp
    moreover have "(ps_states s, ps_consumed s) \<in> ?L \<times> UNIV" using that by (auto simp: product_valid_def)
    ultimately show ?thesis by blast
  qed
  ultimately show ?thesis
    by (metis (mono_tags, lifting) finite_SigmaI finite_code finite_imageI finite_subset mem_Collect_eq subsetI)
qed

lemma move_bounded:
  assumes "set st \<subseteq> {..N}" "length p \<le> N"
  shows "set (moveCharacter p st a) \<subseteq> {..N}"
proof
  fix q
  assume "q \<in> set (moveCharacter p st a)"
  then obtain r where r: "r \<in> glob_advance is_star_char (\<lambda>c s. s = Some c) p (set st) a"
    "star_run is_star_char p r q" by (auto simp: chars.move star_hull_def)
  have "r \<le> N" using r(1) assms by (auto simp: glob_advance_def)
  show "q \<in> {..N}"
  proof (cases "r = q")
    case False
    with r(2) have "star_at is_star_char p (q - 1)" "0 < q" by (auto simp: star_run_def)
    with assms(2) show ?thesis by (auto simp: star_at_def)
  qed (use \<open>r \<le> N\<close> in simp)
qed

lemma product_succ_valid:
  assumes "product_valid patterns s" "t \<in> set (product_succ (map makeSegmentDfa patterns) alphabet s)"
  shows "product_valid patterns t"
proof -
  from assms(2) obtain a where
    t: "t = \<lparr>ps_states = map2 (\<lambda>d st. moveCharacter (dfa_pattern d) st a) (map makeSegmentDfa patterns)
      (ps_states s), ps_consumed = True\<rparr>" by (auto simp: product_succ_def)
  have "length p \<le> Max (set (map length patterns))" if "p \<in> set patterns" for p
    using that by (intro Max_ge) auto
  with assms(1) show ?thesis
    unfolding t product_valid_def
    by (auto simp: set_zip makeSegmentDfa_def chars.move_distinct dest!: move_bounded [THEN subsetD, rotated 2])
qed

lemma product_after_valid: "product_valid patterns (product_after patterns w)"
proof -
  have "set (chars.run p w) \<subseteq> {..Max (set (map length patterns))}" if "p \<in> set patterns" for p
  proof -
    have "length p \<le> Max (set (map length patterns))" using that by (intro Max_ge) auto
    then show ?thesis using chars.run_bound [of p w] by auto
  qed
  then show ?thesis by (auto simp: product_valid_def product_after_def chars.run_distinct)
qed

lemma product_succ_keys:
  assumes "product_valid patterns s" "product_valid patterns t" "product_key s = product_key t"
  shows "product_key ` set (product_succ (map makeSegmentDfa patterns) alphabet s)
    = product_key ` set (product_succ (map makeSegmentDfa patterns) alphabet t)"
proof -
  let ?f = "\<lambda>s a. \<lparr>ps_states = map2 (\<lambda>d st. moveCharacter (dfa_pattern d) st a)
    (map makeSegmentDfa patterns) (ps_states s), ps_consumed = True\<rparr>"
  have same: "list_all2 (\<lambda>a b. set a = set b) (ps_states s) (ps_states t)"
    using assms product_key_eq by blast
  have key: "product_key (?f s a) = product_key (?f t a)" if "a \<in> set alphabet" for a
  proof -
    have mem: "?f u a \<in> set (product_succ (map makeSegmentDfa patterns) alphabet u)" for u
      using that by (auto simp: product_succ_def)
    have "list_all2 (\<lambda>a b. set a = set b) (ps_states (?f s a)) (ps_states (?f t a))"
      unfolding list_all2_conv_all_nth
    proof (intro conjI allI impI)
      show "length (ps_states (?f s a)) = length (ps_states (?f t a))"
        using same by (simp add: list_all2_lengthD)
      fix i
      assume i: "i < length (ps_states (?f s a))"
      then have "set (ps_states s ! i) = set (ps_states t ! i)"
        using same by (simp add: list_all2_conv_all_nth)
      from chars.move_set_cong [OF this] i
      show "set (ps_states (?f s a) ! i) = set (ps_states (?f t a) ! i)"
        using same by (simp add: list_all2_lengthD)
    qed
    then show ?thesis
      using product_key_eq [OF product_succ_valid [OF assms(1) mem] product_succ_valid [OF assms(2) mem]]
      by simp
  qed
  have "set (product_succ (map makeSegmentDfa patterns) alphabet u) = ?f u ` set alphabet" for u
    by (simp add: product_succ_def)
  then show ?thesis using key by (simp add: image_image cong: image_cong)
qed

interpretation atoms: worklist "product_succ (map makeSegmentDfa patterns) (atoms_alphabet patterns)"
  product_key "product_after patterns []" "product_valid patterns" for patterns
proof
  show "finite (product_key ` {s. product_valid patterns s})"
    using finite_product_valid by blast
  show "product_valid patterns (product_after patterns [])" by (rule product_after_valid)
  show "product_valid patterns t" if "product_valid patterns s"
    "t \<in> set (product_succ (map makeSegmentDfa patterns) (atoms_alphabet patterns) s)" for s t
    using that by (rule product_succ_valid)
  show "product_key ` set (product_succ (map makeSegmentDfa patterns) (atoms_alphabet patterns) s)
    = product_key ` set (product_succ (map makeSegmentDfa patterns) (atoms_alphabet patterns) t)"
    if "product_valid patterns s" "product_valid patterns t" "product_key s = product_key t" for s t
    using that by (rule product_succ_keys)
qed

lemma atoms_reach:
  "atoms.reach patterns s \<longleftrightarrow>
     (\<exists>w. set w \<subseteq> set (atoms_alphabet patterns) \<and> s = product_after patterns w)"
proof
  assume "atoms.reach patterns s"
  then show "\<exists>w. set w \<subseteq> set (atoms_alphabet patterns) \<and> s = product_after patterns w"
  proof (induction rule: atoms.reach.induct)
    case reach_start
    show ?case by (rule exI [of _ "[]"]) simp
  next
    case (reach_step s t)
    then obtain w a where "set w \<subseteq> set (atoms_alphabet patterns)" "s = product_after patterns w"
      "a \<in> set (atoms_alphabet patterns)" "t = product_after patterns (w @ [a])"
      by (auto simp: product_succ_after)
    then show ?case by (intro exI [of _ "w @ [a]"]) auto
  qed
next
  assume "\<exists>w. set w \<subseteq> set (atoms_alphabet patterns) \<and> s = product_after patterns w"
  then obtain w where w: "set w \<subseteq> set (atoms_alphabet patterns)" "s = product_after patterns w"
    by blast
  have "atoms.reach patterns (product_after patterns w)"
    using w(1)
  proof (induction w rule: rev_induct)
    case Nil
    show ?case by (rule atoms.reach.reach_start)
  next
    case (snoc a w)
    then have "atoms.reach patterns (product_after patterns w)" by simp
    moreover have "product_after patterns (w @ [a])
      \<in> set (product_succ (map makeSegmentDfa patterns) (atoms_alphabet patterns) (product_after patterns w))"
      using snoc.prems by (simp add: product_succ_after)
    ultimately show ?case by (rule atoms.reach.reach_step)
  qed
  with w(2) show "atoms.reach patterns s" by simp
qed

section \<open>From words of symbols to strings and back\<close>

definition symbols_of :: "string list \<Rightarrow> string \<Rightarrow> char option list" where
  "symbols_of patterns s =
     map (\<lambda>c. if c \<in> set (literal_alphabet (map makeSegmentDfa patterns)) then Some c else None) s"

definition string_of :: "char option list \<Rightarrow> string" where
  "string_of w = map (\<lambda>a. case a of Some c \<Rightarrow> c | None \<Rightarrow> CHR ''*'') w"

lemma literal_alphabet_set:
  "set (literal_alphabet (map makeSegmentDfa patterns)) = {c. c \<noteq> CHR ''*'' \<and> (\<exists>p \<in> set patterns. c \<in> set p)}"
  by (auto simp: literal_alphabet_def makeSegmentDfa_def is_star_char_def)

lemma symbols_in_alphabet: "set (symbols_of patterns s) \<subseteq> set (atoms_alphabet patterns)"
  by (auto simp: symbols_of_def atoms_alphabet_def)

lemma gmatch_symbols_of:
  assumes "p \<in> set patterns"
  shows "gmatch is_star_char (\<lambda>c s. s = Some c) p (symbols_of patterns s) = gmatch is_star_char (=) p s"
  unfolding symbols_of_def gmatch_map
  by (rule gmatch_cong) (use assms in \<open>auto simp: literal_alphabet_set is_star_char_def\<close>)

lemma gmatch_string_of:
  assumes "p \<in> set patterns" "set w \<subseteq> set (atoms_alphabet patterns)"
  shows "gmatch is_star_char (=) p (string_of w) = gmatch is_star_char (\<lambda>c s. s = Some c) p w"
  unfolding string_of_def gmatch_map
  by (rule gmatch_cong) (auto simp: is_star_char_def split: option.splits)

lemma product_mask:
  "mask_from 0 (map makeSegmentDfa patterns) (ps_states (product_after patterns w)) 0
     = vector (map (\<lambda>p. gmatch is_star_char (\<lambda>c s. s = Some c) p w) patterns)"
proof -
  have "map2 (\<lambda>d s. dfa_accept d \<in> set s) (map makeSegmentDfa patterns) (map (\<lambda>p. chars.run p w) patterns)
    = map (\<lambda>p. gmatch is_star_char (\<lambda>c s. s = Some c) p w) patterns"
    by (simp add: map2_map_same makeSegmentDfa_def chars.run_accepts)
  then show ?thesis by (simp add: product_after_def mask_from_vector vector_def)
qed

section \<open>The masks found\<close>

lemma foldl_record_mask:
  "set (foldl (\<lambda>a s. record_mask dfas s a) m ds)
     = set m \<union> {mask_from 0 dfas (ps_states s) 0 | s. s \<in> set ds \<and> ps_consumed s}"
  by (induction ds arbitrary: m) (auto simp: record_mask_def)

lemma vector_key:
  assumes "product_valid patterns s" "product_valid patterns t" "product_key s = product_key t"
  shows "mask_from 0 (map makeSegmentDfa patterns) (ps_states s) 0
    = mask_from 0 (map makeSegmentDfa patterns) (ps_states t) 0"
proof -
  have same: "list_all2 (\<lambda>a b. set a = set b) (ps_states s) (ps_states t)"
    using assms product_key_eq by blast
  have m: "map2 (\<lambda>d s. dfa_accept d \<in> set s) (map makeSegmentDfa patterns) (ps_states s)
    = map2 (\<lambda>d s. dfa_accept d \<in> set s) (map makeSegmentDfa patterns) (ps_states t)"
    using same by (auto simp: list_all2_conv_all_nth intro!: nth_equalityI)
  have l: "length (map makeSegmentDfa patterns) = length (ps_states s)"
    "length (map makeSegmentDfa patterns) = length (ps_states t)"
    using assms by (auto simp: product_valid_def)
  show ?thesis unfolding mask_from_vector [OF l(1)] mask_from_vector [OF l(2)] m ..
qed

lemma atoms_run_eq:
  "atoms_run patterns = wl_run (product_succ (map makeSegmentDfa patterns) (atoms_alphabet patterns))
     product_key (\<lambda>_. False) (record_mask (map makeSegmentDfa patterns)) (product_after patterns []) []"
  by (simp add: atoms_run_def Let_def atoms_alphabet_def product_after_start)

lemma atoms_run_masks:
  assumes "atoms_run patterns = Some st"
  shows "set (acc st) = {atom_of patterns s | s. s \<noteq> []}"
proof -
  note run = assms [unfolded atoms_run_eq]
  have "\<not> halted st" using atoms.wl_run_halted [OF run] by blast
  from atoms.wl_run_exhausts [OF run this] obtain ds where
    ds: "acc st = foldl (\<lambda>a s. record_mask (map makeSegmentDfa patterns) s a) [] ds"
      "\<forall>s \<in> set ds. atoms.reach patterns s"
      "\<forall>s. atoms.reach patterns s \<longrightarrow> product_key s \<in> product_key ` set ds" by blast
  let ?m = "\<lambda>s. mask_from 0 (map makeSegmentDfa patterns) (ps_states s) 0"
  have "set (acc st) = {?m s | s. s \<in> set ds \<and> ps_consumed s}"
    by (simp add: ds(1) foldl_record_mask)
  also have "\<dots> = {?m s | s. atoms.reach patterns s \<and> ps_consumed s}"
  proof
    show "{?m s | s. s \<in> set ds \<and> ps_consumed s} \<subseteq> {?m s | s. atoms.reach patterns s \<and> ps_consumed s}"
      using ds(2) by blast
    show "{?m s | s. atoms.reach patterns s \<and> ps_consumed s} \<subseteq> {?m s | s. s \<in> set ds \<and> ps_consumed s}"
    proof
      fix m
      assume "m \<in> {?m s | s. atoms.reach patterns s \<and> ps_consumed s}"
      then obtain s where s: "m = ?m s" "atoms.reach patterns s" "ps_consumed s" by blast
      from ds(3) s(2) obtain d where d: "d \<in> set ds" "product_key s = product_key d" by blast
      have v: "product_valid patterns s" "product_valid patterns d"
        using s(2) d(1) ds(2) atoms.reach_valid by blast+
      show "m \<in> {?m s | s. s \<in> set ds \<and> ps_consumed s}"
        using vector_key [OF v d(2)] product_key_eq [OF v] d s by auto
    qed
  qed
  also have "\<dots> = {atom_of patterns s | s. s \<noteq> []}"
  proof
    show "{?m s | s. atoms.reach patterns s \<and> ps_consumed s} \<subseteq> {atom_of patterns s | s. s \<noteq> []}"
    proof
      fix m
      assume "m \<in> {?m s | s. atoms.reach patterns s \<and> ps_consumed s}"
      then obtain w where w: "set w \<subseteq> set (atoms_alphabet patterns)" "w \<noteq> []"
        "m = ?m (product_after patterns w)"
        by (auto simp: atoms_reach) (auto simp: product_after_def)
      have "m = atom_of patterns (string_of w)"
        unfolding w(3) product_mask atom_of_def
        using gmatch_string_of [OF _ w(1)] w(2)
        by (intro arg_cong [where f = vector] map_cong) (auto simp: segmentMatches_gmatch string_of_def)
      moreover have "string_of w \<noteq> []" using w(2) by (simp add: string_of_def)
      ultimately show "m \<in> {atom_of patterns s | s. s \<noteq> []}" by blast
    qed
    show "{atom_of patterns s | s. s \<noteq> []} \<subseteq> {?m s | s. atoms.reach patterns s \<and> ps_consumed s}"
    proof
      fix m
      assume "m \<in> {atom_of patterns s | s. s \<noteq> []}"
      then obtain s where s: "m = atom_of patterns s" "s \<noteq> []" by blast
      let ?w = "symbols_of patterns s"
      have "m = ?m (product_after patterns ?w)"
        unfolding s(1) product_mask atom_of_def
        using gmatch_symbols_of [of _ patterns s] s(2)
        by (intro arg_cong [where f = vector] map_cong) (auto simp: segmentMatches_gmatch)
      moreover have "atoms.reach patterns (product_after patterns ?w)"
        using symbols_in_alphabet atoms_reach by blast
      moreover have "ps_consumed (product_after patterns ?w)"
        using s(2) by (simp add: product_after_def symbols_of_def)
      ultimately show "m \<in> {?m s | s. atoms.reach patterns s \<and> ps_consumed s}" by blast
    qed
  qed
  finally show ?thesis .
qed

lemma atoms_run_terminates: "\<exists>st. atoms_run patterns = Some st"
  unfolding atoms_run_eq by (rule atoms.wl_run_terminates)

lemma set_of_list_distinct_id: "distinct xs \<Longrightarrow> set_of_list xs = xs"
proof -
  have "distinct (acc @ xs) \<Longrightarrow> foldl (\<lambda>a x. set_add x a) acc xs = acc @ xs" for acc
    by (induction xs arbitrary: acc) (auto simp: set_add_def)
  from this [of "[]"] show "distinct xs \<Longrightarrow> set_of_list xs = xs" by (simp add: set_of_list_def)
qed

lemma realizable_atoms:
  assumes "distinct patterns"
  shows "set (realizableSegmentAtoms patterns) = {atom_of patterns s | s. s \<noteq> []}"
proof (cases "patterns = []")
  case True
  have "{atom_of [] s | s. s \<noteq> []} = {0}" by (auto simp: atom_of_def vector_def)
  with True show ?thesis by (simp add: realizableSegmentAtoms_def set_of_list_def)
next
  case False
  obtain st where "atoms_run patterns = Some st" using atoms_run_terminates by blast
  with False assms atoms_run_masks [OF this] show ?thesis
    by (simp add: realizableSegmentAtoms_def Let_def set_of_list_distinct_id)
qed

end
