(* ===== verification/Pattern_Decision.thy ===== *)
theory Pattern_Decision
  imports Pattern_Language
begin

text \<open>
  \<open>compareLanguages\<close> decides overlap and containment: the product search over the realizable
  atoms is a \<open>worklist\<close>, its reachable pairs are the pairs of runs over words of atoms (less the
  pruned dead ends), and words of atoms are lists of non-empty segments seen through the
  predicates. The path-level properties of overlap, containment and matching follow.
\<close>

section \<open>The product search is a worklist\<close>

definition pair_after ::
  "segment_token list \<Rightarrow> segment_token list \<Rightarrow> string list \<Rightarrow> int list \<Rightarrow> lang_pair" where
  "pair_after left right predicates w =
     \<lparr>lp_left = segs.run predicates left w, lp_right = segs.run predicates right w,
      lp_consumed = (w \<noteq> [])\<rparr>"

definition pair_valid :: "segment_token list \<Rightarrow> segment_token list \<Rightarrow> lang_pair \<Rightarrow> bool" where
  "pair_valid left right p \<longleftrightarrow>
     distinct (lp_left p) \<and> distinct (lp_right p) \<and>
     set (lp_left p) \<subseteq> {..length left} \<and> set (lp_right p) \<subseteq> {..length right}"

lemma pair_after_start:
  "pair_after left right predicates []
     = \<lparr>lp_left = pathClosure left [0], lp_right = pathClosure right [0], lp_consumed = False\<rparr>"
  by (simp add: pair_after_def segs.run_Nil)

lemma pair_after_valid: "pair_valid left right (pair_after left right predicates w)"
  by (simp add: pair_valid_def pair_after_def segs.run_distinct segs.run_bound)

lemma two_part_key:
  assumes "CHR ''|'' \<notin> set a" "CHR ''|'' \<notin> set b" "CHR ''|'' \<notin> set c" "CHR ''|'' \<notin> set d"
  shows "a @ ''|'' @ b = c @ ''|'' @ d \<longleftrightarrow> a = c \<and> b = d"
proof
  assume eq: "a @ ''|'' @ b = c @ ''|'' @ d"
  have "[a, b] = [c, d]"
    by (rule js_join_inj [of _ _ "CHR ''|''"]) (use assms eq in simp_all)
  then show "a = c \<and> b = d" by simp
qed simp

lemma pair_key_eq:
  assumes "pair_valid left right s" "pair_valid left right t"
  shows "pair_key s = pair_key t \<longleftrightarrow>
    lp_consumed s = lp_consumed t \<and> set (lp_left s) = set (lp_left t) \<and> set (lp_right s) = set (lp_right t)"
proof -
  have "pair_key s = pair_key t \<longleftrightarrow> lp_consumed s = lp_consumed t \<and>
    stateKey (lp_left s) @ ''|'' @ stateKey (lp_right s) = stateKey (lp_left t) @ ''|'' @ stateKey (lp_right t)"
    by (auto simp: pair_key_def)
  then show ?thesis
    using assms two_part_key [OF stateKey_no_bar stateKey_no_bar stateKey_no_bar stateKey_no_bar]
    by (simp add: stateKey_eq pair_valid_def)
qed

lemma finite_pair_valid: "finite {p. pair_valid left right p}"
proof -
  let ?A = "{xs. distinct xs \<and> set xs \<subseteq> {..length left}}"
  let ?B = "{xs. distinct xs \<and> set xs \<subseteq> {..length right}}"
  let ?f = "\<lambda>(a, b, c). \<lparr>lp_left = a, lp_right = b, lp_consumed = c\<rparr>"
  have "finite (?f ` (?A \<times> ?B \<times> UNIV))"
    by (intro finite_imageI finite_cartesian_product finite_position_lists) simp
  moreover have "{p. pair_valid left right p} \<subseteq> ?f ` (?A \<times> ?B \<times> UNIV)"
  proof
    fix p
    assume "p \<in> {p. pair_valid left right p}"
    then have "(lp_left p, lp_right p, lp_consumed p) \<in> ?A \<times> ?B \<times> UNIV"
      by (simp add: pair_valid_def)
    moreover have "p = ?f (lp_left p, lp_right p, lp_consumed p)" by simp
    ultimately show "p \<in> ?f ` (?A \<times> ?B \<times> UNIV)" by (rule rev_image_eqI)
  qed
  ultimately show ?thesis by (rule rev_finite_subset)
qed

lemma moveSegment_bounded:
  assumes "set st \<subseteq> {..length toks}"
  shows "set (moveSegment toks st a predicates) \<subseteq> {..length toks}"
proof
  fix q
  assume "q \<in> set (moveSegment toks st a predicates)"
  then obtain r where r:
    "r \<in> glob_advance is_double_star (token_sat predicates) toks (set st) a"
    "star_run is_double_star toks r q" by (auto simp: segs.move star_hull_def)
  have "r \<le> length toks" using r(1) assms by (auto simp: glob_advance_def star_at_def)
  show "q \<in> {..length toks}"
  proof (cases "r = q")
    case False
    with r(2) have "star_at is_double_star toks (q - 1)" "0 < q" by (auto simp: star_run_def)
    then show ?thesis by (auto simp: star_at_def)
  qed (use \<open>r \<le> length toks\<close> in simp)
qed

definition pair_step ::
  "segment_token list \<Rightarrow> segment_token list \<Rightarrow> string list \<Rightarrow> lang_pair \<Rightarrow> int \<Rightarrow> lang_pair" where
  "pair_step left right predicates p a =
     \<lparr>lp_left = moveSegment left (lp_left p) a predicates,
      lp_right = moveSegment right (lp_right p) a predicates, lp_consumed = True\<rparr>"

definition pair_alive :: "compare_mode \<Rightarrow> lang_pair \<Rightarrow> bool" where
  "pair_alive mode p \<longleftrightarrow> lp_left p \<noteq> [] \<and> (mode = Overlap \<longrightarrow> lp_right p \<noteq> [])"

lemma pair_succ_set:
  "set (pair_succ left right mode predicates atoms p) =
     {pair_step left right predicates p a | a. a \<in> set atoms \<and> pair_alive mode (pair_step left right predicates p a)}"
  by (auto simp: pair_succ_def pair_step_def pair_alive_def Let_def split: if_splits)

lemma pair_step_after:
  "pair_step left right predicates (pair_after left right predicates w) a
     = pair_after left right predicates (w @ [a])"
  by (simp add: pair_step_def pair_after_def segs.run_snoc)

lemma pair_step_valid: "pair_valid left right p \<Longrightarrow> pair_valid left right (pair_step left right predicates p a)"
  by (simp add: pair_valid_def pair_step_def segs.move_distinct moveSegment_bounded)

lemma pair_step_keys:
  assumes "pair_valid left right s" "pair_valid left right t" "pair_key s = pair_key t"
  shows "pair_key (pair_step left right predicates s a) = pair_key (pair_step left right predicates t a)"
    and "pair_alive mode (pair_step left right predicates s a) = pair_alive mode (pair_step left right predicates t a)"
proof -
  have l: "set (lp_left s) = set (lp_left t)" and r: "set (lp_right s) = set (lp_right t)"
    using assms pair_key_eq by blast+
  note m = segs.move_set_cong [OF l, of left a predicates] segs.move_set_cong [OF r, of right a predicates]
  show "pair_key (pair_step left right predicates s a) = pair_key (pair_step left right predicates t a)"
    using pair_key_eq [OF pair_step_valid [OF assms(1)] pair_step_valid [OF assms(2)]] m
    by (simp add: pair_step_def)
  have nil: "xs = [] \<longleftrightarrow> ys = []" if "set xs = set ys" for xs ys :: "nat list"
    using that by (metis set_empty)
  show "pair_alive mode (pair_step left right predicates s a) = pair_alive mode (pair_step left right predicates t a)"
    using nil [OF m(1)] nil [OF m(2)] by (simp add: pair_alive_def pair_step_def)
qed

interpretation pairs: worklist "pair_succ left right mode predicates atoms" pair_key
  "pair_after left right predicates []" "pair_valid left right"
  for left right mode predicates atoms
proof
  show "finite (pair_key ` {p. pair_valid left right p})" using finite_pair_valid by blast
  show "pair_valid left right (pair_after left right predicates [])" by (rule pair_after_valid)
  show "pair_valid left right t"
    if "pair_valid left right s" "t \<in> set (pair_succ left right mode predicates atoms s)" for s t
    using that by (auto simp: pair_succ_set pair_step_valid)
  show "pair_key ` set (pair_succ left right mode predicates atoms s)
    = pair_key ` set (pair_succ left right mode predicates atoms t)"
    if v: "pair_valid left right s" "pair_valid left right t" "pair_key s = pair_key t" for s t
  proof -
    have sub: "pair_key ` set (pair_succ left right mode predicates atoms x)
      \<subseteq> pair_key ` set (pair_succ left right mode predicates atoms y)"
      if "pair_valid left right x" "pair_valid left right y" "pair_key x = pair_key y" for x y
    proof
      fix k
      assume "k \<in> pair_key ` set (pair_succ left right mode predicates atoms x)"
      then obtain a where a: "a \<in> set atoms" "pair_alive mode (pair_step left right predicates x a)"
        "k = pair_key (pair_step left right predicates x a)" by (auto simp: pair_succ_set)
      have "pair_step left right predicates y a \<in> set (pair_succ left right mode predicates atoms y)"
        using a(1,2) pair_step_keys(2) [OF that] by (auto simp: pair_succ_set)
      moreover have "k = pair_key (pair_step left right predicates y a)"
        using a(3) pair_step_keys(1) [OF that] by simp
      ultimately show "k \<in> pair_key ` set (pair_succ left right mode predicates atoms y)" by blast
    qed
    show ?thesis using sub [OF v] sub [OF v(2,1) v(3) [symmetric]] by blast
  qed
qed


section \<open>Reachable pairs\<close>

lemma pairs_reach_after:
  assumes "pairs.reach left right mode predicates atoms st"
  shows "\<exists>w. set w \<subseteq> set atoms \<and> st = pair_after left right predicates w"
  using assms
proof (induction rule: pairs.reach.induct)
  case reach_start
  show ?case by (rule exI [of _ "[]"]) simp
next
  case (reach_step s t)
  then obtain w a where "set w \<subseteq> set atoms" "a \<in> set atoms"
    "t = pair_after left right predicates (w @ [a])"
    by (auto simp: pair_succ_set pair_step_after)
  then show ?case by (intro exI [of _ "w @ [a]"]) auto
qed

lemma moveSegment_Nil: "moveSegment toks [] a predicates = []"
  by (simp add: moveSegment_def pathClosure_def eps_closure_def eps_loop.simps [of _ _ "[]" "[]"])

lemma run_dead: "segs.run predicates toks w = [] \<Longrightarrow> segs.run predicates toks (w @ [a]) = []"
  by (simp add: segs.run_snoc moveSegment_Nil)

lemma pairs_reach_alive:
  assumes "set w \<subseteq> set atoms" "w = [] \<or> pair_alive mode (pair_after left right predicates w)"
  shows "pairs.reach left right mode predicates atoms (pair_after left right predicates w)"
  using assms
proof (induction w rule: rev_induct)
  case Nil
  show ?case by (rule pairs.reach.reach_start)
next
  case (snoc a w)
  have alive: "pair_alive mode (pair_after left right predicates (w @ [a]))" using snoc.prems(2) by simp
  then have "pair_alive mode (pair_after left right predicates w)"
    using run_dead by (auto simp: pair_alive_def pair_after_def)
  then have "pairs.reach left right mode predicates atoms (pair_after left right predicates w)"
    using snoc by simp
  moreover have "pair_after left right predicates (w @ [a])
    \<in> set (pair_succ left right mode predicates atoms (pair_after left right predicates w))"
    using snoc.prems(1) alive by (auto simp: pair_succ_set pair_step_after)
  ultimately show ?case by (rule pairs.reach.reach_step)
qed

definition stop_word ::
  "segment_token list \<Rightarrow> segment_token list \<Rightarrow> compare_mode \<Rightarrow> string list \<Rightarrow> int list \<Rightarrow> bool" where
  "stop_word left right mode predicates w \<longleftrightarrow>
     w \<noteq> [] \<and> gmatch is_double_star (token_sat predicates) left w \<and>
     gmatch is_double_star (token_sat predicates) right w = (mode = Overlap)"

lemma pair_stop_after:
  "pair_stop left right mode (pair_after left right predicates w) \<longleftrightarrow> stop_word left right mode predicates w"
  by (cases mode) (auto simp: pair_stop_def pair_after_def stop_word_def segs.run_accepts Let_def)

lemma stop_word_alive:
  assumes "stop_word left right mode predicates w"
  shows "pair_alive mode (pair_after left right predicates w)"
proof -
  have "length toks \<in> set (segs.run predicates toks w)"
    if "gmatch is_double_star (token_sat predicates) toks w" for toks
    using that by (simp add: segs.run_accepts)
  then have "segs.run predicates toks w \<noteq> []"
    if "gmatch is_double_star (token_sat predicates) toks w" for toks
    using that by fastforce
  with assms show ?thesis by (simp add: stop_word_def pair_alive_def pair_after_def)
qed

lemma pairs_stop_reach:
  "(\<exists>s. pairs.reach left right mode predicates atoms s \<and> pair_stop left right mode s)
     \<longleftrightarrow> (\<exists>w. set w \<subseteq> set atoms \<and> stop_word left right mode predicates w)"
proof
  assume "\<exists>s. pairs.reach left right mode predicates atoms s \<and> pair_stop left right mode s"
  then obtain s where s: "pairs.reach left right mode predicates atoms s" "pair_stop left right mode s"
    by blast
  from pairs_reach_after [OF s(1)] obtain w where
    w: "set w \<subseteq> set atoms" "s = pair_after left right predicates w" by blast
  with s(2) pair_stop_after show "\<exists>w. set w \<subseteq> set atoms \<and> stop_word left right mode predicates w"
    by blast
next
  assume "\<exists>w. set w \<subseteq> set atoms \<and> stop_word left right mode predicates w"
  then obtain w where w: "set w \<subseteq> set atoms" "stop_word left right mode predicates w" by blast
  have "pairs.reach left right mode predicates atoms (pair_after left right predicates w)"
    using w(1) stop_word_alive [OF w(2)] by (intro pairs_reach_alive) auto
  with w(2) pair_stop_after
  show "\<exists>s. pairs.reach left right mode predicates atoms s \<and> pair_stop left right mode s" by blast
qed

section \<open>The search decides\<close>

lemma compare_run_eq:
  "compare_run left right mode =
     wl_run (pair_succ left right mode (segment_predicates (left @ right))
         (realizableSegmentAtoms (segment_predicates (left @ right))))
       pair_key (pair_stop left right mode) (\<lambda>_ u. u)
       (pair_after left right (segment_predicates (left @ right)) []) ()"
  by (simp add: compare_run_def Let_def pair_after_start)

lemma compare_run_terminates: "\<exists>st. compare_run left right mode = Some st"
  unfolding compare_run_eq by (rule pairs.wl_run_terminates)

lemma pair_stop_key:
  assumes "pair_valid left right s" "pair_valid left right t" "pair_key s = pair_key t"
  shows "pair_stop left right mode s = pair_stop left right mode t"
proof -
  have "lp_consumed s = lp_consumed t" "set (lp_left s) = set (lp_left t)" "set (lp_right s) = set (lp_right t)"
    using assms pair_key_eq by blast+
  then show ?thesis by (simp add: pair_stop_def)
qed

lemma compare_run_halted:
  assumes "compare_run left right mode = Some st"
  shows "halted st \<longleftrightarrow> (\<exists>w. set w \<subseteq> set (realizableSegmentAtoms (segment_predicates (left @ right)))
    \<and> stop_word left right mode (segment_predicates (left @ right)) w)"
proof -
  have "halted st \<longleftrightarrow> (\<exists>s. pairs.reach left right mode (segment_predicates (left @ right))
      (realizableSegmentAtoms (segment_predicates (left @ right))) s \<and> pair_stop left right mode s)"
    by (rule pairs.wl_run_decides [OF assms [unfolded compare_run_eq]]) (rule pair_stop_key)
  then show ?thesis unfolding pairs_stop_reach .
qed

lemma atoms_words:
  assumes "distinct predicates"
  shows "set w \<subseteq> set (realizableSegmentAtoms predicates) \<longleftrightarrow>
    (\<exists>segs. [] \<notin> set segs \<and> w = map (atom_of predicates) segs)"
proof
  assume "set w \<subseteq> set (realizableSegmentAtoms predicates)"
  then have "\<forall>a \<in> set w. \<exists>s. s \<noteq> [] \<and> a = atom_of predicates s"
    unfolding realizable_atoms [OF assms] by blast
  then show "\<exists>segs. [] \<notin> set segs \<and> w = map (atom_of predicates) segs"
  proof (induction w)
    case Nil
    then show ?case by simp
  next
    case (Cons a w)
    then obtain s segs where "s \<noteq> []" "a = atom_of predicates s" "[] \<notin> set segs"
      "w = map (atom_of predicates) segs" by auto
    then show ?case by (intro exI [of _ "s # segs"]) simp
  qed
next
  assume "\<exists>segs. [] \<notin> set segs \<and> w = map (atom_of predicates) segs"
  then show "set w \<subseteq> set (realizableSegmentAtoms predicates)"
    unfolding realizable_atoms [OF assms] by fastforce
qed

lemma compare_halted_segments:
  assumes "compare_run left right mode = Some st"
  shows "halted st \<longleftrightarrow> (\<exists>segs. segs \<noteq> [] \<and> [] \<notin> set segs \<and>
    gmatch is_double_star token_matches left segs \<and>
    gmatch is_double_star token_matches right segs = (mode = Overlap))"
proof -
  define preds where "preds = segment_predicates (left @ right)"
  have "distinct preds" by (simp add: preds_def segment_predicates_def)
  note words = atoms_words [OF this]
  have l: "gmatch is_double_star (token_sat preds) left (map (atom_of preds) segs)
      = gmatch is_double_star token_matches left segs" for segs
    by (rule gmatch_atoms) (simp add: preds_def segment_predicates_set)
  have r: "gmatch is_double_star (token_sat preds) right (map (atom_of preds) segs)
      = gmatch is_double_star token_matches right segs" for segs
    by (rule gmatch_atoms) (simp add: preds_def segment_predicates_set)
  have "halted st \<longleftrightarrow> (\<exists>w. set w \<subseteq> set (realizableSegmentAtoms preds) \<and> stop_word left right mode preds w)"
    using compare_run_halted [OF assms] by (simp add: preds_def)
  also have "\<dots> \<longleftrightarrow> (\<exists>segs. [] \<notin> set segs \<and> stop_word left right mode preds (map (atom_of preds) segs))"
    unfolding words by blast
  also have "\<dots> \<longleftrightarrow> (\<exists>segs. segs \<noteq> [] \<and> [] \<notin> set segs \<and>
    gmatch is_double_star token_matches left segs \<and>
    gmatch is_double_star token_matches right segs = (mode = Overlap))"
    by (auto simp: stop_word_def l r)
  finally show ?thesis .
qed

lemma compareLanguages_decides:
  "compareLanguages l r mode \<longleftrightarrow>
     (if mode = Overlap
      then \<exists>segs. [] \<notin> set segs \<and> matchesParsed l segs \<and> matchesParsed r segs
      else \<forall>segs. [] \<notin> set segs \<longrightarrow> matchesParsed l segs \<longrightarrow> matchesParsed r segs)"
proof -
  obtain st where st: "compare_run (pp_tokens l) (pp_tokens r) mode = Some st"
    using compare_run_terminates by blast
  show ?thesis
    using compare_halted_segments [OF st] st
    by (cases mode) (auto simp: compareLanguages_def matchesParsed_gmatch)
qed


section \<open>Samples for the witnesses\<close>

lemmas match_eval = matchesPathPattern_def matchesParsed_gmatch segmentMatches_gmatch is_star_char_def

lemma sample_parses:
  "parsePathPattern ''src/*'' =
     Inr \<lparr>pp_source = ''src/*'', pp_kind = Pattern, pp_tokens = [Segment ''src'', Segment ''*'']\<rparr>"
  "parsePathPattern ''src/**'' =
     Inr \<lparr>pp_source = ''src/**'', pp_kind = Directory, pp_tokens = [Segment ''src'', DoubleStar]\<rparr>"
  "parsePathPattern ''**/a.ts'' =
     Inr \<lparr>pp_source = ''**/a.ts'', pp_kind = Pattern, pp_tokens = [DoubleStar, Segment ''a.ts'']\<rparr>"
  "parseConcretePath ''src/a.ts'' = Inr [''src'', ''a.ts'']"
  by code_simp+

section \<open>Properties\<close>

definition path_language :: "parsed_pattern \<Rightarrow> string list set" where
  "path_language p = {segs. [] \<notin> set segs \<and> matchesParsed p segs}"

lemma compareLanguages_language:
  "compareLanguages l r Overlap \<longleftrightarrow> path_language l \<inter> path_language r \<noteq> {}"
  "compareLanguages l r Subset \<longleftrightarrow> path_language l \<subseteq> path_language r"
  by (auto simp: compareLanguages_decides path_language_def)

lemma sample_within: "pathPatternWithin ''src/*'' ''src/**''"
proof -
  have "gmatch is_double_star token_matches [Segment ''src'', DoubleStar] segs"
    if "gmatch is_double_star token_matches [Segment ''src'', Segment ''*''] segs" for segs
    using that gmatch_star_any [of is_double_star DoubleStar token_matches "tl segs"] by (cases segs) auto
  then show ?thesis
    by (auto simp: pathPatternWithin_def sample_parses compareLanguages_language path_language_def
        matchesParsed_gmatch)
qed

text \<open>
  C11: two patterns overlap exactly when both parse and some list of non-empty segments is matched
  by both. The product search over truth vectors neither misses a common path nor invents one.
\<close>

theorem pathPatternsOverlap_decides:
  "pathPatternsOverlap left right \<longleftrightarrow>
     (\<exists>l r. parsePathPattern left = Inr l \<and> parsePathPattern right = Inr r
       \<and> path_language l \<inter> path_language r \<noteq> {})"
  by (auto simp: pathPatternsOverlap_def compareLanguages_language split: sum.splits)

text \<open>
  C30: a pattern is within another exactly when both parse and every list of non-empty segments
  the first matches is matched by the second.
\<close>

theorem pathPatternWithin_decides:
  "pathPatternWithin candidate root \<longleftrightarrow>
     (\<exists>c r. parsePathPattern candidate = Inr c \<and> parsePathPattern root = Inr r
       \<and> path_language c \<subseteq> path_language r)"
  by (auto simp: pathPatternWithin_def compareLanguages_language split: sum.splits)

text \<open>
  C31: both worklist loops of the comparison end for all token lists, predicates and modes: the
  search for realizable atoms and the product search return.
\<close>

theorem comparison_terminates:
  "(\<exists>st. atoms_run predicates = Some st) \<and> (\<exists>st. compare_run left right mode = Some st)"
  using atoms_run_terminates compare_run_terminates by blast

lemma fill_matches:
  assumes "matchesParsed p segs"
  shows "matchesParsed p (map (\<lambda>s. if s = [] then ''x'' else s) segs)"
proof -
  have "token_matches t s \<Longrightarrow> token_matches t (if s = [] then ''x'' else s)" for t s
    by (cases t) (auto simp: segmentMatches_def)
  moreover have "gmatch is_double_star token_matches (pp_tokens p) segs" and "segs \<noteq> []"
    using assms by (simp_all add: matchesParsed_gmatch)
  ultimately have "gmatch is_double_star (\<lambda>t s. token_matches t (if s = [] then ''x'' else s)) (pp_tokens p) segs"
    by (blast intro: gmatch_mono)
  with \<open>segs \<noteq> []\<close> show ?thesis unfolding matchesParsed_gmatch gmatch_map by simp
qed

lemma overlap_of_common_path:
  assumes "matchesPathPattern left path" "matchesPathPattern right path"
  shows "pathPatternsOverlap left right"
proof -
  from assms obtain l r segs where "parsePathPattern left = Inr l" "parsePathPattern right = Inr r"
    "matchesParsed l segs" "matchesParsed r segs" by (auto simp: matchesPathPattern_iff)
  moreover have "[] \<notin> set (map (\<lambda>s. if s = [] then ''x'' else s) segs)" by auto
  ultimately have "map (\<lambda>s. if s = [] then ''x'' else s) segs \<in> path_language l \<inter> path_language r"
    using fill_matches by (simp add: path_language_def)
  with \<open>parsePathPattern left = Inr l\<close> \<open>parsePathPattern right = Inr r\<close> show ?thesis
    unfolding pathPatternsOverlap_def by (auto simp: compareLanguages_language)
qed

text \<open>
  if one concrete path matches two patterns, the patterns overlap. The denylist check rests
  on this: a pattern that does not overlap a denied one admits no denied path.
\<close>

theorem common_path_overlaps:
  assumes "matchesPathPattern left path" "matchesPathPattern right path"
  shows "pathPatternsOverlap left right"
  using assms by (rule overlap_of_common_path)

theorem common_path_overlaps_witness:
  "pathPatternsOverlap ''src/*'' ''**/a.ts''"
  by (rule common_path_overlaps [where path = "''src/a.ts''"])
    (simp_all add: match_eval sample_parses)

lemma match_of_within:
  assumes "pathPatternWithin candidate root" "matchesPathPattern candidate path"
    and "parseConcretePath path = Inr segs" "[] \<notin> set segs"
  shows "matchesPathPattern root path"
proof -
  from assms(1) obtain c r where cr: "parsePathPattern candidate = Inr c" "parsePathPattern root = Inr r"
    "path_language c \<subseteq> path_language r"
    by (auto simp: pathPatternWithin_def compareLanguages_language split: sum.splits)
  from assms(2,3) cr(1) have "matchesParsed c segs" by (auto simp: matchesPathPattern_iff)
  with assms(4) cr(3) have "matchesParsed r segs" by (auto simp: path_language_def)
  with cr(2) assms(3) show ?thesis by (auto simp: matchesPathPattern_iff)
qed

text \<open>
  a concrete path with no empty segment that matches the candidate matches the root when the
  candidate is within the root.
\<close>

theorem within_carries_match:
  assumes "pathPatternWithin candidate root" "matchesPathPattern candidate path"
    and "parseConcretePath path = Inr segs" "[] \<notin> set segs"
  shows "matchesPathPattern root path"
  using assms by (rule match_of_within)

theorem within_carries_match_witness: "matchesPathPattern ''src/**'' ''src/a.ts''"
  by (rule within_carries_match [OF sample_within, of _ "[''src'', ''a.ts'']"])
    (simp_all add: match_eval sample_parses)

end
