(* ===== verification/Issue_Fences.thy ===== *)
theory Issue_Fences
  imports Prelude
begin

text \<open>
  The scope fences of an issue body, \<open>plugins/_shared/lib/issue_parser.ts\<close>: blocks opened by
  three backquotes and \<open>denylist\<close> or \<open>allowed-roots\<close>, closed by the next three backquotes. The
  regular expression \<open>FENCE_PATTERN\<close> is written out as a scanner: \<open>fence_at\<close> is a match at the
  head of the text, \<open>scan_fences\<close> the \<open>exec\<close> loop that resumes at \<open>lastIndex\<close>.
\<close>

section \<open>Definitions\<close>

datatype fence_kind = Denylist_Fence | Allowed_Roots_Fence

record issue_constraints =
  ic_denylist :: "string list"
  ic_allowed_roots :: "string list option"

record fence_occurrence =
  fo_kind :: fence_kind
  fo_start :: nat
  fo_end :: nat
  fo_entry_offset :: nat
  fo_entries :: "string list"

definition newline :: char where "newline = CHR 0x0A"
definition carriage :: char where "carriage = CHR 0x0D"
definition fence_mark :: string where "fence_mark = [CHR 0x60, CHR 0x60, CHR 0x60]"

fun kind_word :: "fence_kind \<Rightarrow> string" where
  "kind_word Denylist_Fence = ''denylist''"
| "kind_word Allowed_Roots_Fence = ''allowed-roots''"

text \<open>The alternation of the pattern, compared without case.\<close>

definition keyword_at :: "string \<Rightarrow> (fence_kind \<times> string) option" where
  "keyword_at s =
     (if js_lower (take 8 s) = kind_word Denylist_Fence then Some (Denylist_Fence, drop 8 s)
      else if js_lower (take 13 s) = kind_word Allowed_Roots_Fence then Some (Allowed_Roots_Fence, drop 13 s)
      else None)"

text \<open>
  \<open>\s*\r?\n\<close> is greedy and white space holds the line ends: the match reaches past the last
  newline of the white space that follows the keyword.
\<close>

definition after_header :: "string \<Rightarrow> string option" where
  "after_header s =
     (let space = takeWhile js_space s in
      if newline \<in> set space
      then Some (drop (length space - length (takeWhile (\<lambda>c. c \<noteq> newline) (rev space))) s)
      else None)"

fun until_mark :: "string \<Rightarrow> string option" where
  "until_mark [] = None"
| "until_mark (c # s) =
     (if js_starts_with fence_mark (c # s) then Some [] else map_option (Cons c) (until_mark s))"

text \<open>A match at the head of the text: its kind, its block and its length.\<close>

definition fence_at :: "string \<Rightarrow> (fence_kind \<times> string \<times> nat) option" where
  "fence_at s =
     (if js_starts_with fence_mark s
      then (case keyword_at (drop 3 s) of
              None \<Rightarrow> None
            | Some (kind, rest) \<Rightarrow>
                (case after_header rest of
                   None \<Rightarrow> None
                 | Some block_start \<Rightarrow>
                     (case until_mark block_start of
                        None \<Rightarrow> None
                      | Some block \<Rightarrow>
                          Some (kind, block, length s - length block_start + length block + 3))))
      else None)"

definition chomp_cr :: "string \<Rightarrow> string" where
  "chomp_cr l = (if l \<noteq> [] \<and> last l = carriage then butlast l else l)"

fun chomp_lines :: "string list \<Rightarrow> string list" where
  "chomp_lines (x # y # ys) = chomp_cr x # chomp_lines (y # ys)"
| "chomp_lines xs = xs"

definition split_lines :: "string \<Rightarrow> string list" where
  "split_lines s = chomp_lines (js_split newline s)"

definition parseFenceLines :: "string \<Rightarrow> string list" where
  "parseFenceLines block =
     filter (\<lambda>line. 0 < length line \<and> \<not> js_starts_with ''#'' line) (map js_trim (split_lines block))"

lemma fence_at_length: "fence_at s = Some (kind, block, n) \<Longrightarrow> 0 < n"
  by (auto simp: fence_at_def split: if_splits option.splits prod.splits)

function scan_fences :: "nat \<Rightarrow> string \<Rightarrow> (fence_kind \<times> nat \<times> nat \<times> string list) list" where
  "scan_fences pos s =
     (case s of
        [] \<Rightarrow> []
      | c # cs \<Rightarrow>
          (case fence_at s of
             Some (kind, block, n) \<Rightarrow>
               (kind, pos, pos + n, parseFenceLines block) # scan_fences (pos + n) (drop n s)
           | None \<Rightarrow> scan_fences (Suc pos) cs))"
  by pat_completeness auto
termination
  by (relation "measure (\<lambda>(pos, s). length s)") (auto dest: fence_at_length)

declare scan_fences.simps [simp del]

type_synonym fence_state = "string list \<times> string list \<times> fence_occurrence list"

definition fence_step :: "fence_state \<Rightarrow> fence_kind \<times> nat \<times> nat \<times> string list \<Rightarrow> fence_state" where
  "fence_step = (\<lambda>(denylist, allowed_roots, occurrences) (kind, start, finish, entries).
     let field = (if kind = Denylist_Fence then denylist else allowed_roots);
         occurrence = \<lparr>fo_kind = kind, fo_start = start, fo_end = finish,
                       fo_entry_offset = length field, fo_entries = entries\<rparr>
     in (if kind = Denylist_Fence then denylist @ entries else denylist,
         if kind = Denylist_Fence then allowed_roots else allowed_roots @ entries,
         occurrences @ [occurrence]))"

definition parseIssueScopeFences :: "string \<Rightarrow> issue_constraints \<times> fence_occurrence list" where
  "parseIssueScopeFences body =
     (let (denylist, allowed_roots, occurrences) = foldl fence_step ([], [], []) (scan_fences 0 body)
      in (\<lparr>ic_denylist = denylist,
           ic_allowed_roots = (if 0 < length allowed_roots then Some allowed_roots else None)\<rparr>,
          occurrences))"

definition parseIssueBody :: "string \<Rightarrow> string + issue_constraints" where
  "parseIssueBody body =
     (let (constraints, occurrences) = parseIssueScopeFences body in
      if \<not> list_ex (\<lambda>fence. fo_kind fence = Denylist_Fence) occurrences
      then Inl (''issue body is missing mandatory '' @ fence_mark @ ''denylist fenced block'')
      else Inr constraints)"

section \<open>What the loop collects\<close>

definition entries_of :: "fence_kind \<Rightarrow> fence_occurrence list \<Rightarrow> string list" where
  "entries_of kind occs = concat (map fo_entries (filter (\<lambda>f. fo_kind f = kind) occs))"

definition fence_inv :: "fence_state \<Rightarrow> bool" where
  "fence_inv = (\<lambda>(denylist, allowed_roots, occs).
     denylist = entries_of Denylist_Fence occs \<and> allowed_roots = entries_of Allowed_Roots_Fence occs \<and>
     (\<forall>i < length occs. fo_entry_offset (occs ! i)
        = length (entries_of (fo_kind (occs ! i)) (take i occs))))"

lemma fence_step_inv: "fence_inv st \<Longrightarrow> fence_inv (fence_step st f)"
  by (cases st; cases f)
    (auto simp: fence_inv_def fence_step_def entries_of_def nth_append less_Suc_eq Let_def
      split: fence_kind.splits if_splits intro: fence_kind.exhaust)

lemma fence_fold_inv: "fence_inv st \<Longrightarrow> fence_inv (foldl fence_step st fs)"
  by (induction fs arbitrary: st) (simp_all add: fence_step_inv)

lemma fence_fold_occurrences:
  "map (\<lambda>f. (fo_kind f, fo_start f, fo_end f, fo_entries f)) (snd (snd (foldl fence_step st fs)))
     = map (\<lambda>f. (fo_kind f, fo_start f, fo_end f, fo_entries f)) (snd (snd st)) @ fs"
  by (induction fs arbitrary: st) (auto simp: fence_step_def Let_def)

lemma parse_fences_inv:
  assumes "parseIssueScopeFences body = (constraints, occs)"
  shows "ic_denylist constraints = entries_of Denylist_Fence occs"
    and "ic_allowed_roots constraints = (if entries_of Allowed_Roots_Fence occs = [] then None
      else Some (entries_of Allowed_Roots_Fence occs))"
    and "i < length occs \<Longrightarrow> fo_entry_offset (occs ! i)
      = length (entries_of (fo_kind (occs ! i)) (take i occs))"
    and "map (\<lambda>f. (fo_kind f, fo_start f, fo_end f, fo_entries f)) occs = scan_fences 0 body"
proof -
  obtain d a o' where r: "foldl fence_step ([], [], []) (scan_fences 0 body) = (d, a, o')"
    using prod_cases3 by blast
  have "fence_inv (d, a, o')"
    using fence_fold_inv [of "([], [], [])" "scan_fences 0 body"] r
    by (simp add: fence_inv_def entries_of_def)
  moreover have "o' = occs" and "ic_denylist constraints = d"
    and "ic_allowed_roots constraints = (if 0 < length a then Some a else None)"
    using assms r by (auto simp: parseIssueScopeFences_def)
  ultimately show "ic_denylist constraints = entries_of Denylist_Fence occs"
    and "ic_allowed_roots constraints = (if entries_of Allowed_Roots_Fence occs = [] then None
      else Some (entries_of Allowed_Roots_Fence occs))"
    and "i < length occs \<Longrightarrow> fo_entry_offset (occs ! i)
      = length (entries_of (fo_kind (occs ! i)) (take i occs))"
    by (auto simp: fence_inv_def)
  show "map (\<lambda>f. (fo_kind f, fo_start f, fo_end f, fo_entries f)) occs = scan_fences 0 body"
    using fence_fold_occurrences [of "([], [], [])" "scan_fences 0 body"] r \<open>o' = occs\<close> by simp
qed


section \<open>Where the fences are\<close>

lemma until_mark_Some: "until_mark s = Some block \<Longrightarrow> \<exists>r. s = block @ fence_mark @ r"
proof (induction s arbitrary: block)
  case (Cons c s)
  show ?case
  proof (cases "js_starts_with fence_mark (c # s)")
    case True
    with Cons.prems show ?thesis by (auto simp: js_starts_with_conv)
  next
    case False
    with Cons.prems obtain b where "until_mark s = Some b" "block = c # b" by auto
    with Cons.IH show ?thesis by auto
  qed
qed simp

lemma keyword_at_drop: "keyword_at s = Some (kind, r) \<Longrightarrow> \<exists>n. r = drop n s"
  by (auto simp: keyword_at_def split: if_splits)

lemma after_header_drop: "after_header s = Some r \<Longrightarrow> \<exists>n. r = drop n s"
  by (auto simp: after_header_def Let_def split: if_splits)

lemma fence_at_shape:
  assumes "fence_at s = Some (kind, block, n)"
  shows "js_starts_with fence_mark s" and "n \<le> length s" and "3 \<le> n"
    and "take 3 (drop (n - 3) s) = fence_mark"
proof -
  from assms obtain rest start where r: "js_starts_with fence_mark s"
    "keyword_at (drop 3 s) = Some (kind, rest)" "after_header rest = Some start"
    "until_mark start = Some block" "n = length s - length start + length block + 3"
    by (auto simp: fence_at_def split: if_splits option.splits prod.splits)
  obtain m where m: "start = drop m s"
    using keyword_at_drop [OF r(2)] after_header_drop [OF r(3)] by auto
  obtain t where t: "start = block @ fence_mark @ t" using until_mark_Some [OF r(4)] by blast
  show "js_starts_with fence_mark s" by (rule r(1))
  show "3 \<le> n" using r(5) by simp
  have len: "length start = length block + 3 + length t" using t by (simp add: fence_mark_def)
  have "length start \<le> length s" using m by simp
  then show "n \<le> length s" using r(5) len by simp
  have split: "s = take (length s - length start) s @ start"
    using m by (cases "m \<le> length s") auto
  have "n - 3 = length (take (length s - length start) s @ block)"
    using r(5) by simp
  then have "drop (n - 3) s = fence_mark @ t"
    using split t by (metis append.assoc append_eq_conv_conj)
  then show "take 3 (drop (n - 3) s) = fence_mark" by (simp add: fence_mark_def)
qed

definition span_before :: "fence_kind \<times> nat \<times> nat \<times> string list \<Rightarrow> fence_kind \<times> nat \<times> nat \<times> string list \<Rightarrow> bool" where
  "span_before x y \<longleftrightarrow> fst (snd (snd x)) \<le> fst (snd y)"

lemma span_beforeI: "b \<le> fst (snd y) \<Longrightarrow> span_before (k, a, b, es) y"
  by (simp add: span_before_def)

lemma scan_Nil: "scan_fences pos [] = []"
  by (simp add: scan_fences.simps)

lemma scan_None: "fence_at (c # cs) = None \<Longrightarrow> scan_fences pos (c # cs) = scan_fences (Suc pos) cs"
  by (simp add: scan_fences.simps [of pos "c # cs"])

lemma scan_Some:
  "fence_at s = Some (kind, block, n) \<Longrightarrow>
     scan_fences pos s = (kind, pos, pos + n, parseFenceLines block) # scan_fences (pos + n) (drop n s)"
proof (cases s)
  case Nil
  moreover assume "fence_at s = Some (kind, block, n)"
  ultimately show ?thesis by (simp add: fence_at_def fence_mark_def js_starts_with_def)
next
  case (Cons c cs)
  moreover assume "fence_at s = Some (kind, block, n)"
  ultimately show ?thesis by (simp add: scan_fences.simps [of pos "c # cs"])
qed

definition fence_span :: "string \<Rightarrow> nat \<Rightarrow> nat \<Rightarrow> bool" where
  "fence_span body a b \<longleftrightarrow>
     a + 3 \<le> b \<and> b \<le> length body \<and> take 3 (drop a body) = fence_mark \<and> take 3 (drop (b - 3) body) = fence_mark"

lemma starts_with_mark: "js_starts_with fence_mark s \<longleftrightarrow> take 3 s = fence_mark"
  by (simp add: js_starts_with_def fence_mark_def numeral_3_eq_3)

lemma drop_Cons_next: "drop pos body = c # cs \<Longrightarrow> Suc pos \<le> length body \<and> cs = drop (Suc pos) body"
proof -
  assume d: "drop pos body = c # cs"
  then have "pos < length body" by (metis drop_eq_Nil list.distinct(1) not_le)
  moreover have "cs = tl (drop pos body)" using d by simp
  ultimately show ?thesis by (simp add: drop_Suc tl_drop)
qed

lemma scan_fences_spans:
  assumes "pos \<le> length body" "s = drop pos body"
  shows "\<forall>(k, a, b, es) \<in> set (scan_fences pos s). pos \<le> a \<and> fence_span body a b"
    and "sorted_wrt span_before (scan_fences pos s)"
  using assms
proof (induction pos s rule: scan_fences.induct)
  case (1 pos s)
  {
    case 1
    show ?case
    proof (cases s)
      case (Cons c cs)
      show ?thesis
      proof (cases "fence_at s")
        case None
        have "\<forall>(k, a, b, es) \<in> set (scan_fences (Suc pos) cs). Suc pos \<le> a \<and> fence_span body a b"
          using "1.IH"(1) [OF Cons None] drop_Cons_next [of pos body c cs] 1 Cons by simp
        then show ?thesis using None Cons by (auto simp: scan_None)
      next
        case (Some f)
        obtain k block n where f: "f = (k, block, n)" by (cases f)
        note sh = fence_at_shape [OF Some [unfolded f]]
        have "\<forall>(k, a, b, es) \<in> set (scan_fences (pos + n) (drop n s)). pos + n \<le> a \<and> fence_span body a b"
          using "1.IH"(3) [OF Cons Some f [symmetric] refl] 1 sh(2) by (simp add: add.commute)
        moreover have "fence_span body pos (pos + n)"
          using sh 1 by (auto simp: fence_span_def starts_with_mark add.commute)
        ultimately show ?thesis using f by (auto simp: scan_Some [OF Some [unfolded f]])
      qed
    qed (simp add: scan_Nil)
  next
    case 2
    show ?case
    proof (cases s)
      case (Cons c cs)
      show ?thesis
      proof (cases "fence_at s")
        case None
        have "sorted_wrt span_before (scan_fences (Suc pos) cs)"
          using "1.IH"(2) [OF Cons None] drop_Cons_next [of pos body c cs] 2 Cons by simp
        then show ?thesis using None Cons by (simp add: scan_None)
      next
        case (Some f)
        obtain k block n where f: "f = (k, block, n)" by (cases f)
        note sh = fence_at_shape [OF Some [unfolded f]]
        have "\<forall>(k, a, b, es) \<in> set (scan_fences (pos + n) (drop n s)). pos + n \<le> a \<and> fence_span body a b"
          "sorted_wrt span_before (scan_fences (pos + n) (drop n s))"
          using "1.IH"(3,4) [OF Cons Some f [symmetric] refl] 2 sh(2) by (simp_all add: add.commute)
        then show ?thesis using span_beforeI by (auto simp: scan_Some [OF Some [unfolded f]])
      qed
    qed (simp add: scan_Nil)
  }
qed


lemma parse_line_clean:
  assumes "e \<in> set (parseFenceLines block)"
  shows "e \<noteq> [] \<and> js_trim e = e \<and> \<not> js_starts_with ''#'' e"
  using assms by (auto simp: parseFenceLines_def)

lemma scan_entries_clean:
  "(k, a, b, es) \<in> set (scan_fences pos s) \<Longrightarrow> e \<in> set es \<Longrightarrow>
     e \<noteq> [] \<and> js_trim e = e \<and> \<not> js_starts_with ''#'' e"
proof (induction pos s rule: scan_fences.induct)
  case (1 pos s)
  show ?case
  proof (cases s)
    case Nil
    with "1.prems"(1) show ?thesis by (simp add: scan_Nil)
  next
    case (Cons c cs)
    show ?thesis
    proof (cases "fence_at s")
      case None
      then show ?thesis using "1.IH"(1) [OF Cons None] "1.prems" Cons by (simp add: scan_None)
    next
      case (Some f)
      obtain kind block n where f: "f = (kind, block, n)" by (cases f)
      note r = scan_Some [OF Some [unfolded f]]
      show ?thesis
      proof (cases "(k, a, b, es) \<in> set (scan_fences (pos + n) (drop n s))")
        case True
        then show ?thesis using "1.IH"(2) [OF Cons Some f [symmetric] refl] "1.prems"(2) by blast
      next
        case False
        then have "es = parseFenceLines block" using "1.prems"(1) r by simp
        then show ?thesis using "1.prems"(2) parse_line_clean by blast
      qed
    qed
  qed
qed

section \<open>Reading back written fences\<close>

definition fence_text :: "fence_kind \<Rightarrow> string list \<Rightarrow> string" where
  "fence_text kind entries =
     fence_mark @ kind_word kind @ [newline] @ concat (map (\<lambda>e. e @ [newline]) entries) @ fence_mark"

definition tick_free :: "string \<Rightarrow> bool" where
  "tick_free s \<longleftrightarrow> CHR 0x60 \<notin> set s"

definition clean_entry :: "string \<Rightarrow> bool" where
  "clean_entry e \<longleftrightarrow>
     e \<noteq> [] \<and> \<not> js_space (hd e) \<and> \<not> js_space (last e) \<and> \<not> js_starts_with ''#'' e \<and>
     tick_free e \<and> newline \<notin> set e"

lemma newline_space: "js_space newline" "newline \<noteq> CHR 0x60"
  by (simp_all add: js_space_def newline_def)

lemma until_mark_append: "tick_free s \<Longrightarrow> until_mark (s @ fence_mark @ r) = Some s"
proof (induction s)
  case Nil
  show ?case by (simp add: fence_mark_def js_starts_with_conv)
next
  case (Cons c s)
  then show ?case by (auto simp: tick_free_def js_starts_with_conv fence_mark_def)
qed

lemma keyword_at_word: "keyword_at (kind_word kind @ newline # r) = Some (kind, newline # r)"
  by (cases kind) (simp_all add: keyword_at_def js_lower_def js_lower_char_def)

lemma block_lines:
  assumes "\<forall>e \<in> set entries. clean_entry e"
  shows "js_split newline (concat (map (\<lambda>e. e @ [newline]) entries)) = entries @ [[]]"
  using assms by (induction entries) (auto simp: clean_entry_def js_split_append)

lemma chomp_clean: "clean_entry e \<Longrightarrow> chomp_cr e = e"
  by (auto simp: clean_entry_def chomp_cr_def carriage_def js_space_def)

lemma chomp_lines_clean: "\<forall>e \<in> set entries. clean_entry e \<Longrightarrow> chomp_lines (entries @ [[]]) = entries @ [[]]"
proof (induction entries)
  case (Cons e es)
  then show ?case by (cases es) (simp_all add: chomp_clean)
qed simp

lemma parse_block:
  assumes "\<forall>e \<in> set entries. clean_entry e"
  shows "parseFenceLines (concat (map (\<lambda>e. e @ [newline]) entries)) = entries"
proof -
  have "map js_trim entries = entries"
    using assms by (intro map_idI) (auto simp: clean_entry_def js_trim_fixed)
  moreover have "filter (\<lambda>e. 0 < length e \<and> \<not> js_starts_with ''#'' e) entries = entries"
    using assms by (intro filter_True) (auto simp: clean_entry_def)
  ultimately show ?thesis
    by (simp add: parseFenceLines_def split_lines_def block_lines [OF assms] chomp_lines_clean [OF assms] js_trim_def)
qed

lemma after_header_newline:
  assumes "r = [] \<or> \<not> js_space (hd r)"
  shows "after_header (newline # r) = Some r"
proof -
  have "takeWhile js_space (newline # r) = [newline]"
    using assms newline_space(1) by (cases r) auto
  then show ?thesis by (simp add: after_header_def)
qed

lemma fence_at_text:
  assumes "\<forall>e \<in> set entries. clean_entry e"
  shows "fence_at (fence_text kind entries @ r)
    = Some (kind, concat (map (\<lambda>e. e @ [newline]) entries), length (fence_text kind entries))"
proof -
  let ?block = "concat (map (\<lambda>e. e @ [newline]) entries)"
  have start: "?block @ fence_mark @ r = [] \<or> \<not> js_space (hd (?block @ fence_mark @ r))"
  proof (cases entries)
    case Nil
    then show ?thesis by (simp add: fence_mark_def js_space_def)
  next
    case (Cons e es)
    with assms have "e \<noteq> []" "\<not> js_space (hd e)" by (auto simp: clean_entry_def)
    with Cons show ?thesis by simp
  qed
  have tick: "tick_free ?block"
    using assms newline_space(2) by (auto simp: tick_free_def clean_entry_def)
  have "drop 3 (fence_text kind entries @ r) = kind_word kind @ newline # ?block @ fence_mark @ r"
    by (simp add: fence_text_def fence_mark_def)
  then show ?thesis
    using after_header_newline [OF start] until_mark_append [OF tick]
    by (simp add: fence_at_def keyword_at_word)
      (simp add: fence_text_def fence_mark_def js_starts_with_def)
qed

lemma scan_skip: "tick_free t \<Longrightarrow> scan_fences pos (t @ s) = scan_fences (pos + length t) s"
proof (induction t arbitrary: pos)
  case (Cons c t)
  then have "fence_at (c # t @ s) = None"
    by (auto simp: fence_at_def js_starts_with_def tick_free_def fence_mark_def)
  with Cons show ?case by (simp add: scan_None tick_free_def)
qed simp

lemma scan_text:
  assumes "\<forall>e \<in> set entries. clean_entry e"
  shows "scan_fences pos (fence_text kind entries @ s)
    = (kind, pos, pos + length (fence_text kind entries), entries)
        # scan_fences (pos + length (fence_text kind entries)) s"
  by (simp add: scan_Some [OF fence_at_text [OF assms]] parse_block [OF assms])

type_synonym fence_block = "string \<times> fence_kind \<times> string list"

definition body_of :: "fence_block list \<Rightarrow> string \<Rightarrow> string" where
  "body_of blocks tail = concat (map (\<lambda>(t, k, es). t @ fence_text k es) blocks) @ tail"

lemma scan_body:
  assumes "\<forall>(t, k, es) \<in> set blocks. tick_free t \<and> (\<forall>e \<in> set es. clean_entry e)" "tick_free tail"
  shows "map (\<lambda>(k, a, b, es). (k, es)) (scan_fences pos (body_of blocks tail))
    = map (\<lambda>(t, k, es). (k, es)) blocks"
  using assms
proof (induction blocks arbitrary: pos)
  case Nil
  then show ?case using scan_skip [of tail pos "[]"] by (simp add: body_of_def scan_Nil)
next
  case (Cons blk blocks)
  obtain t k es where b: "blk = (t, k, es)" by (cases blk)
  with Cons.prems have t: "tick_free t" "\<forall>e \<in> set es. clean_entry e" by auto
  have "body_of (blk # blocks) tail = t @ fence_text k es @ body_of blocks tail"
    by (simp add: body_of_def b)
  then show ?case using Cons by (simp add: scan_skip [OF t(1)] scan_text [OF t(2)] b)
qed

lemma entries_of_map:
  "entries_of k occs = concat (map snd (filter (\<lambda>p. fst p = k) (map (\<lambda>f. (fo_kind f, fo_entries f)) occs)))"
  by (simp add: entries_of_def filter_map o_def)


section \<open>Properties\<close>

text \<open>
  the occurrences the parser reports are exactly located: each spans text that opens and
  closes with three backquotes inside the body, they come in order without overlapping, each
  entry offset counts the entries of the same kind before it, and every entry is trimmed,
  non-empty and no comment.
\<close>

theorem fences_located:
  "list_all (\<lambda>f. fence_span body (fo_start f) (fo_end f)) (snd (parseIssueScopeFences body))
   \<and> sorted_wrt (\<lambda>f g. fo_end f \<le> fo_start g) (snd (parseIssueScopeFences body))
   \<and> list_all (\<lambda>i. fo_entry_offset (snd (parseIssueScopeFences body) ! i)
        = length (entries_of (fo_kind (snd (parseIssueScopeFences body) ! i))
            (take i (snd (parseIssueScopeFences body)))))
       [0..<length (snd (parseIssueScopeFences body))]
   \<and> list_all (\<lambda>f. list_all (\<lambda>e. e \<noteq> [] \<and> js_trim e = e \<and> \<not> js_starts_with ''#'' e) (fo_entries f))
       (snd (parseIssueScopeFences body))"
proof -
  obtain constraints occs where r: "parseIssueScopeFences body = (constraints, occs)"
    by (metis surj_pair)
  have m: "map (\<lambda>f. (fo_kind f, fo_start f, fo_end f, fo_entries f)) occs = scan_fences 0 body"
    by (rule parse_fences_inv(4) [OF r])
  have mem: "(fo_kind f, fo_start f, fo_end f, fo_entries f) \<in> set (scan_fences 0 body)"
    if "f \<in> set occs" for f using that unfolding m [symmetric] by simp
  have "list_all (\<lambda>f. fence_span body (fo_start f) (fo_end f)) occs"
    using scan_fences_spans(1) [of 0 body body] mem by (fastforce simp: list_all_iff)
  moreover have "sorted_wrt (\<lambda>f g. fo_end f \<le> fo_start g) occs"
    using scan_fences_spans(2) [of 0 body body]
    by (simp add: m [symmetric] sorted_wrt_map span_before_def)
  moreover have "list_all (\<lambda>i. fo_entry_offset (occs ! i)
      = length (entries_of (fo_kind (occs ! i)) (take i occs))) [0..<length occs]"
    using parse_fences_inv(3) [OF r] by (simp add: list_all_iff)
  moreover have "list_all (\<lambda>f. list_all (\<lambda>e. e \<noteq> [] \<and> js_trim e = e \<and> \<not> js_starts_with ''#'' e)
      (fo_entries f)) occs"
    using mem scan_entries_clean [of _ _ _ _ 0 body] unfolding list_all_iff by blast
  ultimately show ?thesis by (simp add: r)
qed

definition blocks_of :: "fence_kind \<Rightarrow> fence_block list \<Rightarrow> string list" where
  "blocks_of kind blocks = concat (map (\<lambda>(t, k, es). if k = kind then es else []) blocks)"

text \<open>
  C34: a body written from fences reads back: the denylist is the entries of all denylist fences
  in order, the allowed roots likewise, and text without backquotes between the fences does not
  matter.
\<close>

theorem issue_body_roundtrip:
  assumes "\<forall>(t, k, es) \<in> set blocks. tick_free t \<and> (\<forall>e \<in> set es. clean_entry e)"
    and "tick_free tail" and "\<exists>(t, k, es) \<in> set blocks. k = Denylist_Fence"
  shows "parseIssueBody (body_of blocks tail) =
    Inr \<lparr>ic_denylist = blocks_of Denylist_Fence blocks,
         ic_allowed_roots = (if blocks_of Allowed_Roots_Fence blocks = [] then None
                             else Some (blocks_of Allowed_Roots_Fence blocks))\<rparr>"
proof -
  obtain constraints occs where r: "parseIssueScopeFences (body_of blocks tail) = (constraints, occs)"
    by (metis surj_pair)
  have m: "map (\<lambda>f. (fo_kind f, fo_entries f)) occs = map (\<lambda>(t, k, es). (k, es)) blocks"
    using arg_cong [OF parse_fences_inv(4) [OF r], of "map (\<lambda>(k, a, b, es). (k, es))"]
      scan_body [OF assms(1,2), of 0] by (simp add: o_def del: map_eq_conv)
  have e: "entries_of k occs = blocks_of k blocks" for k
    unfolding entries_of_map m blocks_of_def
    by (induction blocks) (auto split: prod.splits)
  have "list_ex (\<lambda>f. fo_kind f = Denylist_Fence) occs \<longleftrightarrow>
      list_ex (\<lambda>p. fst p = Denylist_Fence) (map (\<lambda>f. (fo_kind f, fo_entries f)) occs)"
    by (simp add: list_ex_iff)
  also have "\<dots>" unfolding m using assms(3) by (force simp: list_ex_iff)
  finally have "list_ex (\<lambda>f. fo_kind f = Denylist_Fence) occs" by simp
  moreover have "constraints = \<lparr>ic_denylist = blocks_of Denylist_Fence blocks,
      ic_allowed_roots = (if blocks_of Allowed_Roots_Fence blocks = [] then None
                          else Some (blocks_of Allowed_Roots_Fence blocks))\<rparr>"
    using parse_fences_inv(1,2) [OF r] by (simp add: e)
  ultimately show ?thesis by (simp add: parseIssueBody_def r)
qed

theorem issue_body_roundtrip_witness:
  "parseIssueBody (body_of [(''Scope '', Denylist_Fence, [''vendor/**'']),
       ('' and '', Allowed_Roots_Fence, [''src/**'', ''docs/**''])] '' end'') =
     Inr \<lparr>ic_denylist = [''vendor/**''], ic_allowed_roots = Some [''src/**'', ''docs/**'']\<rparr>"
  by (subst issue_body_roundtrip)
    (simp_all add: tick_free_def clean_entry_def js_space_def js_starts_with_def newline_def blocks_of_def)

end
