(* ===== verification/Json.thy ===== *)
theory Json
  imports Prelude
begin

text \<open>
  JSON values and the text \<open>JSON.stringify\<close> gives them. An object is the list of its entries in
  enumeration order, a number is an integer or, for the tests on \<open>Number.isInteger\<close>, the text of
  a number that is none. The main fact is that the text determines the value, which is what the
  hashes over such texts rely on.
\<close>

section \<open>Values\<close>

datatype json =
    JNull
  | JBool bool
  | JInt int
  | JFrac string
  | JStr string
  | JArr "json list"
  | JObj "(string \<times> json) list"

text \<open>\<open>o.key\<close>: \<open>None\<close> stands for \<open>undefined\<close>.\<close>

fun json_field :: "json \<Rightarrow> string \<Rightarrow> json option" where
  "json_field (JObj kvs) key = map_of kvs key"
| "json_field _ key = None"

fun isRecord :: "json option \<Rightarrow> bool" where
  "isRecord (Some (JObj kvs)) = True"
| "isRecord _ = False"

fun is_string :: "json option \<Rightarrow> bool" where
  "is_string (Some (JStr s)) = True"
| "is_string _ = False"

fun isStringArray :: "json option \<Rightarrow> bool" where
  "isStringArray (Some (JArr xs)) = list_all (\<lambda>v. is_string (Some v)) xs"
| "isStringArray _ = False"

fun json_string :: "json option \<Rightarrow> string" where
  "json_string (Some (JStr s)) = s"
| "json_string _ = []"

fun json_strings :: "json option \<Rightarrow> string list" where
  "json_strings (Some (JArr xs)) = map (\<lambda>v. json_string (Some v)) xs"
| "json_strings _ = []"

section \<open>Text\<close>

definition hex_char :: "nat \<Rightarrow> char" where
  "hex_char d = (if d < 10 then char_of (48 + d) else char_of (87 + d))"

definition json_escape :: "char \<Rightarrow> string" where
  "json_escape c =
     (let n = (of_char c :: nat) in
      if n = 34 then [CHR 0x5C, CHR 0x22]
      else if n = 92 then [CHR 0x5C, CHR 0x5C]
      else if n = 8 then [CHR 0x5C, CHR ''b'']
      else if n = 9 then [CHR 0x5C, CHR ''t'']
      else if n = 10 then [CHR 0x5C, CHR ''n'']
      else if n = 12 then [CHR 0x5C, CHR ''f'']
      else if n = 13 then [CHR 0x5C, CHR ''r'']
      else if n < 32 then [CHR 0x5C, CHR ''u'', CHR ''0'', CHR ''0'', hex_char (n div 16), hex_char (n mod 16)]
      else [c])"

definition json_quote :: "string \<Rightarrow> string" where
  "json_quote s = CHR 0x22 # concat (map json_escape s) @ [CHR 0x22]"

fun json_text :: "json \<Rightarrow> string" where
  "json_text JNull = ''null''"
| "json_text (JBool b) = (if b then ''true'' else ''false'')"
| "json_text (JInt i) = show_int i"
| "json_text (JFrac s) = s"
| "json_text (JStr s) = json_quote s"
| "json_text (JArr xs) = ''['' @ js_join '','' (map json_text xs) @ '']''"
| "json_text (JObj kvs) =
     ''{'' @ js_join '','' (map (\<lambda>(k, v). json_quote k @ '':'' @ json_text v) kvs) @ ''}''"

section \<open>Quoted strings can be read back\<close>

definition hex_val :: "char \<Rightarrow> nat" where
  "hex_val c = (let n = (of_char c :: nat) in if n < 58 then n - 48 else n - 87)"

lemma hex_val_char: "d < 16 \<Longrightarrow> hex_val (hex_char d) = d"
  by (simp add: hex_val_def hex_char_def)

fun unescape :: "string \<Rightarrow> (char \<times> string) option" where
  "unescape [] = None"
| "unescape (c # s) =
     (if c \<noteq> CHR 0x5C then Some (c, s)
      else (case s of
              [] \<Rightarrow> None
            | e # r \<Rightarrow>
                if e = CHR ''b'' then Some (CHR 0x08, r)
                else if e = CHR ''t'' then Some (CHR 0x09, r)
                else if e = CHR ''n'' then Some (CHR 0x0A, r)
                else if e = CHR ''f'' then Some (CHR 0x0C, r)
                else if e = CHR ''r'' then Some (CHR 0x0D, r)
                else if e = CHR ''u'' then Some (char_of (hex_val (r ! 2) * 16 + hex_val (r ! 3)), drop 4 r)
                else Some (e, r)))"

lemma of_char_eqI: "(of_char c :: nat) = of_char d \<Longrightarrow> c = d"
  by (metis char_of_char)

lemma char_codes:
  "char_of (34 :: nat) = CHR 0x22" "char_of (92 :: nat) = CHR 0x5C" "char_of (8 :: nat) = CHR 0x08"
  "char_of (9 :: nat) = CHR 0x09" "char_of (10 :: nat) = CHR 0x0A" "char_of (12 :: nat) = CHR 0x0C"
  "char_of (13 :: nat) = CHR 0x0D"
  by code_simp+

lemma unescape_escape: "unescape (json_escape c @ r) = Some (c, r)"
proof -
  define n where "n = (of_char c :: nat)"
  have c: "c = char_of n" by (simp add: n_def)
  consider "n \<in> {34, 92, 8, 9, 10, 12, 13}" | "n < 32" "n \<notin> {8, 9, 10, 12, 13}" | "n \<ge> 32" "n \<notin> {34, 92}"
    by force
  then show ?thesis
  proof cases
    case 1
    then show ?thesis by (auto simp: json_escape_def c char_codes)
  next
    case 2
    have "hex_val (hex_char (n div 16)) * 16 + hex_val (hex_char (n mod 16)) = n"
      using 2 by (simp add: hex_val_char)
    with 2 show ?thesis by (simp add: json_escape_def n_def [symmetric] c)
  next
    case 3
    then have "c \<noteq> CHR 0x5C" by (auto simp: n_def)
    with 3 show ?thesis by (simp add: json_escape_def n_def [symmetric])
  qed
qed

lemma escape_head: "\<exists>x xs. json_escape c = x # xs \<and> x \<noteq> CHR 0x22"
proof -
  have "(of_char c :: nat) \<noteq> 34 \<Longrightarrow> c \<noteq> CHR 0x22" by auto
  then show ?thesis by (simp add: json_escape_def Let_def)
qed

lemma quote_body_decode:
  "concat (map json_escape s) @ CHR 0x22 # x = concat (map json_escape t) @ CHR 0x22 # y \<Longrightarrow> s = t \<and> x = y"
proof (induction s arbitrary: t)
  case Nil
  show ?case
  proof (cases t)
    case (Cons d t')
    with Nil escape_head [of d] show ?thesis by auto
  qed (use Nil in simp)
next
  case (Cons c s)
  show ?case
  proof (cases t)
    case Nil
    with Cons.prems escape_head [of c] show ?thesis by auto
  next
    case (Cons d t')
    have "unescape (json_escape c @ concat (map json_escape s) @ CHR 0x22 # x)
        = unescape (json_escape d @ concat (map json_escape t') @ CHR 0x22 # y)"
      using Cons.prems Cons by simp
    then have "c = d" "concat (map json_escape s) @ CHR 0x22 # x = concat (map json_escape t') @ CHR 0x22 # y"
      by (simp_all add: unescape_escape)
    with Cons.IH Cons show ?thesis by blast
  qed
qed

lemma json_quote_decode: "json_quote s @ x = json_quote t @ y \<Longrightarrow> s = t \<and> x = y"
  using quote_body_decode [of s x t y] by (simp add: json_quote_def)

lemma json_quote_inj: "json_quote s = json_quote t \<Longrightarrow> s = t"
  using json_quote_decode [of s "[]" t "[]"] by simp

section \<open>The text determines the value\<close>

definition num_char :: "char \<Rightarrow> bool" where
  "num_char c \<longleftrightarrow> is_digit c \<or> c \<in> set ''-+.eE''"

text \<open>Well-formed values: the text of a fraction is a number text that no integer has.\<close>

fun json_ok :: "json \<Rightarrow> bool" where
  "json_ok (JFrac s) =
     (s \<noteq> [] \<and> list_all num_char s \<and> (is_digit (hd s) \<or> hd s = CHR ''-'') \<and>
      list_ex (\<lambda>c. \<not> is_digit c \<and> c \<noteq> CHR ''-'') s)"
| "json_ok (JArr xs) = list_all json_ok xs"
| "json_ok (JObj kvs) = list_all (\<lambda>(k, v). json_ok v) kvs"
| "json_ok _ = True"

definition value_end :: "string \<Rightarrow> bool" where
  "value_end s \<longleftrightarrow> (case s of [] \<Rightarrow> True | c # _ \<Rightarrow> c \<in> set '',]}'')"

lemma show_int_chars: "c \<in> set (show_int i) \<Longrightarrow> is_digit c \<or> c = CHR ''-''"
  by (auto simp: show_int_def dest: show_nat_digits split: if_splits)

lemma show_int_nonempty [simp]: "show_int i \<noteq> []"
  by (simp add: show_int_def)

lemma minus_no_digit: "\<not> is_digit CHR ''-''"
  by (simp add: is_digit_def)

lemma show_int_inj: "show_int i = show_int j \<Longrightarrow> i = j"
proof -
  have head: "hd (show_nat n) \<noteq> CHR ''-''" for n
    using show_nat_digits [of "hd (show_nat n)" n] minus_no_digit hd_in_set [OF show_nat_nonempty] by metis
  assume eq: "show_int i = show_int j"
  show ?thesis
  proof (cases "i < 0"; cases "j < 0")
    assume "i < 0" "j < 0"
    with eq have "nat (- i) = nat (- j)" by (intro show_nat_inj) (simp add: show_int_def)
    with \<open>i < 0\<close> \<open>j < 0\<close> show ?thesis by simp
  next
    assume "\<not> i < 0" "\<not> j < 0"
    with eq have "nat i = nat j" by (intro show_nat_inj) (simp add: show_int_def)
    with \<open>\<not> i < 0\<close> \<open>\<not> j < 0\<close> show ?thesis by simp
  next
    assume "i < 0" "\<not> j < 0"
    with eq head [of "nat j"] show ?thesis by (auto simp: show_int_def dest: sym)
  next
    assume "\<not> i < 0" "j < 0"
    with eq head [of "nat i"] show ?thesis by (auto simp: show_int_def)
  qed
qed


lemma takeWhile_num:
  assumes "list_all num_char a" "list_all num_char b" "a @ x = b @ y" "value_end x" "value_end y"
  shows "a = b \<and> x = y"
proof -
  have e: "\<not> num_char c" if "c \<in> set '',]}''" for c
    using that by (auto simp: num_char_def is_digit_def)
  have tw: "takeWhile num_char (a @ x) = a" if "list_all num_char a" "value_end x" for a x
  proof -
    have "takeWhile num_char x = []"
      using that(2) e by (cases x) (auto simp: value_end_def)
    then show ?thesis using that(1) by (simp add: list_all_iff takeWhile_append2)
  qed
  from tw [OF assms(1,4)] tw [OF assms(2,5)] assms(3) show ?thesis by auto
qed

text \<open>The first character of a text tells the constructor.\<close>

fun json_head :: "json \<Rightarrow> char \<Rightarrow> bool" where
  "json_head JNull c = (c = CHR ''n'')"
| "json_head (JBool b) c = (c = (if b then CHR ''t'' else CHR ''f''))"
| "json_head (JInt i) c = (is_digit c \<or> c = CHR ''-'')"
| "json_head (JFrac s) c = (is_digit c \<or> c = CHR ''-'')"
| "json_head (JStr s) c = (c = CHR 0x22)"
| "json_head (JArr xs) c = (c = CHR ''['')"
| "json_head (JObj kvs) c = (c = CHR ''{'')"

lemma json_text_head:
  "json_ok j \<Longrightarrow> \<exists>c cs. json_text j = c # cs \<and> json_head j c"
proof (cases j)
  case (JInt i)
  then show ?thesis using show_int_chars [of "hd (show_int i)" i] hd_in_set [OF show_int_nonempty]
    by (cases "show_int i") auto
next
  case (JFrac s)
  moreover assume "json_ok j"
  ultimately show ?thesis by (cases s) auto
qed (auto simp: json_quote_def)

lemma num_text: "list_all num_char (show_int i)"
  using show_int_chars by (auto simp: list_all_iff num_char_def)

lemma frac_no_int: "json_ok (JFrac s) \<Longrightarrow> s \<noteq> show_int i"
  using show_int_chars by (auto simp: list_ex_iff)

lemma js_join_Cons: "js_join sep (x # xs) = x @ (if xs = [] then [] else sep @ js_join sep xs)"
  by (cases xs) auto

text \<open>Reading a comma separated sequence back, given that each element can be read back.\<close>

lemma join_decode:
  assumes "\<And>a b x y. a \<in> set as \<Longrightarrow> P b \<Longrightarrow> f a @ x = f b @ y \<Longrightarrow> value_end x \<Longrightarrow> value_end y \<Longrightarrow> a = b \<and> x = y"
    and "\<And>a. a \<in> set as \<Longrightarrow> f a \<noteq> [] \<and> hd (f a) \<noteq> c"
    and "\<And>b. P b \<Longrightarrow> f b \<noteq> [] \<and> hd (f b) \<noteq> c"
    and "c \<in> set ''}]''" "list_all P bs"
    and "js_join '','' (map f as) @ c # x = js_join '','' (map f bs) @ c # y"
  shows "as = bs \<and> x = y"
  using assms
proof (induction as arbitrary: bs)
  case Nil
  show ?case
  proof (cases bs)
    case (Cons b bs')
    have "f b \<noteq> [] \<and> hd (f b) \<noteq> c" using Nil.prems(3,5) Cons by simp
    moreover have "hd (c # x) = hd (js_join '','' (map f bs) @ c # y)" using Nil.prems(6) by simp
    ultimately show ?thesis using Cons by (auto simp: js_join_Cons)
  qed (use Nil in simp)
next
  case (Cons a as)
  show ?case
  proof (cases bs)
    case Nil
    have "f a \<noteq> [] \<and> hd (f a) \<noteq> c" using Cons.prems(2) by simp
    moreover have "hd (js_join '','' (map f (a # as)) @ c # x) = hd (c # y)"
      using Cons.prems(6) Nil by simp
    ultimately show ?thesis by (auto simp: js_join_Cons)
  next
    case bs: (Cons b bs')
    let ?t = "\<lambda>xs r. (if xs = [] then [] else '','' @ js_join '','' (map f xs)) @ c # r"
    have eq: "f a @ ?t as x = f b @ ?t bs' y"
      using Cons.prems(6) unfolding bs list.map(2) js_join_Cons by (simp del: js_join.simps split del: if_split)
    have ends: "value_end (?t xs r)" for xs r
      using Cons.prems(4) by (auto simp: value_end_def)
    have ab: "a = b \<and> ?t as x = ?t bs' y"
      using Cons.prems(1) [OF _ _ eq ends ends] Cons.prems(5) bs by simp
    have "as = bs' \<and> x = y"
    proof (cases "as = [] \<or> bs' = []")
      case True
      with ab Cons.prems(4) show ?thesis by (auto split: if_splits)
    next
      case False
      with ab have "js_join '','' (map f as) @ c # x = js_join '','' (map f bs') @ c # y" by simp
      moreover have "list_all P bs'" using Cons.prems(5) bs by simp
      ultimately show ?thesis
        by (intro Cons.IH [OF _ _ Cons.prems(3,4)] Cons.prems(1,2)) simp_all
    qed
    with ab bs show ?thesis by simp
  qed
qed


lemma same_head:
  assumes "json_ok j" "json_ok k" "json_text j @ x = json_text k @ y"
  shows "\<exists>c. json_head j c \<and> json_head k c"
  using json_text_head [OF assms(1)] json_text_head [OF assms(2)] assms(3) by auto

lemma json_head_num: "is_digit c \<or> c = CHR ''-'' \<Longrightarrow> c \<notin> {CHR ''n'', CHR ''t'', CHR ''f'', CHR 0x22, CHR ''['', CHR ''{''}"
  by (auto simp: is_digit_def)

lemma json_text_close:
  "json_ok j \<Longrightarrow> json_text j \<noteq> [] \<and> hd (json_text j) \<noteq> CHR '']''"
proof -
  assume "json_ok j"
  then obtain c cs where "json_text j = c # cs" "json_head j c" using json_text_head by blast
  moreover from \<open>json_head j c\<close> have "c \<noteq> CHR '']''"
    by (cases j) (auto simp: is_digit_def split: if_splits)
  ultimately show ?thesis by simp
qed

lemma json_number_decode:
  assumes "json_ok j" "json_ok k" "json_text j @ x = json_text k @ y" "value_end x" "value_end y"
    and "\<And>c. json_head j c = (is_digit c \<or> c = CHR ''-'')"
  shows "j = k \<and> x = y"
proof -
  obtain c where c: "json_head j c" "json_head k c" using same_head [OF assms(1-3)] by blast
  with assms(6) have "is_digit c \<or> c = CHR ''-''" by simp
  then have k: "(\<exists>i. k = JInt i) \<or> (\<exists>s. k = JFrac s)"
    using c(2) json_head_num [of c] by (cases k) (auto split: if_splits)
  have "json_head j CHR ''-''" using assms(6) by simp
  then have j: "(\<exists>i. j = JInt i) \<or> (\<exists>s. j = JFrac s)"
    by (cases j) (auto split: if_splits)
  have nums: "list_all num_char (json_text j)" "list_all num_char (json_text k)"
    using j k assms(1,2) num_text by auto
  from takeWhile_num [OF nums assms(3-5)] have t: "json_text j = json_text k" "x = y" by blast+
  have "j = k"
    using j k
  proof (elim disjE exE)
    fix a b assume "j = JInt a" "k = JInt b"
    with t(1) show ?thesis by (simp add: show_int_inj)
  next
    fix a b assume "j = JInt a" "k = JFrac b"
    with t(1) assms(2) frac_no_int [of b a] show ?thesis by (simp del: json_ok.simps)
  next
    fix a b assume "j = JFrac a" "k = JInt b"
    with t(1) assms(1) frac_no_int [of a b] show ?thesis by (simp del: json_ok.simps)
  next
    fix a b assume "j = JFrac a" "k = JFrac b"
    with t(1) show ?thesis by simp
  qed
  with t(2) show ?thesis by simp
qed

lemma json_text_decode:
  "json_ok j \<Longrightarrow> json_ok k \<Longrightarrow> json_text j @ x = json_text k @ y \<Longrightarrow> value_end x \<Longrightarrow> value_end y
     \<Longrightarrow> j = k \<and> x = y"
proof (induction j arbitrary: k x y)
  case (JInt i)
  then show ?case by (intro json_number_decode) auto
next
  case (JFrac s)
  then show ?case by (intro json_number_decode) (auto simp del: json_ok.simps)
next
  case (JStr s)
  then obtain c where "json_head (JStr s) c" "json_head k c" using same_head by blast
  then obtain t where "k = JStr t"
    using json_head_num [of "CHR 0x22"] by (cases k) (auto split: if_splits)
  with JStr.prems json_quote_decode [of s x t y] show ?case by simp
next
  case JNull
  then obtain c where "json_head JNull c" "json_head k c" using same_head by blast
  then have "k = JNull" using json_head_num [of "CHR ''n''"] by (cases k) (auto split: if_splits)
  with JNull show ?case by simp
next
  case (JBool b)
  then obtain c where "json_head (JBool b) c" "json_head k c" using same_head by blast
  then have "k = JBool b"
    using json_head_num [of "CHR ''t''"] json_head_num [of "CHR ''f''"] by (cases k) (auto split: if_splits)
  with JBool show ?case by simp
next
  case (JArr xs)
  obtain c where "json_head (JArr xs) c" "json_head k c" using same_head JArr.prems by blast
  then obtain ys where k: "k = JArr ys"
    using json_head_num [of "CHR ''[''"] by (cases k) (auto split: if_splits)
  have "xs = ys \<and> x = y"
  proof (rule join_decode [where P = json_ok and f = json_text and c = "CHR '']''"])
    show "a = b \<and> x = y" if "a \<in> set xs" "json_ok b" "json_text a @ x = json_text b @ y"
      "value_end x" "value_end y" for a b x y
      using JArr.IH [OF that(1) _ that(2-5)] JArr.prems(1) that(1) by (simp add: list_all_iff)
    show "json_text a \<noteq> [] \<and> hd (json_text a) \<noteq> CHR '']''" if "a \<in> set xs" for a
      using JArr.prems(1) that by (intro json_text_close) (simp add: list_all_iff)
    show "json_text b \<noteq> [] \<and> hd (json_text b) \<noteq> CHR '']''" if "json_ok b" for b
      using that by (rule json_text_close)
  qed (use JArr.prems k in simp_all)
  with k show ?case by simp
next
  case (JObj kvs)
  obtain c where "json_head (JObj kvs) c" "json_head k c" using same_head JObj.prems by blast
  then obtain ys where k: "k = JObj ys"
    using json_head_num [of "CHR ''{''"] by (cases k) (auto split: if_splits)
  let ?f = "\<lambda>(k, v). json_quote k @ '':'' @ json_text v"
  have "kvs = ys \<and> x = y"
  proof (rule join_decode [where P = "\<lambda>(k, v). json_ok v" and f = ?f and c = "CHR ''}''"])
    show "a = b \<and> x = y" if m: "a \<in> set kvs" "(\<lambda>(k, v). json_ok v) b" "?f a @ x = ?f b @ y"
      "value_end x" "value_end y" for a b x y
    proof -
      obtain ka va kb vb where ab: "a = (ka, va)" "b = (kb, vb)" by (cases a; cases b)
      have q: "ka = kb \<and> '':'' @ json_text va @ x = '':'' @ json_text vb @ y"
        by (rule json_quote_decode) (use m(3) ab in simp)
      then have "va = vb \<and> x = y"
        using JObj.IH [OF m(1), of va vb x y] m ab JObj.prems(1) by (auto simp: list_all_iff)
      with q ab show ?thesis by simp
    qed
  qed (use JObj.prems k in \<open>auto simp: json_quote_def\<close>)
  with k show ?case by simp
qed

lemma json_text_inj: "json_ok j \<Longrightarrow> json_ok k \<Longrightarrow> json_text j = json_text k \<longleftrightarrow> j = k"
  using json_text_decode [of j k "[]" "[]"] by (auto simp: value_end_def)

lemma json_ok_strings [simp]: "json_ok (JArr (map JStr xs))"
  by (simp add: list_all_iff)

end
