(* ===== verification/Scope_Guard.thy ===== *)
theory Scope_Guard
  imports Pattern_Decision Issue_Fences Json
begin

text \<open>
  The scope check of changed paths: \<open>plugins/scope-guard/lib/control_artifacts.ts\<close>, \<open>check.ts\<close>
  and \<open>denylist.ts\<close>. The issue body that \<open>gh issue view\<close> prints is a parameter: the left side is
  any failure of the call or of parsing its output.
\<close>

section \<open>Control artifacts\<close>

definition CONTROL_ARTIFACT_GLOBS :: "string list" where
  "CONTROL_ARTIFACT_GLOBS = [''docs/declarations/**'', ''.orchestrator-pack/**'']"

definition isControlArtifact :: "string \<Rightarrow> bool" where
  "isControlArtifact path \<longleftrightarrow>
     (let normalized = backslashes_to_slashes path
      in list_ex (\<lambda>pattern. matchesPathPattern pattern normalized) CONTROL_ARTIFACT_GLOBS)"

fun partitionControlArtifacts :: "string list \<Rightarrow> string list \<times> string list" where
  "partitionControlArtifacts [] = ([], [])"
| "partitionControlArtifacts (path # paths) =
     (let (control, scoped) = partitionControlArtifacts paths
      in if isControlArtifact path then (path # control, scoped) else (control, path # scoped))"

section \<open>Scope check\<close>

record scope_baseline =
  sb_commit_sha :: "string option"
  sb_active_scope_hash :: "string option"

record scope_declaration =
  sd_declared_paths :: "string list"
  sd_declared_globs :: "string list option"
  sd_baseline :: "scope_baseline option"

datatype violation_reason = Scope_Violation | Missing_Declaration | Invalid_Path

record scope_violation =
  sv_reason :: violation_reason
  sv_active_scope_hash :: "string option"
  sv_baseline_commit_sha :: "string option"
  sv_out_of_scope :: "string list"
  sv_denied :: "string list"
  sv_invalid_paths :: "(string \<times> string) list"
  sv_skipped :: "string list"
  sv_message :: string

record scope_pass =
  sp_skipped :: "string list"
  sp_checked :: "string list"

record classification =
  cl_out_of_scope :: "string list"
  cl_denied :: "string list"
  cl_invalid :: "(string \<times> string) list"
  cl_checked :: "string list"

definition pathInDeclaredScope :: "string \<Rightarrow> string list \<Rightarrow> string list \<Rightarrow> bool" where
  "pathInDeclaredScope path declaredPaths declaredGlobs \<longleftrightarrow>
     pathMatchesAnyPattern path (declaredPaths @ declaredGlobs)"

definition classify_step ::
  "string list \<Rightarrow> string list \<Rightarrow> string list \<Rightarrow> classification \<Rightarrow> string \<Rightarrow> classification" where
  "classify_step denylist declaredPaths declaredGlobs c rawPath =
     (case normalizePath rawPath of
        Inl reason \<Rightarrow> c\<lparr>cl_invalid := cl_invalid c @ [(rawPath, reason)]\<rparr>
      | Inr path \<Rightarrow>
          let c' = c\<lparr>cl_checked := cl_checked c @ [path]\<rparr> in
          if pathMatchesAnyPattern path denylist then c'\<lparr>cl_denied := cl_denied c' @ [path]\<rparr>
          else if \<not> pathInDeclaredScope path declaredPaths declaredGlobs
          then c'\<lparr>cl_out_of_scope := cl_out_of_scope c' @ [path]\<rparr>
          else c')"

definition classifyScopedPaths ::
  "string list \<Rightarrow> string list \<Rightarrow> string list \<Rightarrow> string list \<Rightarrow> classification" where
  "classifyScopedPaths scoped denylist declaredPaths declaredGlobs =
     foldl (classify_step denylist declaredPaths declaredGlobs)
       \<lparr>cl_out_of_scope = [], cl_denied = [], cl_invalid = [], cl_checked = []\<rparr> scoped"

definition checkScope ::
  "string list \<Rightarrow> scope_declaration option \<Rightarrow> string list \<Rightarrow> scope_violation + scope_pass" where
  "checkScope rawPaths declaration denylist =
     (let (control, scoped) = partitionControlArtifacts rawPaths in
      if length scoped = 0 then Inr \<lparr>sp_skipped = control, sp_checked = []\<rparr>
      else
        (case declaration of
           None \<Rightarrow> Inl \<lparr>sv_reason = Missing_Declaration, sv_active_scope_hash = None,
             sv_baseline_commit_sha = None, sv_out_of_scope = scoped, sv_denied = [],
             sv_invalid_paths = [], sv_skipped = control,
             sv_message = ''no active declaration for the current iteration; mixed control-artifact and scoped changes require a declaration''\<rparr>
         | Some d \<Rightarrow>
             let c = classifyScopedPaths scoped denylist (sd_declared_paths d)
                       (case sd_declared_globs d of None \<Rightarrow> [] | Some g \<Rightarrow> g);
                 hash = Option.bind (sd_baseline d) sb_active_scope_hash;
                 commit = Option.bind (sd_baseline d) sb_commit_sha
             in if 0 < length (cl_invalid c)
                then Inl \<lparr>sv_reason = Invalid_Path, sv_active_scope_hash = hash,
                  sv_baseline_commit_sha = commit, sv_out_of_scope = cl_out_of_scope c,
                  sv_denied = cl_denied c, sv_invalid_paths = cl_invalid c, sv_skipped = control,
                  sv_message = ''one or more changed paths failed normalization''\<rparr>
                else if 0 < length (cl_out_of_scope c) \<or> 0 < length (cl_denied c)
                then Inl \<lparr>sv_reason = Scope_Violation, sv_active_scope_hash = hash,
                  sv_baseline_commit_sha = commit, sv_out_of_scope = sort (cl_out_of_scope c),
                  sv_denied = sort (cl_denied c), sv_invalid_paths = [], sv_skipped = control,
                  sv_message = ''one or more changed paths are outside active scope or denylisted''\<rparr>
                else Inr \<lparr>sp_skipped = control, sp_checked = cl_checked c\<rparr>))"

section \<open>Denylist of the issue\<close>

definition FALLBACK_DENYLIST :: "string list" where
  "FALLBACK_DENYLIST = [''vendor/**'', ''packages/core/**'', ''.orchestrator-pack/**'']"

fun normalizeDenylistPatterns :: "string list \<Rightarrow> string + string list" where
  "normalizeDenylistPatterns [] = Inr []"
| "normalizeDenylistPatterns (pattern # patterns) =
     (case normalizePath pattern of
        Inl reason \<Rightarrow> Inl (''invalid denylist pattern '' @ [CHR 0x22] @ pattern @ [CHR 0x22] @ '': '' @ reason)
      | Inr path \<Rightarrow> rbind (normalizeDenylistPatterns patterns) (\<lambda>ps. Inr (path # ps)))"

definition fetchIssueDenylist :: "bool \<Rightarrow> (nat \<Rightarrow> string + json) \<Rightarrow> nat \<Rightarrow> string list option" where
  "fetchIssueDenylist skip gh_issue_view issueNumber =
     (if skip then None
      else (case gh_issue_view issueNumber of
              Inl e \<Rightarrow> None
            | Inr parsed \<Rightarrow>
                if \<not> is_string (json_field parsed ''body'') then None
                else (case parseIssueBody (json_string (json_field parsed ''body'')) of
                        Inl e \<Rightarrow> None
                      | Inr constraints \<Rightarrow> Some (ic_denylist constraints))))"

definition resolveIssueDenylist :: "bool \<Rightarrow> (nat \<Rightarrow> string + json) \<Rightarrow> nat \<Rightarrow> string + string list" where
  "resolveIssueDenylist skip gh_issue_view issueNumber =
     normalizeDenylistPatterns
       (case fetchIssueDenylist skip gh_issue_view issueNumber of
          Some patterns \<Rightarrow> patterns | None \<Rightarrow> FALLBACK_DENYLIST)"

section \<open>Facts\<close>

lemma partition_filter:
  "partitionControlArtifacts paths
     = (filter isControlArtifact paths, filter (\<lambda>p. \<not> isControlArtifact p) paths)"
  by (induction paths) auto

definition path_denied :: "string list \<Rightarrow> string \<Rightarrow> bool" where
  "path_denied denylist raw \<longleftrightarrow>
     (\<exists>p. normalizePath raw = Inr p \<and> pathMatchesAnyPattern p denylist)"

lemma classify_fold:
  "foldl (classify_step denylist dp dg) c scoped =
     \<lparr>cl_out_of_scope = cl_out_of_scope c @
        [p. Inr p \<leftarrow> map normalizePath scoped, \<not> pathMatchesAnyPattern p denylist \<and> \<not> pathInDeclaredScope p dp dg],
      cl_denied = cl_denied c @ [p. Inr p \<leftarrow> map normalizePath scoped, pathMatchesAnyPattern p denylist],
      cl_invalid = cl_invalid c @ [(s, e). (s, Inl e) \<leftarrow> map (\<lambda>s. (s, normalizePath s)) scoped],
      cl_checked = cl_checked c @ [p. Inr p \<leftarrow> map normalizePath scoped]\<rparr>"
proof (induction scoped arbitrary: c)
  case (Cons s ss)
  note step = classify_step_def [of denylist dp dg c s]
  show ?case
  proof (cases "normalizePath s")
    case (Inl e)
    then have "classify_step denylist dp dg c s = c\<lparr>cl_invalid := cl_invalid c @ [(s, e)]\<rparr>"
      by (simp add: step)
    then show ?thesis by (simp add: Inl Cons.IH)
  next
    case (Inr p)
    show ?thesis
      using Cons.IH [of "classify_step denylist dp dg c s"] Inr by (simp add: step)
  qed
qed simp

lemma classify_eq:
  "classifyScopedPaths scoped denylist dp dg =
     \<lparr>cl_out_of_scope =
        [p. Inr p \<leftarrow> map normalizePath scoped, \<not> pathMatchesAnyPattern p denylist \<and> \<not> pathInDeclaredScope p dp dg],
      cl_denied = [p. Inr p \<leftarrow> map normalizePath scoped, pathMatchesAnyPattern p denylist],
      cl_invalid = [(s, e). (s, Inl e) \<leftarrow> map (\<lambda>s. (s, normalizePath s)) scoped],
      cl_checked = [p. Inr p \<leftarrow> map normalizePath scoped]\<rparr>"
  by (simp add: classifyScopedPaths_def classify_fold)


text \<open>When a check passes: every path is a control artifact, or it parses, matches no denied
  pattern and matches a declared one.\<close>

definition path_admitted :: "scope_declaration \<Rightarrow> string list \<Rightarrow> string \<Rightarrow> bool" where
  "path_admitted d denylist raw \<longleftrightarrow>
     (\<exists>p. normalizePath raw = Inr p \<and> \<not> pathMatchesAnyPattern p denylist
        \<and> pathInDeclaredScope p (sd_declared_paths d) (case sd_declared_globs d of None \<Rightarrow> [] | Some g \<Rightarrow> g))"

lemma classify_empty:
  "cl_invalid (classifyScopedPaths scoped denylist dp dg) = []
     \<and> cl_out_of_scope (classifyScopedPaths scoped denylist dp dg) = []
     \<and> cl_denied (classifyScopedPaths scoped denylist dp dg) = []
   \<longleftrightarrow> (\<forall>s \<in> set scoped. \<exists>p. normalizePath s = Inr p \<and> \<not> pathMatchesAnyPattern p denylist
        \<and> pathInDeclaredScope p dp dg)"
  by (induction scoped) (auto simp: classify_eq split: sum.splits)

lemma checkScope_Some_pass:
  "(\<exists>ok. checkScope raws (Some d) denylist = Inr ok) \<longleftrightarrow>
     (\<forall>raw \<in> set raws. isControlArtifact raw \<or> path_admitted d denylist raw)"
proof -
  let ?scoped = "filter (\<lambda>p. \<not> isControlArtifact p) raws"
  let ?dg = "case sd_declared_globs d of None \<Rightarrow> [] | Some g \<Rightarrow> g"
  let ?c = "classifyScopedPaths ?scoped denylist (sd_declared_paths d) ?dg"
  have "(\<exists>ok. checkScope raws (Some d) denylist = Inr ok) \<longleftrightarrow>
    ?scoped = [] \<or> (cl_invalid ?c = [] \<and> cl_out_of_scope ?c = [] \<and> cl_denied ?c = [])"
    by (auto simp: checkScope_def partition_filter Let_def)
  also have "\<dots> \<longleftrightarrow> (\<forall>raw \<in> set ?scoped. path_admitted d denylist raw)"
    unfolding classify_empty path_admitted_def by (cases "?scoped") auto
  finally show ?thesis by auto
qed

lemma starts_with_join:
  "js_split (CHR ''/'') p = a # rest \<Longrightarrow> rest \<noteq> [] \<Longrightarrow> js_starts_with (a @ ''/'') p"
proof -
  assume s: "js_split (CHR ''/'') p = a # rest" "rest \<noteq> []"
  then obtain b bs where "rest = b # bs" by (cases rest) auto
  with s(1) js_split_join [of "CHR ''/''" p] have "p = a @ ''/'' @ js_join ''/'' (b # bs)" by simp
  then show ?thesis by (auto simp: js_starts_with_conv)
qed

lemma control_tokens:
  "parsePathPattern ''docs/declarations/**'' = Inr \<lparr>pp_source = ''docs/declarations/**'',
     pp_kind = Directory, pp_tokens = [Segment ''docs'', Segment ''declarations'', DoubleStar]\<rparr>"
  "parsePathPattern ''.orchestrator-pack/**'' = Inr \<lparr>pp_source = ''.orchestrator-pack/**'',
     pp_kind = Directory, pp_tokens = [Segment ''.orchestrator-pack'', DoubleStar]\<rparr>"
  by code_simp+

lemma gmatch_segment_Cons:
  "CHR ''*'' \<notin> set a \<Longrightarrow> gmatch is_double_star token_matches (Segment a # toks) segs \<longleftrightarrow>
     (\<exists>rest. segs = a # rest \<and> a \<noteq> [] \<and> gmatch is_double_star token_matches toks rest)"
  by (cases segs) (auto simp: segmentMatches_literal)

lemma isControlArtifact_segments:
  "isControlArtifact raw \<longleftrightarrow>
     (\<exists>segs rest. parseConcretePath (backslashes_to_slashes raw) = Inr segs
        \<and> (segs = ''docs'' # ''declarations'' # rest \<or> segs = ''.orchestrator-pack'' # rest))"
  (is "?lhs \<longleftrightarrow> ?rhs")
proof -
  have star: "gmatch is_double_star token_matches [DoubleStar] rest" for rest
    by (simp add: gmatch_star_any)
  have "?lhs \<longleftrightarrow> (\<exists>segs. parseConcretePath (backslashes_to_slashes raw) = Inr segs \<and>
      (gmatch is_double_star token_matches [Segment ''docs'', Segment ''declarations'', DoubleStar] segs
       \<or> gmatch is_double_star token_matches [Segment ''.orchestrator-pack'', DoubleStar] segs))"
    by (auto simp: isControlArtifact_def CONTROL_ARTIFACT_GLOBS_def matchesPathPattern_iff control_tokens
        matchesParsed_gmatch Let_def dest: parseConcretePath_Inr)
  also have "\<dots> \<longleftrightarrow> ?rhs"
    by (simp add: gmatch_segment_Cons star del: gmatch.simps) blast
  finally show ?thesis .
qed


lemma classify_sets:
  "set (cl_denied (classifyScopedPaths ss denylist dp dg))
     = {p. \<exists>s \<in> set ss. normalizePath s = Inr p \<and> pathMatchesAnyPattern p denylist}"
  "set (cl_out_of_scope (classifyScopedPaths ss denylist dp dg))
     = {p. \<exists>s \<in> set ss. normalizePath s = Inr p \<and> \<not> pathMatchesAnyPattern p denylist
          \<and> \<not> pathInDeclaredScope p dp dg}"
  "cl_invalid (classifyScopedPaths ss denylist dp dg) \<noteq> [] \<longleftrightarrow> (\<exists>s \<in> set ss. \<exists>e. normalizePath s = Inl e)"
  by (induction ss) (auto simp: classify_eq split: sum.splits if_splits)

section \<open>Properties\<close>

text \<open>
  C33: the check passes exactly when every changed path is a control artifact or normalizes to a
  path that no denylist pattern matches and some declared path or glob matches; without a
  declaration it passes only on control artifacts.
\<close>

theorem checkScope_passes_iff:
  "((\<exists>ok. checkScope raws (Some d) denylist = Inr ok) \<longleftrightarrow>
      list_all (\<lambda>raw. isControlArtifact raw \<or> path_admitted d denylist raw) raws)
   \<and> ((\<exists>ok. checkScope raws None denylist = Inr ok) \<longleftrightarrow> list_all isControlArtifact raws)"
proof
  show "(\<exists>ok. checkScope raws (Some d) denylist = Inr ok) \<longleftrightarrow>
      list_all (\<lambda>raw. isControlArtifact raw \<or> path_admitted d denylist raw) raws"
    by (simp add: checkScope_Some_pass list_all_iff)
  show "(\<exists>ok. checkScope raws None denylist = Inr ok) \<longleftrightarrow> list_all isControlArtifact raws"
    by (auto simp: checkScope_def partition_filter list_all_iff filter_empty_conv)
qed

text \<open>
  a path counts as a control artifact exactly when it is a concrete path whose leading
  segments are \<open>docs/declarations\<close> or \<open>.orchestrator-pack\<close>, after backslashes are turned.
\<close>

theorem control_artifact_prefix:
  "isControlArtifact raw \<longleftrightarrow>
     (\<exists>segs rest. parseConcretePath (backslashes_to_slashes raw) = Inr segs
        \<and> (segs = ''docs'' # ''declarations'' # rest \<or> segs = ''.orchestrator-pack'' # rest))"
  by (rule isControlArtifact_segments)

text \<open>
  a failing report is complete: its denied paths are exactly the scoped paths a denylist
  pattern matches, its out-of-scope paths exactly those that neither a denylist nor a declared
  pattern matches, and its reason is \<open>invalid_path\<close> exactly when some scoped path does not
  normalize.
\<close>

theorem checkScope_report_complete:
  assumes "checkScope raws (Some d) denylist = Inl r"
  shows "set (sv_denied r) = {p. \<exists>raw \<in> set raws. \<not> isControlArtifact raw \<and> normalizePath raw = Inr p
           \<and> pathMatchesAnyPattern p denylist}
    \<and> set (sv_out_of_scope r) = {p. \<exists>raw \<in> set raws. \<not> isControlArtifact raw \<and> normalizePath raw = Inr p
           \<and> \<not> pathMatchesAnyPattern p denylist
           \<and> \<not> pathInDeclaredScope p (sd_declared_paths d) (case sd_declared_globs d of None \<Rightarrow> [] | Some g \<Rightarrow> g)}
    \<and> (sv_reason r = Invalid_Path \<longleftrightarrow>
           (\<exists>raw \<in> set raws. \<not> isControlArtifact raw \<and> (\<exists>e. normalizePath raw = Inl e)))"
proof -
  let ?scoped = "filter (\<lambda>p. \<not> isControlArtifact p) raws"
  define c where "c = classifyScopedPaths ?scoped denylist (sd_declared_paths d)
    (case sd_declared_globs d of None \<Rightarrow> [] | Some g \<Rightarrow> g)"
  have r: "set (sv_denied r) = set (cl_denied c)" "set (sv_out_of_scope r) = set (cl_out_of_scope c)"
    "sv_reason r = Invalid_Path \<longleftrightarrow> cl_invalid c \<noteq> []"
    using assms by (auto simp: checkScope_def partition_filter Let_def c_def split: if_splits)
  show ?thesis unfolding r c_def classify_sets by auto
qed

lemma sample_report:
  "checkScope [''/etc''] (Some \<lparr>sd_declared_paths = [''a''], sd_declared_globs = None, sd_baseline = None\<rparr>) []
     = Inl \<lparr>sv_reason = Invalid_Path, sv_active_scope_hash = None, sv_baseline_commit_sha = None,
         sv_out_of_scope = [], sv_denied = [],
         sv_invalid_paths = [(''/etc'', ''absolute paths are not allowed'')], sv_skipped = [],
         sv_message = ''one or more changed paths failed normalization''\<rparr>"
  by code_simp

theorem checkScope_report_complete_witness:
  "\<exists>raw \<in> {''/etc''}. \<not> isControlArtifact raw \<and> (\<exists>e. normalizePath raw = Inl e)"
  using checkScope_report_complete [OF sample_report] by simp

end
