(* ===== verification/Declared_Scope.thy ===== *)
theory Declared_Scope
  imports Scope_Guard
begin

text \<open>
  Validation of a declared scope against the constraints of its issue,
  \<open>plugins/task-declaration/lib/validate.ts\<close>: the left side of a result is the list of errors
  in the order the code pushes them.
\<close>

section \<open>Definitions\<close>

datatype declared_field = Declared_Paths | Declared_Globs

record declared_scope =
  ds_paths :: "string list"
  ds_globs :: "string list"

fun field_name :: "declared_field \<Rightarrow> string" where
  "field_name Declared_Paths = ''declared_paths''"
| "field_name Declared_Globs = ''declared_globs''"

fun constraint_patterns :: "string \<Rightarrow> nat \<Rightarrow> string list \<Rightarrow> string list \<times> string list" where
  "constraint_patterns field index [] = ([], [])"
| "constraint_patterns field index (pattern # patterns) =
     (let (errors, normalized) = constraint_patterns field (Suc index) patterns in
      (case normalizePath pattern of
         Inl reason \<Rightarrow> ((at_index field index @ '': '' @ reason) # errors, normalized)
       | Inr path \<Rightarrow>
           (case parsePathPattern path of
              Inl reason \<Rightarrow> ((at_index field index @ '': '' @ reason) # errors, normalized)
            | Inr parsed \<Rightarrow> (errors, pp_source parsed # normalized))))"

definition normalizeConstraintPatterns :: "string list \<Rightarrow> string \<Rightarrow> string list + string list" where
  "normalizeConstraintPatterns patterns field =
     (let (errors, normalized) = constraint_patterns field 0 patterns
      in if 0 < length errors then Inl errors else Inr normalized)"

fun validate_patterns :: "declared_field \<Rightarrow> nat \<Rightarrow> string list \<Rightarrow> string list" where
  "validate_patterns field index [] = []"
| "validate_patterns field index (pattern # patterns) =
     (case parsePathPattern pattern of
        Inl reason \<Rightarrow> [at_index (field_name field) index @ '': '' @ reason]
      | Inr parsed \<Rightarrow>
          if field = Declared_Paths \<and> pp_kind parsed \<noteq> Exact
          then [at_index (field_name field) index @ '' '' @ quoted pattern @ '' must be an exact path'']
          else []) @ validate_patterns field (Suc index) patterns"

definition validateDeclaredPatterns :: "string list \<Rightarrow> declared_field \<Rightarrow> string list" where
  "validateDeclaredPatterns patterns field = validate_patterns field 0 patterns"

definition root_errors :: "declared_field \<Rightarrow> nat \<Rightarrow> string \<Rightarrow> string list option \<Rightarrow> string list" where
  "root_errors field index entry allowedRoots =
     (case allowedRoots of
        None \<Rightarrow> []
      | Some roots \<Rightarrow>
          if \<not> list_ex (\<lambda>root. pathPatternWithin entry root) roots
          then [at_index (field_name field) index @ '' '' @ quoted entry @ '' is outside issue allowed_roots'']
          else [])"

fun path_errors :: "string list \<Rightarrow> string list option \<Rightarrow> nat \<Rightarrow> string list \<Rightarrow> string list" where
  "path_errors denylist allowedRoots index [] = []"
| "path_errors denylist allowedRoots index (path # paths) =
     (case parsePathPattern path of
        Inl reason \<Rightarrow> []
      | Inr parsed \<Rightarrow>
          if pp_kind parsed \<noteq> Exact then []
          else
            (if pathMatchesAnyPattern path denylist
             then [at_index ''declared_paths'' index @ '' '' @ quoted path @ '' intersects issue denylist'']
             else [])
            @ root_errors Declared_Paths index path allowedRoots)
     @ path_errors denylist allowedRoots (Suc index) paths"

fun glob_errors :: "string list \<Rightarrow> string list option \<Rightarrow> nat \<Rightarrow> string list \<Rightarrow> string list" where
  "glob_errors denylist allowedRoots index [] = []"
| "glob_errors denylist allowedRoots index (glob # globs) =
     (case parsePathPattern glob of
        Inl reason \<Rightarrow> []
      | Inr parsed \<Rightarrow>
          concat (map (\<lambda>denied.
            if pathPatternsOverlap glob denied
            then [at_index ''declared_globs'' index @ '' '' @ quoted glob
                    @ '' intersects issue denylist '' @ quoted denied]
            else []) denylist)
          @ root_errors Declared_Globs index glob allowedRoots)
     @ glob_errors denylist allowedRoots (Suc index) globs"

definition validateDeclaredScope ::
  "declared_scope \<Rightarrow> issue_constraints \<Rightarrow> string list + declared_scope" where
  "validateDeclaredScope input constraints =
     (case normalizePaths (ds_paths input) of
        Inl reason \<Rightarrow> Inl [''declared_paths: '' @ reason]
      | Inr paths \<Rightarrow>
     (case normalizePaths (ds_globs input) of
        Inl reason \<Rightarrow> Inl [''declared_globs: '' @ reason]
      | Inr globs \<Rightarrow>
     let errors = validateDeclaredPatterns paths Declared_Paths @ validateDeclaredPatterns globs Declared_Globs in
     (case normalizeConstraintPatterns (ic_denylist constraints) ''issue.denylist'' of
        Inl es \<Rightarrow> Inl (errors @ es)
      | Inr denylist \<Rightarrow>
     (case (case ic_allowed_roots constraints of
              None \<Rightarrow> Inr None
            | Some roots \<Rightarrow> map_sum id Some (normalizeConstraintPatterns roots ''issue.allowed_roots'')) of
        Inl es \<Rightarrow> Inl (errors @ es)
      | Inr allowedRoots \<Rightarrow>
     let all_errors = errors @ path_errors denylist allowedRoots 0 paths @ glob_errors denylist allowedRoots 0 globs
           @ (if length paths = 0 \<and> length globs = 0
              then [''declaration must include at least one declared_paths or declared_globs entry'']
              else [])
     in if 0 < length all_errors then Inl all_errors
        else Inr \<lparr>ds_paths = paths, ds_globs = globs\<rparr>))))"

definition normalizeIssueConstraints :: "issue_constraints \<Rightarrow> string + issue_constraints" where
  "normalizeIssueConstraints constraints =
     (case normalizeConstraintPatterns (ic_denylist constraints) ''issue.denylist'' of
        Inl errors \<Rightarrow> Inl (js_join ''; '' errors)
      | Inr denylist \<Rightarrow>
          (case ic_allowed_roots constraints of
             None \<Rightarrow> Inr \<lparr>ic_denylist = denylist, ic_allowed_roots = None\<rparr>
           | Some roots \<Rightarrow>
               (case normalizeConstraintPatterns roots ''issue.allowed_roots'' of
                  Inl errors \<Rightarrow> Inl (js_join ''; '' errors)
                | Inr rs \<Rightarrow> Inr \<lparr>ic_denylist = denylist, ic_allowed_roots = Some rs\<rparr>)))"

section \<open>What validation establishes\<close>

lemma validate_patterns_Nil:
  "validate_patterns field index ps = [] \<longleftrightarrow>
     (\<forall>p \<in> set ps. \<exists>parsed. parsePathPattern p = Inr parsed \<and> (field = Declared_Paths \<longrightarrow> pp_kind parsed = Exact))"
  by (induction ps arbitrary: index) (auto split: sum.splits)

lemma root_errors_Nil:
  "root_errors field index entry allowedRoots = [] \<longleftrightarrow>
     (\<forall>roots. allowedRoots = Some roots \<longrightarrow> (\<exists>root \<in> set roots. pathPatternWithin entry root))"
  by (auto simp: root_errors_def list_ex_iff split: option.splits)

lemma path_errors_Nil:
  assumes "path_errors denylist allowedRoots index paths = []" "p \<in> set paths"
    and "parsePathPattern p = Inr parsed" "pp_kind parsed = Exact"
  shows "\<not> pathMatchesAnyPattern p denylist
    \<and> (\<forall>roots. allowedRoots = Some roots \<longrightarrow> (\<exists>root \<in> set roots. pathPatternWithin p root))"
  using assms
  by (induction paths arbitrary: index) (auto simp: root_errors_Nil split: if_splits sum.splits)

lemma glob_errors_Nil:
  assumes "glob_errors denylist allowedRoots index globs = []" "g \<in> set globs"
    and "parsePathPattern g = Inr parsed"
  shows "(\<forall>denied \<in> set denylist. \<not> pathPatternsOverlap g denied)
    \<and> (\<forall>roots. allowedRoots = Some roots \<longrightarrow> (\<exists>root \<in> set roots. pathPatternWithin g root))"
  using assms
  by (induction globs arbitrary: index) (auto simp: root_errors_Nil split: if_splits sum.splits)

lemma normalizeIssueConstraints_Inr:
  "normalizeIssueConstraints constraints = Inr norm \<longleftrightarrow>
     normalizeConstraintPatterns (ic_denylist constraints) ''issue.denylist'' = Inr (ic_denylist norm)
     \<and> (case ic_allowed_roots constraints of
          None \<Rightarrow> ic_allowed_roots norm = None
        | Some roots \<Rightarrow> \<exists>rs. normalizeConstraintPatterns roots ''issue.allowed_roots'' = Inr rs
            \<and> ic_allowed_roots norm = Some rs)"
  by (auto simp: normalizeIssueConstraints_def split: option.splits sum.splits)

lemma validateDeclaredScope_Inr:
  assumes "validateDeclaredScope input constraints = Inr scope"
  shows "\<exists>norm. normalizeIssueConstraints constraints = Inr norm
    \<and> normalizePaths (ds_paths input) = Inr (ds_paths scope) \<and> normalizePaths (ds_globs input) = Inr (ds_globs scope)
    \<and> validate_patterns Declared_Paths 0 (ds_paths scope) = []
    \<and> validate_patterns Declared_Globs 0 (ds_globs scope) = []
    \<and> path_errors (ic_denylist norm) (ic_allowed_roots norm) 0 (ds_paths scope) = []
    \<and> glob_errors (ic_denylist norm) (ic_allowed_roots norm) 0 (ds_globs scope) = []
    \<and> (ds_paths scope \<noteq> [] \<or> ds_globs scope \<noteq> [])"
  using assms
  by (auto simp: validateDeclaredScope_def validateDeclaredPatterns_def Let_def normalizeIssueConstraints_def
      split: sum.splits option.splits if_splits)

section \<open>Declared paths and the paths they admit\<close>

lemma Exact_concrete:
  assumes "parsePathPattern e = Inr p" "pp_kind p = Exact"
  shows "parseConcretePath e = Inr (js_split (CHR ''/'') (pp_source p))"
proof -
  have n: "normalizePath e = Inr (pp_source p)" by (rule parsePathPattern_source [OF assms(1)])
  have e: "\<not> js_ends_with ''/'' (pp_source p)" "\<not> unsupported_syntax (pp_source p)" "\<not> extglob_syntax (pp_source p)"
    using assms n
    by (auto simp: parsePathPattern_def fail_def Let_def rbind_Inr split: sum.splits if_splits
        dest!: arg_cong [where f = pp_kind])
  have "CHR ''*'' \<notin> set (pp_source p)"
  proof
    assume "CHR ''*'' \<in> set (pp_source p)"
    then have "CHR ''*'' \<in> set (js_join ''/'' (js_split (CHR ''/'') (pp_source p)))"
      by (simp add: js_split_join)
    then obtain seg where "seg \<in> set (js_split (CHR ''/'') (pp_source p))" "CHR ''*'' \<in> set seg"
      using set_js_join [of "''/''" "js_split (CHR ''/'') (pp_source p)"] by auto
    with Exact_tokens(2) [OF assms] show False by blast
  qed
  with n e show ?thesis by (simp add: parseConcretePath_def)
qed

text \<open>An exact declared path admits only its own segments.\<close>

lemma Exact_admits:
  assumes "parsePathPattern e = Inr p" "pp_kind p = Exact" "matchesPathPattern e path"
  shows "parseConcretePath path = parseConcretePath e"
proof -
  from assms(1,3) obtain segs where s: "parseConcretePath path = Inr segs" "matchesParsed p segs"
    by (auto simp: matchesPathPattern_iff)
  then have "segs \<noteq> []" using parseConcretePath_Inr by blast
  with s Exact_matches [OF assms(1,2)] Exact_concrete [OF assms(1,2)] show ?thesis by simp
qed

lemma matches_same_segments:
  "parseConcretePath path = parseConcretePath path' \<Longrightarrow>
     pathMatchesAnyPattern path pats = pathMatchesAnyPattern path' pats"
  by (simp add: pathMatchesAnyPattern_iff matchesPathPattern_iff)

lemma declared_scope_admits:
  assumes v: "validateDeclaredScope input constraints = Inr scope"
    and n: "normalizeIssueConstraints constraints = Inr norm"
    and m: "pathInDeclaredScope p (ds_paths scope) (ds_globs scope)"
    and raw: "normalizePath raw = Inr p"
  shows "\<not> pathMatchesAnyPattern p (ic_denylist norm)
    \<and> (\<forall>roots. ic_allowed_roots norm = Some roots \<longrightarrow> pathMatchesAnyPattern p roots)"
proof -
  from validateDeclaredScope_Inr [OF v] n
  have ok: "validate_patterns Declared_Paths 0 (ds_paths scope) = []"
    "validate_patterns Declared_Globs 0 (ds_globs scope) = []"
    "path_errors (ic_denylist norm) (ic_allowed_roots norm) 0 (ds_paths scope) = []"
    "glob_errors (ic_denylist norm) (ic_allowed_roots norm) 0 (ds_globs scope) = []" by auto
  from m obtain e where e: "e \<in> set (ds_paths scope) \<union> set (ds_globs scope)" "matchesPathPattern e p"
    by (auto simp: pathInDeclaredScope_def pathMatchesAnyPattern_iff)
  from e(2) obtain segs where segs: "parseConcretePath p = Inr segs" by (auto simp: matchesPathPattern_iff)
  then obtain q where q: "normalizePath p = Inr q" "segs = js_split (CHR ''/'') q" "\<not> js_ends_with ''/'' q"
    using parseConcretePath_Inr by blast
  have ne: "[] \<notin> set segs" using renormalized_segments [OF raw q(1,3)] q(2) by simp
  have within: "pathMatchesAnyPattern p roots" if "\<exists>root \<in> set roots. pathPatternWithin e root" for roots
    using that match_of_within [OF _ e(2) segs ne] by (auto simp: pathMatchesAnyPattern_iff)
  show ?thesis
  proof (cases "e \<in> set (ds_paths scope)")
    case True
    then obtain pe where pe: "parsePathPattern e = Inr pe" "pp_kind pe = Exact"
      using ok(1) by (auto simp: validate_patterns_Nil)
    have "\<not> pathMatchesAnyPattern e (ic_denylist norm)"
      and r: "\<forall>roots. ic_allowed_roots norm = Some roots \<longrightarrow> (\<exists>root \<in> set roots. pathPatternWithin e root)"
      using path_errors_Nil [OF ok(3) True pe] by blast+
    then have "\<not> pathMatchesAnyPattern p (ic_denylist norm)"
      using matches_same_segments [OF Exact_admits [OF pe e(2)]] by simp
    with r within show ?thesis by blast
  next
    case False
    with e(1) have g: "e \<in> set (ds_globs scope)" by blast
    then obtain pe where pe: "parsePathPattern e = Inr pe" using ok(2) by (auto simp: validate_patterns_Nil)
    note ge = glob_errors_Nil [OF ok(4) g pe]
    have "\<not> pathMatchesAnyPattern p (ic_denylist norm)"
      using ge overlap_of_common_path [OF e(2)] by (auto simp: pathMatchesAnyPattern_iff)
    with ge within show ?thesis by blast
  qed
qed

section \<open>Properties\<close>

definition within_roots :: "issue_constraints \<Rightarrow> string \<Rightarrow> bool" where
  "within_roots norm entry \<longleftrightarrow>
     (case ic_allowed_roots norm of None \<Rightarrow> True | Some roots \<Rightarrow> list_ex (pathPatternWithin entry) roots)"

definition declarable_path :: "issue_constraints \<Rightarrow> string \<Rightarrow> bool" where
  "declarable_path norm p \<longleftrightarrow>
     (\<exists>parsed. parsePathPattern p = Inr parsed \<and> pp_kind parsed = Exact)
     \<and> \<not> pathMatchesAnyPattern p (ic_denylist norm) \<and> within_roots norm p"

definition declarable_glob :: "issue_constraints \<Rightarrow> string \<Rightarrow> bool" where
  "declarable_glob norm g \<longleftrightarrow>
     (\<exists>parsed. parsePathPattern g = Inr parsed)
     \<and> list_all (\<lambda>denied. \<not> pathPatternsOverlap g denied) (ic_denylist norm) \<and> within_roots norm g"

lemma path_errors_iff:
  assumes "validate_patterns Declared_Paths i paths = []"
  shows "path_errors (ic_denylist norm) (ic_allowed_roots norm) j paths = []
    \<longleftrightarrow> list_all (declarable_path norm) paths"
  using assms
  by (induction paths arbitrary: i j)
    (auto simp: declarable_path_def within_roots_def root_errors_Nil list_ex_iff
      split: sum.splits if_splits option.splits)

lemma glob_errors_iff:
  assumes "validate_patterns Declared_Globs i globs = []"
  shows "glob_errors (ic_denylist norm) (ic_allowed_roots norm) j globs = []
    \<longleftrightarrow> list_all (declarable_glob norm) globs"
  using assms
  by (induction globs arbitrary: i j)
    (auto simp: declarable_glob_def within_roots_def root_errors_Nil list_ex_iff list_all_iff
      split: sum.splits if_splits option.splits)

text \<open>
  C32: validation accepts a scope exactly when the issue's constraints normalize, every declared
  path is an exact pattern that no denied pattern matches, every declared glob overlaps no denied
  pattern, everything lies within an allowed root if roots are given, and the scope is not empty.
  The accepted scope is the normalized input.
\<close>

theorem validateDeclaredScope_accepts_iff:
  "validateDeclaredScope input constraints = Inr scope \<longleftrightarrow>
     (\<exists>norm. normalizeIssueConstraints constraints = Inr norm
        \<and> normalizePaths (ds_paths input) = Inr (ds_paths scope)
        \<and> normalizePaths (ds_globs input) = Inr (ds_globs scope)
        \<and> list_all (declarable_path norm) (ds_paths scope)
        \<and> list_all (declarable_glob norm) (ds_globs scope)
        \<and> \<not> (ds_paths scope = [] \<and> ds_globs scope = []))"
proof
  assume v: "validateDeclaredScope input constraints = Inr scope"
  show "\<exists>norm. normalizeIssueConstraints constraints = Inr norm
        \<and> normalizePaths (ds_paths input) = Inr (ds_paths scope)
        \<and> normalizePaths (ds_globs input) = Inr (ds_globs scope)
        \<and> list_all (declarable_path norm) (ds_paths scope)
        \<and> list_all (declarable_glob norm) (ds_globs scope)
        \<and> \<not> (ds_paths scope = [] \<and> ds_globs scope = [])"
    using validateDeclaredScope_Inr [OF v] path_errors_iff glob_errors_iff by blast
next
  assume "\<exists>norm. normalizeIssueConstraints constraints = Inr norm
        \<and> normalizePaths (ds_paths input) = Inr (ds_paths scope)
        \<and> normalizePaths (ds_globs input) = Inr (ds_globs scope)
        \<and> list_all (declarable_path norm) (ds_paths scope)
        \<and> list_all (declarable_glob norm) (ds_globs scope)
        \<and> \<not> (ds_paths scope = [] \<and> ds_globs scope = [])"
  then obtain norm where n: "normalizeIssueConstraints constraints = Inr norm"
    "normalizePaths (ds_paths input) = Inr (ds_paths scope)" "normalizePaths (ds_globs input) = Inr (ds_globs scope)"
    "list_all (declarable_path norm) (ds_paths scope)" "list_all (declarable_glob norm) (ds_globs scope)"
    "\<not> (ds_paths scope = [] \<and> ds_globs scope = [])" by blast
  have v: "validate_patterns Declared_Paths 0 (ds_paths scope) = []"
    "validate_patterns Declared_Globs 0 (ds_globs scope) = []"
    using n(4,5) by (auto simp: validate_patterns_Nil list_all_iff declarable_path_def declarable_glob_def)
  have e: "path_errors (ic_denylist norm) (ic_allowed_roots norm) 0 (ds_paths scope) = []"
    "glob_errors (ic_denylist norm) (ic_allowed_roots norm) 0 (ds_globs scope) = []"
    using path_errors_iff [OF v(1)] glob_errors_iff [OF v(2)] n(4,5) by simp_all
  have d: "normalizeConstraintPatterns (ic_denylist constraints) ''issue.denylist'' = Inr (ic_denylist norm)"
    "(case ic_allowed_roots constraints of None \<Rightarrow> Inr None
      | Some roots \<Rightarrow> map_sum id Some (normalizeConstraintPatterns roots ''issue.allowed_roots''))
     = (Inr (ic_allowed_roots norm) :: string list + string list option)"
    using n(1) by (auto simp: normalizeIssueConstraints_Inr split: option.splits)
  show "validateDeclaredScope input constraints = Inr scope"
    unfolding validateDeclaredScope_def n(2,3) d validateDeclaredPatterns_def Let_def sum.case v
    using e n(6) by simp
qed

text \<open>
  C1: from the declaration to the check: when a scope was validated against an issue and the scope
  check lets a list of changed paths through, the paths it reports as skipped are exactly the control
  artifacts among them, which are the paths below \<open>docs/declarations\<close> or \<open>.orchestrator-pack\<close> and are
  exempt from every pattern. Every other changed path normalizes to a path that no denied pattern of
  the check or of the issue matches and that lies in an allowed root if the issue gives roots. This
  holds whatever denylist the check itself could resolve.
\<close>

theorem checked_change_respects_issue:
  assumes "validateDeclaredScope input constraints = Inr scope"
    and "normalizeIssueConstraints constraints = Inr norm"
    and "checkScope raws (Some \<lparr>sd_declared_paths = ds_paths scope, sd_declared_globs = Some (ds_globs scope),
           sd_baseline = base\<rparr>) denylist = Inr ok"
  shows "sp_skipped ok = filter isControlArtifact raws
    \<and> list_all (\<lambda>raw.
        if isControlArtifact raw
        then \<exists>segs rest. parseConcretePath (backslashes_to_slashes raw) = Inr segs
          \<and> (segs = ''docs'' # ''declarations'' # rest \<or> segs = ''.orchestrator-pack'' # rest)
        else \<exists>p. normalizePath raw = Inr p \<and> \<not> pathMatchesAnyPattern p denylist
          \<and> \<not> pathMatchesAnyPattern p (ic_denylist norm)
          \<and> (case ic_allowed_roots norm of None \<Rightarrow> True | Some roots \<Rightarrow> pathMatchesAnyPattern p roots)) raws"
proof -
  let ?d = "\<lparr>sd_declared_paths = ds_paths scope, sd_declared_globs = Some (ds_globs scope), sd_baseline = base\<rparr>"
  have "\<exists>p. normalizePath raw = Inr p \<and> \<not> pathMatchesAnyPattern p denylist
      \<and> \<not> pathMatchesAnyPattern p (ic_denylist norm)
      \<and> (case ic_allowed_roots norm of None \<Rightarrow> True | Some roots \<Rightarrow> pathMatchesAnyPattern p roots)"
    if "raw \<in> set raws" "\<not> isControlArtifact raw" for raw
  proof -
    have "path_admitted ?d denylist raw" using assms(3) that checkScope_Some_pass by blast
    then obtain p where p: "normalizePath raw = Inr p" "\<not> pathMatchesAnyPattern p denylist"
      "pathInDeclaredScope p (ds_paths scope) (ds_globs scope)" by (auto simp: path_admitted_def)
    from declared_scope_admits [OF assms(1,2) p(3,1)] p(1,2) show ?thesis by (auto split: option.splits)
  qed
  moreover have "sp_skipped ok = filter isControlArtifact raws"
    using assms(3) by (auto simp: checkScope_def partition_filter Let_def split: if_splits)
  moreover have "\<exists>segs rest. parseConcretePath (backslashes_to_slashes raw) = Inr segs
      \<and> (segs = ''docs'' # ''declarations'' # rest \<or> segs = ''.orchestrator-pack'' # rest)" if "isControlArtifact raw" for raw
    using that by (simp only: isControlArtifact_segments)
  ultimately show ?thesis unfolding list_all_iff by (intro conjI ballI) simp_all
qed

lemma sample_scope:
  "validateDeclaredScope \<lparr>ds_paths = [''src/a.ts''], ds_globs = []\<rparr>
      \<lparr>ic_denylist = [''vendor/**''], ic_allowed_roots = None\<rparr>
    = Inr \<lparr>ds_paths = [''src/a.ts''], ds_globs = []\<rparr>"
  "normalizeIssueConstraints \<lparr>ic_denylist = [''vendor/**''], ic_allowed_roots = None\<rparr>
    = Inr \<lparr>ic_denylist = [''vendor/**''], ic_allowed_roots = None\<rparr>"
  "checkScope [''docs/declarations/a'', ''src/a.ts''] (Some \<lparr>sd_declared_paths = [''src/a.ts''], sd_declared_globs = Some [],
      sd_baseline = None\<rparr>) [] = Inr \<lparr>sp_skipped = [''docs/declarations/a''], sp_checked = [''src/a.ts'']\<rparr>"
  "\<not> isControlArtifact ''src/a.ts''"
proof -
  have n: "normalizePath ''src/a.ts'' = Inr ''src/a.ts''" "normalizePath ''vendor/**'' = Inr ''vendor/**''"
    by code_simp+
  have p: "parsePathPattern ''src/a.ts'' = Inr \<lparr>pp_source = ''src/a.ts'', pp_kind = Exact,
      pp_tokens = [Segment ''src'', Segment ''a.ts'']\<rparr>"
    "parsePathPattern ''vendor/**'' = Inr \<lparr>pp_source = ''vendor/**'', pp_kind = Directory,
      pp_tokens = [Segment ''vendor'', DoubleStar]\<rparr>"
    by code_simp+
  have deny: "\<not> matchesPathPattern ''vendor/**'' ''src/a.ts''" and self: "matchesPathPattern ''src/a.ts'' ''src/a.ts''"
    using p by (simp_all add: match_eval sample_parses)
  show c: "\<not> isControlArtifact ''src/a.ts''"
    using sample_parses(4)
    by (simp add: isControlArtifact_segments backslashes_to_slashes_def)
  show "normalizeIssueConstraints \<lparr>ic_denylist = [''vendor/**''], ic_allowed_roots = None\<rparr>
    = Inr \<lparr>ic_denylist = [''vendor/**''], ic_allowed_roots = None\<rparr>"
    by code_simp
  show "validateDeclaredScope \<lparr>ds_paths = [''src/a.ts''], ds_globs = []\<rparr>
      \<lparr>ic_denylist = [''vendor/**''], ic_allowed_roots = None\<rparr>
    = Inr \<lparr>ds_paths = [''src/a.ts''], ds_globs = []\<rparr>"
    using n p deny by (simp add: validateDeclaredScope_def normalizePaths_def normalizeConstraintPatterns_def
        validateDeclaredPatterns_def root_errors_def pathMatchesAnyPattern_def)
  have "parseConcretePath (backslashes_to_slashes ''docs/declarations/a'') = Inr [''docs'', ''declarations'', ''a'']" by code_simp
  then have control: "isControlArtifact ''docs/declarations/a''" by (simp add: isControlArtifact_segments)
  show "checkScope [''docs/declarations/a'', ''src/a.ts''] (Some \<lparr>sd_declared_paths = [''src/a.ts''], sd_declared_globs = Some [],
      sd_baseline = None\<rparr>) [] = Inr \<lparr>sp_skipped = [''docs/declarations/a''], sp_checked = [''src/a.ts'']\<rparr>"
    using n c control self by (simp add: checkScope_def partition_filter classify_eq pathMatchesAnyPattern_def
        pathInDeclaredScope_def)
qed

theorem checked_change_respects_issue_witness:
  "filter isControlArtifact [''docs/declarations/a'', ''src/a.ts''] = [''docs/declarations/a'']
    \<and> (\<exists>p. normalizePath ''src/a.ts'' = Inr p \<and> \<not> pathMatchesAnyPattern p [''vendor/**''])"
  using checked_change_respects_issue [OF sample_scope(1,2), of "[''docs/declarations/a'', ''src/a.ts'']" None "[]"]
    sample_scope(3,4) by fastforce

end
