(* ===== verification/Declaration_Schema.thy ===== *)
theory Declaration_Schema
  imports Normalize Json
begin

text \<open>
  Declaration snapshots, \<open>plugins/_shared/lib/declaration_schema.ts\<close>: the record of a declared
  scope, its validation from a parsed JSON value and the JSON value it is written as. Validation
  collects error texts in the order of the code; an absent field is \<open>None\<close>.
\<close>

section \<open>Data\<close>

datatype iteration_id_source = Explicit | Wrapper_Generated

record declaration_baseline =
  db_commit_sha :: string
  db_worktree_dirty :: bool
  db_active_scope_hash :: string

record declaration_amendment =
  da_previous_hash :: string
  da_new_hash :: string
  da_added :: "string list"
  da_removed :: "string list"
  da_reason :: string
  da_actor :: string
  da_timestamp :: string
  da_applied :: bool

record declaration_snapshot =
  dn_issue_number :: int
  dn_iteration_id :: string
  dn_iteration_id_source :: iteration_id_source
  dn_supersedes :: "string option"
  dn_created_at :: string
  dn_baseline :: declaration_baseline
  dn_declared_paths :: "string list"
  dn_declared_globs :: "string list"
  dn_amendments :: "declaration_amendment list"

section \<open>Time stamps\<close>

text \<open>The digits and separators of a pattern, \<open>d\<close> for a digit.\<close>

fun digits_at :: "string \<Rightarrow> string \<Rightarrow> bool" where
  "digits_at [] s = (s = [])"
| "digits_at (p # ps) (c # s) = ((if p = CHR ''d'' then is_digit c else c = p) \<and> digits_at ps s)"
| "digits_at (p # ps) [] = False"

definition iso_zone :: "string \<Rightarrow> bool" where
  "iso_zone s \<longleftrightarrow> s = ''Z'' \<or> digits_at ''+dd:dd'' s \<or> digits_at ''-dd:dd'' s"

definition ISO_8601 :: "string \<Rightarrow> bool" where
  "ISO_8601 s \<longleftrightarrow>
     digits_at ''dddd-dd-ddTdd:dd:dd'' (take 19 s) \<and>
     (let rest = drop 19 s in
      iso_zone rest \<or>
      (js_starts_with ''.'' rest \<and> takeWhile is_digit (tl rest) \<noteq> [] \<and> iso_zone (dropWhile is_digit (tl rest))))"

section \<open>Validation\<close>

definition isScopeHash :: "json option \<Rightarrow> bool" where
  "isScopeHash v \<longleftrightarrow> is_string v \<and> js_starts_with ''sha256:'' (json_string v) \<and> 7 < length (json_string v)"

fun is_bool :: "json option \<Rightarrow> bool" where
  "is_bool (Some (JBool b)) = True"
| "is_bool _ = False"

fun json_bool :: "json option \<Rightarrow> bool" where
  "json_bool (Some (JBool b)) = b"
| "json_bool _ = False"

fun is_integer :: "json option \<Rightarrow> bool" where
  "is_integer (Some (JInt i)) = True"
| "is_integer _ = False"

fun json_int :: "json option \<Rightarrow> int" where
  "json_int (Some (JInt i)) = i"
| "json_int _ = 0"

definition nonblank :: "json option \<Rightarrow> bool" where
  "nonblank v \<longleftrightarrow> is_string v \<and> js_trim (json_string v) \<noteq> []"

definition err_unless :: "bool \<Rightarrow> string \<Rightarrow> string list" where
  "err_unless b message = (if b then [] else [message])"

fun scope_entries_from :: "string \<Rightarrow> nat \<Rightarrow> string list \<Rightarrow> string list" where
  "scope_entries_from field index [] = []"
| "scope_entries_from field index (entry # entries) =
     (case normalizePath entry of
        Inl reason \<Rightarrow> [at_index field index @ '': '' @ reason]
      | Inr path \<Rightarrow>
          if path \<noteq> entry
          then [at_index field index @ '': must be a normalized relative path (got '' @ [CHR 0x22] @ entry @ [CHR 0x22] @ '')'']
          else [])
     @ scope_entries_from field (Suc index) entries"

definition validateNormalizedScopeEntries :: "string list \<Rightarrow> string \<Rightarrow> string list" where
  "validateNormalizedScopeEntries entries field = scope_entries_from field 0 entries"

definition string_array_errors :: "json option \<Rightarrow> string \<Rightarrow> string list" where
  "string_array_errors v field =
     (if \<not> isStringArray v then [field @ '' must be an array of strings'']
      else validateNormalizedScopeEntries (json_strings v) field)"

definition amendment_errors :: "string \<Rightarrow> json \<Rightarrow> string list" where
  "amendment_errors prefix entry =
     (if \<not> isRecord (Some entry) then [prefix @ '': must be an object'']
      else
        err_unless (isScopeHash (json_field entry ''previous_active_scope_hash''))
          (prefix @ ''.previous_active_scope_hash must be a sha256: prefixed string'')
        @ err_unless (isScopeHash (json_field entry ''new_active_scope_hash''))
          (prefix @ ''.new_active_scope_hash must be a sha256: prefixed string'')
        @ (case json_field entry ''changed'' of
             Some (JObj kvs) \<Rightarrow>
               string_array_errors (map_of kvs ''added'') (prefix @ ''.changed.added'')
               @ string_array_errors (map_of kvs ''removed'') (prefix @ ''.changed.removed'')
           | _ \<Rightarrow> [prefix @ ''.changed must be an object''])
        @ err_unless (nonblank (json_field entry ''reason'')) (prefix @ ''.reason must be a non-empty string'')
        @ err_unless (nonblank (json_field entry ''actor'')) (prefix @ ''.actor must be a non-empty string'')
        @ err_unless (is_string (json_field entry ''timestamp'') \<and> ISO_8601 (json_string (json_field entry ''timestamp'')))
          (prefix @ ''.timestamp must be an ISO 8601 timestamp string'')
        @ (if \<not> is_bool (json_field entry ''applied'') then [prefix @ ''.applied must be a boolean'']
           else err_unless (json_bool (json_field entry ''applied''))
             (prefix @ ''.applied must be true for committed amendments'')))"

definition MAX_AMENDMENTS_PER_ITERATION :: nat where
  "MAX_AMENDMENTS_PER_ITERATION = 1"

fun amendments_from :: "nat \<Rightarrow> json list \<Rightarrow> string list" where
  "amendments_from index [] = []"
| "amendments_from index (entry # entries) =
     amendment_errors (at_index ''amendments'' index) entry @ amendments_from (Suc index) entries"

definition validateAmendmentEntries :: "json option \<Rightarrow> string list" where
  "validateAmendmentEntries amendments =
     (case amendments of
        Some (JArr entries) \<Rightarrow>
          err_unless (length entries \<le> MAX_AMENDMENTS_PER_ITERATION)
            (''amendments must contain at most '' @ show_nat MAX_AMENDMENTS_PER_ITERATION @ '' entry per iteration'')
          @ amendments_from 0 entries
      | _ \<Rightarrow> [''amendments must be an array''])"

definition build_amendment :: "json \<Rightarrow> declaration_amendment" where
  "build_amendment entry =
     (let changed = (case json_field entry ''changed'' of Some c \<Rightarrow> c | None \<Rightarrow> JNull) in
      \<lparr>da_previous_hash = json_string (json_field entry ''previous_active_scope_hash''),
       da_new_hash = json_string (json_field entry ''new_active_scope_hash''),
       da_added = json_strings (json_field changed ''added''),
       da_removed = json_strings (json_field changed ''removed''),
       da_reason = json_string (json_field entry ''reason''),
       da_actor = json_string (json_field entry ''actor''),
       da_timestamp = json_string (json_field entry ''timestamp''),
       da_applied = json_bool (json_field entry ''applied'')\<rparr>)"

text \<open>
  The snapshot as its declared type has it. The source hands the array of amendments on as it is, so
  that members of an amendment outside the type would survive there; the record has no place for them.
\<close>

definition buildSnapshot :: "json \<Rightarrow> declaration_snapshot" where
  "buildSnapshot input =
     (let baseline = (case json_field input ''baseline'' of Some b \<Rightarrow> b | None \<Rightarrow> JNull) in
      \<lparr>dn_issue_number = json_int (json_field input ''issue_number''),
       dn_iteration_id = json_string (json_field input ''iteration_id''),
       dn_iteration_id_source =
         (if json_field input ''iteration_id_source'' = Some (JStr ''explicit'') then Explicit else Wrapper_Generated),
       dn_supersedes = (case json_field input ''supersedes'' of Some (JStr s) \<Rightarrow> Some s | _ \<Rightarrow> None),
       dn_created_at = json_string (json_field input ''created_at''),
       dn_baseline = \<lparr>db_commit_sha = json_string (json_field baseline ''commit_sha''),
         db_worktree_dirty = json_bool (json_field baseline ''worktree_dirty''),
         db_active_scope_hash = json_string (json_field baseline ''active_scope_hash'')\<rparr>,
       dn_declared_paths = json_strings (json_field input ''declared_paths''),
       dn_declared_globs = json_strings (json_field input ''declared_globs''),
       dn_amendments = (case json_field input ''amendments'' of
          Some (JArr entries) \<Rightarrow> map build_amendment entries | _ \<Rightarrow> [])\<rparr>)"

definition baseline_errors :: "json option \<Rightarrow> string list" where
  "baseline_errors baseline =
     (case baseline of
        Some (JObj kvs) \<Rightarrow>
          err_unless (nonblank (map_of kvs ''commit_sha'')) ''baseline.commit_sha must be a non-empty string''
          @ err_unless (is_bool (map_of kvs ''worktree_dirty'')) ''baseline.worktree_dirty must be a boolean''
          @ err_unless (isScopeHash (map_of kvs ''active_scope_hash''))
              ''baseline.active_scope_hash must be a sha256: prefixed string''
      | _ \<Rightarrow> [''baseline must be an object''])"

definition snapshot_errors :: "json \<Rightarrow> string list" where
  "snapshot_errors input =
     err_unless (is_integer (json_field input ''issue_number'')) ''issue_number must be an integer''
     @ err_unless (nonblank (json_field input ''iteration_id'')) ''iteration_id must be a non-empty string''
     @ err_unless (json_field input ''iteration_id_source'' \<in> {Some (JStr ''explicit''), Some (JStr ''wrapper_generated'')})
         (''iteration_id_source must be '' @ [CHR 0x22] @ ''explicit'' @ [CHR 0x22] @ '' or ''
            @ [CHR 0x22] @ ''wrapper_generated'' @ [CHR 0x22])
     @ err_unless (json_field input ''supersedes'' = Some JNull \<or> is_string (json_field input ''supersedes''))
         ''supersedes must be a string or null''
     @ err_unless (is_string (json_field input ''created_at'') \<and> ISO_8601 (json_string (json_field input ''created_at'')))
         ''created_at must be an ISO 8601 timestamp string''
     @ baseline_errors (json_field input ''baseline'')
     @ string_array_errors (json_field input ''declared_paths'') ''declared_paths''
     @ string_array_errors (json_field input ''declared_globs'') ''declared_globs''
     @ validateAmendmentEntries (json_field input ''amendments'')"

definition validateDeclarationSnapshot :: "json \<Rightarrow> string list + declaration_snapshot" where
  "validateDeclarationSnapshot input =
     (if \<not> isRecord (Some input) then Inl [''snapshot must be a JSON object'']
      else let errors = snapshot_errors input
           in if 0 < length errors then Inl errors else Inr (buildSnapshot input))"

section \<open>The JSON value of a snapshot\<close>

definition amendment_json :: "declaration_amendment \<Rightarrow> json" where
  "amendment_json a = JObj
     [(''previous_active_scope_hash'', JStr (da_previous_hash a)),
      (''new_active_scope_hash'', JStr (da_new_hash a)),
      (''changed'', JObj [(''added'', JArr (map JStr (da_added a))), (''removed'', JArr (map JStr (da_removed a)))]),
      (''reason'', JStr (da_reason a)), (''actor'', JStr (da_actor a)),
      (''timestamp'', JStr (da_timestamp a)), (''applied'', JBool (da_applied a))]"

fun source_json :: "iteration_id_source \<Rightarrow> json" where
  "source_json Explicit = JStr ''explicit''"
| "source_json Wrapper_Generated = JStr ''wrapper_generated''"

definition snapshot_json :: "declaration_snapshot \<Rightarrow> json" where
  "snapshot_json s = JObj
     [(''issue_number'', JInt (dn_issue_number s)), (''iteration_id'', JStr (dn_iteration_id s)),
      (''iteration_id_source'', source_json (dn_iteration_id_source s)),
      (''supersedes'', case dn_supersedes s of None \<Rightarrow> JNull | Some x \<Rightarrow> JStr x),
      (''created_at'', JStr (dn_created_at s)),
      (''baseline'', JObj [(''commit_sha'', JStr (db_commit_sha (dn_baseline s))),
         (''worktree_dirty'', JBool (db_worktree_dirty (dn_baseline s))),
         (''active_scope_hash'', JStr (db_active_scope_hash (dn_baseline s)))]),
      (''declared_paths'', JArr (map JStr (dn_declared_paths s))),
      (''declared_globs'', JArr (map JStr (dn_declared_globs s))),
      (''amendments'', JArr (map amendment_json (dn_amendments s)))]"

section \<open>What a valid snapshot satisfies\<close>

definition scope_hash_ok :: "string \<Rightarrow> bool" where
  "scope_hash_ok s \<longleftrightarrow> js_starts_with ''sha256:'' s \<and> 7 < length s"

definition normal_entry :: "string \<Rightarrow> bool" where
  "normal_entry e \<longleftrightarrow> normalizePath e = Inr e"

definition amendment_ok :: "declaration_amendment \<Rightarrow> bool" where
  "amendment_ok a \<longleftrightarrow>
     scope_hash_ok (da_previous_hash a) \<and> scope_hash_ok (da_new_hash a) \<and>
     list_all normal_entry (da_added a) \<and> list_all normal_entry (da_removed a) \<and>
     js_trim (da_reason a) \<noteq> [] \<and> js_trim (da_actor a) \<noteq> [] \<and> ISO_8601 (da_timestamp a) \<and> da_applied a"

definition snapshot_ok :: "declaration_snapshot \<Rightarrow> bool" where
  "snapshot_ok s \<longleftrightarrow>
     js_trim (dn_iteration_id s) \<noteq> [] \<and> ISO_8601 (dn_created_at s) \<and>
     js_trim (db_commit_sha (dn_baseline s)) \<noteq> [] \<and> scope_hash_ok (db_active_scope_hash (dn_baseline s)) \<and>
     list_all normal_entry (dn_declared_paths s) \<and> list_all normal_entry (dn_declared_globs s) \<and>
     length (dn_amendments s) \<le> 1 \<and> list_all amendment_ok (dn_amendments s)"

lemma err_unless_Nil [simp]: "err_unless b m = [] \<longleftrightarrow> b"
  by (simp add: err_unless_def)

lemma scope_entries_Nil: "scope_entries_from field i es = [] \<longleftrightarrow> list_all normal_entry es"
  by (induction es arbitrary: i) (auto simp: normal_entry_def split: sum.splits)

lemma string_array_Nil:
  "string_array_errors v field = [] \<longleftrightarrow>
     (\<exists>xs. v = Some (JArr (map JStr xs)) \<and> json_strings v = xs \<and> list_all normal_entry xs)"
proof -
  have "isStringArray v \<longleftrightarrow> (\<exists>xs. v = Some (JArr (map JStr xs)))"
  proof
    assume "isStringArray v"
    then obtain js where v: "v = Some (JArr js)" and all: "list_all (\<lambda>j. is_string (Some j)) js"
      by (cases v rule: isStringArray.cases) auto
    have "is_string (Some j) \<Longrightarrow> \<exists>s. j = JStr s" for j by (cases j) auto
    with all have "\<exists>xs. js = map JStr xs"
    proof (induction js)
      case (Cons j js)
      obtain s where "j = JStr s" using Cons.prems \<open>\<And>j. is_string (Some j) \<Longrightarrow> \<exists>s. j = JStr s\<close> by auto
      moreover obtain xs where "js = map JStr xs" using Cons by auto
      ultimately show ?case by (intro exI [of _ "s # xs"]) simp
    qed simp
    with v show "\<exists>xs. v = Some (JArr (map JStr xs))" by blast
  qed (auto simp: list_all_iff)
  then show ?thesis
    by (auto simp: string_array_errors_def validateNormalizedScopeEntries_def scope_entries_Nil o_def)
qed

lemma json_strings_map [simp]: "json_strings (Some (JArr (map JStr xs))) = xs"
  by (simp add: o_def)

lemma isScopeHash_iff: "isScopeHash v \<longleftrightarrow> (\<exists>s. v = Some (JStr s) \<and> scope_hash_ok s)"
  by (cases v rule: is_string.cases) (auto simp: isScopeHash_def scope_hash_ok_def)

lemma nonblank_iff: "nonblank v \<longleftrightarrow> (\<exists>s. v = Some (JStr s) \<and> js_trim s \<noteq> [])"
  by (cases v rule: is_string.cases) (auto simp: nonblank_def)

lemma is_bool_iff: "is_bool v \<longleftrightarrow> (\<exists>b. v = Some (JBool b))"
  by (cases v rule: is_bool.cases) auto

lemma is_string_iff: "is_string v \<longleftrightarrow> (\<exists>s. v = Some (JStr s))"
  by (cases v rule: is_string.cases) auto

lemma is_integer_iff: "is_integer v \<longleftrightarrow> (\<exists>i. v = Some (JInt i))"
  by (cases v rule: is_integer.cases) auto

lemma isScopeHash_str [simp]: "isScopeHash (Some (JStr s)) = scope_hash_ok s"
  by (simp add: isScopeHash_iff)

lemma nonblank_str [simp]: "nonblank (Some (JStr s)) \<longleftrightarrow> js_trim s \<noteq> []"
  by (simp add: nonblank_iff)

lemma string_array_strs [simp]: "string_array_errors (Some (JArr (map JStr xs))) field = [] \<longleftrightarrow> list_all normal_entry xs"
  by (auto simp: string_array_Nil o_def)

lemma amendment_errors_json: "amendment_errors p (amendment_json a) = [] \<longleftrightarrow> amendment_ok a"
  by (auto simp: amendment_errors_def amendment_json_def amendment_ok_def)

lemma amendments_from_json: "amendments_from i (map amendment_json as) = [] \<longleftrightarrow> list_all amendment_ok as"
  by (induction as arbitrary: i) (auto simp: amendment_errors_json)

lemma build_amendment_json [simp]: "build_amendment (amendment_json a) = a"
  by (simp add: build_amendment_def amendment_json_def o_def)

lemma snapshot_errors_json: "snapshot_errors (snapshot_json s) = [] \<longleftrightarrow> snapshot_ok s"
proof -
  have src: "Some (source_json x) \<in> {Some (JStr ''explicit''), Some (JStr ''wrapper_generated'')}" for x
    by (cases x) auto
  have sup: "(case x of None \<Rightarrow> JNull | Some y \<Rightarrow> JStr y) = JNull
      \<or> is_string (Some (case x of None \<Rightarrow> JNull | Some y \<Rightarrow> JStr y))" for x
    by (cases x) auto
  show ?thesis
    using src [of "dn_iteration_id_source s"] sup [of "dn_supersedes s"]
    by (simp add: snapshot_errors_def snapshot_json_def snapshot_ok_def baseline_errors_def
        validateAmendmentEntries_def amendments_from_json MAX_AMENDMENTS_PER_ITERATION_def)
qed

lemma buildSnapshot_json [simp]: "buildSnapshot (snapshot_json s) = s"
proof -
  have "(if Some (source_json x) = Some (JStr ''explicit'') then Explicit else Wrapper_Generated) = x" for x
    by (cases x) auto
  moreover have "(case Some (case x of None \<Rightarrow> JNull | Some y \<Rightarrow> JStr y) of Some (JStr t) \<Rightarrow> Some t | _ \<Rightarrow> None) = x"
    for x :: "string option" by (cases x) auto
  moreover have "map (build_amendment \<circ> amendment_json) (dn_amendments s) = dn_amendments s"
    by (simp add: map_idI)
  ultimately show ?thesis
    by (simp add: buildSnapshot_def snapshot_json_def o_def)
qed

lemma validate_snapshot_json:
  "validateDeclarationSnapshot (snapshot_json s) = Inr s' \<longleftrightarrow> snapshot_ok s \<and> s' = s"
  using snapshot_errors_json [of s]
  by (auto simp: validateDeclarationSnapshot_def Let_def) (simp_all add: snapshot_json_def)

text \<open>Any accepted JSON value gives a snapshot with the same guarantees.\<close>

lemma amendment_errors_build:
  assumes "amendment_errors p entry = []"
  shows "amendment_ok (build_amendment entry)"
  using assms
  by (auto simp: amendment_errors_def build_amendment_def amendment_ok_def isScopeHash_iff nonblank_iff
      is_bool_iff is_string_iff string_array_Nil split: if_splits option.splits json.splits)

lemma amendments_from_build: "amendments_from i es = [] \<Longrightarrow> list_all amendment_ok (map build_amendment es)"
  by (induction es arbitrary: i) (auto simp: amendment_errors_build)

lemma validate_snapshot_ok:
  assumes "validateDeclarationSnapshot input = Inr s"
  shows "snapshot_ok s"
proof -
  from assms have e: "snapshot_errors input = []" and s: "s = buildSnapshot input"
    by (auto simp: validateDeclarationSnapshot_def Let_def split: if_splits)
  from e obtain entries where am: "json_field input ''amendments'' = Some (JArr entries)"
    "length entries \<le> 1" "amendments_from 0 entries = []"
    by (auto simp: snapshot_errors_def validateAmendmentEntries_def MAX_AMENDMENTS_PER_ITERATION_def
        split: option.splits json.splits)
  from e obtain kvs where b: "json_field input ''baseline'' = Some (JObj kvs)"
    "nonblank (map_of kvs ''commit_sha'')" "isScopeHash (map_of kvs ''active_scope_hash'')"
    by (auto simp: snapshot_errors_def baseline_errors_def split: option.splits json.splits)
  from e obtain ps gs where d: "json_field input ''declared_paths'' = Some (JArr (map JStr ps))" "list_all normal_entry ps"
    "json_field input ''declared_globs'' = Some (JArr (map JStr gs))" "list_all normal_entry gs"
    by (auto simp: snapshot_errors_def string_array_Nil)
  from e have i: "nonblank (json_field input ''iteration_id'')" "is_string (json_field input ''created_at'')"
    "ISO_8601 (json_string (json_field input ''created_at''))"
    by (auto simp: snapshot_errors_def)
  show ?thesis
    using am amendments_from_build [OF am(3)] b d i
    by (auto simp: s buildSnapshot_def snapshot_ok_def nonblank_iff isScopeHash_iff o_def)
qed

section \<open>Properties\<close>

text \<open>
  C36: writing a snapshot and validating what was written gives the same snapshot back, and the
  validation accepts it exactly when the snapshot is well formed: non-blank identity and commit,
  ISO time stamps, \<open>sha256:\<close> hashes, entries that normalize to themselves, at most one applied
  amendment.
\<close>

theorem snapshot_roundtrip:
  "validateDeclarationSnapshot (snapshot_json s) = Inr s' \<longleftrightarrow> snapshot_ok s \<and> s' = s"
  by (rule validate_snapshot_json)

text \<open>
  whatever JSON value the validation accepts, the snapshot it builds is well formed, so it can
  be written and read back unchanged.
\<close>

theorem accepted_snapshot_stable:
  assumes "validateDeclarationSnapshot input = Inr s"
  shows "snapshot_ok s \<and> validateDeclarationSnapshot (snapshot_json s) = Inr s"
  using validate_snapshot_ok [OF assms] validate_snapshot_json by blast

definition sample_snapshot :: declaration_snapshot where
  "sample_snapshot =
     \<lparr>dn_issue_number = 7, dn_iteration_id = ''it-1'', dn_iteration_id_source = Explicit, dn_supersedes = None,
      dn_created_at = ''2026-01-02T03:04:05.678Z'',
      dn_baseline = \<lparr>db_commit_sha = ''abc'', db_worktree_dirty = False, db_active_scope_hash = ''sha256:00''\<rparr>,
      dn_declared_paths = [''src/a.ts''], dn_declared_globs = [], dn_amendments = []\<rparr>"

theorem accepted_snapshot_stable_witness: "snapshot_ok sample_snapshot"
proof -
  have "validateDeclarationSnapshot (snapshot_json sample_snapshot) = Inr sample_snapshot" by code_simp
  from accepted_snapshot_stable [OF this] show ?thesis by blast
qed

end
