(* ===== verification/Task_Declaration.thy ===== *)
theory Task_Declaration
  imports Declared_Scope Declaration_Schema "HOL-Library.Multiset"
begin

text \<open>
  The operations of the task-declaration plugin: the hash of an active scope and the state of the
  worktree (\<open>plugins/task-declaration/lib/baseline.ts\<close>), the identity of an iteration
  (\<open>iteration.ts\<close>) and the one amendment of an iteration (\<open>amendment.ts\<close>). The SHA-256 function,
  the output of git, the clock and the random identifier are parameters.
\<close>

section \<open>Scope hash\<close>

record active_scope =
  as_declared_paths :: "string list"
  as_declared_globs :: "string list"
  as_issue_denylist :: "string list"
  as_issue_allowed_roots :: "string list option"

definition scope_payload :: "active_scope \<Rightarrow> json" where
  "scope_payload input = JObj
     ([(''declared_paths'', JArr (map JStr (sort (as_declared_paths input)))),
       (''declared_globs'', JArr (map JStr (sort (as_declared_globs input)))),
       (''issue_denylist'', JArr (map JStr (sort (as_issue_denylist input))))]
      @ (case as_issue_allowed_roots input of
           None \<Rightarrow> [] | Some roots \<Rightarrow> [(''issue_allowed_roots'', JArr (map JStr (sort roots)))]))"

definition computeActiveScopeHash :: "(string \<Rightarrow> string) \<Rightarrow> active_scope \<Rightarrow> string" where
  "computeActiveScopeHash sha256 input = ''sha256:'' @ sha256 (json_text (scope_payload input))"

section \<open>Worktree state\<close>

definition RUNTIME_PATH_EXCLUSIONS :: "string list" where
  "RUNTIME_PATH_EXCLUSIONS = [''.orchestrator-pack/'', ''node_modules/'', ''dist/'', ''build/'',
     ''coverage/'', ''.cache/'', ''.turbo/'', ''.next/'', ''.out/'', ''.npm/'', ''.pnpm-store/'']"

text \<open>\<open>payload.split(' -> ').pop()\<close>: what follows the last marker, scanning from the left.\<close>

function after_markers :: "string \<Rightarrow> string \<Rightarrow> string" where
  "after_markers start s =
     (case s of
        [] \<Rightarrow> start
      | c # cs \<Rightarrow>
          if js_starts_with '' -> '' s then after_markers (drop 4 s) (drop 4 s)
          else after_markers start cs)"
  by pat_completeness auto
termination by (relation "measure (\<lambda>(a, s). length s)") auto

declare after_markers.simps [simp del]

definition parsePorcelainPath :: "string \<Rightarrow> string option" where
  "parsePorcelainPath line =
     (if length line < 4 then None
      else
        let payload = js_trim (drop 3 line) in
        if payload = [] then None
        else if js_includes '' -> '' payload then Some (after_markers payload payload)
        else Some payload)"

definition isRuntimeExcludedPath :: "string \<Rightarrow> bool" where
  "isRuntimeExcludedPath path \<longleftrightarrow>
     list_ex (\<lambda>prefix. js_starts_with prefix (backslashes_to_slashes path)) RUNTIME_PATH_EXCLUSIONS"

definition runGit :: "(string list \<Rightarrow> string) \<Rightarrow> string list \<Rightarrow> string" where
  "runGit git args = js_trim (git args)"

fun dirty_lines :: "string list \<Rightarrow> bool" where
  "dirty_lines [] = False"
| "dirty_lines (line # lines) =
     (if js_trim line = [] then dirty_lines lines
      else (case parsePorcelainPath line of
              None \<Rightarrow> dirty_lines lines
            | Some path \<Rightarrow> if path = [] \<or> isRuntimeExcludedPath path then dirty_lines lines else True))"

definition isWorktreeDirty :: "(string list \<Rightarrow> string) \<Rightarrow> bool" where
  "isWorktreeDirty git =
     (let porcelain = runGit git [''status'', ''--porcelain'']
      in porcelain \<noteq> [] \<and> dirty_lines (split_lines porcelain))"

definition computeBaseline :: "(string \<Rightarrow> string) \<Rightarrow> (string list \<Rightarrow> string) \<Rightarrow> active_scope \<Rightarrow> declaration_baseline" where
  "computeBaseline sha256 git scope =
     \<lparr>db_commit_sha = runGit git [''rev-parse'', ''HEAD''],
      db_worktree_dirty = isWorktreeDirty git,
      db_active_scope_hash = computeActiveScopeHash sha256 scope\<rparr>"

definition assertCleanWorktree :: "(string list \<Rightarrow> string) \<Rightarrow> string + unit" where
  "assertCleanWorktree git =
     require (\<not> isWorktreeDirty git) ''worktree is dirty; commit or stash pending changes before declaring scope''"

section \<open>Iteration identity\<close>

record iteration_identity =
  ii_iteration_id :: string
  ii_source :: iteration_id_source

text \<open>\<open>toISOString()\<close> without dashes, colons and the milliseconds before the final \<open>Z\<close>.\<close>

definition utcTimestamp :: "string \<Rightarrow> string" where
  "utcTimestamp now_iso =
     (let s = filter (\<lambda>c. c \<noteq> CHR ''-'' \<and> c \<noteq> CHR '':'') now_iso;
          n = length s
      in if 5 \<le> n \<and> digits_at ''.dddZ'' (drop (n - 5) s) then take (n - 5) s @ ''Z'' else s)"

fun given_id :: "string option \<Rightarrow> bool" where
  "given_id (Some s) = (js_trim s \<noteq> [])"
| "given_id None = False"

definition resolveIterationId ::
  "string \<Rightarrow> string \<Rightarrow> string option \<Rightarrow> string option \<Rightarrow> iteration_identity" where
  "resolveIterationId uuid now_iso explicitIterationId fallbackIterationId =
     (if given_id explicitIterationId
      then \<lparr>ii_iteration_id = js_trim (the explicitIterationId), ii_source = Explicit\<rparr>
      else if given_id fallbackIterationId
      then \<lparr>ii_iteration_id = js_trim (the fallbackIterationId), ii_source = Wrapper_Generated\<rparr>
      else \<lparr>ii_iteration_id = ''wrap-'' @ utcTimestamp now_iso @ ''-'' @ hd (js_split (CHR ''-'') uuid),
            ii_source = Wrapper_Generated\<rparr>)"

section \<open>Amendment\<close>

record amendment_input =
  ai_declared_paths :: "string list"
  ai_declared_globs :: "string list"
  ai_reason :: string
  ai_actor :: string

definition diffScope :: "string list \<Rightarrow> string list \<Rightarrow> string list \<Rightarrow> string list \<Rightarrow> string list \<times> string list" where
  "diffScope previousPaths previousGlobs nextPaths nextGlobs =
     (let previous = set_of_list (previousPaths @ previousGlobs);
          nxt = set_of_list (nextPaths @ nextGlobs)
      in (sort (filter (\<lambda>e. e \<notin> set previous) nxt), sort (filter (\<lambda>e. e \<notin> set nxt) previous)))"

definition amendment_rejected :: string where
  "amendment_rejected = ''amendment rejected: one amendment per iteration_id has already been recorded''"

definition applyAmendment ::
  "(string \<Rightarrow> string) \<Rightarrow> string \<Rightarrow> declaration_snapshot \<Rightarrow> amendment_input \<Rightarrow> issue_constraints
     \<Rightarrow> string + declaration_snapshot" where
  "applyAmendment sha256 now existing input constraints =
     (if 1 \<le> length (dn_amendments existing) then Inl amendment_rejected
      else
        (case validateDeclaredScope \<lparr>ds_paths = ai_declared_paths input, ds_globs = ai_declared_globs input\<rparr> constraints of
           Inl errors \<Rightarrow> Inl (js_join ''; '' errors)
         | Inr validated \<Rightarrow>
             let previousHash = db_active_scope_hash (dn_baseline existing);
                 nextHash = computeActiveScopeHash sha256
                   \<lparr>as_declared_paths = ds_paths validated, as_declared_globs = ds_globs validated,
                    as_issue_denylist = ic_denylist constraints,
                    as_issue_allowed_roots = ic_allowed_roots constraints\<rparr>;
                 (added, removed) = diffScope (dn_declared_paths existing) (dn_declared_globs existing)
                   (ds_paths validated) (ds_globs validated);
                 amendment = \<lparr>da_previous_hash = previousHash, da_new_hash = nextHash,
                   da_added = added, da_removed = removed, da_reason = js_trim (ai_reason input),
                   da_actor = js_trim (ai_actor input), da_timestamp = now, da_applied = True\<rparr>
             in if da_reason amendment = [] then Inl ''amendment reason must be non-empty''
                else if da_actor amendment = [] then Inl ''amendment actor must be non-empty''
                else Inr (existing
                  \<lparr>dn_declared_paths := ds_paths validated, dn_declared_globs := ds_globs validated,
                   dn_baseline := (dn_baseline existing)\<lparr>db_active_scope_hash := nextHash\<rparr>,
                   dn_amendments := [amendment]\<rparr>)))"

definition assertAmendmentAllowed :: "declaration_snapshot \<Rightarrow> string + unit" where
  "assertAmendmentAllowed existing =
     require (\<not> 1 \<le> length (dn_amendments existing)) amendment_rejected"

section \<open>Facts\<close>

lemma json_ok_payload [simp]: "json_ok (scope_payload input)"
  by (cases "as_issue_allowed_roots input") (auto simp: scope_payload_def list_all_iff)

lemma sort_eq_mset: "sort xs = sort ys \<longleftrightarrow> mset xs = mset (ys :: 'a :: linorder list)"
  by (metis mset_sort properties_for_sort sorted_sort)

definition same_scope :: "active_scope \<Rightarrow> active_scope \<Rightarrow> bool" where
  "same_scope a b \<longleftrightarrow>
     mset (as_declared_paths a) = mset (as_declared_paths b) \<and>
     mset (as_declared_globs a) = mset (as_declared_globs b) \<and>
     mset (as_issue_denylist a) = mset (as_issue_denylist b) \<and>
     map_option mset (as_issue_allowed_roots a) = map_option mset (as_issue_allowed_roots b)"

lemma scope_payload_eq: "scope_payload a = scope_payload b \<longleftrightarrow> same_scope a b"
proof -
  have inj: "map JStr xs = map JStr ys \<longleftrightarrow> xs = ys" for xs ys
    by (simp add: inj_def)
  show ?thesis
    by (auto simp: scope_payload_def same_scope_def inj sort_eq_mset split: option.splits)
qed

lemma diffScope_sets:
  "diffScope pp pg np ng = (added, removed) \<Longrightarrow>
     set added = (set np \<union> set ng) - (set pp \<union> set pg) \<and> set removed = (set pp \<union> set pg) - (set np \<union> set ng)
     \<and> sorted added \<and> sorted removed \<and> distinct added \<and> distinct removed"
  by (auto simp: diffScope_def Let_def)

lemma amendment_hash_ok: "sha256 x \<noteq> [] \<Longrightarrow> scope_hash_ok (''sha256:'' @ sha256 x)"
  by (simp add: scope_hash_ok_def js_starts_with_def)

lemma one_le_length: "Suc 0 \<le> length xs \<longleftrightarrow> xs \<noteq> []"
  by (cases xs) auto

lemma applyAmendment_Inr:
  assumes "applyAmendment sha256 now existing input constraints = Inr s'"
  shows "dn_amendments existing = []"
    and "validateDeclaredScope \<lparr>ds_paths = ai_declared_paths input, ds_globs = ai_declared_globs input\<rparr> constraints
      = Inr \<lparr>ds_paths = dn_declared_paths s', ds_globs = dn_declared_globs s'\<rparr>"
    and "js_trim (ai_reason input) \<noteq> []" and "js_trim (ai_actor input) \<noteq> []"
    and "s' = existing
      \<lparr>dn_declared_paths := dn_declared_paths s', dn_declared_globs := dn_declared_globs s',
       dn_baseline := (dn_baseline existing)\<lparr>db_active_scope_hash := db_active_scope_hash (dn_baseline s')\<rparr>,
       dn_amendments := dn_amendments s'\<rparr>"
    and "db_active_scope_hash (dn_baseline s') = computeActiveScopeHash sha256
      \<lparr>as_declared_paths = dn_declared_paths s', as_declared_globs = dn_declared_globs s',
       as_issue_denylist = ic_denylist constraints, as_issue_allowed_roots = ic_allowed_roots constraints\<rparr>"
    and "\<exists>added removed. diffScope (dn_declared_paths existing) (dn_declared_globs existing)
        (dn_declared_paths s') (dn_declared_globs s') = (added, removed)
      \<and> dn_amendments s' = [\<lparr>da_previous_hash = db_active_scope_hash (dn_baseline existing),
          da_new_hash = db_active_scope_hash (dn_baseline s'), da_added = added, da_removed = removed,
          da_reason = js_trim (ai_reason input), da_actor = js_trim (ai_actor input),
          da_timestamp = now, da_applied = True\<rparr>]"
  using assms by (auto simp: applyAmendment_def Let_def one_le_length split: if_splits sum.splits prod.splits)

section \<open>Properties\<close>

text \<open>
  the scope hash depends on the declared scope and the issue constraints up to order only, and
  on all of them: as long as SHA-256 does not collide on the two texts, equal hashes mean the same
  paths, globs, denied patterns and allowed roots, with the same multiplicities.
\<close>

theorem scope_hash_faithful:
  assumes "sha256 (json_text (scope_payload a)) = sha256 (json_text (scope_payload b))
    \<longrightarrow> json_text (scope_payload a) = json_text (scope_payload b)"
  shows "computeActiveScopeHash sha256 a = computeActiveScopeHash sha256 b \<longleftrightarrow> same_scope a b"
proof -
  have "json_text (scope_payload a) = json_text (scope_payload b) \<longleftrightarrow> same_scope a b"
    by (simp add: json_text_inj scope_payload_eq)
  moreover have "computeActiveScopeHash sha256 a = computeActiveScopeHash sha256 b \<longleftrightarrow>
      sha256 (json_text (scope_payload a)) = sha256 (json_text (scope_payload b))"
    by (simp add: computeActiveScopeHash_def)
  ultimately show ?thesis using assms by metis
qed

theorem scope_hash_faithful_witness:
  "computeActiveScopeHash rev \<lparr>as_declared_paths = [''b'', ''a''], as_declared_globs = [],
       as_issue_denylist = [''v/**''], as_issue_allowed_roots = None\<rparr>
   = computeActiveScopeHash rev \<lparr>as_declared_paths = [''a'', ''b''], as_declared_globs = [],
       as_issue_denylist = [''v/**''], as_issue_allowed_roots = None\<rparr>"
  by (subst scope_hash_faithful) (simp_all add: same_scope_def)

text \<open>
  C35: an applied amendment is the only one of its snapshot, keeps the snapshot's identity, records
  the previous and the new scope hash and exactly the entries added and removed, has a scope the
  issue constraints accept, and makes every later amendment of the iteration fail.
\<close>

theorem amendment_applied_once:
  assumes "applyAmendment sha256 now existing input constraints = Inr s'"
  shows "dn_amendments existing = []
    \<and> dn_iteration_id s' = dn_iteration_id existing \<and> dn_issue_number s' = dn_issue_number existing
    \<and> db_commit_sha (dn_baseline s') = db_commit_sha (dn_baseline existing)
    \<and> validateDeclaredScope \<lparr>ds_paths = ai_declared_paths input, ds_globs = ai_declared_globs input\<rparr> constraints
        = Inr \<lparr>ds_paths = dn_declared_paths s', ds_globs = dn_declared_globs s'\<rparr>
    \<and> (\<exists>a. dn_amendments s' = [a]
        \<and> da_previous_hash a = db_active_scope_hash (dn_baseline existing)
        \<and> da_new_hash a = db_active_scope_hash (dn_baseline s')
        \<and> set (da_added a) = (set (dn_declared_paths s') \<union> set (dn_declared_globs s'))
            - (set (dn_declared_paths existing) \<union> set (dn_declared_globs existing))
        \<and> set (da_removed a) = (set (dn_declared_paths existing) \<union> set (dn_declared_globs existing))
            - (set (dn_declared_paths s') \<union> set (dn_declared_globs s')))
    \<and> applyAmendment sha256' now' s' input' constraints' = Inl amendment_rejected"
proof -
  note r = applyAmendment_Inr [OF assms]
  obtain added removed where d: "diffScope (dn_declared_paths existing) (dn_declared_globs existing)
        (dn_declared_paths s') (dn_declared_globs s') = (added, removed)"
    "dn_amendments s' = [\<lparr>da_previous_hash = db_active_scope_hash (dn_baseline existing),
          da_new_hash = db_active_scope_hash (dn_baseline s'), da_added = added, da_removed = removed,
          da_reason = js_trim (ai_reason input), da_actor = js_trim (ai_actor input),
          da_timestamp = now, da_applied = True\<rparr>]" using r(7) by blast
  have same: "dn_iteration_id s' = dn_iteration_id existing" "dn_issue_number s' = dn_issue_number existing"
    "db_commit_sha (dn_baseline s') = db_commit_sha (dn_baseline existing)"
    by (subst r(5), simp)+
  have "applyAmendment sha256' now' s' input' constraints' = Inl amendment_rejected"
    by (simp add: applyAmendment_def d(2))
  with r(1,2) same d diffScope_sets [OF d(1)] show ?thesis by simp
qed

text \<open>
  an amendment keeps the snapshot writable: from a well-formed snapshot, with an ISO clock and
  a digest that is not empty, the amended snapshot is well formed when the amended entries
  normalize to themselves.
\<close>

theorem amendment_keeps_snapshot_ok:
  assumes "snapshot_ok existing" and "applyAmendment sha256 now existing input constraints = Inr s'"
    and "ISO_8601 now" and "\<not> (\<exists>x. sha256 x = [])"
    and "list_all normal_entry (dn_declared_paths s' @ dn_declared_globs s')"
  shows "snapshot_ok s'"
proof -
  note r = applyAmendment_Inr [OF assms(2)]
  obtain added removed where d: "diffScope (dn_declared_paths existing) (dn_declared_globs existing)
        (dn_declared_paths s') (dn_declared_globs s') = (added, removed)"
    "dn_amendments s' = [\<lparr>da_previous_hash = db_active_scope_hash (dn_baseline existing),
          da_new_hash = db_active_scope_hash (dn_baseline s'), da_added = added, da_removed = removed,
          da_reason = js_trim (ai_reason input), da_actor = js_trim (ai_actor input),
          da_timestamp = now, da_applied = True\<rparr>]" using r(7) by blast
  have entries: "list_all normal_entry added" "list_all normal_entry removed"
    using diffScope_sets [OF d(1)] assms(1,5) by (auto simp: list_all_iff snapshot_ok_def)
  have hash: "scope_hash_ok (db_active_scope_hash (dn_baseline s'))"
    unfolding r(6) computeActiveScopeHash_def using assms(4) by (intro amendment_hash_ok) auto
  have same: "dn_iteration_id s' = dn_iteration_id existing" "dn_created_at s' = dn_created_at existing"
    "db_commit_sha (dn_baseline s') = db_commit_sha (dn_baseline existing)"
    by (subst r(5), simp)+
  show ?thesis
    using assms(1,3,5) entries hash same r(3,4) d(2) by (simp add: snapshot_ok_def amendment_ok_def)
qed

definition sample_amendment :: amendment_input where
  "sample_amendment = \<lparr>ai_declared_paths = [''src/a.ts'', ''src/b.ts''], ai_declared_globs = [],
     ai_reason = ''needed'', ai_actor = ''worker''\<rparr>"

definition sample_constraints :: issue_constraints where
  "sample_constraints = \<lparr>ic_denylist = [], ic_allowed_roots = None\<rparr>"

lemma sample_applied:
  "\<exists>s'. applyAmendment (\<lambda>x. ''00'') ''2026-01-02T03:04:05Z'' sample_snapshot sample_amendment sample_constraints
      = Inr s' \<and> dn_declared_paths s' = [''src/a.ts'', ''src/b.ts''] \<and> dn_declared_globs s' = []"
proof -
  have "validateDeclaredScope \<lparr>ds_paths = [''src/a.ts'', ''src/b.ts''], ds_globs = []\<rparr> sample_constraints
    = Inr \<lparr>ds_paths = [''src/a.ts'', ''src/b.ts''], ds_globs = []\<rparr>" by code_simp
  moreover have "js_trim ''needed'' = ''needed''" "js_trim ''worker'' = ''worker''" by code_simp+
  ultimately show ?thesis
    by (simp add: applyAmendment_def sample_amendment_def sample_snapshot_def Let_def split: prod.splits)
qed

theorem amendment_applied_once_witness:
  "\<exists>s'. applyAmendment (\<lambda>x. ''00'') ''2026-01-02T03:04:05Z'' sample_snapshot sample_amendment sample_constraints = Inr s'
     \<and> applyAmendment (\<lambda>x. ''01'') ''later'' s' sample_amendment sample_constraints = Inl amendment_rejected"
  using sample_applied amendment_applied_once by blast

theorem amendment_keeps_snapshot_ok_witness:
  "\<exists>s'. applyAmendment (\<lambda>x. ''00'') ''2026-01-02T03:04:05Z'' sample_snapshot sample_amendment sample_constraints = Inr s'
     \<and> snapshot_ok s'"
proof -
  obtain s' where s: "applyAmendment (\<lambda>x. ''00'') ''2026-01-02T03:04:05Z'' sample_snapshot sample_amendment
      sample_constraints = Inr s'" "dn_declared_paths s' = [''src/a.ts'', ''src/b.ts'']" "dn_declared_globs s' = []"
    using sample_applied by blast
  have "snapshot_ok sample_snapshot" "ISO_8601 ''2026-01-02T03:04:05Z''"
    "list_all normal_entry [''src/a.ts'', ''src/b.ts'']" by code_simp+
  with amendment_keeps_snapshot_ok [OF _ s(1)] s show ?thesis by auto
qed

text \<open>
  trimming the whole \<open>git status --porcelain\<close> output drops the blank status column of its
  first line, so an excluded path that is only modified in the worktree counts as a change when
  it is listed first, and does not when it is listed second.
\<close>

theorem first_status_line_misread:
  "isRuntimeExcludedPath ''dist/main.js''
   \<and> isWorktreeDirty (\<lambda>args. '' M dist/main.js'' @ [newline])
   \<and> \<not> isWorktreeDirty (\<lambda>args. ''?? build/x'' @ [newline] @ '' M dist/main.js'' @ [newline])"
  by code_simp

end
