(* ===== verification/Declaration_Store.thy ===== *)
theory Declaration_Store
  imports Task_Declaration
begin

text \<open>
  The files of declaration snapshots: \<open>plugins/task-declaration/lib/snapshot.ts\<close> (committed, under
  \<open>docs/declarations\<close>), \<open>mirror.ts\<close> (local, under \<open>.orchestrator-pack/declarations\<close>) and the
  reading side of \<open>plugins/scope-guard/lib/declaration_loader.ts\<close>. A directory is its entries, or
  \<open>None\<close> when it cannot be listed; a file holds a parsed JSON value, or it exists and cannot be
  read or parsed. File names are the issue number, a dot, the iteration id and \<open>.json\<close>, for ids
  without a slash. The locale states what the plugin relies on from either store.
\<close>

section \<open>Directories\<close>

datatype decl_file = Unreadable string | Parsed json

type_synonym decl_dir = "(string \<times> decl_file) list option"

record decl_store =
  mirror_dir :: decl_dir
  snapshot_dir :: decl_dir

definition dir_file :: "decl_dir \<Rightarrow> string \<Rightarrow> decl_file option" where
  "dir_file dir name = (case dir of None \<Rightarrow> None | Some entries \<Rightarrow> map_of entries name)"

text \<open>\<open>mkdirSync\<close> with \<open>recursive\<close>, then \<open>writeFileSync\<close>: a new name goes to the end.\<close>

fun put_entry :: "string \<Rightarrow> decl_file \<Rightarrow> (string \<times> decl_file) list \<Rightarrow> (string \<times> decl_file) list" where
  "put_entry name file [] = [(name, file)]"
| "put_entry name file ((n, f) # es) = (if n = name then (n, file) # es else (n, f) # put_entry name file es)"

definition dir_write :: "string \<Rightarrow> decl_file \<Rightarrow> decl_dir \<Rightarrow> decl_dir" where
  "dir_write name file dir = Some (put_entry name file (case dir of None \<Rightarrow> [] | Some es \<Rightarrow> es))"

definition declarationRelativePath :: "int \<Rightarrow> string \<Rightarrow> string" where
  "declarationRelativePath issueNumber iterationId = show_int issueNumber @ ''.'' @ iterationId @ ''.json''"

definition SNAPSHOT_DIR :: string where "SNAPSHOT_DIR = ''docs/declarations''"
definition MIRROR_DIR :: string where "MIRROR_DIR = ''.orchestrator-pack/declarations''"

definition snapshotRelativePath :: "int \<Rightarrow> string \<Rightarrow> string" where
  "snapshotRelativePath issueNumber iterationId =
     SNAPSHOT_DIR @ ''/'' @ declarationRelativePath issueNumber iterationId"

definition mirrorRelativePath :: "int \<Rightarrow> string \<Rightarrow> string" where
  "mirrorRelativePath issueNumber iterationId =
     MIRROR_DIR @ ''/'' @ declarationRelativePath issueNumber iterationId"

definition iterationIdFromDeclarationFilename :: "int \<Rightarrow> string \<Rightarrow> string option" where
  "iterationIdFromDeclarationFilename issueNumber filename =
     (let prefix = show_int issueNumber @ ''.'' in
      if \<not> js_starts_with prefix filename \<or> \<not> js_ends_with ''.json'' filename then None
      else Some (drop (length prefix) (take (length filename - 5) filename)))"

definition listIssueDeclarationFiles :: "decl_dir \<Rightarrow> int \<Rightarrow> string list" where
  "listIssueDeclarationFiles dir issueNumber =
     (case dir of
        None \<Rightarrow> []
      | Some entries \<Rightarrow>
          sort (filter (\<lambda>name. js_starts_with (show_int issueNumber @ ''.'') name \<and> js_ends_with ''.json'' name)
            (map fst entries)))"

definition findLatestIterationId :: "decl_dir \<Rightarrow> int \<Rightarrow> string option" where
  "findLatestIterationId dir issueNumber =
     (let files = listIssueDeclarationFiles dir issueNumber in
      if length files = 0 then None
      else iterationIdFromDeclarationFilename issueNumber (last files))"

section \<open>Reading and writing\<close>

definition read_declaration :: "decl_dir \<Rightarrow> int \<Rightarrow> string \<Rightarrow> string + declaration_snapshot option" where
  "read_declaration dir issueNumber iterationId =
     (case dir_file dir (declarationRelativePath issueNumber iterationId) of
        None \<Rightarrow> Inr None
      | Some (Unreadable e) \<Rightarrow> Inl e
      | Some (Parsed raw) \<Rightarrow>
          (case validateDeclarationSnapshot raw of
             Inl errors \<Rightarrow> Inl (js_join ''; '' errors)
           | Inr snapshot \<Rightarrow> Inr (Some snapshot)))"

definition readSnapshot :: "decl_store \<Rightarrow> int \<Rightarrow> string \<Rightarrow> string + declaration_snapshot option" where
  "readSnapshot store issueNumber iterationId = read_declaration (snapshot_dir store) issueNumber iterationId"

definition readMirror :: "decl_store \<Rightarrow> int \<Rightarrow> string \<Rightarrow> string + declaration_snapshot option" where
  "readMirror store issueNumber iterationId = read_declaration (mirror_dir store) issueNumber iterationId"

definition writeSnapshot :: "decl_store \<Rightarrow> declaration_snapshot \<Rightarrow> string + decl_store \<times> string" where
  "writeSnapshot store snapshot =
     (case validateDeclarationSnapshot (snapshot_json snapshot) of
        Inl errors \<Rightarrow> Inl (''invalid snapshot: '' @ js_join ''; '' errors)
      | Inr _ \<Rightarrow>
          Inr (store\<lparr>snapshot_dir := dir_write
                 (declarationRelativePath (dn_issue_number snapshot) (dn_iteration_id snapshot))
                 (Parsed (snapshot_json snapshot)) (snapshot_dir store)\<rparr>,
               snapshotRelativePath (dn_issue_number snapshot) (dn_iteration_id snapshot)))"

definition writeMirror :: "decl_store \<Rightarrow> declaration_snapshot \<Rightarrow> string + decl_store \<times> string" where
  "writeMirror store snapshot =
     (case validateDeclarationSnapshot (snapshot_json snapshot) of
        Inl errors \<Rightarrow> Inl (''invalid mirror snapshot: '' @ js_join ''; '' errors)
      | Inr _ \<Rightarrow>
          Inr (store\<lparr>mirror_dir := dir_write
                 (declarationRelativePath (dn_issue_number snapshot) (dn_iteration_id snapshot))
                 (Parsed (snapshot_json snapshot)) (mirror_dir store)\<rparr>,
               mirrorRelativePath (dn_issue_number snapshot) (dn_iteration_id snapshot)))"

section \<open>Loading for a scope check\<close>

definition readDeclarationFile :: "decl_dir \<Rightarrow> string \<Rightarrow> declaration_snapshot option" where
  "readDeclarationFile dir name =
     (case dir_file dir name of
        Some (Parsed raw) \<Rightarrow>
          (case validateDeclarationSnapshot raw of Inl errors \<Rightarrow> None | Inr snapshot \<Rightarrow> Some snapshot)
      | _ \<Rightarrow> None)"

text \<open>The loop from the last index down to 0.\<close>

fun newest_readable :: "decl_dir \<Rightarrow> string list \<Rightarrow> declaration_snapshot option" where
  "newest_readable dir [] = None"
| "newest_readable dir (name # names) =
     (case readDeclarationFile dir name of Some s \<Rightarrow> Some s | None \<Rightarrow> newest_readable dir names)"

definition loadNewestReadableDeclaration :: "decl_dir \<Rightarrow> int \<Rightarrow> declaration_snapshot option" where
  "loadNewestReadableDeclaration dir issueNumber =
     newest_readable dir (rev (listIssueDeclarationFiles dir issueNumber))"

definition resolveScopeCheckIterationId :: "decl_store \<Rightarrow> int \<Rightarrow> string option \<Rightarrow> string option" where
  "resolveScopeCheckIterationId store issueNumber explicitIterationId =
     (if given_id explicitIterationId then Some (js_trim (the explicitIterationId))
      else (case findLatestIterationId (mirror_dir store) issueNumber of
              Some i \<Rightarrow> Some i
            | None \<Rightarrow> findLatestIterationId (snapshot_dir store) issueNumber))"

section \<open>What the plugin relies on\<close>

text \<open>A store of snapshots: a write that succeeds is read back, and touches no other name.\<close>

locale snapshot_store =
  fixes load :: "'st \<Rightarrow> int \<Rightarrow> string \<Rightarrow> string + declaration_snapshot option"
    and save :: "'st \<Rightarrow> declaration_snapshot \<Rightarrow> string + 'st \<times> string"
  assumes read_write_same: "save st s = Inr (st', p) \<Longrightarrow>
      load st' (dn_issue_number s) (dn_iteration_id s) = Inr (Some s)"
    and read_write_other: "save st s = Inr (st', p) \<Longrightarrow>
      (i, n) \<noteq> (dn_issue_number s, dn_iteration_id s) \<Longrightarrow>
      load st' i n = load st i n"
    and write_accepts: "(\<exists>r. save st s = Inr r) \<longleftrightarrow> snapshot_ok s"
begin

fun write_all :: "'st \<Rightarrow> declaration_snapshot list \<Rightarrow> string + 'st" where
  "write_all st [] = Inr st"
| "write_all st (s # ss) = rbind (save st s) (\<lambda>(st', p). write_all st' ss)"

lemma write_all_ok: "(\<exists>st'. write_all st ss = Inr st') \<longleftrightarrow> list_all snapshot_ok ss"
proof (induction ss arbitrary: st)
  case (Cons s ss)
  show ?case
  proof (cases "save st s")
    case (Inl e)
    then show ?thesis using write_accepts [of st s] by simp
  next
    case (Inr r)
    then show ?thesis using write_accepts [of st s] Cons by (cases r) auto
  qed
qed simp

text \<open>After any sequence of writes a name holds its last write, or what it held before.\<close>

lemma read_write_all:
  "write_all st ss = Inr st' \<Longrightarrow>
     load st' i n = (case filter (\<lambda>s. (dn_issue_number s, dn_iteration_id s) = (i, n)) ss of
        [] \<Rightarrow> load st i n | x # xs \<Rightarrow> Inr (Some (last (x # xs))))"
proof (induction ss arbitrary: st)
  case (Cons s ss)
  then obtain st1 p where w: "save st s = Inr (st1, p)" "write_all st1 ss = Inr st'"
    by (auto simp: rbind_Inr)
  note IH = Cons.IH [OF w(2)]
  show ?case
  proof (cases "(dn_issue_number s, dn_iteration_id s) = (i, n)")
    case True
    then show ?thesis using IH read_write_same [OF w(1)] by (auto split: list.splits)
  next
    case False
    then show ?thesis using IH read_write_other [OF w(1), of i n] by (auto split: list.splits)
  qed
qed simp

end

section \<open>Both stores keep the contract\<close>

lemma show_int_no_dot: "CHR ''.'' \<notin> set (show_int i)"
  using show_int_chars [of "CHR ''.''" i] by (auto simp: is_digit_def)

lemma declarationRelativePath_inj:
  "declarationRelativePath i n = declarationRelativePath j m \<longleftrightarrow> i = j \<and> n = m"
proof
  assume eq: "declarationRelativePath i n = declarationRelativePath j m"
  have tw: "hd (js_split (CHR ''.'') (declarationRelativePath i n)) = show_int i" for i n
    using js_split_append [OF show_int_no_dot] by (simp add: declarationRelativePath_def)
  have ij: "show_int i = show_int j" using tw [of i n] tw [of j m] eq by simp
  with eq have "n = m" by (simp add: declarationRelativePath_def)
  with show_int_inj [OF ij] show "i = j \<and> n = m" by simp
qed simp

lemma validate_own: "snapshot_ok s \<Longrightarrow> validateDeclarationSnapshot (snapshot_json s) = Inr s"
  by (simp add: validate_snapshot_json)

lemma map_of_put_entry: "map_of (put_entry name file es) = (map_of es)(name \<mapsto> file)"
  by (induction es) auto

lemma dir_file_write: "dir_file (dir_write name file dir) n = (if n = name then Some file else dir_file dir n)"
  by (auto simp: dir_write_def dir_file_def map_of_put_entry split: option.splits)

interpretation committed: snapshot_store readSnapshot writeSnapshot
proof
  show "readSnapshot st' (dn_issue_number s) (dn_iteration_id s) = Inr (Some s)"
    if "writeSnapshot st s = Inr (st', p)" for st s st' p
    using that by (auto simp: writeSnapshot_def readSnapshot_def read_declaration_def dir_file_write
        validate_snapshot_json validate_own split: sum.splits)
  show "readSnapshot st' i n = readSnapshot st i n"
    if "writeSnapshot st s = Inr (st', p)"
      "(i, n) \<noteq> (dn_issue_number s, dn_iteration_id s)" for st s st' p i n
    using that by (auto simp: writeSnapshot_def readSnapshot_def read_declaration_def dir_file_write
        declarationRelativePath_inj split: sum.splits)
  show "(\<exists>r. writeSnapshot st s = Inr r) \<longleftrightarrow> snapshot_ok s" for st s
    proof (cases "validateDeclarationSnapshot (snapshot_json s)")
    case (Inl e)
    then show ?thesis using validate_own [of s] by (auto simp: writeSnapshot_def)
  next
    case (Inr t)
    then show ?thesis using validate_snapshot_json [of s t] by (simp add: writeSnapshot_def)
  qed
qed

interpretation mirrored: snapshot_store readMirror writeMirror
proof
  show "readMirror st' (dn_issue_number s) (dn_iteration_id s) = Inr (Some s)"
    if "writeMirror st s = Inr (st', p)" for st s st' p
    using that by (auto simp: writeMirror_def readMirror_def read_declaration_def dir_file_write
        validate_snapshot_json validate_own split: sum.splits)
  show "readMirror st' i n = readMirror st i n"
    if "writeMirror st s = Inr (st', p)"
      "(i, n) \<noteq> (dn_issue_number s, dn_iteration_id s)" for st s st' p i n
    using that by (auto simp: writeMirror_def readMirror_def read_declaration_def dir_file_write
        declarationRelativePath_inj split: sum.splits)
  show "(\<exists>r. writeMirror st s = Inr r) \<longleftrightarrow> snapshot_ok s" for st s
    proof (cases "validateDeclarationSnapshot (snapshot_json s)")
    case (Inl e)
    then show ?thesis using validate_own [of s] by (auto simp: writeMirror_def)
  next
    case (Inr t)
    then show ?thesis using validate_snapshot_json [of s t] by (simp add: writeMirror_def)
  qed
qed


lemma newest_readable_first:
  "newest_readable dir names = Some s \<longleftrightarrow>
     (\<exists>a name b. names = a @ name # b \<and> readDeclarationFile dir name = Some s
        \<and> list_all (\<lambda>x. readDeclarationFile dir x = None) a)"
proof (induction names)
  case (Cons n ns)
  show ?case
  proof (cases "readDeclarationFile dir n")
    case None
    have "(\<exists>a name b. n # ns = a @ name # b \<and> readDeclarationFile dir name = Some s
        \<and> list_all (\<lambda>x. readDeclarationFile dir x = None) a)
      \<longleftrightarrow> (\<exists>a name b. ns = a @ name # b \<and> readDeclarationFile dir name = Some s
        \<and> list_all (\<lambda>x. readDeclarationFile dir x = None) a)" (is "?l \<longleftrightarrow> ?r")
    proof
      assume ?l
      then obtain a name b where l: "n # ns = a @ name # b" "readDeclarationFile dir name = Some s"
        "list_all (\<lambda>x. readDeclarationFile dir x = None) a" by blast
      then show ?r using None by (cases a) auto
    next
      assume ?r
      then obtain a name b where "ns = a @ name # b" "readDeclarationFile dir name = Some s"
        "list_all (\<lambda>x. readDeclarationFile dir x = None) a" by blast
      then show ?l using None by (intro exI [of _ "n # a"] exI [of _ name] exI [of _ b]) simp
    qed
    with None Cons show ?thesis by simp
  next
    case (Some t)
    show ?thesis
    proof
      assume "newest_readable dir (n # ns) = Some s"
      with Some show "\<exists>a name b. n # ns = a @ name # b \<and> readDeclarationFile dir name = Some s
        \<and> list_all (\<lambda>x. readDeclarationFile dir x = None) a"
        by (intro exI [of _ "[] :: string list"] exI [of _ n] exI [of _ ns]) simp
    next
      assume "\<exists>a name b. n # ns = a @ name # b \<and> readDeclarationFile dir name = Some s
        \<and> list_all (\<lambda>x. readDeclarationFile dir x = None) a"
      then obtain a name b where l: "n # ns = a @ name # b" "readDeclarationFile dir name = Some s"
        "list_all (\<lambda>x. readDeclarationFile dir x = None) a" by blast
      with Some have "a = []" by (cases a) auto
      with l Some show "newest_readable dir (n # ns) = Some s" by simp
    qed
  qed
qed simp

lemma list_files_set:
  "set (listIssueDeclarationFiles dir issue) = {name. name \<in> fst ` set (case dir of None \<Rightarrow> [] | Some es \<Rightarrow> es)
     \<and> js_starts_with (show_int issue @ ''.'') name \<and> js_ends_with ''.json'' name}"
  by (auto simp: listIssueDeclarationFiles_def split: option.splits)

lemma list_files_sorted: "sorted (listIssueDeclarationFiles dir issue)"
  by (auto simp: listIssueDeclarationFiles_def split: option.splits)

lemma newest_is_greatest:
  assumes "loadNewestReadableDeclaration dir issue = Some s"
  shows "\<exists>name \<in> set (listIssueDeclarationFiles dir issue). readDeclarationFile dir name = Some s
    \<and> list_all (\<lambda>other. name < other \<longrightarrow> readDeclarationFile dir other = None) (listIssueDeclarationFiles dir issue)"
proof -
  let ?fs = "listIssueDeclarationFiles dir issue"
  from assms obtain a name b where n: "rev ?fs = a @ name # b" "readDeclarationFile dir name = Some s"
    "list_all (\<lambda>x. readDeclarationFile dir x = None) a"
    by (auto simp: loadNewestReadableDeclaration_def newest_readable_first)
  then have fs: "?fs = rev b @ name # rev a" by (metis append.assoc append_Cons append_Nil rev.simps(2) rev_append rev_rev_ident)
  have "other \<le> name" if "other \<in> set b" for other
    using list_files_sorted [of dir issue] that fs by (auto simp: sorted_append)
  then have "list_all (\<lambda>other. name < other \<longrightarrow> readDeclarationFile dir other = None) ?fs"
    using n(3) unfolding fs by (force simp: list_all_iff)
  then show ?thesis using n(2) fs by auto
qed

lemma ids_of_names: "iterationIdFromDeclarationFilename issue (declarationRelativePath issue n) = Some n"
proof -
  have "js_starts_with (show_int issue @ ''.'') (declarationRelativePath issue n)"
    "js_ends_with ''.json'' (declarationRelativePath issue n)"
    by (auto simp: declarationRelativePath_def js_starts_with_conv js_ends_with_def)
  then show ?thesis
    by (simp add: iterationIdFromDeclarationFilename_def declarationRelativePath_def)
qed

section \<open>Properties\<close>

text \<open>
  writing a sequence of committed snapshots succeeds exactly when all of them are well formed,
  and then reading any issue and iteration gives the last snapshot written for it, or what the
  store held before.
\<close>

theorem committed_last_write_wins:
  "((\<exists>st'. committed.write_all st ss = Inr st') \<longleftrightarrow> list_all snapshot_ok ss)
   \<and> (committed.write_all st ss = Inr st' \<longrightarrow>
       readSnapshot st' i n = (case filter (\<lambda>s. (dn_issue_number s, dn_iteration_id s) = (i, n)) ss of
         [] \<Rightarrow> readSnapshot st i n | x # xs \<Rightarrow> Inr (Some (last (x # xs)))))"
  using committed.write_all_ok committed.read_write_all by blast

theorem committed_last_write_wins_witness:
  "\<exists>st'. committed.write_all \<lparr>mirror_dir = None, snapshot_dir = None\<rparr> [sample_snapshot] = Inr st'
     \<and> readSnapshot st' 7 ''it-1'' = Inr (Some sample_snapshot)"
proof -
  have "list_all snapshot_ok [sample_snapshot]" by code_simp
  then obtain st' where st: "committed.write_all \<lparr>mirror_dir = None, snapshot_dir = None\<rparr> [sample_snapshot] = Inr st'"
    using committed_last_write_wins by blast
  with committed_last_write_wins [of "\<lparr>mirror_dir = None, snapshot_dir = None\<rparr>" "[sample_snapshot]" st' 7 "''it-1''"]
  have "readSnapshot st' 7 ''it-1'' = Inr (Some sample_snapshot)" by (simp add: sample_snapshot_def)
  with st show ?thesis by blast
qed

text \<open>
  loading the newest declaration of an issue returns the readable file whose name is greatest:
  every file of the issue with a greater name was unreadable or not a valid snapshot.
\<close>

theorem loads_greatest_readable:
  assumes "loadNewestReadableDeclaration dir issue = Some s"
  shows "\<exists>name. name \<in> set (listIssueDeclarationFiles dir issue) \<and> readDeclarationFile dir name = Some s
    \<and> list_all (\<lambda>other. name < other \<longrightarrow> readDeclarationFile dir other = None) (listIssueDeclarationFiles dir issue)"
  using newest_is_greatest [OF assms] by blast

definition sample_dir :: decl_dir where
  "sample_dir = Some [(''7.it-2.json'', Unreadable ''EACCES''), (''7.it-1.json'', Parsed (snapshot_json sample_snapshot))]"

theorem loads_greatest_readable_witness:
  "\<exists>name. readDeclarationFile sample_dir name = Some sample_snapshot \<and> name \<in> set (listIssueDeclarationFiles sample_dir 7)"
proof -
  have "loadNewestReadableDeclaration sample_dir 7 = Some sample_snapshot" by code_simp
  from loads_greatest_readable [OF this] show ?thesis by blast
qed

end
