(* ===== verification/Review_Data.thy ===== *)
theory Review_Data
  imports Json
begin

text \<open>
  The data of the pack review authority, \<open>scripts/pack-review-state.ts\<close>: tiers and caps, the
  review cycle, the terminal record, the authority document, and the input normalizers. A value
  read from JSON may hold a string outside the TypeScript union: every union whose members the
  code tests at run time has a constructor for such strings. Optional fields are options, numbers
  are integers; a document whose JSON shape is not the declared one is outside the model.
\<close>

section \<open>Errors and guards\<close>

text \<open>\<open>PackReviewAuthorityError(code, detail)\<close>.\<close>

type_synonym authority_error = "string \<times> string"

text \<open>A sequence of \<open>if (bad) throw error\<close>: the first bad condition decides.\<close>

fun guards :: "(bool \<times> 'e) list \<Rightarrow> 'e + unit" where
  "guards [] = Inr ()"
| "guards ((bad, e) # gs) = (if bad then Inl e else guards gs)"

lemma guards_Inr [result_simps]: "guards gs = Inr u \<longleftrightarrow> list_all (\<lambda>g. \<not> fst g) gs"
  by (induction gs) (auto split: if_splits)

lemma guards_append: "guards (gs @ hs) = rbind (guards gs) (\<lambda>_. guards hs)"
  by (induction gs) auto

section \<open>Tiers, maps, phases\<close>

datatype review_tier = T1 | T2 | T3 | Unknown_Tier string

datatype cap_map = Cap_Map | Logical_Map | Legacy_Map | Unknown_Map string

datatype authority_phase =
    Head_Observed | Claim_Acquired | Review_Or_Bundle_Staged | Terminal_And_Cap_Committed
  | Evidence_Selected | Triage_Committed | External_Published | Unknown_Phase string

definition PACK_REVIEW_AUTHORITY_PHASES :: "authority_phase list" where
  "PACK_REVIEW_AUTHORITY_PHASES = [Head_Observed, Claim_Acquired, Review_Or_Bundle_Staged,
     Terminal_And_Cap_Committed, Evidence_Selected, Triage_Committed, External_Published]"

fun PACK_REVIEW_CAPS :: "review_tier \<Rightarrow> int option" where
  "PACK_REVIEW_CAPS T1 = Some 1"
| "PACK_REVIEW_CAPS T2 = Some 2"
| "PACK_REVIEW_CAPS T3 = Some 4"
| "PACK_REVIEW_CAPS (Unknown_Tier s) = None"

fun PACK_REVIEW_LOGICAL_CAPS :: "review_tier \<Rightarrow> int option" where
  "PACK_REVIEW_LOGICAL_CAPS T1 = Some 1"
| "PACK_REVIEW_LOGICAL_CAPS T2 = Some 1"
| "PACK_REVIEW_LOGICAL_CAPS T3 = Some 2"
| "PACK_REVIEW_LOGICAL_CAPS (Unknown_Tier s) = None"

text \<open>\<open>tier in PACK_REVIEW_CAPS\<close>: the operator also finds what an object inherits.\<close>

definition object_prototype_keys :: "string list" where
  "object_prototype_keys = [''constructor'', ''__defineGetter__'', ''__defineSetter__'', ''hasOwnProperty'',
     ''__lookupGetter__'', ''__lookupSetter__'', ''isPrototypeOf'', ''propertyIsEnumerable'', ''toString'',
     ''valueOf'', ''__proto__'', ''toLocaleString'']"

fun tier_in_caps :: "review_tier \<Rightarrow> bool" where
  "tier_in_caps (Unknown_Tier s) = (s \<in> set object_prototype_keys)"
| "tier_in_caps _ = True"

fun tier_rank :: "review_tier \<Rightarrow> int option" where
  "tier_rank T1 = Some 1"
| "tier_rank T2 = Some 2"
| "tier_rank T3 = Some 3"
| "tier_rank (Unknown_Tier s) = None"

text \<open>A comparison with \<open>undefined\<close> is false.\<close>

definition num_le :: "int option \<Rightarrow> int option \<Rightarrow> bool" where
  "num_le a b \<longleftrightarrow> (case (a, b) of (Some x, Some y) \<Rightarrow> x \<le> y | _ \<Rightarrow> False)"

definition num_less :: "int option \<Rightarrow> int option \<Rightarrow> bool" where
  "num_less a b \<longleftrightarrow> (case (a, b) of (Some x, Some y) \<Rightarrow> x < y | _ \<Rightarrow> False)"

section \<open>Number of reviewer sources\<close>

datatype accounting_version =
    Tiered_Sources | Logical_Accounting | Cap_Accounting | Legacy_Accounting | Unknown_Accounting string

definition selectPackReviewGptSourceCardinality ::
  "string \<Rightarrow> review_tier \<Rightarrow> int \<Rightarrow> accounting_version option \<Rightarrow> authority_error + int" where
  "selectPackReviewGptSourceCardinality reviewer tier roundOrdinal accountingVersion =
     (if js_lower (js_trim reviewer) \<noteq> ''gpt'' then Inr 1
      else if roundOrdinal \<le> 0
      then Inl (''cap_state_invalid'', ''roundOrdinal must be a positive integer'')
      else if accountingVersion = Some Tiered_Sources
      then (if num_less (PACK_REVIEW_LOGICAL_CAPS tier) (Some roundOrdinal)
            then Inl (''cap_state_invalid'', ''tiered source round ordinal exceeds logical tier cap'')
            else Inr (if tier = T1 then 1 else if tier = T2 then 2 else 3))
      else if accountingVersion = Some Logical_Accounting
      then (if num_less (PACK_REVIEW_LOGICAL_CAPS tier) (Some roundOrdinal)
            then Inl (''cap_state_invalid'', ''historical source round ordinal exceeds logical tier cap'')
            else Inr 3)
      else if accountingVersion \<noteq> None \<and> accountingVersion \<noteq> Some Cap_Accounting
              \<and> accountingVersion \<noteq> Some Legacy_Accounting
      then Inl (''cap_state_invalid'', ''unknown GPT source accounting version'')
      else Inr (if roundOrdinal = 1 \<or> tier = T3 then 3 else 1))"

section \<open>Input normalizers\<close>

definition is_sha :: "string \<Rightarrow> bool" where
  "is_sha s \<longleftrightarrow> length s = 40 \<and> list_all is_lower_hex s"

definition sha_of :: "string \<Rightarrow> string" where
  "sha_of s = js_lower (js_trim s)"

definition sha_error :: "string \<Rightarrow> authority_error" where
  "sha_error label = (''authority_input_invalid'', label @ '' must be full 40-hex'')"

definition normalizeSha :: "string \<Rightarrow> string \<Rightarrow> authority_error + string" where
  "normalizeSha value label =
     (let sha = sha_of value in if \<not> is_sha sha then Inl (sha_error label) else Inr sha)"

definition integer_error :: "string \<Rightarrow> authority_error" where
  "integer_error label = (''authority_input_invalid'', label @ '' must be positive integer'')"

definition positiveInteger :: "int \<Rightarrow> string \<Rightarrow> authority_error + int" where
  "positiveInteger value label = (if value \<le> 0 then Inl (integer_error label) else Inr value)"

definition required_error :: "string \<Rightarrow> authority_error" where
  "required_error label = (''authority_input_invalid'', label @ '' is required'')"

definition nonEmpty :: "string \<Rightarrow> string \<Rightarrow> authority_error + string" where
  "nonEmpty value label =
     (let text = js_trim value in if text = [] then Inl (required_error label) else Inr text)"

text \<open>\<open>String(value ?? '')\<close>.\<close>

definition text_or_empty :: "string option \<Rightarrow> string" where
  "text_or_empty v = (case v of None \<Rightarrow> [] | Some s \<Rightarrow> s)"

definition packReviewFindingsSatisfiedByStrictDescendant :: "string \<Rightarrow> string \<Rightarrow> bool \<Rightarrow> authority_error + bool" where
  "packReviewFindingsSatisfiedByStrictDescendant reviewedHeadSha currentHeadSha reviewedHeadIsAncestor =
     rbind (normalizeSha reviewedHeadSha ''reviewedHeadSha'') (\<lambda>reviewed.
     rbind (normalizeSha currentHeadSha ''currentHeadSha'') (\<lambda>current.
       Inr (reviewed \<noteq> current \<and> reviewedHeadIsAncestor)))"

section \<open>Smoke ordering\<close>

record smoke_owner =
  so_attempt_id :: "string option"
  so_supervisor_pid :: "int option"
  so_run_id :: "string option"

definition smokeOrderingOwnerFields :: "smoke_owner \<Rightarrow> authority_error + smoke_owner" where
  "smokeOrderingOwnerFields input =
     (if so_attempt_id input = None \<and> so_supervisor_pid input = None \<and> so_run_id input = None
      then Inr \<lparr>so_attempt_id = None, so_supervisor_pid = None, so_run_id = None\<rparr>
      else
        rbind (nonEmpty (text_or_empty (so_attempt_id input)) ''attemptId'') (\<lambda>attemptId.
        rbind (case so_supervisor_pid input of
                 None \<Rightarrow> Inl (integer_error ''supervisorPid'')
               | Some pid \<Rightarrow> positiveInteger pid ''supervisorPid'') (\<lambda>supervisorPid.
        rbind (case so_run_id input of
                 None \<Rightarrow> Inr None
               | Some r \<Rightarrow> map_sum id Some (nonEmpty r ''runId'')) (\<lambda>runId.
        if runId \<noteq> None \<and> runId \<noteq> Some attemptId
        then Inl (''authority_input_invalid'', ''smoke ordering runId must equal attemptId'')
        else Inr \<lparr>so_attempt_id = Some attemptId, so_supervisor_pid = Some supervisorPid, so_run_id = runId\<rparr>))))"

definition validateSmokeOrderingOwnerFields :: "smoke_owner \<Rightarrow> string \<Rightarrow> authority_error + unit" where
  "validateSmokeOrderingOwnerFields marker label =
     (if so_attempt_id marker = None \<and> so_supervisor_pid marker = None \<and> so_run_id marker = None
      then Inr ()
      else rbind (smokeOrderingOwnerFields marker) (\<lambda>owner.
        if text_or_empty (so_attempt_id owner) = [] \<or> so_supervisor_pid owner = None
        then Inl (''authority_schema_invalid'', label @ '' owner incomplete'')
        else Inr ()))"

record smoke_worker =
  sw_owner :: smoke_owner
  sw_head_sha :: string
  sw_status :: string
  sw_updated_at :: string
  sw_failure_kind :: "string option"

record smoke_independent =
  si_owner :: smoke_owner
  si_started_ever :: bool
  si_head_sha :: string
  si_status :: string
  si_updated_at :: string
  si_failure_kind :: "string option"
  si_failure_head_sha :: "string option"

record smoke_ordering =
  sm_worker_owned :: "smoke_worker option"
  sm_review_settled_head :: "string option"
  sm_independent :: "smoke_independent option"

section \<open>The cycle\<close>

datatype cycle_state =
    Open | Open_Findings | At_Cap_Open_Findings | At_Cap_Continuation_Required | Closed
  | Unknown_State string

record amendment_origin =
  ao_original_terminal_run_id :: string
  ao_original_cycle_id :: string
  ao_previous_cycle_id :: string
  ao_previous_terminal_run_id :: string
  ao_closing_issue_number :: int
  ao_reviewed_body_digest :: string
  ao_amended_body_digest :: string
  ao_previously_admitted :: "string list"

record reset_provenance =
  rp_prior_cycle_id :: string
  rp_prior_at_cap_hash :: "string option"
  rp_actor :: string
  rp_reason :: string
  rp_timestamp :: string
  rp_nonce :: string

datatype settlement_kind = Same_Head_Issue_Resolution | Rewritten_Head

record review_cycle =
  cy_cycle_id :: string
  cy_amendment_origin :: "amendment_origin option"
  cy_state :: cycle_state
  cy_frozen_tier :: review_tier
  cy_frozen_cap :: int
  cy_cap_map :: cap_map
  cy_frozen_map_origin :: "string option"
  cy_opened_at :: string
  cy_closed_at :: "string option"
  cy_consumed_heads :: "string list"
  cy_consumed_rounds :: "int list option"
  cy_at_cap_hash :: "string option"
  cy_stage_complete :: "bool option"
  cy_stage_completed_at :: "string option"
  cy_settlement_kind :: "settlement_kind option"
  cy_review_start_consumed :: "bool option"
  cy_reset_provenance :: "reset_provenance option"

definition isLogicalRoundCycle :: "review_cycle \<Rightarrow> bool" where
  "isLogicalRoundCycle cycle \<longleftrightarrow> cy_cap_map cycle = Logical_Map"

definition cycleConsumedCount :: "review_cycle \<Rightarrow> int" where
  "cycleConsumedCount cycle =
     (if isLogicalRoundCycle cycle
      then (case cy_consumed_rounds cycle of None \<Rightarrow> 0 | Some rounds \<Rightarrow> int (length rounds))
      else int (length (cy_consumed_heads cycle)))"

definition stage_complete :: "review_cycle \<Rightarrow> bool" where
  "stage_complete cycle \<longleftrightarrow> cy_stage_complete cycle = Some True"

section \<open>Terminal and document\<close>

datatype review_verdict = Clean | Findings | Other_Verdict string

datatype terminal_source = Normal | Conflict_Free_Carryover | Merge_Composite | Other_Source string

datatype budget_disposition = Consume | Non_Consuming_Explicit | Other_Disposition string

record terminal_v2 =
  tv_schema_version :: int
  tv_contract_version :: int
  tv_source :: terminal_source
  tv_disposition :: "budget_disposition option"
  tv_run_id :: string
  tv_target_sha :: string
  tv_logical_round :: "int option"
  tv_verdict :: review_verdict
  tv_finding_count :: int
  tv_findings_digest :: string
  tv_delivery_digest :: "string option"
  tv_source_clean_run_id :: "string option"
  tv_source_head_sha :: "string option"
  tv_merge_base_sha :: "string option"
  tv_main_sha :: "string option"
  tv_ordered_parents :: "string list option"
  tv_replay_digest :: "string option"
  tv_bundle_digest :: "string option"
  tv_helper_version :: "string option"
  tv_focused_run_id :: "string option"
  tv_focused_verdict :: "string option"

record authority_terminal =
  at_run_id :: string
  at_digest :: string
  at_target_sha :: string
  at_logical_round :: "int option"
  at_verdict :: review_verdict
  at_source :: terminal_source
  at_disposition :: "budget_disposition option"
  at_review_status :: "string option"

record evidence_selection =
  es_key :: string
  es_id :: string
  es_digest :: string
  es_selected_at :: string

datatype triage_verdict = Block | Pending_Architect | Pending_Operator | Defer

datatype triage_source = Automatic | Architect

record triage_state =
  ts_verdict :: triage_verdict
  ts_source :: triage_source
  ts_finding_digest :: string
  ts_actor :: "string option"
  ts_token_digest :: "string option"
  ts_committed_at :: string

datatype publication_status = Pub_Pending | Pub_Succeeded | Pub_Failed | Pub_Superseded

record publication_state =
  pb_head_sha :: string
  pb_terminal_run_id :: string
  pb_status :: publication_status
  pb_digest :: string
  pb_recorded_at :: string

record authority_document =
  ad_schema_version :: int
  ad_pr_number :: int
  ad_transition_seq :: int
  ad_phase :: authority_phase
  ad_head_sha :: string
  ad_updated_at :: string
  ad_terminal :: "authority_terminal option"
  ad_cycle :: "review_cycle option"
  ad_evidence :: "evidence_selection option"
  ad_triage :: "triage_state option"
  ad_publication :: "publication_state option"
  ad_smoke :: "smoke_ordering option"

end
