(* ===== verification/Review_Validate.thy ===== *)
theory Review_Validate
  imports Review_Data
begin

text \<open>
  Validation of the authority document, \<open>validateCycle\<close> and \<open>validateAuthority\<close> of
  \<open>scripts/pack-review-state.ts\<close>, as sequences of guards in the order of the code, and the
  invariants \<open>cycle_ok\<close> and \<open>authority_ok\<close> they are equivalent to.
\<close>

section \<open>Definitions\<close>

definition hex_digest :: "string \<Rightarrow> bool" where
  "hex_digest s \<longleftrightarrow> length s = 64 \<and> list_all is_lower_hex s"

definition body_digest :: "string \<Rightarrow> bool" where
  "body_digest s \<longleftrightarrow> js_starts_with ''sha256:'' s \<and> hex_digest (drop 7 s)"

definition finding_states :: "cycle_state set" where
  "finding_states = {Open_Findings, At_Cap_Open_Findings, At_Cap_Continuation_Required}"

definition at_cap_states :: "cycle_state set" where
  "at_cap_states = {At_Cap_Open_Findings, At_Cap_Continuation_Required}"

fun unknown_state :: "cycle_state \<Rightarrow> bool" where
  "unknown_state (Unknown_State s) = True"
| "unknown_state _ = False"

fun unknown_map :: "cap_map \<Rightarrow> bool" where
  "unknown_map (Unknown_Map s) = True"
| "unknown_map _ = False"

definition blank :: "string \<Rightarrow> bool" where
  "blank s \<longleftrightarrow> js_trim s = []"

definition cap_error :: "string \<Rightarrow> authority_error" where
  "cap_error detail = (''cap_state_invalid'', detail)"

definition amendment_guards :: "review_cycle \<Rightarrow> amendment_origin \<Rightarrow> (bool \<times> authority_error) list" where
  "amendment_guards cycle origin =
     [(blank (ao_original_terminal_run_id origin), required_error ''amendment originalTerminalRunId''),
      (blank (ao_original_cycle_id origin), required_error ''amendment originalCycleId''),
      (blank (ao_previous_cycle_id origin), required_error ''amendment previousCycleId''),
      (blank (ao_previous_terminal_run_id origin), required_error ''amendment previousTerminalRunId''),
      (ao_closing_issue_number origin \<le> 0, integer_error ''amendment closingIssueNumber''),
      (list_ex (\<lambda>d. \<not> body_digest d)
         ([ao_reviewed_body_digest origin, ao_amended_body_digest origin] @ ao_previously_admitted origin),
       cap_error ''amendment digest is invalid''),
      (\<not> distinct (ao_previously_admitted origin)
        \<or> ao_reviewed_body_digest origin \<notin> set (ao_previously_admitted origin)
        \<or> ao_amended_body_digest origin \<in> set (ao_previously_admitted origin)
        \<or> cy_reset_provenance cycle \<noteq> None,
       cap_error ''amendment origin/replay invalid'')]"

definition logical_cap :: "review_cycle \<Rightarrow> int option" where
  "logical_cap cycle =
     (if cy_amendment_origin cycle \<noteq> None then Some 1 else PACK_REVIEW_LOGICAL_CAPS (cy_frozen_tier cycle))"

definition logical_guards :: "review_cycle \<Rightarrow> (bool \<times> authority_error) list" where
  "logical_guards cycle =
     [(Some (cy_frozen_cap cycle) \<noteq> logical_cap cycle \<or> cy_frozen_map_origin cycle \<noteq> None,
       cap_error ''current-map cycle has mismatched discriminator'')]
     @ (case cy_amendment_origin cycle of None \<Rightarrow> [] | Some origin \<Rightarrow> amendment_guards cycle origin)
     @ (case cy_consumed_rounds cycle of
          None \<Rightarrow> [(True, cap_error ''logical-round cycle lacks consumedRoundOrdinals'')]
        | Some rounds \<Rightarrow>
            [(list_ex (\<lambda>r. r \<le> 0) rounds, integer_error ''consumedRoundOrdinal''),
             (\<not> distinct rounds, cap_error ''duplicate consumed logical round''),
             (rounds \<noteq> map int [1..<Suc (length rounds)],
              cap_error ''logical rounds must be contiguous from ordinal 1'')])"

definition legacy_guards :: "review_cycle \<Rightarrow> (bool \<times> authority_error) list" where
  "legacy_guards cycle =
     [(cy_consumed_rounds cycle \<noteq> None \<or> cy_amendment_origin cycle \<noteq> None,
       cap_error ''legacy cycle cannot carry logical-round accounting''),
      (if cy_cap_map cycle = Cap_Map
       then (Some (cy_frozen_cap cycle) \<noteq> PACK_REVIEW_CAPS (cy_frozen_tier cycle) \<or> cy_frozen_map_origin cycle \<noteq> None,
             cap_error ''distinct-head cycle has mismatched discriminator'')
       else (cy_frozen_map_origin cycle \<noteq> Some ''persisted-open-cycle'',
             cap_error ''legacy cycle lacks persisted origin''))]"

definition checkpoint_hash :: "review_cycle \<Rightarrow> bool" where
  "checkpoint_hash cycle \<longleftrightarrow> (case cy_at_cap_hash cycle of None \<Rightarrow> False | Some h \<Rightarrow> hex_digest h)"

definition state_guards :: "review_cycle \<Rightarrow> (bool \<times> authority_error) list" where
  "state_guards cycle =
     (let consumed = cycleConsumedCount cycle;
          at_cap = (consumed = cy_frozen_cap cycle);
          pre_cap_findings = (cy_state cycle = Open_Findings);
          at_cap_state = (cy_state cycle \<in> at_cap_states)
      in [(cy_frozen_cap cycle < consumed, cap_error ''consumed review units exceed frozen cap''),
          (stage_complete cycle \<and> text_or_empty (cy_stage_completed_at cycle) = [],
           cap_error ''completed review stage lacks timestamp''),
          (\<not> stage_complete cycle \<and> cy_stage_completed_at cycle \<noteq> None,
           cap_error ''incomplete review stage carries completion timestamp''),
          (pre_cap_findings \<and> (\<not> isLogicalRoundCycle cycle \<or> at_cap \<or> \<not> checkpoint_hash cycle),
           cap_error ''open-findings cycle lacks a pre-cap finding checkpoint''),
          (at_cap_state \<and> (\<not> at_cap \<or> \<not> checkpoint_hash cycle),
           cap_error ''at-cap cycle lacks full consumption/hash''),
          (\<not> pre_cap_findings \<and> \<not> at_cap_state \<and> cy_at_cap_hash cycle \<noteq> None,
           cap_error ''cycle carries finding checkpoint outside a finding state'')])"

text \<open>\<open>${value}\<close> of a union member or of an unknown string.\<close>

fun tier_text :: "review_tier \<Rightarrow> string" where
  "tier_text T1 = ''T1''" | "tier_text T2 = ''T2''" | "tier_text T3 = ''T3''"
| "tier_text (Unknown_Tier s) = s"

fun state_text :: "cycle_state \<Rightarrow> string" where
  "state_text Open = ''open''" | "state_text Open_Findings = ''open_findings''"
| "state_text At_Cap_Open_Findings = ''at_cap_open_findings''"
| "state_text At_Cap_Continuation_Required = ''at_cap_continuation_required''"
| "state_text Closed = ''closed''" | "state_text (Unknown_State s) = s"

fun map_text :: "cap_map \<Rightarrow> string" where
  "map_text Cap_Map = ''issue-1063-1-2-4''" | "map_text Logical_Map = ''issue-1826-logical-rounds-1-1-2''"
| "map_text Legacy_Map = ''legacy-frozen''" | "map_text (Unknown_Map s) = s"

fun phase_text :: "authority_phase \<Rightarrow> string" where
  "phase_text Head_Observed = ''head_observed''" | "phase_text Claim_Acquired = ''claim_acquired''"
| "phase_text Review_Or_Bundle_Staged = ''review_or_bundle_staged''"
| "phase_text Terminal_And_Cap_Committed = ''terminal_and_cap_committed''"
| "phase_text Evidence_Selected = ''evidence_selected''" | "phase_text Triage_Committed = ''triage_committed''"
| "phase_text External_Published = ''external_published''" | "phase_text (Unknown_Phase s) = s"

definition cycle_guards :: "review_cycle \<Rightarrow> (bool \<times> authority_error) list" where
  "cycle_guards cycle =
     [(blank (cy_cycle_id cycle), required_error ''cycleId''),
      (\<not> tier_in_caps (cy_frozen_tier cycle), cap_error (''unknown tier '' @ tier_text (cy_frozen_tier cycle))),
      (cy_frozen_cap cycle \<le> 0, integer_error ''frozenCap''),
      (list_ex (\<lambda>s. \<not> is_sha (sha_of s)) (cy_consumed_heads cycle), sha_error ''consumedHeadSha''),
      (\<not> distinct (map sha_of (cy_consumed_heads cycle)), cap_error ''duplicate consumed head''),
      (unknown_state (cy_state cycle), cap_error (''unknown cycle state '' @ state_text (cy_state cycle))),
      (unknown_map (cy_cap_map cycle), cap_error (''unknown cap map '' @ map_text (cy_cap_map cycle)))]
     @ (if isLogicalRoundCycle cycle then logical_guards cycle else legacy_guards cycle)
     @ state_guards cycle"

definition validateCycle :: "review_cycle option \<Rightarrow> authority_error + unit" where
  "validateCycle cycle = (case cycle of None \<Rightarrow> Inr () | Some c \<Rightarrow> guards (cycle_guards c))"

definition phaseIndex :: "authority_phase \<Rightarrow> authority_error + nat" where
  "phaseIndex phase =
     (case index_of PACK_REVIEW_AUTHORITY_PHASES phase of
        None \<Rightarrow> Inl (''authority_input_invalid'', ''unknown phase '' @ phase_text phase)
      | Some i \<Rightarrow> Inr i)"

definition validateBudgetDisposition ::
  "budget_disposition option \<Rightarrow> string \<Rightarrow> authority_error + budget_disposition" where
  "validateBudgetDisposition value label =
     (case value of
        None \<Rightarrow> Inr Consume
      | Some Consume \<Rightarrow> Inr Consume
      | Some Non_Consuming_Explicit \<Rightarrow> Inr Non_Consuming_Explicit
      | Some (Other_Disposition s) \<Rightarrow> Inl (''authority_schema_invalid'', label))"

definition schema_error :: "string \<Rightarrow> authority_error" where
  "schema_error detail = (''authority_schema_invalid'', detail)"

definition validate_terminal_fields :: "authority_terminal \<Rightarrow> authority_error + unit" where
  "validate_terminal_fields t =
     rbind (normalizeSha (at_target_sha t) ''terminal.targetSha'') (\<lambda>_.
     rbind (nonEmpty (at_run_id t) ''terminal.runId'') (\<lambda>_.
     rbind (nonEmpty (at_digest t) ''terminal.digest'') (\<lambda>_.
     rbind (validateBudgetDisposition (at_disposition t) ''terminal.automaticBudgetDisposition'') (\<lambda>_. Inr ()))))"

definition smoke_statuses :: "string list" where
  "smoke_statuses = [''started'', ''passed'', ''failed'']"

definition smoke_failures :: "string list" where
  "smoke_failures = [''finding'', ''retryable'', ''aborted'']"

definition failure_ok :: "string option \<Rightarrow> bool" where
  "failure_ok kind \<longleftrightarrow> (case kind of None \<Rightarrow> True | Some k \<Rightarrow> k \<in> set smoke_failures)"

definition validate_worker_owned :: "smoke_worker \<Rightarrow> authority_error + unit" where
  "validate_worker_owned w =
     rbind (normalizeSha (sw_head_sha w) ''smokeOrdering.workerOwned.headSha'') (\<lambda>_.
     rbind (require (sw_status w \<in> set smoke_statuses) (schema_error ''smokeOrdering.workerOwned.status'')) (\<lambda>_.
     rbind (nonEmpty (sw_updated_at w) ''smokeOrdering.workerOwned.updatedAtUtc'') (\<lambda>_.
     rbind (validateSmokeOrderingOwnerFields (sw_owner w) ''smokeOrdering.workerOwned'') (\<lambda>_.
       require (failure_ok (sw_failure_kind w)) (schema_error ''smokeOrdering.workerOwned.failureKind'')))))"

definition validate_independent :: "smoke_independent \<Rightarrow> authority_error + unit" where
  "validate_independent i =
     rbind (normalizeSha (si_head_sha i) ''smokeOrdering.independent.headSha'') (\<lambda>_.
     rbind (require (si_started_ever i) (schema_error ''smokeOrdering.independent.startedEver'')) (\<lambda>_.
     rbind (require (si_status i \<in> set smoke_statuses) (schema_error ''smokeOrdering.independent.status'')) (\<lambda>_.
     rbind (nonEmpty (si_updated_at i) ''smokeOrdering.independent.updatedAtUtc'') (\<lambda>_.
     rbind (validateSmokeOrderingOwnerFields (si_owner i) ''smokeOrdering.independent'') (\<lambda>_.
       require (failure_ok (si_failure_kind i)) (schema_error ''smokeOrdering.independent.failureKind''))))))"

definition validate_smoke :: "smoke_ordering \<Rightarrow> authority_error + unit" where
  "validate_smoke marks =
     rbind (case sm_worker_owned marks of None \<Rightarrow> Inr () | Some w \<Rightarrow> validate_worker_owned w) (\<lambda>_.
     rbind (if text_or_empty (sm_review_settled_head marks) = [] then Inr []
            else normalizeSha (text_or_empty (sm_review_settled_head marks)) ''smokeOrdering.reviewSettledHeadSha'') (\<lambda>_.
       (case sm_independent marks of None \<Rightarrow> Inr () | Some i \<Rightarrow> validate_independent i)))"

definition validateAuthority :: "authority_document \<Rightarrow> authority_error + unit" where
  "validateAuthority d =
     (if ad_schema_version d \<noteq> 1 then Inl (schema_error (show_int (ad_schema_version d)))
      else
        rbind (positiveInteger (ad_pr_number d) ''prNumber'') (\<lambda>_.
        rbind (require (0 \<le> ad_transition_seq d) (schema_error ''transitionSeq'')) (\<lambda>_.
        rbind (normalizeSha (ad_head_sha d) ''currentHeadSha'') (\<lambda>_.
        rbind (phaseIndex (ad_phase d)) (\<lambda>_.
        rbind (validateCycle (ad_cycle d)) (\<lambda>_.
        rbind (case ad_terminal d of None \<Rightarrow> Inr () | Some t \<Rightarrow> validate_terminal_fields t) (\<lambda>_.
          (case ad_smoke d of None \<Rightarrow> Inr () | Some s \<Rightarrow> validate_smoke s))))))))"

section \<open>The invariants\<close>

definition amendment_ok_for :: "review_cycle \<Rightarrow> amendment_origin \<Rightarrow> bool" where
  "amendment_ok_for cycle origin \<longleftrightarrow>
     \<not> blank (ao_original_terminal_run_id origin) \<and> \<not> blank (ao_original_cycle_id origin)
     \<and> \<not> blank (ao_previous_cycle_id origin) \<and> \<not> blank (ao_previous_terminal_run_id origin)
     \<and> 0 < ao_closing_issue_number origin
     \<and> list_all body_digest
         ([ao_reviewed_body_digest origin, ao_amended_body_digest origin] @ ao_previously_admitted origin)
     \<and> distinct (ao_previously_admitted origin)
     \<and> ao_reviewed_body_digest origin \<in> set (ao_previously_admitted origin)
     \<and> ao_amended_body_digest origin \<notin> set (ao_previously_admitted origin)
     \<and> cy_reset_provenance cycle = None"

definition accounting_ok :: "review_cycle \<Rightarrow> bool" where
  "accounting_ok cycle \<longleftrightarrow>
     (case cy_cap_map cycle of
        Logical_Map \<Rightarrow>
          Some (cy_frozen_cap cycle) = logical_cap cycle \<and> cy_frozen_map_origin cycle = None
          \<and> (\<exists>rounds. cy_consumed_rounds cycle = Some rounds \<and> rounds = map int [1..<Suc (length rounds)])
          \<and> (case cy_amendment_origin cycle of None \<Rightarrow> True | Some origin \<Rightarrow> amendment_ok_for cycle origin)
      | Cap_Map \<Rightarrow>
          cy_consumed_rounds cycle = None \<and> cy_amendment_origin cycle = None
          \<and> Some (cy_frozen_cap cycle) = PACK_REVIEW_CAPS (cy_frozen_tier cycle) \<and> cy_frozen_map_origin cycle = None
      | Legacy_Map \<Rightarrow>
          cy_consumed_rounds cycle = None \<and> cy_amendment_origin cycle = None
          \<and> cy_frozen_map_origin cycle = Some ''persisted-open-cycle''
      | Unknown_Map s \<Rightarrow> False)"

definition state_ok :: "review_cycle \<Rightarrow> bool" where
  "state_ok cycle \<longleftrightarrow>
     (case cy_state cycle of
        Open_Findings \<Rightarrow> isLogicalRoundCycle cycle \<and> cycleConsumedCount cycle < cy_frozen_cap cycle \<and> checkpoint_hash cycle
      | Open \<Rightarrow> cy_at_cap_hash cycle = None
      | Closed \<Rightarrow> cy_at_cap_hash cycle = None
      | Unknown_State s \<Rightarrow> False
      | _ \<Rightarrow> cycleConsumedCount cycle = cy_frozen_cap cycle \<and> checkpoint_hash cycle)"

definition cycle_ok :: "review_cycle \<Rightarrow> bool" where
  "cycle_ok cycle \<longleftrightarrow>
     \<not> blank (cy_cycle_id cycle) \<and> tier_in_caps (cy_frozen_tier cycle) \<and> 0 < cy_frozen_cap cycle
     \<and> list_all (\<lambda>s. is_sha (sha_of s)) (cy_consumed_heads cycle)
     \<and> distinct (map sha_of (cy_consumed_heads cycle))
     \<and> accounting_ok cycle \<and> cycleConsumedCount cycle \<le> cy_frozen_cap cycle \<and> state_ok cycle
     \<and> (if stage_complete cycle then text_or_empty (cy_stage_completed_at cycle) \<noteq> []
        else cy_stage_completed_at cycle = None)"

lemma rounds_positive:
  assumes eq: "rounds = map int [1..<Suc (length rounds)]"
  shows "(\<forall>r \<in> set rounds. \<not> r \<le> 0) \<and> distinct rounds"
proof
  have "distinct (map int [1..<Suc (length rounds)])" by (simp add: distinct_map)
  then show "distinct rounds" using eq by argo
  have "\<forall>r \<in> set (map int [1..<Suc (length rounds)]). \<not> r \<le> 0" by auto
  then show "\<forall>r \<in> set rounds. \<not> r \<le> 0" using eq by argo
qed

lemma accounting_guards:
  assumes "\<not> unknown_map (cy_cap_map c)"
  shows "list_all (\<lambda>g. \<not> fst g) (if isLogicalRoundCycle c then logical_guards c else legacy_guards c)
    \<longleftrightarrow> accounting_ok c"
proof (cases "cy_cap_map c")
  case Logical_Map
  have rounds: "(\<forall>r \<in> set rounds. \<not> r \<le> 0) \<and> distinct rounds \<and> rounds = map int [1..<Suc (length rounds)]
      \<longleftrightarrow> rounds = map int [1..<Suc (length rounds)]" for rounds
    using rounds_positive [of rounds] by argo
  have am: "list_all (\<lambda>g. \<not> fst g) (amendment_guards c origin) \<longleftrightarrow> amendment_ok_for c origin" for origin
    by (auto simp: amendment_guards_def amendment_ok_for_def list_ex_iff list_all_iff)
  show ?thesis
    using Logical_Map rounds
    by (auto simp: isLogicalRoundCycle_def accounting_ok_def logical_guards_def am list_ex_iff
        split: option.splits)
qed (use assms in \<open>auto simp: isLogicalRoundCycle_def accounting_ok_def legacy_guards_def\<close>)

lemma state_guards_ok:
  assumes "\<not> unknown_state (cy_state c)"
  shows "list_all (\<lambda>g. \<not> fst g) (state_guards c) \<longleftrightarrow>
    cycleConsumedCount c \<le> cy_frozen_cap c \<and> state_ok c
     \<and> (if stage_complete c then text_or_empty (cy_stage_completed_at c) \<noteq> [] else cy_stage_completed_at c = None)"
  using assms by (cases "cy_state c") (auto simp: state_guards_def state_ok_def at_cap_states_def Let_def)

lemma unknown_not_ok: "unknown_state (cy_state c) \<Longrightarrow> \<not> state_ok c" "unknown_map (cy_cap_map c) \<Longrightarrow> \<not> accounting_ok c"
  by (cases "cy_state c"; simp add: state_ok_def) (cases "cy_cap_map c"; simp add: accounting_ok_def)

lemma validateCycle_ok: "validateCycle (Some c) = Inr u \<longleftrightarrow> cycle_ok c"
proof (cases "unknown_state (cy_state c) \<or> unknown_map (cy_cap_map c)")
  case True
  then show ?thesis
    using unknown_not_ok [of c] by (auto simp: validateCycle_def guards_Inr cycle_guards_def cycle_ok_def)
next
  case False
  then show ?thesis
    using accounting_guards [of c] state_guards_ok [of c]
    by (auto simp: validateCycle_def guards_Inr cycle_guards_def cycle_ok_def list_ex_iff list_all_iff)
qed


definition phase_known :: "authority_phase \<Rightarrow> bool" where
  "phase_known phase \<longleftrightarrow> phase \<in> set PACK_REVIEW_AUTHORITY_PHASES"

definition disposition_known :: "budget_disposition option \<Rightarrow> bool" where
  "disposition_known v \<longleftrightarrow> v \<in> {None, Some Consume, Some Non_Consuming_Explicit}"

definition terminal_ok :: "authority_terminal \<Rightarrow> bool" where
  "terminal_ok t \<longleftrightarrow>
     is_sha (sha_of (at_target_sha t)) \<and> \<not> blank (at_run_id t) \<and> \<not> blank (at_digest t)
     \<and> disposition_known (at_disposition t)"

definition authority_ok :: "authority_document \<Rightarrow> bool" where
  "authority_ok d \<longleftrightarrow>
     ad_schema_version d = 1 \<and> 0 < ad_pr_number d \<and> 0 \<le> ad_transition_seq d
     \<and> is_sha (sha_of (ad_head_sha d)) \<and> phase_known (ad_phase d)
     \<and> pred_option cycle_ok (ad_cycle d) \<and> pred_option terminal_ok (ad_terminal d)
     \<and> pred_option (\<lambda>s. validate_smoke s = Inr ()) (ad_smoke d)"

lemma phaseIndex_Inr: "(\<exists>i. phaseIndex phase = Inr i) \<longleftrightarrow> phase_known phase"
  by (cases phase) (simp_all add: phaseIndex_def phase_known_def PACK_REVIEW_AUTHORITY_PHASES_def)

lemma normalizeSha_Inr [result_simps]: "normalizeSha v l = Inr s \<longleftrightarrow> s = sha_of v \<and> is_sha (sha_of v)"
  by (auto simp: normalizeSha_def Let_def)

lemma nonEmpty_Inr [result_simps]: "nonEmpty v l = Inr s \<longleftrightarrow> s = js_trim v \<and> \<not> blank v"
  by (auto simp: nonEmpty_def blank_def Let_def)

lemma positiveInteger_Inr [result_simps]: "positiveInteger v l = Inr n \<longleftrightarrow> n = v \<and> 0 < v"
  by (auto simp: positiveInteger_def)

lemma validateBudgetDisposition_Inr [result_simps]:
  "validateBudgetDisposition v l = Inr d \<longleftrightarrow> disposition_known v \<and> d = (case v of None \<Rightarrow> Consume | Some x \<Rightarrow> x)"
  by (auto simp: validateBudgetDisposition_def disposition_known_def split: option.splits budget_disposition.splits)

lemma validate_terminal_ok: "validate_terminal_fields t = Inr u \<longleftrightarrow> terminal_ok t"
  by (auto simp: validate_terminal_fields_def terminal_ok_def result_simps)

lemma validateAuthority_ok: "validateAuthority d = Inr u \<longleftrightarrow> authority_ok d"
proof -
  have c: "validateCycle x = Inr v \<longleftrightarrow> pred_option cycle_ok x" for x v
    using validateCycle_ok by (cases x) (auto simp: validateCycle_def)
  have t: "(case x of None \<Rightarrow> Inr () | Some t \<Rightarrow> validate_terminal_fields t) = Inr v \<longleftrightarrow> pred_option terminal_ok x" for x v
    by (cases x) (auto simp: validate_terminal_ok)
  have s: "(case x of None \<Rightarrow> Inr () | Some s \<Rightarrow> validate_smoke s) = Inr v \<longleftrightarrow>
    pred_option (\<lambda>s. validate_smoke s = Inr ()) x" for x v
    by (cases x) auto
  show ?thesis
    by (auto simp: validateAuthority_def authority_ok_def rbind_Inr require_Inr positiveInteger_Inr normalizeSha_Inr
        c t s phaseIndex_Inr [symmetric])
qed

lemma hex_fixed: "is_lower_hex ch \<Longrightarrow> \<not> js_space ch \<and> js_lower_char ch = ch"
  by (auto simp: is_lower_hex_def is_digit_def js_space_def js_lower_char_def Let_def)

lemma sha_of_fixed:
  assumes "is_sha s"
  shows "sha_of s = s"
proof -
  have s: "list_all is_lower_hex s" "s \<noteq> []" using assms by (auto simp: is_sha_def)
  then have "js_trim s = s" using hex_fixed by (intro js_trim_fixed) (simp_all add: list_all_iff)
  moreover have "js_lower s = s" using s(1) hex_fixed by (simp add: js_lower_def list_all_iff map_idI)
  ultimately show ?thesis by (simp add: sha_of_def)
qed

end
