(* ===== verification/Review_Store.thy ===== *)
theory Review_Store
  imports Review_Validate
begin

text \<open>
  The store of \<open>scripts/pack-review-state.ts\<close>: the lock of the store, canonical JSON text, the
  authority documents with the compare-and-swap transition every operation commits through, and
  the immutable records. What the machine provides is in a record \<open>review_env\<close>: the clock, a fresh
  random identifier, SHA-256, and what each attempt at the lock finds.
\<close>

section \<open>Canonical JSON text\<close>

fun sort_keys :: "json \<Rightarrow> json" where
  "sort_keys (JArr xs) = JArr (map sort_keys xs)"
| "sort_keys (JObj kvs) = JObj (sort_key fst (map (\<lambda>(k, v). (k, sort_keys v)) kvs))"
| "sort_keys j = j"

definition stableJson :: "json \<Rightarrow> string" where
  "stableJson value = json_text (sort_keys value)"

section \<open>The environment and the lock\<close>

datatype kill_result = Kill_Ok | Kill_EPERM | Kill_Other

text \<open>A held lock: the error text of \<open>mkdirSync\<close>, the pid in its owner file, its age if it can be read.\<close>

datatype lock_probe = Lock_Free | Lock_Held string "int option" "int option"

record review_env =
  ev_now :: string
  ev_uuid :: string
  ev_sha256 :: "string \<Rightarrow> string"
  ev_lock_attempts :: "nat option"
  ev_probe :: "nat \<Rightarrow> lock_probe"
  ev_kill :: "int \<Rightarrow> kill_result"

definition processAlive :: "(int \<Rightarrow> kill_result) \<Rightarrow> int \<Rightarrow> bool" where
  "processAlive kill pid \<longleftrightarrow> 0 < pid \<and> kill pid \<noteq> Kill_Other"

definition abandonedLock :: "(int \<Rightarrow> kill_result) \<Rightarrow> int option \<Rightarrow> int option \<Rightarrow> bool" where
  "abandonedLock kill owner_pid age_ms =
     (case owner_pid of
        Some pid \<Rightarrow> if 0 < pid then \<not> processAlive kill pid
                    else (case age_ms of Some age \<Rightarrow> 30000 < age | None \<Rightarrow> False)
      | None \<Rightarrow> (case age_ms of Some age \<Rightarrow> 30000 < age | None \<Rightarrow> False))"

function acquire_lock :: "nat \<Rightarrow> (nat \<Rightarrow> lock_probe) \<Rightarrow> (int \<Rightarrow> kill_result) \<Rightarrow> nat \<Rightarrow> authority_error + unit" where
  "acquire_lock attempts probe kill attempt =
     (if attempt < attempts
      then (case probe attempt of
              Lock_Free \<Rightarrow> Inr ()
            | Lock_Held message owner age \<Rightarrow>
                if abandonedLock kill owner age then acquire_lock attempts probe kill (Suc attempt)
                else if attempt + 1 = attempts then Inl (''authority_lock_timeout'', message)
                else acquire_lock attempts probe kill (Suc attempt))
      else Inl (''authority_lock_timeout'', ''unreachable''))"
  by pat_completeness auto
termination by (relation "measure (\<lambda>(n, p, k, i). n - i)") auto

declare acquire_lock.simps [simp del]

definition withPackReviewAuthorityLock :: "review_env \<Rightarrow> (authority_error + 'a) \<Rightarrow> authority_error + 'a" where
  "withPackReviewAuthorityLock env action =
     rbind (acquire_lock (case ev_lock_attempts env of None \<Rightarrow> 400 | Some n \<Rightarrow> n) (ev_probe env) (ev_kill env) 0)
       (\<lambda>_. action)"

section \<open>The store\<close>

datatype document_file = Corrupt string | Document authority_document

datatype immutable_kind = Terminal_Record | Bundle_Record | Evidence_Record

record immutable_file =
  im_bytes :: string
  im_value :: "json option"

record review_store =
  rs_docs :: "int \<Rightarrow> document_file option"
  rs_immutable :: "((immutable_kind \<times> string) \<times> immutable_file) list"

definition readAuthorityUnlocked :: "review_store \<Rightarrow> int \<Rightarrow> authority_error + authority_document option" where
  "readAuthorityUnlocked store prNumber =
     rbind (positiveInteger prNumber ''prNumber'') (\<lambda>_.
       (case rs_docs store prNumber of
          None \<Rightarrow> Inr None
        | Some (Corrupt message) \<Rightarrow> Inl (''authority_document_corrupt'', message)
        | Some (Document parsed) \<Rightarrow> rbind (validateAuthority parsed) (\<lambda>_. Inr (Some parsed))))"

definition readPackReviewAuthority ::
  "review_env \<Rightarrow> review_store \<Rightarrow> int \<Rightarrow> authority_error + authority_document option" where
  "readPackReviewAuthority env store prNumber =
     withPackReviewAuthorityLock env (readAuthorityUnlocked store prNumber)"

definition writeAuthorityUnlocked ::
  "review_store \<Rightarrow> authority_document \<Rightarrow> authority_error + authority_document \<times> review_store" where
  "writeAuthorityUnlocked store document =
     rbind (validateAuthority document) (\<lambda>_.
       Inr (document, store\<lparr>rs_docs := (rs_docs store)(ad_pr_number document \<mapsto> Document document)\<rparr>))"

definition missing_error :: "int \<Rightarrow> authority_error" where
  "missing_error prNumber = (''authority_missing'', ''PR '' @ show_int prNumber)"

text \<open>The transition: read, compare the sequence number, mutate a copy, check phase and identity, write.\<close>

definition commitPackReviewAuthorityTransition ::
  "review_env \<Rightarrow> review_store \<Rightarrow> int \<Rightarrow> int \<Rightarrow> authority_phase
     \<Rightarrow> (authority_document \<Rightarrow> authority_error + authority_document)
     \<Rightarrow> authority_error + authority_document \<times> review_store" where
  "commitPackReviewAuthorityTransition env store prNumber expectedTransitionSeq nextPhase mutate =
     withPackReviewAuthorityLock env
       (rbind (readAuthorityUnlocked store prNumber) (\<lambda>read_result.
        (case read_result of
           None \<Rightarrow> Inl (missing_error prNumber)
         | Some current \<Rightarrow>
             if ad_transition_seq current \<noteq> expectedTransitionSeq
             then Inl (''authority_transition_conflict'', ''expected '' @ show_int expectedTransitionSeq
                        @ '', actual '' @ show_int (ad_transition_seq current))
             else
               rbind (mutate current) (\<lambda>nxt.
               if ad_pr_number nxt \<noteq> ad_pr_number current \<or> ad_schema_version nxt \<noteq> 1
               then Inl (''authority_identity_conflict'', ''immutable identity changed'')
               else
                 rbind (phaseIndex nextPhase) (\<lambda>next_index.
                 rbind (phaseIndex (ad_phase current)) (\<lambda>current_index.
                 if next_index < current_index \<and> nextPhase \<noteq> Head_Observed
                 then Inl (''authority_transition_invalid'',
                        phase_text (ad_phase current) @ '' -> '' @ phase_text nextPhase)
                 else
                   let committed = nxt\<lparr>ad_phase := nextPhase,
                                      ad_transition_seq := ad_transition_seq current + 1,
                                      ad_updated_at := ev_now env\<rparr>
                   in rbind (validateAuthority committed) (\<lambda>_. writeAuthorityUnlocked store committed)))))))"

section \<open>Immutable records\<close>

fun kind_text :: "immutable_kind \<Rightarrow> string" where
  "kind_text Terminal_Record = ''terminal''"
| "kind_text Bundle_Record = ''bundle''"
| "kind_text Evidence_Record = ''evidence''"

definition immutable_key_char :: "char \<Rightarrow> bool" where
  "immutable_key_char c \<longleftrightarrow> is_ascii_letter c \<or> is_digit c \<or> c \<in> set ''._-''"

record staged_record =
  sr_id :: string
  sr_digest :: string
  sr_created :: bool

definition line_feed :: string where "line_feed = [CHR 0x0A]"

definition stagePackReviewImmutableRecord ::
  "review_env \<Rightarrow> review_store \<Rightarrow> immutable_kind \<Rightarrow> string \<Rightarrow> json
     \<Rightarrow> authority_error + staged_record \<times> review_store" where
  "stagePackReviewImmutableRecord env store kind raw_key value =
     rbind (nonEmpty raw_key ''key'') (\<lambda>key.
       if \<not> list_all immutable_key_char key then Inl (''authority_input_invalid'', ''immutable key'')
       else
         let bytes = stableJson value @ line_feed;
             digest = ev_sha256 env bytes;
             id = kind_text kind @ ''-'' @ key
         in withPackReviewAuthorityLock env
              (case map_of (rs_immutable store) (kind, key) of
                 Some existing \<Rightarrow>
                   let existingDigest = ev_sha256 env (im_bytes existing) in
                   if existingDigest \<noteq> digest
                   then Inl (''authority_conflict'', id @ '' existing='' @ existingDigest @ '' attempted='' @ digest)
                   else Inr (\<lparr>sr_id = id, sr_digest = digest, sr_created = False\<rparr>, store)
               | None \<Rightarrow>
                   Inr (\<lparr>sr_id = id, sr_digest = ev_sha256 env bytes, sr_created = True\<rparr>,
                        store\<lparr>rs_immutable := rs_immutable store
                          @ [((kind, key), \<lparr>im_bytes = bytes, im_value = Some (sort_keys value)\<rparr>)]\<rparr>)))"

definition listPackReviewImmutableRecordsUnlocked ::
  "review_store \<Rightarrow> immutable_kind \<Rightarrow> immutable_file list" where
  "listPackReviewImmutableRecordsUnlocked store kind =
     map snd (sort_key (\<lambda>r. snd (fst r) @ ''.json'') (filter (\<lambda>r. fst (fst r) = kind) (rs_immutable store)))"

definition listPackReviewImmutableRecords ::
  "review_env \<Rightarrow> review_store \<Rightarrow> immutable_kind \<Rightarrow> authority_error + immutable_file list" where
  "listPackReviewImmutableRecords env store kind =
     withPackReviewAuthorityLock env (Inr (listPackReviewImmutableRecordsUnlocked store kind))"

section \<open>Facts\<close>

lemma withLock_Inr:
  "withPackReviewAuthorityLock env action = Inr x \<Longrightarrow> action = Inr x"
  by (auto simp: withPackReviewAuthorityLock_def rbind_Inr)

lemma read_Inr:
  "readAuthorityUnlocked store pr = Inr r \<longleftrightarrow> 0 < pr \<and>
     (case rs_docs store pr of None \<Rightarrow> r = None
      | Some (Corrupt m) \<Rightarrow> False
      | Some (Document d) \<Rightarrow> authority_ok d \<and> r = Some d)"
  by (auto simp: readAuthorityUnlocked_def rbind_Inr positiveInteger_Inr validateAuthority_ok
      split: option.splits document_file.splits)

lemma write_Inr:
  "writeAuthorityUnlocked store d = Inr (d', store') \<longleftrightarrow>
     authority_ok d \<and> d' = d \<and> store' = store\<lparr>rs_docs := (rs_docs store)(ad_pr_number d \<mapsto> Document d)\<rparr>"
  by (auto simp: writeAuthorityUnlocked_def rbind_Inr validateAuthority_ok)

text \<open>What a successful transition did.\<close>

definition phase_rank :: "authority_phase \<Rightarrow> nat" where
  "phase_rank phase = (case phaseIndex phase of Inr i \<Rightarrow> i | Inl e \<Rightarrow> 0)"

lemma commit_Inr:
  assumes "commitPackReviewAuthorityTransition env store pr expected phase mutate = Inr (d, store')"
  shows "\<exists>current nxt. rs_docs store pr = Some (Document current) \<and> authority_ok current
    \<and> ad_transition_seq current = expected \<and> mutate current = Inr nxt
    \<and> ad_pr_number nxt = ad_pr_number current
    \<and> (phase_rank (ad_phase current) \<le> phase_rank phase \<or> phase = Head_Observed)
    \<and> d = nxt\<lparr>ad_phase := phase, ad_transition_seq := expected + 1, ad_updated_at := ev_now env\<rparr>
    \<and> authority_ok d
    \<and> store' = store\<lparr>rs_docs := (rs_docs store)(ad_pr_number current \<mapsto> Document d)\<rparr>"
proof -
  from withLock_Inr [OF assms [unfolded commitPackReviewAuthorityTransition_def]] obtain current nxt where
    r: "readAuthorityUnlocked store pr = Inr (Some current)" and seq: "ad_transition_seq current = expected"
    and m: "mutate current = Inr nxt" and pr: "ad_pr_number nxt = ad_pr_number current"
    and ph: "phase_rank (ad_phase current) \<le> phase_rank phase \<or> phase = Head_Observed"
    and w: "writeAuthorityUnlocked store (nxt\<lparr>ad_phase := phase, ad_transition_seq := expected + 1,
        ad_updated_at := ev_now env\<rparr>) = Inr (d, store')"
    by (auto simp: rbind_Inr Let_def phase_rank_def split: option.splits if_splits)
  from r have "rs_docs store pr = Some (Document current)" "authority_ok current"
    by (auto simp: read_Inr split: option.splits document_file.splits)
  moreover from w have "d = nxt\<lparr>ad_phase := phase, ad_transition_seq := expected + 1, ad_updated_at := ev_now env\<rparr>"
    "authority_ok d" "store' = store\<lparr>rs_docs := (rs_docs store)(ad_pr_number current \<mapsto> Document d)\<rparr>"
    using pr by (auto simp: write_Inr)
  ultimately show ?thesis using seq m pr ph by blast
qed

end
