(* ===== verification/Review_Cycle_Ops.thy ===== *)
theory Review_Cycle_Ops
  imports Review_Store
begin

text \<open>
  Operations of \<open>scripts/pack-review-state.ts\<close> that create, replace or reopen a cycle: new and
  retained cycles, initialization, body amendments and tier reconciliation. Each exported operation is its \<open>mutate\<close> function under the transition of
  \<open>Review_Store\<close>. An operation with two critical sections takes \<open>between\<close>, what other processes
  do to the store after the first.
\<close>

section \<open>New cycles\<close>

definition cap_value :: "int option \<Rightarrow> int" where
  "cap_value cap = (case cap of None \<Rightarrow> 0 | Some n \<Rightarrow> n)"

definition fresh_cycle_id :: "review_env \<Rightarrow> string" where
  "fresh_cycle_id env = ''cycle-'' @ filter (\<lambda>c. c \<noteq> CHR ''-'') (ev_uuid env)"

definition createNewPackReviewCycle ::
  "review_env \<Rightarrow> review_tier \<Rightarrow> cap_map option \<Rightarrow> amendment_origin option \<Rightarrow> reset_provenance option
     \<Rightarrow> authority_error + review_cycle" where
  "createNewPackReviewCycle env tier capMapVersion amendmentOrigin resetProvenance =
     (if \<not> tier_in_caps tier then Inl (cap_error (''unknown tier '' @ tier_text tier))
      else
        let cap_map = (case capMapVersion of None \<Rightarrow> Cap_Map | Some m \<Rightarrow> m);
            logical = (cap_map = Logical_Map)
        in if amendmentOrigin \<noteq> None \<and> (\<not> logical \<or> resetProvenance \<noteq> None)
           then Inl (cap_error ''amendment requires an unreset logical cycle'')
           else Inr
             \<lparr>cy_cycle_id = fresh_cycle_id env, cy_amendment_origin = amendmentOrigin, cy_state = Open,
              cy_frozen_tier = tier,
              cy_frozen_cap = (if amendmentOrigin \<noteq> None then 1
                 else if logical then cap_value (PACK_REVIEW_LOGICAL_CAPS tier)
                 else cap_value (PACK_REVIEW_CAPS tier)),
              cy_cap_map = cap_map, cy_frozen_map_origin = None, cy_opened_at = ev_now env,
              cy_closed_at = None, cy_consumed_heads = [],
              cy_consumed_rounds = (if logical then Some [] else None),
              cy_at_cap_hash = None, cy_stage_complete = None, cy_stage_completed_at = None,
              cy_settlement_kind = None, cy_review_start_consumed = None,
              cy_reset_provenance = resetProvenance\<rparr>)"

text \<open>A persisted cycle of unknown completeness.\<close>

record retained_cycle =
  rc_cycle_id :: "string option"
  rc_state :: "cycle_state option"
  rc_frozen_tier :: "review_tier option"
  rc_frozen_cap :: "int option"
  rc_opened_at :: "string option"
  rc_closed_at :: "string option"
  rc_consumed_heads :: "string list option"
  rc_at_cap_hash :: "string option"
  rc_stage_complete :: "bool option"
  rc_stage_completed_at :: "string option"
  rc_reset_provenance :: "reset_provenance option"

definition retainPersistedOpenCycle :: "retained_cycle option \<Rightarrow> authority_error + review_cycle" where
  "retainPersistedOpenCycle raw =
     (case raw of
        None \<Rightarrow> Inl (cap_error ''persisted open cycle is missing'')
      | Some input \<Rightarrow>
          rbind (nonEmpty (text_or_empty (rc_cycle_id input)) ''cycleId'') (\<lambda>cycleId.
          rbind (case rc_frozen_cap input of
                   None \<Rightarrow> Inl (integer_error ''frozenCap'')
                 | Some n \<Rightarrow> positiveInteger n ''frozenCap'') (\<lambda>frozenCap.
          rbind (nonEmpty (text_or_empty (rc_opened_at input)) ''openedAtUtc'') (\<lambda>openedAt.
          rbind (rall (\<lambda>sha. normalizeSha sha ''consumedHeadSha'')
                   (case rc_consumed_heads input of None \<Rightarrow> [] | Some heads \<Rightarrow> heads)) (\<lambda>heads.
          rbind (if rc_stage_complete input = Some True
                 then map_sum id Some (nonEmpty (text_or_empty (rc_stage_completed_at input)) ''reviewStageCompletedAtUtc'')
                 else Inr None) (\<lambda>completedAt.
            let cycle =
              \<lparr>cy_cycle_id = cycleId, cy_amendment_origin = None,
               cy_state = (case rc_state input of None \<Rightarrow> Open | Some s \<Rightarrow> s),
               cy_frozen_tier = (case rc_frozen_tier input of None \<Rightarrow> Unknown_Tier [] | Some t \<Rightarrow> t),
               cy_frozen_cap = frozenCap, cy_cap_map = Legacy_Map,
               cy_frozen_map_origin = Some ''persisted-open-cycle'', cy_opened_at = openedAt,
               cy_closed_at = rc_closed_at input, cy_consumed_heads = heads, cy_consumed_rounds = None,
               cy_at_cap_hash = rc_at_cap_hash input,
               cy_stage_complete = (if rc_stage_complete input = Some True then Some True else None),
               cy_stage_completed_at = completedAt, cy_settlement_kind = None,
               cy_review_start_consumed = None, cy_reset_provenance = rc_reset_provenance input\<rparr>
            in rbind (validateCycle (Some cycle)) (\<lambda>_. Inr cycle)))))))"

definition createInitialPackReviewAuthority ::
  "review_env \<Rightarrow> int \<Rightarrow> string \<Rightarrow> review_tier \<Rightarrow> retained_cycle option \<Rightarrow> cap_map option
     \<Rightarrow> authority_error + authority_document" where
  "createInitialPackReviewAuthority env prNumber headSha tier retainedOpenCycle capMapVersion =
     rbind (normalizeSha headSha ''headSha'') (\<lambda>currentHeadSha.
     rbind (if retainedOpenCycle \<noteq> None then retainPersistedOpenCycle retainedOpenCycle
            else createNewPackReviewCycle env tier capMapVersion None None) (\<lambda>cycle.
     rbind (positiveInteger prNumber ''prNumber'') (\<lambda>pr.
       Inr \<lparr>ad_schema_version = 1, ad_pr_number = pr, ad_transition_seq = 0, ad_phase = Head_Observed,
            ad_head_sha = currentHeadSha, ad_updated_at = ev_now env, ad_terminal = None,
            ad_cycle = Some cycle, ad_evidence = None, ad_triage = None, ad_publication = None,
            ad_smoke = None\<rparr>)))"

definition initializePackReviewAuthority ::
  "review_env \<Rightarrow> review_store \<Rightarrow> int \<Rightarrow> string \<Rightarrow> review_tier \<Rightarrow> retained_cycle option \<Rightarrow> cap_map option
     \<Rightarrow> authority_error + authority_document \<times> review_store" where
  "initializePackReviewAuthority env store prNumber headSha tier retainedOpenCycle capMapVersion =
     withPackReviewAuthorityLock env
       (rbind (readAuthorityUnlocked store prNumber) (\<lambda>existing.
        (case existing of
           Some d \<Rightarrow> Inr (d, store)
         | None \<Rightarrow>
             rbind (createInitialPackReviewAuthority env prNumber headSha tier retainedOpenCycle
                      (Some (case capMapVersion of None \<Rightarrow> Logical_Map | Some m \<Rightarrow> m)))
               (writeAuthorityUnlocked store))))"

section \<open>Helpers of the operations\<close>

text \<open>\<open>terminal\<close>, \<open>evidence\<close>, \<open>triage\<close> and \<open>publication\<close> set to \<open>undefined\<close>.\<close>

definition clear_outcomes :: "authority_document \<Rightarrow> authority_document" where
  "clear_outcomes d = d\<lparr>ad_evidence := None, ad_triage := None, ad_publication := None\<rparr>"

definition clear_terminal_outcomes :: "authority_document \<Rightarrow> authority_document" where
  "clear_terminal_outcomes d = clear_outcomes (d\<lparr>ad_terminal := None\<rparr>)"

definition markReviewStageComplete :: "authority_document \<Rightarrow> string \<Rightarrow> authority_document" where
  "markReviewStageComplete current completedAtUtc =
     (case ad_cycle current of
        None \<Rightarrow> current
      | Some cycle \<Rightarrow>
          if stage_complete cycle then current
          else current\<lparr>ad_cycle := Some (cycle\<lparr>cy_stage_complete := Some True,
                                         cy_stage_completed_at := Some completedAtUtc\<rparr>)\<rparr>)"

definition terminal_verdict :: "authority_document \<Rightarrow> review_verdict option" where
  "terminal_verdict d = map_option at_verdict (ad_terminal d)"

section \<open>Body amendment\<close>

definition amendment_eligible :: "authority_document \<Rightarrow> string \<Rightarrow> string \<Rightarrow> bool" where
  "amendment_eligible current headSha priorTerminalRunId \<longleftrightarrow>
     ad_head_sha current = headSha \<and>
     (case (ad_cycle current, ad_terminal current) of
        (Some previous, Some terminal) \<Rightarrow>
          isLogicalRoundCycle previous
          \<and> cy_state previous \<in> {Closed, At_Cap_Open_Findings, At_Cap_Continuation_Required}
          \<and> cycleConsumedCount previous = cy_frozen_cap previous
          \<and> (at_verdict terminal = Findings \<or> at_verdict terminal = Clean \<and> stage_complete previous)
          \<and> at_run_id terminal = priorTerminalRunId
      | _ \<Rightarrow> False)"

definition amendment_mutate ::
  "review_env \<Rightarrow> string \<Rightarrow> int \<Rightarrow> string \<Rightarrow> string \<Rightarrow> string
     \<Rightarrow> authority_document \<Rightarrow> authority_error + authority_document" where
  "amendment_mutate env headSha closingIssueNumber priorTerminalRunId reviewedBodyDigest amendedBodyDigest current =
     (if \<not> amendment_eligible current headSha priorTerminalRunId
      then Inl (''amendment_authority_unverified'', ''exact final-cap terminal/head/cycle not eligible'')
      else
        let previous = the (ad_cycle current);
            terminal = the (ad_terminal current);
            old = cy_amendment_origin previous
        in if (case old of None \<Rightarrow> False
               | Some o' \<Rightarrow> ao_closing_issue_number o' \<noteq> closingIssueNumber
                            \<or> ao_amended_body_digest o' \<noteq> reviewedBodyDigest)
           then Inl (''amendment_serial_order_invalid'', ''prior amendment body or closing Issue changed'')
           else
             let admitted = (case old of None \<Rightarrow> [reviewedBodyDigest]
                             | Some o' \<Rightarrow> ao_previously_admitted o' @ [ao_amended_body_digest o'])
             in if amendedBodyDigest \<in> set admitted
                then Inl (''amendment_digest_replayed'', ''reversion or already admitted body cannot consume another round'')
                else
                  rbind (createNewPackReviewCycle env (cy_frozen_tier previous) (Some Logical_Map)
                    (Some \<lparr>ao_original_terminal_run_id =
                             (case old of None \<Rightarrow> at_run_id terminal | Some o' \<Rightarrow> ao_original_terminal_run_id o'),
                           ao_original_cycle_id =
                             (case old of None \<Rightarrow> cy_cycle_id previous | Some o' \<Rightarrow> ao_original_cycle_id o'),
                           ao_previous_cycle_id = cy_cycle_id previous,
                           ao_previous_terminal_run_id = at_run_id terminal,
                           ao_closing_issue_number = closingIssueNumber,
                           ao_reviewed_body_digest = reviewedBodyDigest,
                           ao_amended_body_digest = amendedBodyDigest,
                           ao_previously_admitted = admitted\<rparr>) None) (\<lambda>cycle.
                  Inr (clear_terminal_outcomes (current\<lparr>ad_cycle := Some cycle\<rparr>))))"

definition beginPackReviewBodyAmendmentContinuation ::
  "review_env \<Rightarrow> review_store \<Rightarrow> int \<Rightarrow> int \<Rightarrow> string \<Rightarrow> int \<Rightarrow> string \<Rightarrow> string \<Rightarrow> string
     \<Rightarrow> authority_error + authority_document \<times> review_store" where
  "beginPackReviewBodyAmendmentContinuation env store prNumber expectedTransitionSeq head
       closingIssueNumber priorTerminalRunId reviewedBodyDigest amendedBodyDigest =
     rbind (normalizeSha head ''headSha'') (\<lambda>headSha.
       if reviewedBodyDigest = amendedBodyDigest
       then Inl (''amendment_not_changed'', ''Issue body digest unchanged'')
       else commitPackReviewAuthorityTransition env store prNumber expectedTransitionSeq Head_Observed
              (amendment_mutate env headSha closingIssueNumber priorTerminalRunId reviewedBodyDigest amendedBodyDigest))"

section \<open>Tier reconciliation\<close>

definition safely_replaceable :: "authority_document \<Rightarrow> review_cycle \<Rightarrow> bool option \<Rightarrow> bool option \<Rightarrow> bool" where
  "safely_replaceable current cycle startedRunExists prMerged \<longleftrightarrow>
     cy_state cycle = Open \<and> cycleConsumedCount cycle = 0 \<and> cy_consumed_heads cycle = []
     \<and> startedRunExists \<noteq> Some True \<and> prMerged \<noteq> Some True \<and> \<not> stage_complete cycle
     \<and> ad_terminal current = None \<and> ad_evidence current = None \<and> ad_triage current = None
     \<and> ad_publication current = None \<and> cy_reset_provenance cycle = None"

definition replace_mutate ::
  "review_env \<Rightarrow> review_tier \<Rightarrow> review_cycle \<Rightarrow> authority_document \<Rightarrow> authority_error + authority_document" where
  "replace_mutate env tier cycle authority =
     rbind (createNewPackReviewCycle env tier
              (Some (if isLogicalRoundCycle cycle then Logical_Map else Cap_Map)) None None) (\<lambda>c.
       Inr (authority\<lparr>ad_cycle := Some c\<rparr>))"

definition rounds_json :: "int list option \<Rightarrow> (string \<times> json) list" where
  "rounds_json rounds = (case rounds of None \<Rightarrow> [] | Some rs \<Rightarrow> [(''consumedRoundOrdinals'', JArr (map JInt rs))])"

definition promoted_hash :: "review_env \<Rightarrow> review_cycle \<Rightarrow> authority_terminal \<Rightarrow> string" where
  "promoted_hash env cycle terminal =
     ev_sha256 env (stableJson (JObj
       ([(''cycleId'', JStr (cy_cycle_id cycle)), (''frozenCap'', JInt (cy_frozen_cap cycle))]
        @ rounds_json (cy_consumed_rounds cycle)
        @ [(''terminalRunId'', JStr (at_run_id terminal)), (''terminalDigest'', JStr (at_digest terminal))])))"

definition promote_mutate ::
  "review_env \<Rightarrow> review_tier \<Rightarrow> review_cycle \<Rightarrow> authority_document \<Rightarrow> authority_error + authority_document" where
  "promote_mutate env tier cycle authority =
     (case ad_cycle authority of
        None \<Rightarrow> Inl (''TypeError'', ''cycle is null'')
      | Some c \<Rightarrow>
          if cy_cycle_id c \<noteq> cy_cycle_id cycle \<or> stage_complete c \<or> cy_state c = Closed
          then Inl (''authority_transition_conflict'', ''cycle settled during tier promotion'')
          else
            let promoted = c\<lparr>cy_frozen_tier := tier, cy_frozen_cap := cap_value (PACK_REVIEW_LOGICAL_CAPS tier)\<rparr>
            in if cycleConsumedCount cycle < cy_frozen_cap promoted \<and> cy_state promoted \<in> finding_states
               then (case ad_terminal authority of
                       Some terminal \<Rightarrow>
                         if at_verdict terminal = Findings
                         then
                           Inr (authority\<lparr>ad_cycle := Some (promoted\<lparr>cy_state := Open_Findings,
                             cy_closed_at := None,
                             cy_at_cap_hash := Some (promoted_hash env promoted terminal)\<rparr>)\<rparr>)
                         else Inl (cap_error ''promoted finding checkpoint lacks its terminal'')
                     | None \<Rightarrow> Inl (cap_error ''promoted finding checkpoint lacks its terminal''))
               else Inr (authority\<lparr>ad_cycle := Some promoted\<rparr>))"

definition reconcilePackReviewTier ::
  "review_env \<Rightarrow> (review_store \<Rightarrow> review_store) \<Rightarrow> review_store \<Rightarrow> int \<Rightarrow> review_tier \<Rightarrow> bool option \<Rightarrow> bool option
     \<Rightarrow> authority_error + authority_document \<times> review_store" where
  "reconcilePackReviewTier env between store prNumber tier startedRunExists prMerged =
     rbind (readPackReviewAuthority env store prNumber) (\<lambda>read_result.
     (case read_result of
        None \<Rightarrow> Inl (missing_error prNumber)
      | Some current \<Rightarrow>
     (case ad_cycle current of
        None \<Rightarrow> Inr (current, store)
      | Some cycle \<Rightarrow>
          if cy_frozen_tier cycle = tier then Inr (current, store)
          else if safely_replaceable current cycle startedRunExists prMerged
          then commitPackReviewAuthorityTransition env (between store) prNumber (ad_transition_seq current)
                 (ad_phase current) (replace_mutate env tier cycle)
          else if num_le (tier_rank tier) (tier_rank (cy_frozen_tier cycle)) \<or> prMerged = Some True
                  \<or> stage_complete cycle \<or> cy_state cycle = Closed
          then Inr (current, store)
          else if \<not> isLogicalRoundCycle cycle
          then Inl (''tier_change_requires_reset'', ''persisted '' @ tier_text (cy_frozen_tier cycle)
                 @ '' cycle uses legacy accounting and cannot be promoted'')
          else commitPackReviewAuthorityTransition env (between store) prNumber (ad_transition_seq current)
                 (ad_phase current) (promote_mutate env tier cycle))))"

end
