(* ===== verification/Review_Head_Ops.thy ===== *)
theory Review_Head_Ops
  imports Review_Cycle_Ops
begin

text \<open>
  Head observation, the explicit extra review and the acknowledged reset of
  \<open>scripts/pack-review-state.ts\<close>, and the evidence of a failed run that a cycle before logical
  accounting reads from the run records. \<open>Date.parse\<close> is modelled on the form
  \<open>toISOString\<close> writes, with or without milliseconds; any other text counts as no date.
\<close>

section \<open>Date.parse\<close>

definition number_at :: "string \<Rightarrow> nat \<Rightarrow> nat \<Rightarrow> int option" where
  "number_at s i n =
     (let d = take n (drop i s) in
      if length d = n \<and> list_all is_digit d
      then Some (foldl (\<lambda>acc c. acc * 10 + (int (of_char c) - 48)) 0 d) else None)"

text \<open>Days from 1970-01-01 in the proleptic Gregorian calendar; a day past the month runs on.\<close>

definition days_from_civil :: "int \<Rightarrow> int \<Rightarrow> int \<Rightarrow> int" where
  "days_from_civil year month day =
     (let y = (if month \<le> 2 then year - 1 else year);
          era = y div 400;
          yoe = y mod 400;
          mp = (month + 9) mod 12;
          doy = (153 * mp + 2) div 5 + day - 1
      in era * 146097 + yoe * 365 + yoe div 4 - yoe div 100 + doy - 719468)"

definition date_form :: "string \<Rightarrow> bool" where
  "date_form s \<longleftrightarrow>
     (length s = 20 \<or> length s = 24 \<and> s ! 19 = CHR ''.'')
     \<and> s ! 4 = CHR ''-'' \<and> s ! 7 = CHR ''-'' \<and> s ! 10 = CHR ''T'' \<and> s ! 13 = CHR '':'' \<and> s ! 16 = CHR '':''
     \<and> last s = CHR ''Z''"

definition date_parse :: "string \<Rightarrow> int option" where
  "date_parse s =
     (if \<not> date_form s then None
      else (case (number_at s 0 4, number_at s 5 2, number_at s 8 2, number_at s 11 2, number_at s 14 2,
                  number_at s 17 2, if length s = 24 then number_at s 20 3 else Some 0) of
              (Some year, Some month, Some day, Some hour, Some minute, Some sec, Some ms) \<Rightarrow>
                if 1 \<le> month \<and> month \<le> 12 \<and> 1 \<le> day \<and> day \<le> 31 \<and> minute \<le> 59 \<and> sec \<le> 59
                   \<and> (hour \<le> 23 \<or> hour = 24 \<and> minute = 0 \<and> sec = 0 \<and> ms = 0)
                then Some ((((days_from_civil year month day * 24 + hour) * 60 + minute) * 60 + sec) * 1000 + ms)
                else None
            | _ \<Rightarrow> None))"

lemma date_parse_epoch: "date_parse ''1970-01-01T00:00:00.000Z'' = Some 0"
  by code_simp

lemma date_parse_leap: "date_parse ''2024-03-01T00:00:00Z'' = Some (1709251200 * 1000)"
  by code_simp

section \<open>Evidence of a failed run\<close>

record review_run =
  rn_pr_number :: int
  rn_status :: "string option"
  rn_disposition :: "string option"
  rn_stale :: "bool option"
  rn_created_at :: "string option"

definition reviewRunEvidence :: "authority_document \<Rightarrow> review_run list \<Rightarrow> bool" where
  "reviewRunEvidence authority reviewRuns =
     (case ad_cycle authority of
        None \<Rightarrow> False
      | Some cycle \<Rightarrow>
          if isLogicalRoundCycle cycle then False
          else (case date_parse (cy_opened_at cycle) of
                  None \<Rightarrow> False
                | Some cycleOpenedAt \<Rightarrow>
                    list_ex (\<lambda>run.
                      rn_pr_number run = ad_pr_number authority \<and> rn_stale run \<noteq> Some True
                      \<and> rn_disposition run = Some ''consume''
                      \<and> js_lower (text_or_empty (rn_status run)) = ''failed''
                      \<and> (case rn_created_at run of
                           None \<Rightarrow> False
                         | Some created \<Rightarrow> (case date_parse created of
                             None \<Rightarrow> False | Some runCreatedAt \<Rightarrow> cycleOpenedAt \<le> runCreatedAt))) reviewRuns))"

section \<open>Observing a head\<close>

definition with_cycle :: "(review_cycle \<Rightarrow> review_cycle) \<Rightarrow> authority_document \<Rightarrow> authority_document" where
  "with_cycle f d = d\<lparr>ad_cycle := map_option f (ad_cycle d)\<rparr>"

definition start_consumed :: "review_cycle \<Rightarrow> review_cycle" where
  "start_consumed c = c\<lparr>cy_review_start_consumed := Some True\<rparr>"

text \<open>The head is unchanged: \<open>current.currentHeadSha === headSha\<close>.\<close>

definition observe_same_head :: "review_env \<Rightarrow> bool \<Rightarrow> authority_document \<Rightarrow> authority_document" where
  "observe_same_head env consumedRunEvidence current =
     (let marked =
        (case ad_cycle current of
           None \<Rightarrow> current
         | Some c \<Rightarrow>
             if \<not> stage_complete c \<and> consumedRunEvidence
             then with_cycle start_consumed (markReviewStageComplete current (ev_now env))
             else current)
      in case ad_cycle marked of
           None \<Rightarrow> marked
         | Some cycle \<Rightarrow>
             if isLogicalRoundCycle cycle \<and> cy_state cycle = Open
                \<and> 0 < cycleConsumedCount cycle \<and> cycleConsumedCount cycle < cy_frozen_cap cycle
             then clear_terminal_outcomes marked else marked)"

definition stage_done_on_new_head :: "authority_document \<Rightarrow> bool \<Rightarrow> bool" where
  "stage_done_on_new_head current consumedRunEvidence \<longleftrightarrow>
     (case ad_cycle current of None \<Rightarrow> False | Some c \<Rightarrow> stage_complete c)
     \<or> ((case ad_cycle current of None \<Rightarrow> False | Some c \<Rightarrow> cy_state c = Closed)
         \<and> (case ad_publication current of None \<Rightarrow> False | Some p \<Rightarrow> pb_status p = Pub_Succeeded))
     \<or> consumedRunEvidence"

definition complete_on_new_head :: "review_env \<Rightarrow> bool \<Rightarrow> authority_document \<Rightarrow> authority_document" where
  "complete_on_new_head env consumedRunEvidence current =
     (case ad_cycle current of
        None \<Rightarrow> current
      | Some c \<Rightarrow>
          if stage_done_on_new_head current consumedRunEvidence \<and> \<not> stage_complete c
          then with_cycle (if consumedRunEvidence then start_consumed else id)
                 (current\<lparr>ad_cycle := Some (c\<lparr>cy_stage_complete := Some True,
                    cy_stage_completed_at := Some (case ad_publication current of
                      None \<Rightarrow> ev_now env | Some p \<Rightarrow> pb_recorded_at p)\<rparr>)\<rparr>)
          else current)"

definition observe_mutate ::
  "review_env \<Rightarrow> string \<Rightarrow> review_run list option \<Rightarrow> authority_document \<Rightarrow> authority_error + authority_document" where
  "observe_mutate env headSha reviewRuns current =
     (let consumedRunEvidence = (case reviewRuns of None \<Rightarrow> False | Some runs \<Rightarrow> reviewRunEvidence current runs)
      in if ad_head_sha current = headSha then Inr (observe_same_head env consumedRunEvidence current)
         else
           let moved = clear_outcomes ((complete_on_new_head env consumedRunEvidence current)\<lparr>ad_head_sha := headSha\<rparr>)
           in case ad_cycle moved of
                None \<Rightarrow> Inr moved
              | Some c \<Rightarrow>
                  if stage_complete c then Inr moved
                  else if cy_state c = Closed
                  then rbind (createNewPackReviewCycle env (cy_frozen_tier c) (Some Logical_Map) None None)
                         (\<lambda>fresh. Inr (moved\<lparr>ad_cycle := Some fresh\<rparr>))
                  else if cy_state c \<in> at_cap_states
                  then Inr (with_cycle (\<lambda>x. x\<lparr>cy_state := At_Cap_Continuation_Required\<rparr>) moved)
                  else Inr moved)"

definition observePackReviewHead ::
  "review_env \<Rightarrow> review_store \<Rightarrow> int \<Rightarrow> int \<Rightarrow> string \<Rightarrow> review_run list option
     \<Rightarrow> authority_error + authority_document \<times> review_store" where
  "observePackReviewHead env store prNumber expectedTransitionSeq head reviewRuns =
     rbind (normalizeSha head ''headSha'') (\<lambda>headSha.
       commitPackReviewAuthorityTransition env store prNumber expectedTransitionSeq Head_Observed
         (observe_mutate env headSha reviewRuns))"

definition reopenPackReviewAuthorityForExplicitExtraReview ::
  "review_env \<Rightarrow> (review_store \<Rightarrow> review_store) \<Rightarrow> review_store \<Rightarrow> int \<Rightarrow> int \<Rightarrow> string
     \<Rightarrow> authority_error + authority_document \<times> review_store" where
  "reopenPackReviewAuthorityForExplicitExtraReview env between store prNumber expectedTransitionSeq head =
     rbind (normalizeSha head ''headSha'') (\<lambda>headSha.
     rbind (readPackReviewAuthority env store prNumber) (\<lambda>read_result.
     (case read_result of
        None \<Rightarrow> Inl (missing_error prNumber)
      | Some current \<Rightarrow>
          if ad_head_sha current \<noteq> headSha
          then Inl (''authority_transition_invalid'', ''explicit extra review reopen requires the exact current head'')
          else
            rbind (phaseIndex (ad_phase current)) (\<lambda>phase_index.
            rbind (phaseIndex Head_Observed) (\<lambda>observed_index.
            if phase_index \<le> observed_index then Inr (current, store)
            else observePackReviewHead env (between store) prNumber expectedTransitionSeq head None)))))"

section \<open>The acknowledged reset\<close>

definition pending_at_cap :: "review_cycle option \<Rightarrow> bool" where
  "pending_at_cap cycle \<longleftrightarrow>
     (case cycle of None \<Rightarrow> False | Some c \<Rightarrow> cy_state c \<in> at_cap_states \<and> \<not> stage_complete c)"

definition completed_findings :: "authority_document \<Rightarrow> bool option \<Rightarrow> bool" where
  "completed_findings current bodyAmended \<longleftrightarrow>
     (case (ad_cycle current, ad_terminal current) of
        (Some c, Some t) \<Rightarrow>
          bodyAmended = Some True \<and> cy_cap_map c = Logical_Map \<and> cy_frozen_tier c \<noteq> T1
          \<and> cy_state c = Closed \<and> stage_complete c
          \<and> (case cy_consumed_rounds c of
               None \<Rightarrow> False
             | Some rounds \<Rightarrow> int (length rounds) = cy_frozen_cap c \<and> rounds \<noteq> [] \<and> last rounds = cy_frozen_cap c)
          \<and> at_verdict t = Findings \<and> at_logical_round t = Some (cy_frozen_cap c)
          \<and> (cy_settlement_kind c = Some Same_Head_Issue_Resolution \<or> ad_head_sha current \<noteq> at_target_sha t)
      | _ \<Rightarrow> False)"

text \<open>\<open>cycle.atCapHash ? provenance.priorAtCapHash !== cycle.atCapHash : ...\<close>\<close>

definition reset_mismatch :: "authority_document \<Rightarrow> bool option \<Rightarrow> review_cycle \<Rightarrow> reset_provenance \<Rightarrow> bool" where
  "reset_mismatch current bodyAmended cycle provenance \<longleftrightarrow>
     rp_prior_cycle_id provenance \<noteq> cy_cycle_id cycle
     \<or> (if text_or_empty (cy_at_cap_hash cycle) \<noteq> []
        then rp_prior_at_cap_hash provenance \<noteq> cy_at_cap_hash cycle
        else \<not> completed_findings current bodyAmended \<or> rp_prior_at_cap_hash provenance \<noteq> None)"

definition reset_mutate ::
  "review_env \<Rightarrow> string \<Rightarrow> review_tier \<Rightarrow> reset_provenance \<Rightarrow> bool option \<Rightarrow> cap_map option
     \<Rightarrow> authority_document \<Rightarrow> authority_error + authority_document" where
  "reset_mutate env headSha tier provenance bodyAmended capMapVersion current =
     (if \<not> pending_at_cap (ad_cycle current) \<and> \<not> completed_findings current bodyAmended
      then Inl (''reset_invalid'', ''cycle is not an eligible findings cap'')
      else
        let cycle = the (ad_cycle current)
        in if reset_mismatch current bodyAmended cycle provenance
           then Inl (''reset_invalid'', ''prior cycle/hash mismatch'')
           else if capMapVersion = Some Logical_Map \<and> num_less (tier_rank tier) (tier_rank (cy_frozen_tier cycle))
           then Inl (''reset_invalid'', ''authoritative tier cannot be lowered'')
           else
             rbind (nonEmpty (rp_actor provenance) ''actor'') (\<lambda>_.
             rbind (nonEmpty (rp_reason provenance) ''reason'') (\<lambda>_.
             rbind (nonEmpty (rp_timestamp provenance) ''timestampUtc'') (\<lambda>_.
             rbind (nonEmpty (rp_nonce provenance) ''nonce'') (\<lambda>_.
             rbind (createNewPackReviewCycle env tier capMapVersion None (Some provenance)) (\<lambda>fresh.
               Inr (clear_terminal_outcomes (current\<lparr>ad_head_sha := headSha, ad_cycle := Some fresh\<rparr>))))))))"

definition acknowledgePackReviewReset ::
  "review_env \<Rightarrow> review_store \<Rightarrow> int \<Rightarrow> int \<Rightarrow> string \<Rightarrow> review_tier \<Rightarrow> reset_provenance \<Rightarrow> bool option
     \<Rightarrow> cap_map option \<Rightarrow> authority_error + authority_document \<times> review_store" where
  "acknowledgePackReviewReset env store prNumber expectedTransitionSeq head tier provenance
       completedFindingsBodyAmended capMapVersion =
     rbind (normalizeSha head ''headSha'') (\<lambda>headSha.
       commitPackReviewAuthorityTransition env store prNumber expectedTransitionSeq Head_Observed
         (reset_mutate env headSha tier provenance completedFindingsBodyAmended capMapVersion))"

end
