(* ===== verification/Review_Terminal.thy ===== *)
theory Review_Terminal
  imports Review_Head_Ops
begin

text \<open>
  The terminal of \<open>scripts/pack-review-state.ts\<close>: \<open>validateTerminalV2\<close>, the rule which
  terminals consume a slot of the cap, and \<open>commitPackReviewTerminal\<close>, which stages the immutable
  record, spends the slot and moves the cycle. The row is the typed record; properties of the row
  outside its interface are not modelled.
\<close>

section \<open>Validation of the row\<close>

definition terminal_error :: "string \<Rightarrow> authority_error" where
  "terminal_error detail = (''terminal_contract_invalid'', detail)"

definition normalize_row :: "terminal_v2 \<Rightarrow> authority_error + terminal_v2" where
  "normalize_row row =
     rbind (validateBudgetDisposition (tv_disposition row) ''terminal.automaticBudgetDisposition'') (\<lambda>disposition.
     rbind (nonEmpty (tv_run_id row) ''runId'') (\<lambda>runId.
     rbind (normalizeSha (tv_target_sha row) ''targetSha'') (\<lambda>targetSha.
     rbind (require (tv_verdict row = Clean \<or> tv_verdict row = Findings) (terminal_error ''reviewVerdict'')) (\<lambda>_.
     rbind (nonEmpty (tv_findings_digest row) ''findingsDigest'') (\<lambda>findingsDigest.
     rbind (case tv_logical_round row of
              None \<Rightarrow> Inr None
            | Some n \<Rightarrow> map_sum id Some (positiveInteger n ''logicalRoundOrdinal'')) (\<lambda>round.
       Inr (row\<lparr>tv_disposition := Some disposition, tv_run_id := runId, tv_target_sha := targetSha,
                tv_findings_digest := findingsDigest, tv_logical_round := round\<rparr>)))))))"

definition required_composite :: "terminal_v2 \<Rightarrow> (string option \<times> string) list" where
  "required_composite t =
     [(tv_source_clean_run_id t, ''sourceCleanRunId''), (tv_source_head_sha t, ''sourceHeadSha''),
      (tv_merge_base_sha t, ''mergeBaseSha''), (tv_main_sha t, ''mainSha''), (tv_replay_digest t, ''replayDigest''),
      (tv_bundle_digest t, ''bundleDigest''), (tv_helper_version t, ''helperVersion''),
      (tv_focused_run_id t, ''focusedResolutionRunId'')]"

definition check_composite :: "terminal_v2 \<Rightarrow> authority_error + unit" where
  "check_composite t =
     rbind (rall (\<lambda>(v, key). nonEmpty (text_or_empty v) key) (required_composite t)) (\<lambda>_.
     rbind (normalizeSha (text_or_empty (tv_source_head_sha t)) ''sourceHeadSha'') (\<lambda>_.
     rbind (normalizeSha (text_or_empty (tv_merge_base_sha t)) ''mergeBaseSha'') (\<lambda>_.
     rbind (normalizeSha (text_or_empty (tv_main_sha t)) ''mainSha'') (\<lambda>_.
       (case tv_ordered_parents t of
          Some [a, b] \<Rightarrow>
            rbind (normalizeSha a ''orderedParentSha'') (\<lambda>first.
            rbind (normalizeSha b ''orderedParentSha'') (\<lambda>second.
              if Some first \<noteq> tv_source_head_sha t \<or> Some second \<noteq> tv_main_sha t
              then Inl (terminal_error ''ordered parents do not match source/main'')
              else require (tv_focused_verdict t = Some ''clean'') (terminal_error ''focused resolution is not clean'')))
        | _ \<Rightarrow> Inl (terminal_error ''orderedParentShas''))))))"

definition check_carryover :: "terminal_v2 \<Rightarrow> authority_error + unit" where
  "check_carryover t =
     rbind (nonEmpty (text_or_empty (tv_source_clean_run_id t)) ''sourceCleanRunId'') (\<lambda>_.
     rbind (normalizeSha (text_or_empty (tv_source_head_sha t)) ''sourceHeadSha'') (\<lambda>_.
     rbind (normalizeSha (text_or_empty (tv_main_sha t)) ''mainSha'') (\<lambda>_.
     rbind (nonEmpty (text_or_empty (tv_replay_digest t)) ''replayDigest'') (\<lambda>_. Inr ()))))"

definition validateTerminalV2 :: "terminal_v2 \<Rightarrow> authority_error + terminal_v2" where
  "validateTerminalV2 row =
     (if tv_schema_version row \<noteq> 1 \<or> tv_contract_version row \<noteq> 2
      then Inl (terminal_error ''requires schemaVersion 1 / terminalContractVersion 2'')
      else if tv_source row \<notin> {Normal, Conflict_Free_Carryover, Merge_Composite}
      then Inl (terminal_error ''unknown terminalSource'')
      else
        rbind (normalize_row row) (\<lambda>t.
        if tv_finding_count t < 0 then Inl (terminal_error ''findingCount'')
        else if tv_verdict t = Clean \<and> tv_finding_count t \<noteq> 0 then Inl (terminal_error ''clean with findings'')
        else
          rbind (if tv_source t = Merge_Composite then check_composite t else Inr ()) (\<lambda>_.
          rbind (if tv_source t = Conflict_Free_Carryover then check_carryover t else Inr ()) (\<lambda>_. Inr t))))"

section \<open>The cap slot\<close>

record terminal_input =
  ti_status :: string
  ti_finding_count :: "int option"
  ti_failure_class :: "string option"
  ti_reaper_killed :: bool
  ti_superseded :: bool
  ti_stale :: bool

definition terminalConsumesCapSlot :: "terminal_input \<Rightarrow> bool" where
  "terminalConsumesCapSlot input =
     (if ti_superseded input \<or> ti_stale input \<or> ti_reaper_killed input then False
      else
        let status = js_lower (ti_status input);
            findings = (case ti_finding_count input of None \<Rightarrow> 0 | Some n \<Rightarrow> n)
        in if status = ''timed_out'' \<or> ti_failure_class input = Some ''timeout_no_verdict'' then False
           else if ti_failure_class input \<in> {Some ''parse_error'', Some ''process_error'', Some ''empty_output''} then False
           else if status \<in> {''up_to_date'', ''clean'', ''commented'', ''changes_requested''} then True
           else if (status = ''failed'' \<or> status = ''cancelled'') \<and> 0 < findings then True
           else False)"

section \<open>The row as JSON\<close>

fun source_text :: "terminal_source \<Rightarrow> string" where
  "source_text Normal = ''normal''"
| "source_text Conflict_Free_Carryover = ''conflict_free_carryover''"
| "source_text Merge_Composite = ''merge_composite''"
| "source_text (Other_Source s) = s"

fun verdict_text :: "review_verdict \<Rightarrow> string" where
  "verdict_text Clean = ''clean''" | "verdict_text Findings = ''findings''" | "verdict_text (Other_Verdict s) = s"

fun disposition_text :: "budget_disposition \<Rightarrow> string" where
  "disposition_text Consume = ''consume''"
| "disposition_text Non_Consuming_Explicit = ''non_consuming_explicit''"
| "disposition_text (Other_Disposition s) = s"

definition optional :: "string \<Rightarrow> ('a \<Rightarrow> json) \<Rightarrow> 'a option \<Rightarrow> (string \<times> json) list" where
  "optional key f v = (case v of None \<Rightarrow> [] | Some x \<Rightarrow> [(key, f x)])"

definition terminal_json :: "terminal_v2 \<Rightarrow> json" where
  "terminal_json t = JObj
     ([(''schemaVersion'', JInt (tv_schema_version t)), (''terminalContractVersion'', JInt (tv_contract_version t)),
       (''terminalSource'', JStr (source_text (tv_source t)))]
      @ optional ''automaticBudgetDisposition'' (\<lambda>d. JStr (disposition_text d)) (tv_disposition t)
      @ [(''runId'', JStr (tv_run_id t)), (''targetSha'', JStr (tv_target_sha t))]
      @ optional ''logicalRoundOrdinal'' JInt (tv_logical_round t)
      @ [(''reviewVerdict'', JStr (verdict_text (tv_verdict t))), (''findingCount'', JInt (tv_finding_count t)),
         (''findingsDigest'', JStr (tv_findings_digest t))]
      @ optional ''deliveryDigest'' JStr (tv_delivery_digest t)
      @ optional ''sourceCleanRunId'' JStr (tv_source_clean_run_id t)
      @ optional ''sourceHeadSha'' JStr (tv_source_head_sha t)
      @ optional ''mergeBaseSha'' JStr (tv_merge_base_sha t)
      @ optional ''mainSha'' JStr (tv_main_sha t)
      @ optional ''orderedParentShas'' (\<lambda>xs. JArr (map JStr xs)) (tv_ordered_parents t)
      @ optional ''replayDigest'' JStr (tv_replay_digest t)
      @ optional ''bundleDigest'' JStr (tv_bundle_digest t)
      @ optional ''helperVersion'' JStr (tv_helper_version t)
      @ optional ''focusedResolutionRunId'' JStr (tv_focused_run_id t)
      @ optional ''focusedResolutionVerdict'' JStr (tv_focused_verdict t))"

section \<open>Committing a terminal\<close>

definition committed_terminal :: "terminal_v2 \<Rightarrow> string \<Rightarrow> string \<Rightarrow> authority_terminal" where
  "committed_terminal t digest status =
     \<lparr>at_run_id = tv_run_id t, at_digest = digest, at_target_sha = tv_target_sha t,
      at_logical_round = tv_logical_round t, at_verdict = tv_verdict t, at_source = tv_source t,
      at_disposition = tv_disposition t, at_review_status = Some status\<rparr>"

text \<open>A logical cycle that receives a terminal without a round falls back to counting heads.\<close>

definition downgrade_cycle :: "terminal_v2 \<Rightarrow> review_cycle \<Rightarrow> review_cycle" where
  "downgrade_cycle t cycle =
     (if isLogicalRoundCycle cycle \<and> tv_logical_round t = None
      then cycle\<lparr>cy_cap_map := Cap_Map, cy_frozen_cap := cap_value (PACK_REVIEW_CAPS (cy_frozen_tier cycle)),
                 cy_consumed_rounds := None\<rparr>
      else cycle)"

definition add_head :: "string \<Rightarrow> review_cycle \<Rightarrow> review_cycle" where
  "add_head sha cycle =
     (if sha \<in> set (cy_consumed_heads cycle) then cycle
      else cycle\<lparr>cy_consumed_heads := cy_consumed_heads cycle @ [sha]\<rparr>)"

definition consume_slot :: "terminal_v2 \<Rightarrow> review_cycle \<Rightarrow> authority_error + review_cycle" where
  "consume_slot t cycle =
     (if isLogicalRoundCycle cycle
      then (case cy_consumed_rounds cycle of
              None \<Rightarrow> Inl (''TypeError'', ''consumedRoundOrdinals is undefined'')
            | Some rounds \<Rightarrow>
                let expectedOrdinal = int (length rounds) + 1;
                    ordinal = (case tv_logical_round t of None \<Rightarrow> expectedOrdinal | Some n \<Rightarrow> n)
                in if ordinal \<le> 0 then Inl (cap_error ''logical-round terminal has invalid round ordinal'')
                   else if ordinal \<in> set rounds then Inr (add_head (tv_target_sha t) cycle)
                   else if ordinal \<noteq> expectedOrdinal
                   then Inl (cap_error (''logical round ordinal '' @ show_int ordinal @ '' does not match expected ''
                          @ show_int expectedOrdinal))
                   else if cy_frozen_cap cycle \<le> int (length rounds)
                   then Inl (''cap_exhausted'', ''terminal cannot consume an extra logical round'')
                   else Inr (add_head (tv_target_sha t) (cycle\<lparr>cy_consumed_rounds := Some (rounds @ [ordinal])\<rparr>)))
      else if tv_target_sha t \<in> set (cy_consumed_heads cycle) then Inr cycle
      else if cy_frozen_cap cycle \<le> int (length (cy_consumed_heads cycle))
      then Inl (''cap_exhausted'', ''terminal cannot consume an extra head'')
      else Inr (add_head (tv_target_sha t) cycle))"

definition at_cap_hash :: "review_env \<Rightarrow> review_cycle \<Rightarrow> string" where
  "at_cap_hash env cycle =
     ev_sha256 env (stableJson (JObj
       ([(''cycleId'', JStr (cy_cycle_id cycle)), (''frozenCap'', JInt (cy_frozen_cap cycle))]
        @ (if isLogicalRoundCycle cycle then rounds_json (cy_consumed_rounds cycle)
           else [(''consumedHeadShas'', JArr (map JStr (cy_consumed_heads cycle)))]))))"

definition findings_hash :: "review_env \<Rightarrow> review_cycle \<Rightarrow> terminal_v2 \<Rightarrow> string" where
  "findings_hash env cycle t =
     ev_sha256 env (stableJson (JObj
       ([(''cycleId'', JStr (cy_cycle_id cycle)), (''frozenCap'', JInt (cy_frozen_cap cycle))]
        @ rounds_json (cy_consumed_rounds cycle)
        @ [(''terminalRunId'', JStr (tv_run_id t)), (''findingsDigest'', JStr (tv_findings_digest t))])))"

text \<open>The terminal settles its round: clean, or findings the host already classified as comments.\<close>

definition terminal_settles :: "terminal_v2 \<Rightarrow> string \<Rightarrow> review_cycle \<Rightarrow> bool" where
  "terminal_settles t status cycle \<longleftrightarrow>
     tv_verdict t = Clean \<and> tv_finding_count t = 0
     \<or> isLogicalRoundCycle cycle \<and> tv_verdict t = Findings \<and> status = ''commented''"

definition move_cycle ::
  "review_env \<Rightarrow> terminal_v2 \<Rightarrow> string \<Rightarrow> review_cycle \<Rightarrow> authority_document \<Rightarrow> authority_document" where
  "move_cycle env t status cycle current =
     (if terminal_settles t status cycle
      then (if \<not> isLogicalRoundCycle cycle \<or> cy_frozen_cap cycle \<le> cycleConsumedCount cycle
            then let closed = current\<lparr>ad_cycle := Some (cycle\<lparr>cy_state := Closed, cy_closed_at := Some (ev_now env),
                                                            cy_at_cap_hash := None\<rparr>)\<rparr>
                 in if isLogicalRoundCycle cycle then markReviewStageComplete closed (ev_now env) else closed
            else current\<lparr>ad_cycle := Some (cycle\<lparr>cy_state := Open, cy_closed_at := None, cy_at_cap_hash := None\<rparr>)\<rparr>)
      else if cycleConsumedCount cycle = cy_frozen_cap cycle
      then current\<lparr>ad_cycle := Some (cycle\<lparr>cy_state := At_Cap_Open_Findings,
                                         cy_at_cap_hash := Some (at_cap_hash env cycle)\<rparr>)\<rparr>
      else if isLogicalRoundCycle cycle
      then current\<lparr>ad_cycle := Some (cycle\<lparr>cy_state := Open_Findings, cy_closed_at := None,
                                         cy_at_cap_hash := Some (findings_hash env cycle t)\<rparr>)\<rparr>
      else current\<lparr>ad_cycle := Some cycle\<rparr>)"

definition consumes_slot :: "terminal_v2 \<Rightarrow> terminal_input \<Rightarrow> bool" where
  "consumes_slot t input \<longleftrightarrow> tv_source t \<noteq> Conflict_Free_Carryover \<and> terminalConsumesCapSlot input"

definition terminal_mutate ::
  "review_env \<Rightarrow> terminal_v2 \<Rightarrow> string \<Rightarrow> terminal_input \<Rightarrow> authority_document \<Rightarrow> authority_error + authority_document" where
  "terminal_mutate env t digest input current =
     (if tv_target_sha t \<noteq> ad_head_sha current then Inl (''terminal_head_stale'', tv_target_sha t)
      else if (case ad_terminal current of None \<Rightarrow> False
               | Some old \<Rightarrow> at_target_sha old = tv_target_sha t \<and> at_verdict old = Findings) \<and> tv_verdict t = Clean
      then Inl (''terminal_precedence_conflict'', ''findings outrank clean'')
      else
        let recorded = current\<lparr>ad_terminal := Some (committed_terminal t digest (ti_status input))\<rparr>
        in case ad_cycle current of
             None \<Rightarrow> Inr recorded
           | Some cycle \<Rightarrow>
               let counted = downgrade_cycle t cycle
               in rbind (if consumes_slot t input then consume_slot t counted else Inr counted) (\<lambda>spent.
                    Inr (move_cycle env t (ti_status input) spent recorded)))"

definition commitPackReviewTerminal ::
  "review_env \<Rightarrow> (review_store \<Rightarrow> review_store) \<Rightarrow> review_store \<Rightarrow> int \<Rightarrow> int \<Rightarrow> terminal_v2 \<Rightarrow> terminal_input
     \<Rightarrow> authority_error + authority_document \<times> review_store" where
  "commitPackReviewTerminal env between store prNumber expectedTransitionSeq row input =
     rbind (validateTerminalV2 row) (\<lambda>t.
     rbind (stagePackReviewImmutableRecord env store Terminal_Record (tv_run_id t) (terminal_json t)) (\<lambda>(staged, store1).
       commitPackReviewAuthorityTransition env (between store1) prNumber expectedTransitionSeq
         Terminal_And_Cap_Committed (terminal_mutate env t (sr_digest staged) input)))"

end
