(* ===== verification/Js_Number.thy ===== *)
theory Js_Number
  imports Json
begin

text \<open>
  \<open>Number\<close> of JavaScript on strings and JSON values, where the result is an integer, without the
  rounding of integers above \<open>2^53\<close>, and \<open>String\<close> of a JSON value.
\<close>

section \<open>Number\<close>

definition digits_int :: "string \<Rightarrow> int" where
  "digits_int s = foldl (\<lambda>acc c. acc * 10 + (int (of_char c) - 48)) 0 s"

definition exponent_char :: "char \<Rightarrow> bool" where
  "exponent_char c \<longleftrightarrow> c = CHR ''e'' \<or> c = CHR ''E''"

definition split_sign :: "string \<Rightarrow> int \<times> string" where
  "split_sign s = (case s of
     [] \<Rightarrow> (1, [])
   | c # cs \<Rightarrow> if c = CHR ''-'' then (-1, cs) else if c = CHR ''+'' then (1, cs) else (1, s))"

text \<open>The integer a decimal literal denotes, if it denotes one.\<close>

definition decimal_integer :: "string \<Rightarrow> int option" where
  "decimal_integer s =
     (let (sign, body) = split_sign s;
          mantissa = takeWhile (\<lambda>c. \<not> exponent_char c) body;
          rest = drop (length mantissa) body;
          whole = takeWhile (\<lambda>c. c \<noteq> CHR ''.'') mantissa;
          fraction = drop (Suc (length whole)) mantissa;
          (esign, edigits) = split_sign (drop 1 rest);
          shift = (if rest = [] then 0 else esign * digits_int edigits) - int (length fraction);
          value = sign * digits_int (whole @ fraction)
      in if \<not> list_all is_digit (whole @ fraction) \<or> whole @ fraction = []
            \<or> rest \<noteq> [] \<and> (edigits = [] \<or> \<not> list_all is_digit edigits)
         then None
         else if 0 \<le> shift then Some (value * 10 ^ nat shift)
         else if value mod (10 ^ nat (- shift)) = 0 then Some (value div (10 ^ nat (- shift)))
         else None)"

definition radix_digit :: "int \<Rightarrow> char \<Rightarrow> int option" where
  "radix_digit base c =
     (let n = (of_char (js_lower_char c) :: int);
          d = (if is_digit c then n - 48 else if 97 \<le> n \<and> n \<le> 102 then n - 87 else 99)
      in if d < base then Some d else None)"

definition radix_integer :: "int \<Rightarrow> string \<Rightarrow> int option" where
  "radix_integer base s =
     (if s = [] \<or> list_ex (\<lambda>c. radix_digit base c = None) s then None
      else Some (foldl (\<lambda>acc c. acc * base + the (radix_digit base c)) 0 s))"

definition string_integer :: "string \<Rightarrow> int option" where
  "string_integer s =
     (let t = js_trim s; prefix = js_lower (take 2 t) in
      if t = [] then Some 0
      else if prefix = ''0x'' then radix_integer 16 (drop 2 t)
      else if prefix = ''0o'' then radix_integer 8 (drop 2 t)
      else if prefix = ''0b'' then radix_integer 2 (drop 2 t)
      else decimal_integer t)"

fun json_to_string :: "json \<Rightarrow> string" where
  "json_to_string JNull = ''null''"
| "json_to_string (JBool b) = (if b then ''true'' else ''false'')"
| "json_to_string (JInt i) = show_int i"
| "json_to_string (JFrac s) = s"
| "json_to_string (JStr s) = s"
| "json_to_string (JArr xs) = js_join '','' (map (\<lambda>x. if x = JNull then [] else json_to_string x) xs)"
| "json_to_string (JObj kvs) = ''[object Object]''"

text \<open>The value of \<open>Number(v)\<close> when \<open>Number.isInteger\<close> holds of it.\<close>

fun number_integer :: "json option \<Rightarrow> int option" where
  "number_integer None = None"
| "number_integer (Some JNull) = Some 0"
| "number_integer (Some (JBool b)) = Some (if b then 1 else 0)"
| "number_integer (Some (JInt i)) = Some i"
| "number_integer (Some (JFrac s)) = decimal_integer s"
| "number_integer (Some (JStr s)) = string_integer s"
| "number_integer (Some j) = string_integer (json_to_string j)"

lemma decimal_examples:
  "decimal_integer ''1.5'' = None" "decimal_integer ''2.5e1'' = Some 25" "string_integer ''1_0'' = None"
  by code_simp+

end
