(* ===== verification/Review_Settle.thy ===== *)
theory Review_Settle
  imports Review_Terminal Js_Number
begin

text \<open>
  What happens to findings in \<open>scripts/pack-review-state.ts\<close>: settlement by a strict descendant
  or a rewritten head, evidence selection, triage and publication. Evidence records are JSON.
\<close>

section \<open>Evidence\<close>

fun is_array :: "json option \<Rightarrow> bool" where
  "is_array (Some (JArr xs)) = True"
| "is_array _ = False"

definition canonicalEvidenceRecordMatches :: "json option \<Rightarrow> string \<Rightarrow> string \<Rightarrow> authority_document \<Rightarrow> bool" where
  "canonicalEvidenceRecordMatches value expectedEvidenceKey selectedEvidenceId authority \<longleftrightarrow>
     (case (value, ad_cycle authority) of
        (Some (JObj entries), Some cycle) \<Rightarrow>
          (case map_of entries ''tuple'' of
             Some (JObj tup) \<Rightarrow>
               map_of entries ''schema'' = Some (JStr ''merge-triage-evidence/v1'')
               \<and> map_of entries ''pathId'' = Some (JStr ''scope-denylist-current-head/v1'')
               \<and> map_of entries ''producer'' = Some (JStr ''scripts/merge-triage-evidence.ts'')
               \<and> map_of entries ''evidenceId'' = Some (JStr (''mte-'' @ expectedEvidenceKey))
               \<and> map_of entries ''evidenceId'' = Some (JStr selectedEvidenceId)
               \<and> map_of entries ''expectedEvidenceKey'' = Some (JStr expectedEvidenceKey)
               \<and> map_of tup ''prNumber'' = Some (JInt (ad_pr_number authority))
               \<and> map_of tup ''cycleId'' = Some (JStr (cy_cycle_id cycle))
               \<and> map_of tup ''currentHeadSha'' = Some (JStr (ad_head_sha authority))
               \<and> is_array (map_of entries ''changedPaths'') \<and> is_array (map_of entries ''denylistPatterns'')
               \<and> is_array (map_of entries ''matchedPaths'')
               \<and> (map_of entries ''predicateResult'' = Some (JStr ''intersection'')
                  \<or> map_of entries ''predicateResult'' = Some (JStr ''no_intersection''))
           | _ \<Rightarrow> False)
      | _ \<Rightarrow> False)"

definition evidence_matches ::
  "review_env \<Rightarrow> review_store \<Rightarrow> string \<Rightarrow> string \<Rightarrow> string \<Rightarrow> authority_document \<Rightarrow> immutable_file list" where
  "evidence_matches env store key evidence_id digest current =
     filter (\<lambda>entry. canonicalEvidenceRecordMatches (im_value entry) key evidence_id current
                      \<and> ev_sha256 env (im_bytes entry) = digest)
       (listPackReviewImmutableRecordsUnlocked store Evidence_Record)"

definition malformed_evidence :: "review_store \<Rightarrow> bool" where
  "malformed_evidence store \<longleftrightarrow>
     list_ex (\<lambda>entry. im_value entry = None) (listPackReviewImmutableRecordsUnlocked store Evidence_Record)"

definition evidence_error :: "string \<Rightarrow> authority_error" where
  "evidence_error detail = (''evidence_selection_invalid'', detail)"

definition evidence_mutate ::
  "review_env \<Rightarrow> review_store \<Rightarrow> string \<Rightarrow> string \<Rightarrow> string \<Rightarrow> authority_document
     \<Rightarrow> authority_error + authority_document" where
  "evidence_mutate env store raw_key raw_id raw_digest current =
     (if (case ad_cycle current of None \<Rightarrow> True | Some c \<Rightarrow> cy_state c \<notin> finding_states)
      then Inl (evidence_error ''cycle has no unresolved finding checkpoint'')
      else
        rbind (nonEmpty raw_key ''expectedEvidenceKey'') (\<lambda>key.
        rbind (nonEmpty raw_id ''selectedEvidenceId'') (\<lambda>evidence_id.
        rbind (nonEmpty raw_digest ''selectedEvidenceDigest'') (\<lambda>digest.
        if malformed_evidence store then Inl (evidence_error ''malformed evidence record'')
        else if length (evidence_matches env store key evidence_id digest current) \<noteq> 1
        then Inl (evidence_error ''selected evidence does not match the immutable current-head record'')
        else Inr (current\<lparr>ad_evidence := Some \<lparr>es_key = key, es_id = evidence_id, es_digest = digest,
                                             es_selected_at = ev_now env\<rparr>\<rparr>)))))"

definition selectPackReviewEvidence ::
  "review_env \<Rightarrow> review_store \<Rightarrow> int \<Rightarrow> int \<Rightarrow> string \<Rightarrow> string \<Rightarrow> string
     \<Rightarrow> authority_error + authority_document \<times> review_store" where
  "selectPackReviewEvidence env store prNumber expectedTransitionSeq key evidence_id digest =
     commitPackReviewAuthorityTransition env store prNumber expectedTransitionSeq Evidence_Selected
       (evidence_mutate env store key evidence_id digest)"

section \<open>Settlement of findings\<close>

definition settlement_error :: "string \<Rightarrow> authority_error" where
  "settlement_error detail = (''findings_settlement_invalid'', detail)"

record same_head_resolution =
  sh_run_id :: string
  sh_cycle_id :: string
  sh_round :: int

definition same_head_inexact ::
  "same_head_resolution \<Rightarrow> string \<Rightarrow> string \<Rightarrow> authority_terminal \<Rightarrow> review_cycle \<Rightarrow> bool" where
  "same_head_inexact same reviewedHeadSha currentHeadSha terminal cycle \<longleftrightarrow>
     reviewedHeadSha \<noteq> currentHeadSha \<or> at_run_id terminal \<noteq> sh_run_id same
     \<or> cy_cycle_id cycle \<noteq> sh_cycle_id same \<or> at_logical_round terminal \<noteq> Some (sh_round same)
     \<or> sh_round same \<noteq> cy_frozen_cap cycle \<or> cycleConsumedCount cycle \<noteq> cy_frozen_cap cycle
     \<or> cy_state cycle \<notin> at_cap_states"

definition reopened :: "review_cycle \<Rightarrow> review_cycle" where
  "reopened cycle = cycle\<lparr>cy_state := Open, cy_closed_at := None, cy_at_cap_hash := None\<rparr>"

definition descendant_mutate ::
  "review_env \<Rightarrow> string \<Rightarrow> string \<Rightarrow> same_head_resolution option \<Rightarrow> authority_document
     \<Rightarrow> authority_error + authority_document" where
  "descendant_mutate env reviewedHeadSha currentHeadSha sameHead current =
     (if ad_head_sha current \<noteq> currentHeadSha then Inl (''findings_settlement_head_stale'', ad_head_sha current)
      else case (ad_cycle current, ad_terminal current) of
        (Some cycle, Some terminal) \<Rightarrow>
          if \<not> isLogicalRoundCycle cycle \<or> at_verdict terminal \<noteq> Findings \<or> at_target_sha terminal \<noteq> reviewedHeadSha
          then Inl (settlement_error ''logical findings terminal is not authoritative for the reviewed head'')
          else if (case sameHead of None \<Rightarrow> False
                   | Some same \<Rightarrow> same_head_inexact same reviewedHeadSha currentHeadSha terminal cycle)
          then Inl (settlement_error ''same-head Issue resolution is not the exact final capped terminal'')
          else if cy_state cycle = Open_Findings \<and> cycleConsumedCount cycle < cy_frozen_cap cycle
          then Inr (clear_outcomes (current\<lparr>ad_cycle := Some (reopened cycle)\<rparr>))
          else if cy_state cycle \<in> at_cap_states \<and> cycleConsumedCount cycle = cy_frozen_cap cycle
          then
            let marked = markReviewStageComplete
                  (current\<lparr>ad_cycle := Some (cycle\<lparr>cy_state := Closed, cy_closed_at := Some (ev_now env),
                                                  cy_at_cap_hash := None\<rparr>)\<rparr>) (ev_now env)
            in Inr (clear_outcomes
                 (if sameHead \<noteq> None
                  then with_cycle (\<lambda>c. c\<lparr>cy_settlement_kind := Some Same_Head_Issue_Resolution\<rparr>) marked else marked))
          else Inl (settlement_error (''cycle state '' @ state_text (cy_state cycle)
                 @ '' cannot settle findings at logical count '' @ show_int (cycleConsumedCount cycle)))
      | _ \<Rightarrow> Inl (settlement_error ''logical findings terminal is not authoritative for the reviewed head''))"

definition settleLogicalPackReviewFindingsByStrictDescendant ::
  "review_env \<Rightarrow> review_store \<Rightarrow> int \<Rightarrow> int \<Rightarrow> string \<Rightarrow> string \<Rightarrow> bool \<Rightarrow> string option
     \<Rightarrow> same_head_resolution option \<Rightarrow> authority_error + authority_document \<times> review_store" where
  "settleLogicalPackReviewFindingsByStrictDescendant env store prNumber expectedTransitionSeq
       reviewedHead currentHead reviewedHeadIsAncestor ancestryAnchor sameHead =
     rbind (normalizeSha reviewedHead ''reviewedHeadSha'') (\<lambda>reviewedHeadSha.
     rbind (normalizeSha currentHead ''currentHeadSha'') (\<lambda>currentHeadSha.
     rbind (case ancestryAnchor of None \<Rightarrow> Inr reviewedHeadSha
            | Some anchor \<Rightarrow> normalizeSha anchor ''ancestryAnchorSha'') (\<lambda>ancestryAnchorSha.
     rbind (if sameHead \<noteq> None \<and> reviewedHeadSha = currentHeadSha then Inr True
            else packReviewFindingsSatisfiedByStrictDescendant ancestryAnchorSha currentHeadSha reviewedHeadIsAncestor)
       (\<lambda>satisfied.
     if \<not> satisfied then Inl (settlement_error ''findings require a strict descendant of the reviewed head'')
     else commitPackReviewAuthorityTransition env store prNumber expectedTransitionSeq Head_Observed
            (descendant_mutate env reviewedHeadSha currentHeadSha sameHead)))))"

definition rewritten_mutate ::
  "string \<Rightarrow> string \<Rightarrow> authority_document \<Rightarrow> authority_error + authority_document" where
  "rewritten_mutate reviewedHeadSha currentHeadSha current =
     (if ad_head_sha current \<noteq> currentHeadSha then Inl (''findings_settlement_head_stale'', ad_head_sha current)
      else case (ad_cycle current, ad_terminal current) of
        (Some cycle, Some terminal) \<Rightarrow>
          if \<not> isLogicalRoundCycle cycle \<or> cy_state cycle \<noteq> Open_Findings \<or> stage_complete cycle
             \<or> cycleConsumedCount cycle < 1 \<or> cy_frozen_cap cycle \<le> cycleConsumedCount cycle
             \<or> at_verdict terminal \<noteq> Findings \<or> at_target_sha terminal \<noteq> reviewedHeadSha
          then Inl (settlement_error ''rewritten head requires the exact unfinished pre-cap logical findings checkpoint'')
          else Inr (clear_outcomes (current\<lparr>ad_cycle :=
                 Some ((reopened cycle)\<lparr>cy_settlement_kind := Some Rewritten_Head\<rparr>)\<rparr>))
      | _ \<Rightarrow> Inl (settlement_error ''rewritten head requires the exact unfinished pre-cap logical findings checkpoint''))"

definition settleLogicalPackReviewFindingsByRewrittenHead ::
  "review_env \<Rightarrow> review_store \<Rightarrow> int \<Rightarrow> int \<Rightarrow> string \<Rightarrow> string
     \<Rightarrow> authority_error + authority_document \<times> review_store" where
  "settleLogicalPackReviewFindingsByRewrittenHead env store prNumber expectedTransitionSeq reviewedHead currentHead =
     rbind (normalizeSha reviewedHead ''reviewedHeadSha'') (\<lambda>reviewedHeadSha.
     rbind (normalizeSha currentHead ''currentHeadSha'') (\<lambda>currentHeadSha.
     if reviewedHeadSha = currentHeadSha
     then Inl (settlement_error ''rewritten head must differ from reviewed findings head'')
     else commitPackReviewAuthorityTransition env store prNumber expectedTransitionSeq Head_Observed
            (rewritten_mutate reviewedHeadSha currentHeadSha)))"

section \<open>Settled obligations\<close>

definition review_status :: "authority_document \<Rightarrow> string option" where
  "review_status d = (case ad_terminal d of None \<Rightarrow> None | Some t \<Rightarrow> at_review_status t)"

definition clear_statuses :: "string option set" where
  "clear_statuses = {Some ''clean'', Some ''up_to_date'', Some ''commented''}"

definition reviewObligationsSettled :: "authority_document \<Rightarrow> bool" where
  "reviewObligationsSettled authority =
     (case ad_cycle authority of
        None \<Rightarrow> False
      | Some cycle \<Rightarrow>
          if stage_complete cycle then True
          else if isLogicalRoundCycle cycle
          then (if cycleConsumedCount cycle < cy_frozen_cap cycle then False
                else cy_state cycle = Closed \<and> review_status authority \<in> clear_statuses)
          else if cy_state cycle = Closed then True
          else if review_status authority \<in> clear_statuses then True
          else cy_state cycle \<in> at_cap_states
               \<and> (case ad_triage authority of None \<Rightarrow> False
                  | Some t \<Rightarrow> ts_source t = Architect \<and> ts_verdict t = Defer))"

definition reviewStartConsumedEvidence :: "authority_document \<Rightarrow> review_run list \<Rightarrow> bool" where
  "reviewStartConsumedEvidence authority reviewRuns =
     (if (case ad_triage authority of None \<Rightarrow> False
          | Some t \<Rightarrow> ts_verdict t \<in> {Block, Pending_Architect, Pending_Operator}) then False
      else js_lower (text_or_empty (review_status authority)) \<in> {''failed'', ''error'', ''changes_requested''}
        \<or> (case ad_cycle authority of None \<Rightarrow> False
           | Some c \<Rightarrow> cy_frozen_cap c \<le> int (length (cy_consumed_heads c)))
        \<or> reviewRunEvidence authority reviewRuns)"

section \<open>Triage\<close>

definition triage_error :: "string \<Rightarrow> authority_error" where
  "triage_error detail = (''triage_invalid'', detail)"

text \<open>The JSON fields of the selected evidence, or none when no evidence is selected.\<close>

definition automatic_evidence ::
  "review_env \<Rightarrow> review_store \<Rightarrow> authority_document \<Rightarrow> authority_error + json option" where
  "automatic_evidence env store current =
     (case ad_evidence current of
        None \<Rightarrow> Inr None
      | Some ev \<Rightarrow>
          let canonical = evidence_matches env store (es_key ev) (es_id ev) (es_digest ev) current
          in if malformed_evidence store \<or> length canonical \<noteq> 1
             then Inl (triage_error ''automatic triage evidence is not canonical'')
             else Inr (im_value (canonical ! 0)))"

definition evidence_field :: "json option \<Rightarrow> string \<Rightarrow> json option" where
  "evidence_field value key = (case value of None \<Rightarrow> None | Some v \<Rightarrow> json_field v key)"

definition resolution_of :: "json option \<Rightarrow> json option" where
  "resolution_of value = (case evidence_field value ''findingResolution'' of Some (JObj kvs) \<Rightarrow> Some (JObj kvs) | _ \<Rightarrow> None)"

definition counts_resolved :: "json option \<Rightarrow> bool" where
  "counts_resolved resolution \<longleftrightarrow>
     (case (number_integer (evidence_field resolution ''findingCount''),
            number_integer (evidence_field resolution ''blockingFindingCount''),
            number_integer (evidence_field resolution ''nonBlockingFindingCount''),
            number_integer (evidence_field resolution ''unresolvedBlockingFindingCount'')) of
        (Some findings, Some blocking, Some non_blocking, Some unresolved) \<Rightarrow>
          0 < findings \<and> 0 \<le> blocking \<and> blocking \<le> findings \<and> non_blocking = findings - blocking \<and> unresolved = 0
      | _ \<Rightarrow> False)"

definition final_fix_bound :: "json option \<Rightarrow> triage_state \<Rightarrow> authority_document \<Rightarrow> bool" where
  "final_fix_bound resolution triage current \<longleftrightarrow>
     evidence_field resolution ''predicateResult'' = Some (JStr ''resolved'')
     \<and> evidence_field resolution ''resolutionBasis'' = Some (JStr ''explicit_current_head_finding_selection'')
     \<and> evidence_field resolution ''findingSnapshotDigest'' = Some (JStr (ts_finding_digest triage))
     \<and> evidence_field resolution ''priorReviewedHeadSha'' = map_option (\<lambda>t. JStr (at_target_sha t)) (ad_terminal current)
     \<and> evidence_field resolution ''currentHeadSha'' = Some (JStr (ad_head_sha current))
     \<and> counts_resolved resolution"

definition findings_terminal :: "authority_document \<Rightarrow> bool" where
  "findings_terminal d \<longleftrightarrow> terminal_verdict d = Some Findings"

definition final_fix_settlement :: "json option \<Rightarrow> triage_state \<Rightarrow> authority_document \<Rightarrow> bool" where
  "final_fix_settlement value triage current \<longleftrightarrow>
     ts_verdict triage = Defer
     \<and> (case ad_cycle current of None \<Rightarrow> False
        | Some c \<Rightarrow> cy_state c = At_Cap_Continuation_Required \<and> cycleConsumedCount c = cy_frozen_cap c)
     \<and> findings_terminal current
     \<and> map_option at_target_sha (ad_terminal current) \<noteq> Some (ad_head_sha current)
     \<and> evidence_field value ''predicateResult'' = Some (JStr ''no_intersection'')
     \<and> final_fix_bound (resolution_of value) triage current"

definition prior_round_settlement :: "json option \<Rightarrow> triage_state \<Rightarrow> authority_document \<Rightarrow> bool" where
  "prior_round_settlement value triage current \<longleftrightarrow>
     ts_verdict triage = Defer
     \<and> (case ad_cycle current of None \<Rightarrow> False
        | Some c \<Rightarrow> cy_state c = Open_Findings \<and> isLogicalRoundCycle c \<and> cycleConsumedCount c < cy_frozen_cap c)
     \<and> findings_terminal current
     \<and> evidence_field value ''predicateResult'' = Some (JStr ''no_intersection'')
     \<and> final_fix_bound (resolution_of value) triage current"

definition check_automatic ::
  "review_env \<Rightarrow> review_store \<Rightarrow> triage_state \<Rightarrow> authority_document \<Rightarrow> authority_error + unit" where
  "check_automatic env store triage current =
     (if ts_verdict triage \<noteq> Pending_Operator \<and> ad_evidence current = None
      then Inl (triage_error ''automatic triage lacks selected evidence'')
      else
        rbind (automatic_evidence env store current) (\<lambda>value.
        if ts_verdict triage = Defer \<and> \<not> final_fix_settlement value triage current
           \<and> \<not> prior_round_settlement value triage current
        then (case ad_cycle current of
                None \<Rightarrow> Inl (''TypeError'', ''cycle is null'')
              | Some c \<Rightarrow>
                  Inl (triage_error
                    (if isLogicalRoundCycle c
                     then ''automatic DEFER requires a bounded logical-round finding checkpoint or final-cap continuation with no-intersection scope evidence and exact finding-resolution evidence''
                     else ''automatic DEFER requires final-cap continuation, no-intersection scope evidence, and exact finding-resolution evidence'')))
        else Inr ()))"

definition triage_mutate ::
  "review_env \<Rightarrow> review_store \<Rightarrow> triage_state \<Rightarrow> authority_document \<Rightarrow> authority_error + authority_document" where
  "triage_mutate env store triage current =
     rbind (case ts_source triage of
              Automatic \<Rightarrow> check_automatic env store triage current
            | Architect \<Rightarrow> require (ts_verdict triage \<in> {Block, Defer})
                              (triage_error ''architect verdict must be BLOCK or DEFER'')) (\<lambda>_.
       let triaged = current\<lparr>ad_triage := Some triage\<rparr>;
           automaticFinalFix = (ts_source triage = Automatic \<and> ts_verdict triage = Defer
             \<and> (case ad_cycle current of None \<Rightarrow> False
                | Some c \<Rightarrow> \<not> isLogicalRoundCycle c \<and> cy_state c \<noteq> Open))
       in Inr (if automaticFinalFix
                  \<or> (case ad_publication current of None \<Rightarrow> False | Some p \<Rightarrow> pb_status p = Pub_Succeeded)
                    \<and> reviewObligationsSettled triaged
               then markReviewStageComplete triaged (ts_committed_at triage) else triaged))"

definition commitPackReviewTriage ::
  "review_env \<Rightarrow> review_store \<Rightarrow> int \<Rightarrow> int \<Rightarrow> triage_state \<Rightarrow> authority_error + authority_document \<times> review_store" where
  "commitPackReviewTriage env store prNumber expectedTransitionSeq triage =
     commitPackReviewAuthorityTransition env store prNumber expectedTransitionSeq Triage_Committed
       (triage_mutate env store triage)"

section \<open>Publication\<close>

definition publication_mutate :: "publication_state \<Rightarrow> authority_document \<Rightarrow> authority_error + authority_document" where
  "publication_mutate publication current =
     (if map_option at_run_id (ad_terminal current) \<noteq> Some (pb_terminal_run_id publication)
      then Inl (''publication_invalid'', ''terminal is not authoritative'')
      else if pb_head_sha publication \<noteq> ad_head_sha current
      then Inl (''publication_head_stale'', pb_head_sha publication)
      else
        let published = current\<lparr>ad_publication := Some publication\<rparr>
        in Inr (if pb_status publication = Pub_Succeeded \<and> reviewObligationsSettled published
                then markReviewStageComplete published (pb_recorded_at publication) else published))"

definition recordPackReviewPublication ::
  "review_env \<Rightarrow> review_store \<Rightarrow> int \<Rightarrow> int \<Rightarrow> publication_state \<Rightarrow> authority_phase option
     \<Rightarrow> authority_error + authority_document \<times> review_store" where
  "recordPackReviewPublication env store prNumber expectedTransitionSeq publication nextPhase =
     commitPackReviewAuthorityTransition env store prNumber expectedTransitionSeq
       (case nextPhase of None \<Rightarrow> External_Published | Some p \<Rightarrow> p)
       (publication_mutate publication)"

end
