(* ===== verification/Versioned_Store.thy ===== *)
theory Versioned_Store
  imports Main
begin

text \<open>
  The contract of a store whose entries change only by compare-and-swap on a version number: a step
  keeps an entry or replaces it by one with the next version, and never removes it. Along any
  sequence of steps the version of a key grows and identifies the entry, so an operation that finds
  the version it read finds the entry it read.
\<close>

locale versioned_store =
  fixes entry :: "'store \<Rightarrow> 'key \<Rightarrow> 'entry option"
    and version :: "'entry \<Rightarrow> int"
    and step :: "'store \<Rightarrow> 'store \<Rightarrow> bool"
  assumes step_entry: "step s s' \<Longrightarrow> entry s k = Some e \<Longrightarrow>
    entry s' k = Some e \<or> (\<exists>e'. entry s' k = Some e' \<and> version e' = version e + 1)"
begin

lemma version_grows:
  "step\<^sup>*\<^sup>* s s' \<Longrightarrow> entry s k = Some e \<Longrightarrow>
     \<exists>e'. entry s' k = Some e' \<and> version e \<le> version e' \<and> (version e = version e' \<longrightarrow> e = e')"
proof (induction rule: rtranclp_induct)
  case (step y z)
  then obtain e' where e': "entry y k = Some e'" "version e \<le> version e'" "version e = version e' \<longrightarrow> e = e'" by blast
  from step_entry [OF step.hyps(2) e'(1)] e'(2,3) show ?case by force
qed simp

lemma same_version_same_entry:
  "step\<^sup>*\<^sup>* s s' \<Longrightarrow> entry s k = Some e \<Longrightarrow> entry s' k = Some e' \<Longrightarrow> version e' = version e \<Longrightarrow> e' = e"
  using version_grows [of s s' k e] by auto

lemma entry_stays: "step\<^sup>*\<^sup>* s s' \<Longrightarrow> entry s k \<noteq> None \<Longrightarrow> entry s' k \<noteq> None"
  using version_grows [of s s' k] by fastforce

end

end
