(* ===== verification/Review_Machine.thy ===== *)
theory Review_Machine
  imports Review_Settle Versioned_Store
begin

text \<open>
  The review authority as a state machine over the store: one constructor per operation the
  module exports, \<open>advancePackReviewAuthority\<close> of \<open>scripts/pack-review-runner.ts\<close>, the only
  caller of the bare transition, and the stores these operations reach. The lock makes each
  critical section atomic; an operation with two sections sees another reachable store in the
  second one. Every operation either leaves the documents alone, writes the first document of a PR,
  or commits one of the mutations of \<open>mutation\<close>.
\<close>

section \<open>Operations\<close>

text \<open>\<open>indexOf\<close> gives -1 for an unknown phase.\<close>

definition phase_position :: "authority_phase \<Rightarrow> int" where
  "phase_position phase = (case index_of PACK_REVIEW_AUTHORITY_PHASES phase of None \<Rightarrow> -1 | Some i \<Rightarrow> int i)"

definition advancePackReviewAuthority ::
  "review_env \<Rightarrow> review_store \<Rightarrow> authority_document \<Rightarrow> authority_phase \<Rightarrow> int
     \<Rightarrow> authority_error + authority_document \<times> review_store" where
  "advancePackReviewAuthority env store authority nextPhase prNumber =
     (if phase_position nextPhase \<le> phase_position (ad_phase authority) then Inr (authority, store)
      else commitPackReviewAuthorityTransition env store prNumber (ad_transition_seq authority) nextPhase Inr)"

datatype authority_op =
    Initialize int string review_tier "retained_cycle option" "cap_map option"
  | Amend int int string int string string string
  | Reconcile int review_tier "bool option" "bool option"
  | Observe int int string "review_run list option"
  | Reopen int int string
  | Commit_Terminal int int terminal_v2 terminal_input
  | Select_Evidence int int string string string
  | Settle_Descendant int int string string bool "string option" "same_head_resolution option"
  | Settle_Rewritten int int string string
  | Commit_Triage int int triage_state
  | Record_Publication int int publication_state "authority_phase option"
  | Acknowledge_Reset int int string review_tier reset_provenance "bool option" "cap_map option"
  | Advance authority_document authority_phase int

fun perform ::
  "review_env \<Rightarrow> (review_store \<Rightarrow> review_store) \<Rightarrow> authority_op \<Rightarrow> review_store
     \<Rightarrow> authority_error + authority_document \<times> review_store" where
  "perform env between (Initialize pr head tier retained cap_map) store =
     initializePackReviewAuthority env store pr head tier retained cap_map"
| "perform env between (Amend pr seq head issue run reviewed amended) store =
     beginPackReviewBodyAmendmentContinuation env store pr seq head issue run reviewed amended"
| "perform env between (Reconcile pr tier started merged) store =
     reconcilePackReviewTier env between store pr tier started merged"
| "perform env between (Observe pr seq head runs) store = observePackReviewHead env store pr seq head runs"
| "perform env between (Reopen pr seq head) store =
     reopenPackReviewAuthorityForExplicitExtraReview env between store pr seq head"
| "perform env between (Commit_Terminal pr seq row input) store =
     commitPackReviewTerminal env between store pr seq row input"
| "perform env between (Select_Evidence pr seq key evidence_id digest) store =
     selectPackReviewEvidence env store pr seq key evidence_id digest"
| "perform env between (Settle_Descendant pr seq reviewed head ancestor anchor same) store =
     settleLogicalPackReviewFindingsByStrictDescendant env store pr seq reviewed head ancestor anchor same"
| "perform env between (Settle_Rewritten pr seq reviewed head) store =
     settleLogicalPackReviewFindingsByRewrittenHead env store pr seq reviewed head"
| "perform env between (Commit_Triage pr seq triage) store = commitPackReviewTriage env store pr seq triage"
| "perform env between (Record_Publication pr seq publication phase) store =
     recordPackReviewPublication env store pr seq publication phase"
| "perform env between (Acknowledge_Reset pr seq head tier provenance amended cap_map) store =
     acknowledgePackReviewReset env store pr seq head tier provenance amended cap_map"
| "perform env between (Advance authority phase pr) store =
     advancePackReviewAuthority env store authority phase pr"

section \<open>Histories of the store\<close>

definition empty_store :: review_store where
  "empty_store = \<lparr>rs_docs = (\<lambda>_. None), rs_immutable = []\<rparr>"

text \<open>The store after the first critical section of an operation.\<close>

fun after_first :: "review_env \<Rightarrow> authority_op \<Rightarrow> review_store \<Rightarrow> review_store" where
  "after_first env (Commit_Terminal pr seq row input) store =
     (case validateTerminalV2 row of
        Inl e \<Rightarrow> store
      | Inr t \<Rightarrow>
          (case stagePackReviewImmutableRecord env store Terminal_Record (tv_run_id t) (terminal_json t) of
             Inl e \<Rightarrow> store
           | Inr (staged, store1) \<Rightarrow> store1))"
| "after_first env request store = store"

text \<open>\<open>evolves s t\<close>: operations take the store from \<open>s\<close> to \<open>t\<close>, other operations running between the
  two critical sections of one of them.\<close>

inductive evolves :: "review_store \<Rightarrow> review_store \<Rightarrow> bool" where
  same: "evolves store store"
| staged: "evolves store store1 \<Longrightarrow>
     stagePackReviewImmutableRecord env store1 kind key value = Inr (r, store') \<Longrightarrow> evolves store store'"
| performed: "evolves store store1 \<Longrightarrow> evolves (after_first env request store1) store2 \<Longrightarrow>
     perform env (\<lambda>_. store2) request store1 = Inr (d, store') \<Longrightarrow> evolves store store'"

definition reachable :: "review_store \<Rightarrow> bool" where
  "reachable store \<longleftrightarrow> evolves empty_store store"

section \<open>What an operation does\<close>

text \<open>\<open>mutation env d m\<close>: an operation that has read \<open>d\<close> may commit \<open>m\<close>.\<close>

inductive mutation ::
  "review_env \<Rightarrow> authority_document \<Rightarrow> (authority_document \<Rightarrow> authority_error + authority_document) \<Rightarrow> bool"
  for env d where
  amended: "mutation env d (amendment_mutate env head issue run reviewed amended)"
| replaced: "ad_cycle d = Some cycle \<Longrightarrow> safely_replaceable d cycle started merged
     \<Longrightarrow> mutation env d (replace_mutate env tier cycle)"
| promoted: "ad_cycle d = Some cycle \<Longrightarrow> isLogicalRoundCycle cycle
     \<Longrightarrow> \<not> num_le (tier_rank tier) (tier_rank (cy_frozen_tier cycle))
     \<Longrightarrow> mutation env d (promote_mutate env tier cycle)"
| observed: "is_sha head \<Longrightarrow> mutation env d (observe_mutate env head runs)"
| terminal: "validateTerminalV2 row = Inr t \<Longrightarrow> mutation env d (terminal_mutate env t digest input)"
| selected: "mutation env d (evidence_mutate env store key evidence_id digest)"
| settled: "is_sha head \<Longrightarrow> mutation env d (descendant_mutate env reviewed head same)"
| rewritten: "reviewed \<noteq> head \<Longrightarrow> mutation env d (rewritten_mutate reviewed head)"
| triaged: "mutation env d (triage_mutate env store triage)"
| published: "mutation env d (publication_mutate publication)"
| acknowledged: "is_sha head \<Longrightarrow> mutation env d (reset_mutate env head tier provenance bodyAmended cap_map)"
| advanced: "mutation env d Inr"

inductive_cases mutation_cases: "mutation env d m"

definition stamp :: "review_env \<Rightarrow> authority_phase \<Rightarrow> authority_document \<Rightarrow> authority_document \<Rightarrow> authority_document" where
  "stamp env phase d nxt = nxt\<lparr>ad_phase := phase, ad_transition_seq := ad_transition_seq d + 1, ad_updated_at := ev_now env\<rparr>"

definition put :: "authority_document \<Rightarrow> review_store \<Rightarrow> review_store" where
  "put d store = store\<lparr>rs_docs := (rs_docs store)(ad_pr_number d \<mapsto> Document d)\<rparr>"

text \<open>A transition of the document of one PR from \<open>d\<close> to \<open>d'\<close>.\<close>

definition commits ::
  "review_env \<Rightarrow> (authority_document \<Rightarrow> authority_error + authority_document) \<Rightarrow> int \<Rightarrow> authority_phase
     \<Rightarrow> authority_document \<Rightarrow> authority_document \<Rightarrow> review_store \<Rightarrow> review_store \<Rightarrow> bool" where
  "commits env mutate pr phase d d' store store' \<longleftrightarrow>
     rs_docs store pr = Some (Document d) \<and> authority_ok d
     \<and> (\<exists>nxt. mutate d = Inr nxt \<and> ad_pr_number nxt = ad_pr_number d \<and> d' = stamp env phase d nxt)
     \<and> (phase_rank (ad_phase d) \<le> phase_rank phase \<or> phase = Head_Observed)
     \<and> authority_ok d' \<and> store' = put d' store"

lemma commit_commits:
  assumes "commitPackReviewAuthorityTransition env store pr expected phase mutate = Inr (d', store')"
  shows "\<exists>d. commits env mutate pr phase d d' store store' \<and> ad_transition_seq d = expected"
proof -
  from commit_Inr [OF assms] obtain d nxt where "rs_docs store pr = Some (Document d)" "authority_ok d"
    "ad_transition_seq d = expected" "mutate d = Inr nxt" "ad_pr_number nxt = ad_pr_number d"
    "phase_rank (ad_phase d) \<le> phase_rank phase \<or> phase = Head_Observed"
    "d' = nxt\<lparr>ad_phase := phase, ad_transition_seq := expected + 1, ad_updated_at := ev_now env\<rparr>" "authority_ok d'"
    "store' = store\<lparr>rs_docs := (rs_docs store)(ad_pr_number d \<mapsto> Document d')\<rparr>"
    by blast
  then show ?thesis unfolding commits_def stamp_def put_def by (intro exI [of _ d]) simp
qed

definition starts :: "review_env \<Rightarrow> authority_document \<Rightarrow> review_store \<Rightarrow> review_store \<Rightarrow> bool" where
  "starts env d store store' \<longleftrightarrow>
     (\<exists>pr head tier retained cap_map. rs_docs store pr = None
        \<and> createInitialPackReviewAuthority env pr head tier retained cap_map = Inr d
        \<and> authority_ok d \<and> store' = put d store)"

text \<open>The store the last critical section of an operation sees, when other operations have made
  \<open>other\<close> of the store in between.\<close>

fun seen :: "authority_op \<Rightarrow> review_store \<Rightarrow> review_store \<Rightarrow> review_store" where
  "seen (Reconcile pr tier started merged) store other = other"
| "seen (Reopen pr seq head) store other = other"
| "seen (Commit_Terminal pr seq row input) store other = other"
| "seen request store other = store"

text \<open>The three outcomes of a successful operation.\<close>

definition allowed :: "review_env \<Rightarrow> review_store \<Rightarrow> int \<Rightarrow> int \<Rightarrow>
    (authority_document \<Rightarrow> authority_error + authority_document) \<Rightarrow> bool" where
  "allowed env store pr seq m \<longleftrightarrow> (\<forall>d. mutation env d m)
     \<or> (\<exists>d. rs_docs store pr = Some (Document d) \<and> ad_transition_seq d = seq \<and> mutation env d m)"

definition effect :: "review_env \<Rightarrow> review_store \<Rightarrow> review_store \<Rightarrow> authority_document \<Rightarrow> review_store \<Rightarrow> bool" where
  "effect env store base d' store' \<longleftrightarrow>
     store' = store \<or> starts env d' base store'
     \<or> (\<exists>pr phase m d. commits env m pr phase d d' base store' \<and> allowed env store pr (ad_transition_seq d) m)"

lemma effect_same: "effect env store base d' store"
  by (simp add: effect_def)

lemma effect_start: "starts env d' base store' \<Longrightarrow> effect env store base d' store'"
  by (simp add: effect_def)

lemma effect_commit:
  assumes "commitPackReviewAuthorityTransition env base pr expected phase m = Inr (d', store')"
    and "allowed env store pr expected m"
  shows "effect env store base d' store'"
proof -
  obtain d where "commits env m pr phase d d' base store'" "ad_transition_seq d = expected"
    using commit_commits [OF assms(1)] by blast
  then show ?thesis unfolding effect_def
    using assms(2) by (intro disjI2 exI [of _ pr] exI [of _ phase] exI [of _ m] exI [of _ d]) simp
qed

lemmas effect_rules = effect_same effect_commit

lemma allowed_any: "(\<And>d. mutation env d m) \<Longrightarrow> allowed env store pr seq m"
  by (simp add: allowed_def)

lemma read_authority:
  "readPackReviewAuthority env store pr = Inr (Some d) \<Longrightarrow> rs_docs store pr = Some (Document d) \<and> authority_ok d"
  unfolding readPackReviewAuthority_def by (drule withLock_Inr) (auto simp: read_Inr split: option.splits document_file.splits)

lemma initialize_effect:
  assumes "initializePackReviewAuthority env store pr head tier retained cap_map = Inr (d', store')"
  shows "effect env store store d' store'"
proof -
  from withLock_Inr [OF assms [unfolded initializePackReviewAuthority_def]] obtain existing where
    r: "readAuthorityUnlocked store pr = Inr existing"
    and e: "(case existing of Some d \<Rightarrow> Inr (d, store)
      | None \<Rightarrow> rbind (createInitialPackReviewAuthority env pr head tier retained
                      (Some (case cap_map of None \<Rightarrow> Logical_Map | Some m \<Rightarrow> m)))
               (writeAuthorityUnlocked store)) = Inr (d', store')"
    by (auto simp: rbind_Inr)
  show ?thesis
  proof (cases existing)
    case None
    with r have "rs_docs store pr = None" by (auto simp: read_Inr split: option.splits document_file.splits)
    moreover from e None have "createInitialPackReviewAuthority env pr head tier retained
        (Some (case cap_map of None \<Rightarrow> Logical_Map | Some m \<Rightarrow> m)) = Inr d'" "authority_ok d'" "store' = put d' store"
      by (auto simp: rbind_Inr write_Inr put_def)
    ultimately show ?thesis by (intro effect_start) (unfold starts_def, blast)
  qed (use e in \<open>simp add: effect_same\<close>)
qed

lemma reconcile_effect:
  assumes "reconcilePackReviewTier env (\<lambda>_. other) store pr tier started merged = Inr (d', store')"
  shows "effect env store other d' store'"
proof -
  obtain current where r: "readPackReviewAuthority env store pr = Inr (Some current)"
    using assms by (auto simp: reconcilePackReviewTier_def rbind_Inr split: option.splits)
  note doc = read_authority [OF r, THEN conjunct1]
  show ?thesis
  proof (cases "ad_cycle current")
    case None
    with assms r show ?thesis by (auto simp: reconcilePackReviewTier_def effect_same)
  next
    case (Some cycle)
    have allowed: "mutation env current m \<Longrightarrow> allowed env store pr (ad_transition_seq current) m" for m
      using doc by (auto simp: allowed_def)
    from assms r Some consider "store' = store"
      | "safely_replaceable current cycle started merged" "commitPackReviewAuthorityTransition env other pr
          (ad_transition_seq current) (ad_phase current) (replace_mutate env tier cycle) = Inr (d', store')"
      | "isLogicalRoundCycle cycle" "\<not> num_le (tier_rank tier) (tier_rank (cy_frozen_tier cycle))"
        "commitPackReviewAuthorityTransition env other pr
          (ad_transition_seq current) (ad_phase current) (promote_mutate env tier cycle) = Inr (d', store')"
      by (auto simp: reconcilePackReviewTier_def split: if_splits)
    then show ?thesis
    proof cases
      case 1
      then show ?thesis by (simp add: effect_same)
    next
      case 2
      show ?thesis
        by (rule effect_commit [OF 2(2)]) (use 2 Some in \<open>auto intro: allowed mutation.replaced\<close>)
    next
      case 3
      show ?thesis
        by (rule effect_commit [OF 3(3)]) (use 3 Some in \<open>auto intro: allowed mutation.promoted\<close>)
    qed
  qed
qed

lemma perform_effect:
  assumes "perform env (\<lambda>_. other) request store = Inr (d', store')"
  shows "effect env store (seen request store other) d' store'"
proof (cases request)
  case (Initialize pr head tier retained cap_map)
  with assms initialize_effect show ?thesis by simp
next
  case (Reconcile pr tier started merged)
  with assms reconcile_effect show ?thesis by simp
next
  case (Advance authority phase pr)
  then show ?thesis
    using assms by (auto simp: advancePackReviewAuthority_def intro: effect_rules allowed_any mutation.intros
        split: if_splits)
qed (use assms in \<open>auto simp: beginPackReviewBodyAmendmentContinuation_def observePackReviewHead_def
      reopenPackReviewAuthorityForExplicitExtraReview_def commitPackReviewTerminal_def selectPackReviewEvidence_def
      settleLogicalPackReviewFindingsByStrictDescendant_def settleLogicalPackReviewFindingsByRewrittenHead_def
      commitPackReviewTriage_def recordPackReviewPublication_def acknowledgePackReviewReset_def
      rbind_Inr normalizeSha_Inr
      intro: effect_rules allowed_any mutation.intros split: if_splits option.splits\<close>)

section \<open>Histories are linear\<close>

definition doc_at :: "review_store \<Rightarrow> int \<Rightarrow> authority_document option" where
  "doc_at store pr = (case rs_docs store pr of Some (Document d) \<Rightarrow> Some d | _ \<Rightarrow> None)"

lemma doc_at_Some [simp]: "doc_at store pr = Some d \<longleftrightarrow> rs_docs store pr = Some (Document d)"
  by (auto simp: doc_at_def split: option.splits document_file.splits)

text \<open>Every file holds a valid document of its own PR.\<close>

definition store_ok :: "review_store \<Rightarrow> bool" where
  "store_ok store \<longleftrightarrow>
     (\<forall>pr f. rs_docs store pr = Some f \<longrightarrow> (\<exists>d. f = Document d \<and> ad_pr_number d = pr \<and> authority_ok d))"

lemma store_ok_doc: "store_ok store \<Longrightarrow> rs_docs store pr = Some (Document d) \<Longrightarrow> ad_pr_number d = pr \<and> authority_ok d"
  by (force simp: store_ok_def)

lemma put_ok: "store_ok store \<Longrightarrow> authority_ok d \<Longrightarrow> store_ok (put d store)"
  by (auto simp: store_ok_def put_def)

lemma rs_docs_put: "rs_docs (put d store) = (rs_docs store)(ad_pr_number d \<mapsto> Document d)"
  by (simp add: put_def)

definition section_step :: "review_store \<Rightarrow> review_store \<Rightarrow> bool" where
  "section_step store store' \<longleftrightarrow> store_ok store \<and>
     (rs_docs store' = rs_docs store \<or> (\<exists>env d. starts env d store store')
      \<or> (\<exists>env m pr phase d d'. commits env m pr phase d d' store store'))"

lemma starts_fresh:
  "starts env d store store' \<Longrightarrow> rs_docs store (ad_pr_number d) = None \<and> authority_ok d \<and> store' = put d store"
  by (auto simp: starts_def createInitialPackReviewAuthority_def rbind_Inr positiveInteger_Inr)

lemma commits_put:
  "commits env m pr phase d d' store store' \<Longrightarrow> store_ok store \<Longrightarrow>
     store' = put d' store \<and> ad_pr_number d = pr \<and> ad_pr_number d' = pr
     \<and> ad_transition_seq d' = ad_transition_seq d + 1 \<and> rs_docs store pr = Some (Document d) \<and> authority_ok d'"
  using store_ok_doc [of store pr d] by (auto simp: commits_def stamp_def)

lemma section_step_ok: "section_step store store' \<Longrightarrow> store_ok store'"
  unfolding section_step_def using put_ok starts_fresh commits_put by (metis store_ok_def)

interpretation authority: versioned_store doc_at ad_transition_seq section_step
proof
  fix store store' pr d
  assume step: "section_step store store'" and d: "doc_at store pr = Some d"
  from step consider "rs_docs store' = rs_docs store" | env e where "starts env e store store'"
    | env m q phase e e' where "commits env m q phase e e' store store'" "store_ok store"
    unfolding section_step_def by blast
  then show "doc_at store' pr = Some d \<or>
    (\<exists>e. doc_at store' pr = Some e \<and> ad_transition_seq e = ad_transition_seq d + 1)"
  proof cases
    case 2
    with d starts_fresh [OF 2] show ?thesis by (auto simp: rs_docs_put)
  next
    case 3
    with d commits_put [OF 3] show ?thesis by (auto simp: rs_docs_put)
  qed (use d in simp)
qed

lemma stage_keeps_documents:
  "stagePackReviewImmutableRecord env store kind key value = Inr (r, store') \<Longrightarrow> rs_docs store' = rs_docs store"
  unfolding stagePackReviewImmutableRecord_def
  by (auto simp: rbind_Inr Let_def split: if_splits option.splits dest!: withLock_Inr)

lemma after_first_documents: "rs_docs (after_first env request store) = rs_docs store"
  by (cases request) (auto split: sum.splits dest: stage_keeps_documents)

lemma effect_step:
  "effect env store base d' store' \<Longrightarrow> store_ok base \<Longrightarrow> store' = store \<or> section_step base store'"
  unfolding effect_def section_step_def by blast

lemma evolves_steps:
  "evolves store store' \<Longrightarrow> store_ok store \<Longrightarrow> section_step\<^sup>*\<^sup>* store store' \<and> store_ok store'"
proof (induction rule: evolves.induct)
  case (staged store store1 env kind key val r store')
  then have "section_step store1 store'"
    using stage_keeps_documents by (simp add: section_step_def)
  with staged section_step_ok show ?case by auto
next
  case (performed store store1 env request store2 d store')
  let ?mid = "after_first env request store1"
  have s1: "section_step\<^sup>*\<^sup>* store store1" "store_ok store1" using performed by auto
  have mid: "store_ok ?mid" "section_step store1 ?mid"
    using s1(2) after_first_documents by (simp_all add: store_ok_def section_step_def)
  with performed.IH(2) have s2: "section_step\<^sup>*\<^sup>* ?mid store2" "store_ok store2" by auto
  have two: "section_step\<^sup>*\<^sup>* store store2" using s1(1) mid(2) s2(1) by simp
  let ?base = "seen request store1 store2"
  have base: "section_step\<^sup>*\<^sup>* store ?base" "store_ok ?base"
    using s1 s2 two by (cases request; simp)+
  from effect_step [OF perform_effect [OF performed.hyps(3)] base(2)]
  show ?case using s1 base section_step_ok by (auto intro: rtranclp.rtrancl_into_rtrancl)
qed simp

end
