(* ===== verification/Review_History.thy ===== *)
theory Review_History
  imports Review_Machine
begin

text \<open>
  What the transitions of the review authority do to a document over time: within one cycle the
  consumed heads, the tier, the cap and the completion only grow, and so do the consumed rounds unless
  a logical cycle falls back to counting heads; a logical cycle closes only with its cap spent and its
  stage complete. The facts are proved once per mutation and lifted
  to the reachable stores by \<open>reachable_invariant\<close>.
\<close>

section \<open>The document an operation changes\<close>

lemma effect_document:
  assumes "effect env store base d' store'" "section_step\<^sup>*\<^sup>* store base"
  shows "store' = store \<or> starts env d' base store'
    \<or> (\<exists>pr phase m d. commits env m pr phase d d' base store' \<and> mutation env d m)"
proof -
  have same: "d0 = d" if "commits env m pr phase d d' base store'"
    "rs_docs store pr = Some (Document d0)" "ad_transition_seq d0 = ad_transition_seq d" for m pr phase d d0
  proof -
    have d: "doc_at base pr = Some d" "doc_at store pr = Some d0" using that(1,2) by (simp_all add: commits_def)
    from authority.same_version_same_entry [OF assms(2) d(2,1)] that(3) show ?thesis by simp
  qed
  from assms(1) consider "store' = store" | "starts env d' base store'"
    | pr phase m d where "commits env m pr phase d d' base store'" "allowed env store pr (ad_transition_seq d) m"
    unfolding effect_def by blast
  then show ?thesis
  proof cases
    case (3 pr phase m d)
    then have "mutation env d m" using same [OF 3(1)] by (auto simp: allowed_def)
    with 3 show ?thesis
      by (intro disjI2 exI [of _ pr] exI [of _ phase] exI [of _ m] exI [of _ d]) simp
  qed simp_all
qed

lemma seen_steps:
  assumes "store_ok store" "evolves (after_first env request store) other"
  shows "store_ok (seen request store other) \<and> section_step\<^sup>*\<^sup>* store (seen request store other)"
proof -
  let ?mid = "after_first env request store"
  have mid: "store_ok ?mid" "section_step store ?mid"
    using assms(1) after_first_documents by (simp_all add: store_ok_def section_step_def)
  from evolves_steps [OF assms(2) mid(1)] mid(2) have "store_ok other \<and> section_step\<^sup>*\<^sup>* store other"
    by (simp add: converse_rtranclp_into_rtranclp)
  with assms(1) show ?thesis by (cases request) simp_all
qed

lemmas perform_document = effect_document [OF perform_effect conjunct2 [OF seen_steps]]

section \<open>Invariants of reachable documents\<close>

lemma store_ok_empty: "store_ok empty_store"
  by (simp add: store_ok_def empty_store_def)

lemma reachable_ok: "reachable store \<Longrightarrow> store_ok store"
  unfolding reachable_def using evolves_steps [OF _ store_ok_empty] by blast

lemma evolves_invariant:
  assumes start: "\<And>env d store store'. starts env d store store' \<Longrightarrow> I d"
    and step: "\<And>env m d nxt phase. I d \<Longrightarrow> authority_ok d \<Longrightarrow> mutation env d m \<Longrightarrow> m d = Inr nxt
      \<Longrightarrow> authority_ok (stamp env phase d nxt) \<Longrightarrow> I (stamp env phase d nxt)"
  shows "evolves store store' \<Longrightarrow> store_ok store \<Longrightarrow> (\<And>pr d. rs_docs store pr = Some (Document d) \<Longrightarrow> I d)
     \<Longrightarrow> rs_docs store' pr = Some (Document d) \<Longrightarrow> I d"
proof (induction arbitrary: pr d rule: evolves.induct)
  case (staged store store1 env kind key val r store')
  then show ?case using stage_keeps_documents by metis
next
  case (performed store store1 env request store2 d1 store')
  have ok: "store_ok store1" using evolves_steps [OF performed.hyps(1) performed.prems(1)] by simp
  have one: "rs_docs store1 q = Some (Document e) \<Longrightarrow> I e" for q e
    using performed.IH(1) performed.prems(1,2) by blast
  have mid: "store_ok (after_first env request store1)"
    using ok after_first_documents by (simp add: store_ok_def)
  have two: "rs_docs store2 q = Some (Document e) \<Longrightarrow> I e" for q e
    using performed.IH(2) [OF mid] one after_first_documents by metis
  have ok2: "store_ok store2" using evolves_steps [OF performed.hyps(2) mid] by simp
  let ?base = "seen request store1 store2"
  have base: "store_ok ?base" "\<And>q e. rs_docs ?base q = Some (Document e) \<Longrightarrow> I e"
    using ok ok2 one two by (cases request; simp)+
  from perform_document [OF performed.hyps(3) ok performed.hyps(2)]
  consider "store' = store1" | "starts env d1 ?base store'"
    | q phase m e where "commits env m q phase e d1 ?base store'" "mutation env e m"
    by blast
  then show ?case
  proof cases
    case 2
    with performed.prems(3) base(2) start [OF 2] starts_fresh [OF 2] show ?thesis
      by (auto simp: rs_docs_put split: if_splits)
  next
    case (3 q phase m e)
    from 3(1) have "I d1"
      using step [OF base(2) _ 3(2)] unfolding commits_def by blast
    with commits_put [OF 3(1) base(1)] performed.prems(3) base(2) show ?thesis
      by (auto simp: rs_docs_put split: if_splits)
  qed (use one performed.prems in blast)
qed blast

lemma reachable_invariant:
  assumes "\<And>env d store store'. starts env d store store' \<Longrightarrow> I d"
    and "\<And>env m d nxt phase. I d \<Longrightarrow> authority_ok d \<Longrightarrow> mutation env d m \<Longrightarrow> m d = Inr nxt
      \<Longrightarrow> authority_ok (stamp env phase d nxt) \<Longrightarrow> I (stamp env phase d nxt)"
    and "reachable store" "rs_docs store pr = Some (Document d)"
  shows "I d"
proof -
  have none: "rs_docs empty_store q = Some (Document e) \<Longrightarrow> I e" for q e by (simp add: empty_store_def)
  show ?thesis
    by (rule evolves_invariant [of I, OF assms(1,2) assms(3) [unfolded reachable_def] store_ok_empty none assms(4)])
qed

section \<open>What happens to the cycle\<close>

definition fresh_cycle :: "review_env \<Rightarrow> review_cycle \<Rightarrow> bool" where
  "fresh_cycle env c \<longleftrightarrow>
     cy_cycle_id c = fresh_cycle_id env \<and> cy_state c = Open \<and> \<not> stage_complete c
     \<and> cy_consumed_heads c = [] \<and> cycleConsumedCount c = 0"

definition rounds_extend :: "int list option \<Rightarrow> int list option \<Rightarrow> bool" where
  "rounds_extend a b \<longleftrightarrow>
     (case a of None \<Rightarrow> b = None | Some xs \<Rightarrow> (case b of None \<Rightarrow> False | Some ys \<Rightarrow> \<exists>zs. ys = xs @ zs))"

text \<open>
  The later state of one cycle. The one thing that can go: a logical cycle that receives a terminal
  without a round falls back to counting heads and drops its round ordinals; its heads and tier stay.
\<close>

definition cycle_extends :: "review_cycle \<Rightarrow> review_cycle \<Rightarrow> bool" where
  "cycle_extends c c' \<longleftrightarrow>
     cy_cycle_id c' = cy_cycle_id c \<and> cy_opened_at c' = cy_opened_at c
     \<and> cy_amendment_origin c' = cy_amendment_origin c \<and> cy_reset_provenance c' = cy_reset_provenance c
     \<and> (\<exists>heads. cy_consumed_heads c' = cy_consumed_heads c @ heads)
     \<and> (stage_complete c \<longrightarrow> stage_complete c')
     \<and> (cy_frozen_tier c' = cy_frozen_tier c
        \<or> isLogicalRoundCycle c \<and> \<not> num_le (tier_rank (cy_frozen_tier c')) (tier_rank (cy_frozen_tier c)))
     \<and> (cy_cap_map c' = cy_cap_map c \<and> rounds_extend (cy_consumed_rounds c) (cy_consumed_rounds c')
          \<and> (isLogicalRoundCycle c \<or> cy_frozen_cap c' = cy_frozen_cap c)
        \<or> isLogicalRoundCycle c \<and> cy_cap_map c' = Cap_Map \<and> cy_consumed_rounds c' = None
          \<and> cy_frozen_tier c' = cy_frozen_tier c)"

lemma cycle_extends_count:
  assumes "cycle_extends c c'" "cy_cap_map c' = cy_cap_map c"
  shows "cycleConsumedCount c \<le> cycleConsumedCount c'"
  using assms by (auto simp: cycle_extends_def cycleConsumedCount_def isLogicalRoundCycle_def rounds_extend_def split: option.splits)

definition cycle_change :: "review_env \<Rightarrow> review_cycle option \<Rightarrow> review_cycle option \<Rightarrow> bool" where
  "cycle_change env before after \<longleftrightarrow>
     (case before of None \<Rightarrow> after = None
      | Some c \<Rightarrow> (case after of None \<Rightarrow> False | Some c' \<Rightarrow> fresh_cycle env c' \<or> cycle_extends c c'))"

lemma rounds_extend_refl [simp]: "rounds_extend a a"
  by (simp add: rounds_extend_def split: option.splits)

lemma cycle_extends_refl [simp]: "cycle_extends c c"
  by (simp add: cycle_extends_def)

lemma cycle_change_same [simp]: "cycle_change env c c"
  by (simp add: cycle_change_def split: option.splits)

lemma cycle_change_Some [simp]: "cycle_change env (Some c) (Some c') \<longleftrightarrow> fresh_cycle env c' \<or> cycle_extends c c'"
  by (simp add: cycle_change_def)

lemmas cycle_field_simps = cycle_extends_def isLogicalRoundCycle_def stage_complete_def rounds_extend_def

text \<open>A change of the fields the history does not constrain.\<close>

lemma cycle_extends_fields:
  assumes "cycle_extends c c'" "stage_complete c' \<longrightarrow> cy_stage_complete c'' = Some True"
    and "cy_cycle_id c'' = cy_cycle_id c'" "cy_opened_at c'' = cy_opened_at c'"
    and "cy_amendment_origin c'' = cy_amendment_origin c'" "cy_reset_provenance c'' = cy_reset_provenance c'"
    and "cy_consumed_heads c'' = cy_consumed_heads c'" "cy_frozen_tier c'' = cy_frozen_tier c'"
    and "cy_cap_map c'' = cy_cap_map c'" "cy_consumed_rounds c'' = cy_consumed_rounds c'"
    and "cy_frozen_cap c'' = cy_frozen_cap c'"
  shows "cycle_extends c c''"
  using assms by (simp add: cycle_extends_def isLogicalRoundCycle_def) (simp add: stage_complete_def)

lemma createNew_fresh:
  "createNewPackReviewCycle env tier cap_map origin provenance = Inr c \<Longrightarrow> fresh_cycle env c"
  by (auto simp: createNewPackReviewCycle_def fresh_cycle_def stage_complete_def cycleConsumedCount_def Let_def
      split: if_splits option.splits)

lemma markReviewStageComplete_cycle:
  "ad_cycle (markReviewStageComplete d at) = map_option
     (\<lambda>c. if stage_complete c then c else c\<lparr>cy_stage_complete := Some True, cy_stage_completed_at := Some at\<rparr>)
     (ad_cycle d)"
  by (simp add: markReviewStageComplete_def split: option.splits)

lemma clear_cycle [simp]:
  "ad_cycle (clear_outcomes d) = ad_cycle d" "ad_cycle (clear_terminal_outcomes d) = ad_cycle d"
  "ad_cycle (with_cycle f d) = map_option f (ad_cycle d)"
  by (simp_all add: clear_outcomes_def clear_terminal_outcomes_def with_cycle_def)

lemma mark_change: "cycle_change env (ad_cycle d) (ad_cycle (markReviewStageComplete d at))"
  by (cases "ad_cycle d") (auto simp: markReviewStageComplete_cycle cycle_change_def
      intro: cycle_extends_fields [OF cycle_extends_refl])

subsection \<open>The terminal\<close>

lemma downgrade_extends: "cycle_extends c (downgrade_cycle t c)"
  by (simp add: downgrade_cycle_def cycle_field_simps split: option.splits)

lemma add_head_fields:
  "cy_consumed_rounds (add_head sha c) = cy_consumed_rounds c" "cy_cap_map (add_head sha c) = cy_cap_map c"
  "cy_frozen_cap (add_head sha c) = cy_frozen_cap c" "cy_frozen_tier (add_head sha c) = cy_frozen_tier c"
  "cy_cycle_id (add_head sha c) = cy_cycle_id c" "cy_opened_at (add_head sha c) = cy_opened_at c"
  "cy_amendment_origin (add_head sha c) = cy_amendment_origin c"
  "cy_reset_provenance (add_head sha c) = cy_reset_provenance c"
  "cy_stage_complete (add_head sha c) = cy_stage_complete c" "cy_state (add_head sha c) = cy_state c"
  "\<exists>heads. cy_consumed_heads (add_head sha c) = cy_consumed_heads c @ heads"
  by (simp_all add: add_head_def)

lemma cycle_extends_add_head: "cycle_extends c c' \<Longrightarrow> cycle_extends c (add_head sha c')"
  using add_head_fields(11) [of sha c']
  by (auto simp: cycle_extends_def isLogicalRoundCycle_def stage_complete_def add_head_fields(1-10))

lemma consume_extends:
  assumes "cycle_extends c c1" "cy_frozen_tier c1 = cy_frozen_tier c" "consume_slot t c1 = Inr c2"
  shows "cycle_extends c c2 \<and> cy_frozen_tier c2 = cy_frozen_tier c"
proof -
  from assms(3) consider "c2 = c1" | "c2 = add_head (tv_target_sha t) c1"
    | rounds n where "isLogicalRoundCycle c1" "cy_consumed_rounds c1 = Some rounds"
        "c2 = add_head (tv_target_sha t) (c1\<lparr>cy_consumed_rounds := Some (rounds @ [n])\<rparr>)"
    by (auto simp: consume_slot_def Let_def split: if_splits option.splits)
  then show ?thesis
  proof cases
    case (3 rounds n)
    have "cycle_extends c (c1\<lparr>cy_consumed_rounds := Some (rounds @ [n])\<rparr>)"
      using assms(1,2) 3(1,2) by (auto simp: cycle_field_simps split: option.splits)
    then show ?thesis using assms(2) 3(3) cycle_extends_add_head by (simp add: add_head_fields)
  qed (use assms cycle_extends_add_head in \<open>auto simp: add_head_fields\<close>)
qed

lemma move_extends:
  assumes "cycle_extends c0 c"
  shows "\<exists>c'. ad_cycle (move_cycle env t status c d) = Some c' \<and> cycle_extends c0 c'"
  using assms by (auto simp: move_cycle_def markReviewStageComplete_cycle Let_def
      intro!: cycle_extends_fields [OF assms]) (simp_all add: stage_complete_def)

lemma terminal_change:
  assumes "terminal_mutate env t digest input d = Inr nxt"
  shows "cycle_change env (ad_cycle d) (ad_cycle nxt)"
proof (cases "ad_cycle d")
  case None
  with assms show ?thesis by (auto simp: terminal_mutate_def cycle_change_def Let_def split: if_splits)
next
  case (Some c)
  let ?c = "downgrade_cycle t c"
  from assms Some obtain c' d1 where c': "(if consumes_slot t input then consume_slot t ?c else Inr ?c) = Inr c'"
    and nxt: "nxt = move_cycle env t (ti_status input) c' d1"
    by (auto simp: terminal_mutate_def Let_def rbind_Inr split: if_splits)
  have tier: "cy_frozen_tier ?c = cy_frozen_tier c" by (simp add: downgrade_cycle_def)
  have "cycle_extends c c'"
    using c' consume_extends [OF downgrade_extends tier] downgrade_extends by (auto split: if_splits)
  from move_extends [OF this, of env t "ti_status input" d1] nxt Some show ?thesis by auto
qed

subsection \<open>The other mutations\<close>

lemma observe_change:
  assumes "observe_mutate env head runs d = Inr nxt"
  shows "cycle_change env (ad_cycle d) (ad_cycle nxt)"
proof (cases "ad_cycle d")
  case None
  with assms show ?thesis
    by (auto simp: observe_mutate_def observe_same_head_def complete_on_new_head_def cycle_change_def Let_def
        split: if_splits)
next
  case (Some c)
  show ?thesis
  proof (cases "ad_head_sha d = head")
    case True
    with assms Some show ?thesis
      by (auto simp: observe_mutate_def observe_same_head_def Let_def markReviewStageComplete_cycle start_consumed_def
          split: if_splits intro!: cycle_extends_fields [OF cycle_extends_refl])
  next
    case False
    define e where "e = complete_on_new_head env (case runs of None \<Rightarrow> False | Some r \<Rightarrow> reviewRunEvidence d r) d"
    have "\<exists>c1. ad_cycle e = Some c1 \<and> cycle_extends c c1 \<and> cy_state c1 = cy_state c"
      using Some by (auto simp: e_def complete_on_new_head_def start_consumed_def
          intro!: cycle_extends_fields [OF cycle_extends_refl])
    then obtain c1 where c1: "ad_cycle e = Some c1" "cycle_extends c c1" by blast
    from assms False c1 have "ad_cycle nxt = Some c1 \<or> (\<exists>c2. ad_cycle nxt = Some c2 \<and> fresh_cycle env c2)
        \<or> ad_cycle nxt = Some (c1\<lparr>cy_state := At_Cap_Continuation_Required\<rparr>)"
      by (auto simp: observe_mutate_def Let_def e_def [symmetric] rbind_Inr split: if_splits dest: createNew_fresh)
    moreover have "cycle_extends c (c1\<lparr>cy_state := At_Cap_Continuation_Required\<rparr>)"
      by (rule cycle_extends_fields [OF c1(2)]) (simp_all add: stage_complete_def)
    ultimately show ?thesis using Some c1(2) by auto
  qed
qed

lemma descendant_change:
  "descendant_mutate env reviewed head same d = Inr nxt \<Longrightarrow> cycle_change env (ad_cycle d) (ad_cycle nxt)"
  by (auto simp: descendant_mutate_def reopened_def Let_def markReviewStageComplete_cycle
      split: if_splits option.splits intro!: cycle_extends_fields [OF cycle_extends_refl])
    (simp_all add: stage_complete_def)

lemma rewritten_change:
  "rewritten_mutate reviewed head d = Inr nxt \<Longrightarrow> cycle_change env (ad_cycle d) (ad_cycle nxt)"
  by (auto simp: rewritten_mutate_def reopened_def split: if_splits option.splits
      intro!: cycle_extends_fields [OF cycle_extends_refl])

lemma promote_change:
  assumes "promote_mutate env tier cycle d = Inr nxt" "ad_cycle d = Some cycle" "isLogicalRoundCycle cycle"
    "\<not> num_le (tier_rank tier) (tier_rank (cy_frozen_tier cycle))"
  shows "cycle_change env (ad_cycle d) (ad_cycle nxt)"
proof -
  define p where "p = cycle\<lparr>cy_frozen_tier := tier, cy_frozen_cap := cap_value (PACK_REVIEW_LOGICAL_CAPS tier)\<rparr>"
  have p: "cycle_extends cycle p"
    using assms(3,4) by (simp add: p_def cycle_field_simps split: option.splits)
  from assms(1,2) have "ad_cycle nxt = Some p
      \<or> (\<exists>h. ad_cycle nxt = Some (p\<lparr>cy_state := Open_Findings, cy_closed_at := None, cy_at_cap_hash := Some h\<rparr>))"
    by (auto simp: promote_mutate_def p_def Let_def split: if_splits option.splits)
  moreover have "cycle_extends cycle (p\<lparr>cy_state := Open_Findings, cy_closed_at := None, cy_at_cap_hash := Some h\<rparr>)" for h
    by (rule cycle_extends_fields [OF p]) (simp_all add: stage_complete_def)
  ultimately show ?thesis using assms(2) p by auto
qed

lemma mutation_change:
  assumes "mutation env d m" "m d = Inr nxt"
  shows "cycle_change env (ad_cycle d) (ad_cycle nxt)"
  using assms(1)
proof (cases rule: mutation.cases)
  case amended
  with assms(2) show ?thesis
    by (auto simp: amendment_mutate_def amendment_eligible_def Let_def rbind_Inr cycle_change_def
        split: if_splits option.splits dest: createNew_fresh)
next
  case replaced
  with assms(2) show ?thesis by (auto simp: replace_mutate_def rbind_Inr dest: createNew_fresh)
next
  case promoted
  with assms(2) promote_change show ?thesis by metis
next
  case observed
  with assms(2) show ?thesis by (auto intro: observe_change)
next
  case terminal
  with assms(2) show ?thesis by (auto intro: terminal_change)
next
  case selected
  with assms(2) show ?thesis by (auto simp: evidence_mutate_def rbind_Inr split: if_splits)
next
  case settled
  with assms(2) show ?thesis by (auto intro: descendant_change)
next
  case rewritten
  with assms(2) show ?thesis by (auto intro: rewritten_change)
next
  case triaged
  with assms(2) show ?thesis
    using mark_change [of env "d\<lparr>ad_triage := Some _\<rparr>"] by (auto simp: triage_mutate_def rbind_Inr Let_def)
next
  case published
  with assms(2) show ?thesis
    using mark_change [of env "d\<lparr>ad_publication := Some _\<rparr>"] by (auto simp: publication_mutate_def Let_def split: if_splits)
next
  case acknowledged
  with assms(2) show ?thesis
    by (auto simp: reset_mutate_def pending_at_cap_def completed_findings_def Let_def rbind_Inr
        split: if_splits option.splits dest: createNew_fresh)
next
  case advanced
  with assms(2) show ?thesis by simp
qed

section \<open>A logical cycle closes only with its cap spent\<close>

definition lifecycle :: "review_cycle \<Rightarrow> bool" where
  "lifecycle c \<longleftrightarrow> (isLogicalRoundCycle c \<longrightarrow>
     (cy_state c = Closed \<longrightarrow> stage_complete c) \<and> (stage_complete c \<longrightarrow> cycleConsumedCount c = cy_frozen_cap c))"

lemma fresh_lifecycle: "fresh_cycle env c \<Longrightarrow> lifecycle c"
  by (simp add: fresh_cycle_def lifecycle_def)

text \<open>A change of fields that neither closes the cycle nor touches its accounting.\<close>

lemma lifecycle_fields:
  assumes "lifecycle c" "cy_state c' = Closed \<longrightarrow> cy_state c = Closed \<or> stage_complete c'"
    and "isLogicalRoundCycle c \<and> stage_complete c' \<longrightarrow> stage_complete c \<or> cycleConsumedCount c = cy_frozen_cap c"
    and "stage_complete c \<longrightarrow> stage_complete c'"
    and "cy_cap_map c' = cy_cap_map c" "cy_consumed_rounds c' = cy_consumed_rounds c"
    and "cy_consumed_heads c' = cy_consumed_heads c" "cy_frozen_cap c' = cy_frozen_cap c"
  shows "lifecycle c'"
  using assms by (auto simp: lifecycle_def isLogicalRoundCycle_def cycleConsumedCount_def)

lemma count_add_head: "isLogicalRoundCycle c \<Longrightarrow> cycleConsumedCount (add_head sha c) = cycleConsumedCount c"
  by (simp add: cycleConsumedCount_def add_head_fields isLogicalRoundCycle_def)

lemma consume_accounting:
  assumes "consume_slot t c = Inr c'"
  shows "cy_cap_map c' = cy_cap_map c \<and> cy_frozen_cap c' = cy_frozen_cap c
    \<and> cy_stage_complete c' = cy_stage_complete c \<and> cy_state c' = cy_state c
    \<and> (isLogicalRoundCycle c \<longrightarrow> cycleConsumedCount c \<le> cycleConsumedCount c' \<and> (cycleConsumedCount c' \<le> cy_frozen_cap c' \<or> cycleConsumedCount c' = cycleConsumedCount c))"
proof -
  from assms consider "c' = c" | "c' = add_head (tv_target_sha t) c"
    | rounds n where "isLogicalRoundCycle c" "cy_consumed_rounds c = Some rounds" "int (length rounds) < cy_frozen_cap c"
        "c' = add_head (tv_target_sha t) (c\<lparr>cy_consumed_rounds := Some (rounds @ [n])\<rparr>)"
    by (auto simp: consume_slot_def Let_def split: if_splits option.splits)
  then show ?thesis
  proof cases
    case (3 rounds n)
    moreover from 3 have "cycleConsumedCount c' = cycleConsumedCount c + 1"
      by (simp add: count_add_head isLogicalRoundCycle_def) (simp add: cycleConsumedCount_def isLogicalRoundCycle_def)
    ultimately show ?thesis by (simp add: add_head_fields cycleConsumedCount_def)
  qed (simp_all add: add_head_fields count_add_head)
qed

lemma move_lifecycle:
  assumes "lifecycle c" "ad_cycle (move_cycle env t status c d) = Some c'" "cycleConsumedCount c \<le> cy_frozen_cap c"
  shows "lifecycle c'"
proof (cases "isLogicalRoundCycle c")
  case True
  let ?closed = "c\<lparr>cy_state := Closed, cy_closed_at := Some (ev_now env), cy_at_cap_hash := None\<rparr>"
  let ?marked = "?closed\<lparr>cy_stage_complete := Some True, cy_stage_completed_at := Some (ev_now env)\<rparr>"
  from assms(2) True consider "cy_frozen_cap c \<le> cycleConsumedCount c" "c' = (if stage_complete ?closed then ?closed else ?marked)"
    | "c' = c\<lparr>cy_state := Open, cy_closed_at := None, cy_at_cap_hash := None\<rparr>"
    | "c' = c\<lparr>cy_state := Open_Findings, cy_closed_at := None, cy_at_cap_hash := Some (findings_hash env c t)\<rparr>"
    | "c' = c\<lparr>cy_state := At_Cap_Open_Findings, cy_at_cap_hash := Some (at_cap_hash env c)\<rparr>"
    by (auto simp: move_cycle_def markReviewStageComplete_cycle Let_def split: if_splits)
  then show ?thesis
  proof cases
    case 1
    with assms(3) have full: "cycleConsumedCount c = cy_frozen_cap c" by simp
    show ?thesis
      by (rule lifecycle_fields [OF assms(1)]) (use 1(2) full in \<open>auto simp: stage_complete_def\<close>)
  qed (auto intro!: lifecycle_fields [OF assms(1)] simp: stage_complete_def)
next
  case False
  with assms(2) have "\<not> isLogicalRoundCycle c'"
    by (auto simp: move_cycle_def markReviewStageComplete_cycle Let_def isLogicalRoundCycle_def split: if_splits)
  then show ?thesis by (simp add: lifecycle_def)
qed

lemma terminal_lifecycle:
  assumes m: "terminal_mutate env t digest input d = Inr nxt" and c: "ad_cycle d = Some c"
    and l: "lifecycle c" "cycleConsumedCount c \<le> cy_frozen_cap c" and c': "ad_cycle nxt = Some c'"
  shows "lifecycle c'"
proof -
  let ?c = "downgrade_cycle t c"
  from m c obtain c1 d1 where c1: "(if consumes_slot t input then consume_slot t ?c else Inr ?c) = Inr c1"
    and nxt: "nxt = move_cycle env t (ti_status input) c1 d1"
    by (auto simp: terminal_mutate_def Let_def rbind_Inr split: if_splits)
  have acc: "cy_cap_map c1 = cy_cap_map ?c \<and> cy_frozen_cap c1 = cy_frozen_cap ?c \<and> cy_stage_complete c1 = cy_stage_complete ?c
    \<and> cy_state c1 = cy_state ?c \<and> (isLogicalRoundCycle ?c \<longrightarrow> cycleConsumedCount ?c \<le> cycleConsumedCount c1
    \<and> (cycleConsumedCount c1 \<le> cy_frozen_cap c1 \<or> cycleConsumedCount c1 = cycleConsumedCount ?c))"
    using c1 consume_accounting [of t ?c c1] by (auto split: if_splits)
  show ?thesis
  proof (cases "isLogicalRoundCycle c1")
    case True
    with acc have log: "isLogicalRoundCycle ?c" by (simp add: isLogicalRoundCycle_def)
    then have "?c = c" by (auto simp: downgrade_cycle_def isLogicalRoundCycle_def split: if_splits)
    with acc l log have "lifecycle c1" "cycleConsumedCount c1 \<le> cy_frozen_cap c1"
      by (auto simp: lifecycle_def stage_complete_def)
    with move_lifecycle c' nxt show ?thesis by blast
  next
    case False
    with c' nxt have "\<not> isLogicalRoundCycle c'"
      by (auto simp: move_cycle_def markReviewStageComplete_cycle Let_def isLogicalRoundCycle_def split: if_splits)
    then show ?thesis by (simp add: lifecycle_def)
  qed
qed

section \<open>The invariant of a document\<close>

definition cycle_inv :: "review_cycle \<Rightarrow> bool" where
  "cycle_inv c \<longleftrightarrow> list_all is_sha (cy_consumed_heads c) \<and> lifecycle c"

definition document_inv :: "authority_document \<Rightarrow> bool" where
  "document_inv d \<longleftrightarrow> is_sha (ad_head_sha d) \<and> pred_option cycle_inv (ad_cycle d)"

lemma fresh_inv: "fresh_cycle env c \<Longrightarrow> cycle_inv c"
  using fresh_lifecycle by (simp add: cycle_inv_def) (simp add: fresh_cycle_def)

lemma cycle_inv_fields:
  assumes "cycle_inv c" "cy_state c' = Closed \<longrightarrow> cy_state c = Closed \<or> stage_complete c'"
    and "isLogicalRoundCycle c \<and> stage_complete c' \<longrightarrow> stage_complete c \<or> cycleConsumedCount c = cy_frozen_cap c"
    and "stage_complete c \<longrightarrow> stage_complete c'"
    and "cy_cap_map c' = cy_cap_map c" "cy_consumed_rounds c' = cy_consumed_rounds c"
    and "cy_consumed_heads c' = cy_consumed_heads c" "cy_frozen_cap c' = cy_frozen_cap c"
  shows "cycle_inv c'"
  using assms lifecycle_fields [of c c'] by (simp add: cycle_inv_def)

lemma clear_document [simp]:
  "ad_head_sha (clear_outcomes d) = ad_head_sha d" "ad_head_sha (clear_terminal_outcomes d) = ad_head_sha d"
  "ad_head_sha (with_cycle f d) = ad_head_sha d" "ad_head_sha (markReviewStageComplete d at) = ad_head_sha d"
  by (simp_all add: clear_outcomes_def clear_terminal_outcomes_def with_cycle_def markReviewStageComplete_def
      split: option.splits)

lemma mark_inv:
  assumes "pred_option cycle_inv (ad_cycle d)"
    and "\<And>c. ad_cycle d = Some c \<Longrightarrow> isLogicalRoundCycle c \<Longrightarrow> stage_complete c \<or> cycleConsumedCount c = cy_frozen_cap c"
  shows "pred_option cycle_inv (ad_cycle (markReviewStageComplete d at))"
proof (cases "ad_cycle d")
  case (Some c)
  let ?c = "c\<lparr>cy_stage_complete := Some True, cy_stage_completed_at := Some at\<rparr>"
  have "cycle_inv c" using assms(1) Some by simp
  then have "cycle_inv ?c"
    by (rule cycle_inv_fields) (use assms(2) [OF Some] in \<open>auto simp: stage_complete_def\<close>)
  with \<open>cycle_inv c\<close> Some show ?thesis by (simp add: markReviewStageComplete_cycle)
qed (simp add: markReviewStageComplete_cycle)

lemma consume_heads:
  assumes "consume_slot t c = Inr c'" "list_all is_sha (cy_consumed_heads c)" "is_sha (tv_target_sha t)"
  shows "list_all is_sha (cy_consumed_heads c')"
  using assms by (auto simp: consume_slot_def add_head_def Let_def split: if_splits option.splits)

lemma move_heads:
  "ad_cycle (move_cycle env t status c d) = Some c' \<Longrightarrow> cy_consumed_heads c' = cy_consumed_heads c"
  by (auto simp: move_cycle_def markReviewStageComplete_cycle Let_def split: if_splits)

lemma move_head_sha: "ad_head_sha (move_cycle env t status c d) = ad_head_sha d"
  by (simp add: move_cycle_def Let_def)

lemma terminal_inv:
  assumes m: "terminal_mutate env t digest input d = Inr nxt" and i: "document_inv d" "authority_ok d"
  shows "document_inv nxt"
proof (cases "ad_cycle d")
  case None
  with assms show ?thesis by (auto simp: terminal_mutate_def document_inv_def Let_def split: if_splits)
next
  case (Some c)
  from m have t: "tv_target_sha t = ad_head_sha d" by (simp add: terminal_mutate_def split: if_splits)
  let ?c = "downgrade_cycle t c" and ?d = "d\<lparr>ad_terminal := Some (committed_terminal t digest (ti_status input))\<rparr>"
  from m Some obtain c1 where c1: "(if consumes_slot t input then consume_slot t ?c else Inr ?c) = Inr c1"
    and nxt: "nxt = move_cycle env t (ti_status input) c1 ?d"
    by (auto simp: terminal_mutate_def Let_def rbind_Inr split: if_splits)
  obtain c' where c': "ad_cycle nxt = Some c'"
    using nxt move_extends [OF cycle_extends_refl, of env t "ti_status input" c1 ?d] by auto
  have "list_all is_sha (cy_consumed_heads ?c)" "is_sha (tv_target_sha t)"
    using i(1) Some t by (simp_all add: document_inv_def cycle_inv_def downgrade_cycle_def)
  then have "list_all is_sha (cy_consumed_heads c1)" using c1 consume_heads [of t ?c c1] by (auto split: if_splits)
  moreover have "cy_consumed_heads c' = cy_consumed_heads c1" by (rule move_heads [OF c' [unfolded nxt]])
  moreover have "lifecycle c'"
    using terminal_lifecycle [OF m Some _ _ c'] i Some by (simp add: document_inv_def cycle_inv_def authority_ok_def cycle_ok_def)
  moreover have "ad_head_sha nxt = ad_head_sha d" by (simp add: nxt move_head_sha)
  ultimately show ?thesis using i(1) c' by (simp add: document_inv_def cycle_inv_def)
qed

lemma lifecycle_closed:
  "lifecycle c \<Longrightarrow> isLogicalRoundCycle c \<Longrightarrow> cy_state c = Closed \<Longrightarrow> stage_complete c"
  by (simp add: lifecycle_def)

lemma complete_on_new_head_logical:
  assumes "ad_cycle d = Some c" "isLogicalRoundCycle c" "lifecycle c"
  shows "complete_on_new_head env (case runs of None \<Rightarrow> False | Some r \<Rightarrow> reviewRunEvidence d r) d = d"
proof -
  have "\<not> (case runs of None \<Rightarrow> False | Some r \<Rightarrow> reviewRunEvidence d r)"
    using assms(1,2) by (simp add: reviewRunEvidence_def split: option.splits)
  with assms lifecycle_closed show ?thesis
    by (auto simp: complete_on_new_head_def stage_done_on_new_head_def)
qed

lemma settled_logical:
  "reviewObligationsSettled d \<Longrightarrow> ad_cycle d = Some c \<Longrightarrow> isLogicalRoundCycle c \<Longrightarrow> lifecycle c \<Longrightarrow> stage_complete c"
  using lifecycle_closed [of c] by (auto simp: reviewObligationsSettled_def split: if_splits)

lemma observe_inv:
  assumes m: "observe_mutate env head runs d = Inr nxt" and i: "document_inv d" "is_sha head"
  shows "document_inv nxt"
proof (cases "ad_cycle d")
  case None
  with assms show ?thesis
    by (auto simp: observe_mutate_def observe_same_head_def complete_on_new_head_def document_inv_def Let_def
        split: if_splits)
next
  case (Some c)
  let ?run = "case runs of None \<Rightarrow> False | Some r \<Rightarrow> reviewRunEvidence d r"
  have c: "cycle_inv c" "is_sha (ad_head_sha d)" using i(1) Some by (simp_all add: document_inv_def)
  have run: "\<not> isLogicalRoundCycle c" if ?run
    using that Some by (auto simp: reviewRunEvidence_def split: option.splits if_splits)
  have done_inv: "cycle_inv x" if "\<not> isLogicalRoundCycle c" "cy_consumed_heads x = cy_consumed_heads c"
    "cy_cap_map x = cy_cap_map c" for x
    using that c(1) by (simp add: cycle_inv_def lifecycle_def isLogicalRoundCycle_def)
  show ?thesis
  proof (cases "ad_head_sha d = head")
    case True
    from m True Some have "ad_head_sha nxt = ad_head_sha d"
      and "\<exists>x. ad_cycle nxt = Some x \<and> (x = c \<or> ?run \<and> cy_consumed_heads x = cy_consumed_heads c \<and> cy_cap_map x = cy_cap_map c)"
      by (auto simp: observe_mutate_def observe_same_head_def Let_def markReviewStageComplete_cycle start_consumed_def)
    with c run done_inv show ?thesis by (auto simp: document_inv_def)
  next
    case False
    define e where "e = complete_on_new_head env ?run d"
    have "\<exists>c1. ad_cycle e = Some c1 \<and> cycle_inv c1"
    proof (cases "isLogicalRoundCycle c")
      case True
      with complete_on_new_head_logical [OF Some True] c(1) Some show ?thesis by (simp add: e_def cycle_inv_def)
    next
      case nl: False
      from Some have "\<exists>x. ad_cycle e = Some x \<and> cy_consumed_heads x = cy_consumed_heads c \<and> cy_cap_map x = cy_cap_map c"
        by (auto simp: e_def complete_on_new_head_def start_consumed_def)
      with done_inv [OF nl] show ?thesis by blast
    qed
    then obtain c1 where c1: "ad_cycle e = Some c1" "cycle_inv c1" by blast
    have "cycle_inv (c1\<lparr>cy_state := At_Cap_Continuation_Required\<rparr>)"
      by (rule cycle_inv_fields [OF c1(2)]) (simp_all add: stage_complete_def)
    with m False c1 i(2) show ?thesis
      by (auto simp: observe_mutate_def Let_def e_def [symmetric] rbind_Inr document_inv_def
          split: if_splits dest!: createNew_fresh fresh_inv)
  qed
qed

lemma close_and_mark_inv:
  assumes "cycle_inv c" "cycleConsumedCount c = cy_frozen_cap c"
    and "ad_cycle d = Some (c\<lparr>cy_state := Closed, cy_closed_at := closed, cy_at_cap_hash := None\<rparr>)"
  shows "\<exists>x. ad_cycle (markReviewStageComplete d at) = Some x \<and> cycle_inv x
    \<and> cycle_inv (x\<lparr>cy_settlement_kind := kind\<rparr>)"
  using assms(2,3) by (auto simp: markReviewStageComplete_cycle stage_complete_def intro!: cycle_inv_fields [OF assms(1)])

lemma descendant_inv:
  assumes m: "descendant_mutate env reviewed head same d = Inr nxt" and i: "document_inv d"
  shows "document_inv nxt"
proof -
  from m obtain c t where c: "ad_cycle d = Some c" and t: "ad_terminal d = Some t"
    by (auto simp: descendant_mutate_def split: if_splits option.splits)
  let ?d = "d\<lparr>ad_cycle := Some (c\<lparr>cy_state := Closed, cy_closed_at := Some (ev_now env), cy_at_cap_hash := None\<rparr>)\<rparr>"
  let ?m = "markReviewStageComplete ?d (ev_now env)"
  have inv: "cycle_inv c" "is_sha (ad_head_sha d)" using i c by (simp_all add: document_inv_def)
  have open_inv: "cycle_inv (reopened c)"
    by (rule cycle_inv_fields [OF inv(1)]) (simp_all add: reopened_def stage_complete_def)
  from m c t consider "nxt = clear_outcomes (d\<lparr>ad_cycle := Some (reopened c)\<rparr>)"
    | "cycleConsumedCount c = cy_frozen_cap c"
      "nxt = clear_outcomes (if same \<noteq> None
         then with_cycle (\<lambda>c. c\<lparr>cy_settlement_kind := Some Same_Head_Issue_Resolution\<rparr>) ?m else ?m)"
    by (simp add: descendant_mutate_def Let_def split: if_split_asm option.split_asm)
  then show ?thesis
  proof cases
    case 1
    with open_inv inv show ?thesis by (simp add: document_inv_def)
  next
    case 2
    obtain x where "ad_cycle ?m = Some x" "cycle_inv x" "cycle_inv (x\<lparr>cy_settlement_kind := Some Same_Head_Issue_Resolution\<rparr>)"
      using close_and_mark_inv [OF inv(1) 2(1), of ?d "Some (ev_now env)" "ev_now env" "Some Same_Head_Issue_Resolution"]
      by auto
    with 2(2) inv(2) show ?thesis by (simp add: document_inv_def)
  qed
qed

lemma rewritten_inv:
  assumes m: "rewritten_mutate reviewed head d = Inr nxt" and i: "document_inv d"
  shows "document_inv nxt"
proof -
  from m obtain c where c: "ad_cycle d = Some c" "ad_head_sha nxt = ad_head_sha d"
    "ad_cycle nxt = Some ((reopened c)\<lparr>cy_settlement_kind := Some Rewritten_Head\<rparr>)"
    by (auto simp: rewritten_mutate_def split: if_splits option.splits)
  have inv: "cycle_inv c" using i c by (simp add: document_inv_def)
  have "cycle_inv ((reopened c)\<lparr>cy_settlement_kind := Some Rewritten_Head\<rparr>)"
    by (rule cycle_inv_fields [OF inv]) (simp_all add: reopened_def stage_complete_def)
  with c i show ?thesis by (simp add: document_inv_def)
qed

lemma promote_inv:
  assumes m: "promote_mutate env tier c d = Inr nxt" and i: "document_inv d" and c: "ad_cycle d = Some c"
  shows "document_inv nxt"
proof -
  define p where "p = c\<lparr>cy_frozen_tier := tier, cy_frozen_cap := cap_value (PACK_REVIEW_LOGICAL_CAPS tier)\<rparr>"
  from m c have s: "\<not> stage_complete c" "cy_state c \<noteq> Closed"
    and nxt: "ad_head_sha nxt = ad_head_sha d"
      "ad_cycle nxt = Some p
      \<or> (\<exists>h. ad_cycle nxt = Some (p\<lparr>cy_state := Open_Findings, cy_closed_at := None, cy_at_cap_hash := Some h\<rparr>))"
    by (auto simp: promote_mutate_def p_def Let_def split: if_splits option.splits)
  have heads: "list_all is_sha (cy_consumed_heads p)"
    using i c by (simp add: document_inv_def cycle_inv_def p_def)
  have "cycle_inv p" using heads s by (simp add: cycle_inv_def lifecycle_def p_def stage_complete_def)
  moreover have "cycle_inv (p\<lparr>cy_state := Open_Findings, cy_closed_at := None, cy_at_cap_hash := Some h\<rparr>)" for h
    using heads s by (simp add: cycle_inv_def lifecycle_def p_def stage_complete_def)
  ultimately show ?thesis using nxt i by (auto simp: document_inv_def)
qed

lemma mutation_inv:
  assumes mu: "mutation env d m" and m: "m d = Inr nxt" and i: "document_inv d" and ok: "authority_ok d"
  shows "document_inv nxt"
  using mu
proof (cases rule: mutation.cases)
  case amended
  with m i show ?thesis
    by (auto simp: amendment_mutate_def Let_def rbind_Inr document_inv_def
        split: if_splits option.splits dest!: createNew_fresh fresh_inv)
next
  case replaced
  with m i show ?thesis
    by (auto simp: replace_mutate_def rbind_Inr document_inv_def dest!: createNew_fresh fresh_inv)
next
  case promoted
  with m i promote_inv show ?thesis by metis
next
  case observed
  with m i observe_inv show ?thesis by metis
next
  case terminal
  with m i ok terminal_inv show ?thesis by metis
next
  case selected
  with m i show ?thesis by (auto simp: evidence_mutate_def rbind_Inr document_inv_def split: if_splits)
next
  case settled
  with m i descendant_inv show ?thesis by metis
next
  case rewritten
  with m i rewritten_inv show ?thesis by metis
next
  case (triaged store triage)
  let ?d = "d\<lparr>ad_triage := Some triage\<rparr>"
  from m triaged consider "nxt = ?d"
    | "nxt = markReviewStageComplete ?d (ts_committed_at triage)"
      "reviewObligationsSettled ?d \<or> (\<exists>c. ad_cycle d = Some c \<and> \<not> isLogicalRoundCycle c)"
    by (auto simp: triage_mutate_def rbind_Inr Let_def split: if_splits option.splits)
  then show ?thesis
  proof cases
    case 2
    have "pred_option cycle_inv (ad_cycle (markReviewStageComplete ?d (ts_committed_at triage)))"
      by (rule mark_inv) (use i 2(2) settled_logical [of ?d] in \<open>auto simp: document_inv_def cycle_inv_def\<close>)
    with 2(1) i show ?thesis by (simp add: document_inv_def)
  qed (use i in \<open>simp add: document_inv_def\<close>)
next
  case (published publication)
  let ?d = "d\<lparr>ad_publication := Some publication\<rparr>"
  from m published consider "nxt = ?d"
    | "nxt = markReviewStageComplete ?d (pb_recorded_at publication)" "reviewObligationsSettled ?d"
    by (auto simp: publication_mutate_def Let_def split: if_splits)
  then show ?thesis
  proof cases
    case 2
    have "pred_option cycle_inv (ad_cycle (markReviewStageComplete ?d (pb_recorded_at publication)))"
      by (rule mark_inv) (use i 2(2) settled_logical [of ?d] in \<open>auto simp: document_inv_def cycle_inv_def\<close>)
    with 2(1) i show ?thesis by (simp add: document_inv_def)
  qed (use i in \<open>simp add: document_inv_def\<close>)
next
  case acknowledged
  with m i show ?thesis
    by (auto simp: reset_mutate_def Let_def rbind_Inr document_inv_def
        split: if_splits dest!: createNew_fresh fresh_inv)
next
  case advanced
  with m i show ?thesis by simp
qed

lemma starts_inv:
  assumes "starts env d store store'"
  shows "document_inv d"
proof -
  from assms obtain head tier retained cap_map c where
    c: "ad_cycle d = Some c" "is_sha (ad_head_sha d)"
      "(if retained \<noteq> None then retainPersistedOpenCycle retained
        else createNewPackReviewCycle env tier cap_map None None) = Inr c"
    by (auto simp: starts_def createInitialPackReviewAuthority_def rbind_Inr normalizeSha_Inr)
  have sha: "list_all is_sha ys" if "rall (\<lambda>sha. normalizeSha sha l) xs = Inr ys" for xs ys l
    using that by (induction xs arbitrary: ys) (auto simp: rbind_Inr normalizeSha_Inr)
  have "cycle_inv c"
  proof (cases retained)
    case None
    with c(3) show ?thesis by (auto dest: createNew_fresh fresh_inv)
  next
    case (Some input)
    with c(3) have "list_all is_sha (cy_consumed_heads c)" "\<not> isLogicalRoundCycle c"
      by (auto simp: retainPersistedOpenCycle_def rbind_Inr Let_def isLogicalRoundCycle_def dest!: sha)
    then show ?thesis by (simp add: cycle_inv_def lifecycle_def)
  qed
  with c show ?thesis by (simp add: document_inv_def)
qed

lemma document_inv_stamp [simp]: "document_inv (stamp env phase d nxt) = document_inv nxt"
  by (simp add: document_inv_def stamp_def)

lemma reachable_document_inv:
  "reachable store \<Longrightarrow> rs_docs store pr = Some (Document d) \<Longrightarrow> document_inv d"
  by (rule reachable_invariant [of document_inv]) (auto intro: starts_inv mutation_inv)

end
