(* ===== verification/Review_Properties.thy ===== *)
theory Review_Properties
  imports Review_History
begin

text \<open>
  The properties of the review authority: what every reachable store satisfies, what every
  operation does to the document it changes, and the exact outcome of the operations that decide
  over a review. The lemmas of \<open>Review_Machine\<close> and \<open>Review_History\<close> carry the proofs.
\<close>

section \<open>Helpers\<close>

lemma cap_grows:
  assumes "cycle_extends c c'" "cycle_ok c" "cycle_ok c'"
  shows "cy_frozen_cap c \<le> cy_frozen_cap c'"
proof (cases "isLogicalRoundCycle c")
  case True
  then have m: "cy_cap_map c = Logical_Map" by (simp add: isLogicalRoundCycle_def)
  have tier: "cy_frozen_tier c' = cy_frozen_tier c
      \<or> \<not> num_le (tier_rank (cy_frozen_tier c')) (tier_rank (cy_frozen_tier c))"
    and map: "cy_cap_map c' = Logical_Map \<or> cy_cap_map c' = Cap_Map"
    and origin: "cy_amendment_origin c' = cy_amendment_origin c"
    using assms(1) m by (auto simp: cycle_extends_def)
  have cap: "Some (cy_frozen_cap c) = logical_cap c"
    using assms(2) m by (simp add: cycle_ok_def accounting_ok_def)
  have cap': "Some (cy_frozen_cap c') = (if cy_cap_map c' = Logical_Map then logical_cap c' else PACK_REVIEW_CAPS (cy_frozen_tier c'))"
    "cy_cap_map c' = Cap_Map \<longrightarrow> cy_amendment_origin c' = None"
    using assms(3) map by (auto simp: cycle_ok_def accounting_ok_def)
  show ?thesis
    using cap cap' tier map origin
    by (cases "cy_frozen_tier c"; cases "cy_frozen_tier c'") (auto simp: logical_cap_def num_le_def split: if_splits)
qed (use assms(1) in \<open>simp add: cycle_extends_def\<close>)

text \<open>What a successful operation that wrote something did, for reachable stores.\<close>

lemma perform_writes:
  assumes "reachable store" "evolves (after_first env request store) other"
    and "perform env (\<lambda>_. other) request store = Inr (d', store')" "store' \<noteq> store"
  shows "store_ok (seen request store other) \<and>
    (starts env d' (seen request store other) store'
     \<or> (\<exists>phase m d. commits env m (ad_pr_number d') phase d d' (seen request store other) store' \<and> mutation env d m
          \<and> ad_transition_seq d' = ad_transition_seq d + 1 \<and> store' = put d' (seen request store other)))"
proof -
  note ok = reachable_ok [OF assms(1)]
  have base: "store_ok (seen request store other)" using seen_steps [OF ok assms(2)] by simp
  from perform_document [OF assms(3) ok assms(2)] assms(4) commits_put [OF _ base] base
  show ?thesis by metis
qed

lemma after_first_evolves: "evolves store s1 \<Longrightarrow> evolves store (after_first env request s1)"
  by (cases request) (auto split: sum.splits intro: evolves.staged)

section \<open>Reachable stores\<close>

text \<open>
  C9: Every document file a sequence of operations leaves behind is a valid document of the PR it
  is filed under, with its head in canonical form: consumed review units never exceed the cap.
\<close>
theorem reachable_documents_valid:
  assumes "reachable store" "rs_docs store pr = Some f"
  shows "\<exists>d. f = Document d \<and> ad_pr_number d = pr \<and> validateAuthority d = Inr () \<and> is_sha (ad_head_sha d)
    \<and> (case ad_cycle d of None \<Rightarrow> True | Some c \<Rightarrow> cycleConsumedCount c \<le> cy_frozen_cap c)"
proof -
  from reachable_ok [OF assms(1)] assms(2) obtain d where d: "f = Document d" "ad_pr_number d = pr" "authority_ok d"
    by (auto simp: store_ok_def)
  with assms reachable_document_inv show ?thesis
    by (auto simp: validateAuthority_ok document_inv_def authority_ok_def cycle_ok_def split: option.splits)
qed

text \<open>
  C26: In every reachable store a logical-round cycle that is closed has spent its whole cap and has
  its review stage marked complete.
\<close>
theorem logical_cycle_closes_full:
  assumes "reachable store" "rs_docs store pr = Some (Document d)" "ad_cycle d = Some c"
    and "isLogicalRoundCycle c" "cy_state c = Closed"
  shows "stage_complete c \<and> cycleConsumedCount c = cy_frozen_cap c"
  using reachable_document_inv [OF assms(1,2)] assms(3-5)
  by (simp add: document_inv_def cycle_inv_def lifecycle_def)

text \<open>
  The history of a document is linear: later stores have the document, with a greater sequence
  number unless it is the same document.
\<close>
theorem history_is_linear:
  assumes "reachable store" "evolves store store'" "rs_docs store pr = Some (Document d)"
  shows "\<exists>d'. rs_docs store' pr = Some (Document d') \<and> ad_transition_seq d \<le> ad_transition_seq d'
    \<and> (ad_transition_seq d' = ad_transition_seq d \<longrightarrow> d' = d)"
proof -
  have "section_step\<^sup>*\<^sup>* store store'" using evolves_steps [OF assms(2) reachable_ok [OF assms(1)]] by simp
  from authority.version_grows [OF this, of pr d] assms(3) show ?thesis by auto
qed

section \<open>Every operation\<close>

text \<open>
  An operation that writes changes only the document of one PR. The first document of a PR has
  sequence number 0; a later one has the successor of the number before, and its phase is not
  behind the phase before unless a new head is observed.
\<close>
theorem operation_discipline:
  assumes "reachable store" "evolves (after_first env request store) other"
    and "perform env (\<lambda>_. other) request store = Inr (d', store')" "store' \<noteq> store"
  shows "store' = put d' (seen request store other)
    \<and> (case doc_at (seen request store other) (ad_pr_number d') of
         None \<Rightarrow> ad_transition_seq d' = 0 \<and> ad_phase d' = Head_Observed
       | Some d \<Rightarrow> ad_transition_seq d' = ad_transition_seq d + 1
           \<and> (phase_rank (ad_phase d) \<le> phase_rank (ad_phase d') \<or> ad_phase d' = Head_Observed))"
proof -
  let ?base = "seen request store other"
  have init: "ad_transition_seq d' = 0 \<and> ad_phase d' = Head_Observed" if "starts env d' ?base store'"
    using that by (auto simp: starts_def createInitialPackReviewAuthority_def rbind_Inr)
  from perform_writes [OF assms] consider "starts env d' ?base store'"
    | phase m d where "commits env m (ad_pr_number d') phase d d' ?base store'"
        "ad_transition_seq d' = ad_transition_seq d + 1" "store' = put d' ?base"
    by blast
  then show ?thesis
  proof cases
    case 1
    with init [OF 1] starts_fresh [OF 1] show ?thesis by (simp add: doc_at_def)
  next
    case (2 phase m d)
    moreover from 2(1) have "ad_phase d' = phase" "rs_docs ?base (ad_pr_number d') = Some (Document d)"
      "phase_rank (ad_phase d) \<le> phase_rank phase \<or> phase = Head_Observed"
      by (auto simp: commits_def stamp_def)
    ultimately show ?thesis by (simp add: doc_at_def)
  qed
qed

text \<open>
  C19: What an operation may write to a cycle: identity, origin and provenance stay, consumed heads
  are only appended to, a completed stage stays complete, the tier is never lowered and the cap never
  shrinks. Consumed rounds are only appended to as well, so that the consumption the cap is compared
  with does not shrink, with one exception: a logical cycle may fall back to counting heads, which
  drops its rounds and keeps its heads and tier. Otherwise the cycle is a fresh one without consumption.
\<close>
theorem cycle_history:
  assumes "reachable store" "evolves (after_first env request store) other"
    and "perform env (\<lambda>_. other) request store = Inr (d', store')" "store' \<noteq> store"
    and "rs_docs (seen request store other) (ad_pr_number d') = Some (Document d)" "ad_cycle d = Some c"
  shows "\<exists>c'. ad_cycle d' = Some c'
    \<and> (fresh_cycle env c' \<or> cycle_extends c c' \<and> cy_frozen_cap c \<le> cy_frozen_cap c'
          \<and> (if cy_cap_map c' = cy_cap_map c then cycleConsumedCount c \<le> cycleConsumedCount c'
             else isLogicalRoundCycle c \<and> cy_cap_map c' = Cap_Map \<and> cy_consumed_rounds c' = None))"
proof -
  from perform_writes [OF assms(1-4)] assms(5) starts_fresh obtain phase m nxt where
    c: "mutation env d m" "m d = Inr nxt" "d' = stamp env phase d nxt" "authority_ok d" "authority_ok d'"
    by (fastforce simp: commits_def)
  have "ad_cycle d' = ad_cycle nxt" using c(3) by (simp add: stamp_def)
  with mutation_change [OF c(1,2)] assms(6) obtain c' where c': "ad_cycle d' = Some c'"
    "fresh_cycle env c' \<or> cycle_extends c c'"
    by (auto simp: cycle_change_def split: option.splits)
  moreover have "cycle_ok c" "cycle_ok c'" using c(4,5) assms(6) c'(1) by (simp_all add: authority_ok_def)
  moreover have "if cy_cap_map c' = cy_cap_map c then cycleConsumedCount c \<le> cycleConsumedCount c'
      else isLogicalRoundCycle c \<and> cy_cap_map c' = Cap_Map \<and> cy_consumed_rounds c' = None" if "cycle_extends c c'"
    using that cycle_extends_count by (auto simp: cycle_extends_def)
  ultimately show ?thesis using cap_grows by blast
qed

section \<open>The terminal of a document\<close>

lemma mark_terminal [simp]: "ad_terminal (markReviewStageComplete d at) = ad_terminal d"
  by (simp add: markReviewStageComplete_def split: option.splits)

lemma clear_terminal [simp]:
  "ad_terminal (clear_outcomes d) = ad_terminal d" "ad_terminal (clear_terminal_outcomes d) = None"
  "ad_terminal (with_cycle f d) = ad_terminal d"
  by (simp_all add: clear_outcomes_def clear_terminal_outcomes_def with_cycle_def)

lemma move_terminal [simp]: "ad_terminal (move_cycle env t status c d) = ad_terminal d"
  by (simp add: move_cycle_def Let_def)

definition outranked :: "authority_document \<Rightarrow> authority_terminal \<Rightarrow> bool" where
  "outranked d t' \<longleftrightarrow>
     (case ad_terminal d of None \<Rightarrow> False
      | Some t \<Rightarrow> at_verdict t = Findings \<and> at_target_sha t = at_target_sha t' \<and> at_verdict t' = Clean)"

lemma terminal_mutate_terminal:
  assumes "terminal_mutate env t digest input d = Inr nxt"
  shows "ad_terminal nxt = Some (committed_terminal t digest (ti_status input))
    \<and> tv_target_sha t = ad_head_sha d \<and> \<not> outranked d (committed_terminal t digest (ti_status input))"
  using assms by (auto simp: terminal_mutate_def Let_def rbind_Inr outranked_def committed_terminal_def
      split: if_splits option.splits)

lemma observe_terminal: "observe_mutate env head runs d = Inr nxt \<Longrightarrow> ad_terminal nxt = ad_terminal d \<or> ad_terminal nxt = None"
  by (auto simp: observe_mutate_def observe_same_head_def complete_on_new_head_def Let_def rbind_Inr
      split: if_splits option.splits)

text \<open>Only \<open>commitPackReviewTerminal\<close> records a terminal.\<close>

lemma mutation_terminal:
  assumes "mutation env d m" "m d = Inr nxt" "ad_terminal nxt = Some t'" "ad_terminal d \<noteq> Some t'"
  shows "at_target_sha t' = ad_head_sha d \<and> \<not> outranked d t'"
  using assms(1)
proof (cases rule: mutation.cases)
  case terminal
  with assms(2,3) terminal_mutate_terminal show ?thesis by (fastforce simp: committed_terminal_def)
next
  case observed
  with assms(2-4) observe_terminal show ?thesis by fastforce
qed (use assms(2-4) in \<open>auto simp: amendment_mutate_def replace_mutate_def promote_mutate_def evidence_mutate_def
      descendant_mutate_def rewritten_mutate_def triage_mutate_def publication_mutate_def reset_mutate_def
      rbind_Inr Let_def split: if_splits option.splits\<close>)

text \<open>
  C8: No operation replaces a terminal with findings by a clean terminal of the same head, and a
  terminal an operation records is one of the head the document has.
\<close>
theorem findings_outrank_clean:
  assumes "reachable store" "evolves (after_first env request store) other"
    and "perform env (\<lambda>_. other) request store = Inr (d', store')" "store' \<noteq> store"
    and "rs_docs (seen request store other) (ad_pr_number d') = Some (Document d)"
    and "ad_terminal d' = Some t'"
  shows "(case ad_terminal d of None \<Rightarrow> True
      | Some t \<Rightarrow> \<not> (at_verdict t = Findings \<and> at_target_sha t = at_target_sha t' \<and> at_verdict t' = Clean))
    \<and> (if ad_terminal d = Some t' then True else at_target_sha t' = ad_head_sha d)"
proof -
  from perform_writes [OF assms(1-4)] assms(5) starts_fresh obtain phase m nxt where
    c: "mutation env d m" "m d = Inr nxt" "d' = stamp env phase d nxt"
    by (fastforce simp: commits_def)
  have "ad_terminal nxt = Some t'" using c(3) assms(6) by (simp add: stamp_def)
  from mutation_terminal [OF c(1,2) this] show ?thesis by (auto simp: outranked_def split: option.splits)
qed

section \<open>Two writers\<close>

lemma lock_outcome:
  "acquire_lock n probe kill i = Inr () \<or> (\<exists>detail. acquire_lock n probe kill i = Inl (''authority_lock_timeout'', detail))"
proof (induction n probe kill i rule: acquire_lock.induct)
  case (1 n probe kill i)
  show ?case
  proof (cases "probe i")
    case (Lock_Held message owner age)
    with 1 show ?thesis
      by (cases "abandonedLock kill owner age"; subst (1 2) acquire_lock.simps) simp_all
  qed (simp add: acquire_lock.simps [of n])
qed

text \<open>
  C17: Of two transitions committed with the same expected sequence number the second is refused:
  it finds a conflict, or does not get the lock.
\<close>
theorem one_writer_wins:
  assumes "reachable store"
    and "commitPackReviewAuthorityTransition env store pr expected phase m = Inr (d, store')"
  shows "\<exists>code detail. commitPackReviewAuthorityTransition env' store' pr expected phase' m' = Inl (code, detail)
    \<and> (code = ''authority_transition_conflict'' \<or> code = ''authority_lock_timeout'')"
proof -
  from commit_commits [OF assms(2)] commits_put [OF _ reachable_ok [OF assms(1)]]
  have c: "store' = put d store" "ad_pr_number d = pr" "ad_transition_seq d = expected + 1" "authority_ok d"
    by auto
  then have "rs_docs store' pr = Some (Document d)" "0 < pr" by (auto simp: rs_docs_put authority_ok_def)
  then have read: "readAuthorityUnlocked store' pr = Inr (Some d)" using c(4) by (simp add: read_Inr)
  show ?thesis
    using lock_outcome [of "case ev_lock_attempts env' of None \<Rightarrow> 400 | Some n \<Rightarrow> n" "ev_probe env'" "ev_kill env'" 0] read c(3)
    by (auto simp: commitPackReviewAuthorityTransition_def withPackReviewAuthorityLock_def)
qed

end
