(* ===== verification/Review_Outcomes.thy ===== *)
theory Review_Outcomes
  imports Review_History "HOL-Library.Multiset"
begin

text \<open>
  The exact outcome of single operations of the review authority: spending a slot, settling
  findings, amending a body, staging an immutable record, validating a terminal, choosing the
  number of sources, acquiring the lock.
\<close>

section \<open>Spending a slot\<close>

lemma add_head_idem: "add_head sha (add_head sha c) = add_head sha c"
  by (simp add: add_head_def)

lemma add_head_logical: "isLogicalRoundCycle (add_head sha c) = isLogicalRoundCycle c"
  by (simp add: add_head_def isLogicalRoundCycle_def)

text \<open>
  A terminal replayed on the cycle it was spent on spends nothing more; a fresh one spends
  exactly one unit and only below the cap.
\<close>
theorem slot_spent_once:
  assumes "consume_slot t c = Inr c'" "tv_logical_round t \<noteq> None" "cycle_ok c"
  shows "consume_slot t c' = Inr c'
    \<and> (cycleConsumedCount c' = cycleConsumedCount c
       \<or> cycleConsumedCount c' = cycleConsumedCount c + 1 \<and> cycleConsumedCount c < cy_frozen_cap c)"
proof -
  from assms(1) consider "c' = c" "\<not> isLogicalRoundCycle c" "tv_target_sha t \<in> set (cy_consumed_heads c)"
    | "\<not> isLogicalRoundCycle c" "c' = add_head (tv_target_sha t) c" "int (length (cy_consumed_heads c)) < cy_frozen_cap c"
        "tv_target_sha t \<notin> set (cy_consumed_heads c)"
    | rounds n where "isLogicalRoundCycle c" "cy_consumed_rounds c = Some rounds" "tv_logical_round t = Some n" "0 < n"
        "n \<in> set rounds" "c' = add_head (tv_target_sha t) c"
    | rounds n where "isLogicalRoundCycle c" "cy_consumed_rounds c = Some rounds" "tv_logical_round t = Some n" "0 < n"
        "int (length rounds) < cy_frozen_cap c"
        "c' = add_head (tv_target_sha t) (c\<lparr>cy_consumed_rounds := Some (rounds @ [n])\<rparr>)"
    using assms(2) by (auto simp: consume_slot_def Let_def split: if_splits option.splits)
  then show ?thesis
  proof cases
    case 1
    with assms(1) show ?thesis by simp
  next
    case 2
    then show ?thesis by (simp add: consume_slot_def add_head_def isLogicalRoundCycle_def cycleConsumedCount_def)
  next
    case (3 rounds n)
    then show ?thesis
      by (simp add: consume_slot_def add_head_logical add_head_fields add_head_idem count_add_head)
  next
    case (4 rounds n)
    let ?c = "c\<lparr>cy_consumed_rounds := Some (rounds @ [n])\<rparr>"
    have "isLogicalRoundCycle ?c" using 4(1) by (simp add: isLogicalRoundCycle_def)
    with 4 show ?thesis
      by (simp add: consume_slot_def add_head_logical add_head_fields add_head_idem count_add_head)
        (simp add: cycleConsumedCount_def)
  qed
qed

text \<open>Which terminals spend a slot.\<close>

lemma slot_consumption_rule:
  "terminalConsumesCapSlot input \<longleftrightarrow>
     list_all Not [ti_superseded input, ti_stale input, ti_reaper_killed input]
     \<and> ti_failure_class input \<notin> Some ` {''timeout_no_verdict'', ''parse_error'', ''process_error'', ''empty_output''}
     \<and> (js_lower (ti_status input) \<in> {''up_to_date'', ''clean'', ''commented'', ''changes_requested''}
        \<or> js_lower (ti_status input) \<in> {''failed'', ''cancelled''}
          \<and> (case ti_finding_count input of None \<Rightarrow> False | Some n \<Rightarrow> 0 < n))"
  by (auto simp: terminalConsumesCapSlot_def Let_def split: option.splits)

section \<open>Settling findings\<close>

lemma settle_commit:
  assumes "settleLogicalPackReviewFindingsByStrictDescendant env store pr seq reviewed head ancestor anchor same = Inr (d', store')"
  shows "\<exists>d. commits env (descendant_mutate env (sha_of reviewed) (sha_of head) same) pr Head_Observed d d' store store'
    \<and> ad_transition_seq d = seq
    \<and> (same \<noteq> None \<and> sha_of reviewed = sha_of head
       \<or> ancestor \<and> sha_of (case anchor of None \<Rightarrow> reviewed | Some a \<Rightarrow> a) \<noteq> sha_of head)"
  using assms commit_commits
  by (cases anchor) (auto simp: settleLogicalPackReviewFindingsByStrictDescendant_def rbind_Inr normalizeSha_Inr
        packReviewFindingsSatisfiedByStrictDescendant_def sha_of_fixed split: if_splits)

text \<open>
  C24: Settlement by a strict descendant succeeds only on the findings terminal of the reviewed head
  in a logical cycle; it keeps the terminal, clears what was decided about it, and reopens the cycle
  below the cap or closes it with its stage complete at the cap.
\<close>
theorem findings_settlement:
  assumes "settleLogicalPackReviewFindingsByStrictDescendant env store pr seq reviewed head ancestor anchor same = Inr (d', store')"
  shows "\<exists>d c t c'. rs_docs store pr = Some (Document d) \<and> ad_cycle d = Some c \<and> ad_terminal d = Some t
    \<and> isLogicalRoundCycle c \<and> at_verdict t = Findings \<and> at_target_sha t = sha_of reviewed
    \<and> ad_head_sha d = sha_of head
    \<and> ad_terminal d' = Some t \<and> ad_evidence d' = None \<and> ad_triage d' = None \<and> ad_publication d' = None
    \<and> ad_phase d' = Head_Observed \<and> ad_cycle d' = Some c' \<and> cy_at_cap_hash c' = None
    \<and> (if cycleConsumedCount c < cy_frozen_cap c then cy_state c = Open_Findings \<and> cy_state c' = Open
       else cy_state c \<in> at_cap_states \<and> cy_state c' = Closed \<and> stage_complete c')"
proof -
  from settle_commit [OF assms] obtain d nxt where d: "rs_docs store pr = Some (Document d)"
    and m: "descendant_mutate env (sha_of reviewed) (sha_of head) same d = Inr nxt"
    and d': "d' = stamp env Head_Observed d nxt" and ok: "authority_ok d"
    by (auto simp: commits_def)
  from m obtain c t where c: "ad_cycle d = Some c" "ad_terminal d = Some t" "isLogicalRoundCycle c"
    "at_verdict t = Findings" "at_target_sha t = sha_of reviewed" "ad_head_sha d = sha_of head"
    by (auto simp: descendant_mutate_def split: if_splits option.splits)
  let ?d = "d\<lparr>ad_cycle := Some (c\<lparr>cy_state := Closed, cy_closed_at := Some (ev_now env), cy_at_cap_hash := None\<rparr>)\<rparr>"
  let ?m = "markReviewStageComplete ?d (ev_now env)"
  from m c consider "cycleConsumedCount c < cy_frozen_cap c" "cy_state c = Open_Findings"
      "nxt = clear_outcomes (d\<lparr>ad_cycle := Some (reopened c)\<rparr>)"
    | "cycleConsumedCount c = cy_frozen_cap c" "cy_state c \<in> at_cap_states"
      "nxt = clear_outcomes (if same \<noteq> None
         then with_cycle (\<lambda>c. c\<lparr>cy_settlement_kind := Some Same_Head_Issue_Resolution\<rparr>) ?m else ?m)"
    by (simp add: descendant_mutate_def Let_def split: if_split_asm option.split_asm)
  then show ?thesis
  proof cases
    case 1
    show ?thesis
      by (intro exI [of _ d] exI [of _ c] exI [of _ t] exI [of _ "reopened c"])
        (use 1 c d in \<open>simp add: d' stamp_def reopened_def clear_outcomes_def\<close>)
  next
    case 2
    obtain c' where "ad_cycle nxt = Some c'" "cy_at_cap_hash c' = None" "cy_state c' = Closed" "stage_complete c'"
      using 2(3) by (cases same; simp add: markReviewStageComplete_cycle stage_complete_def)
    then show ?thesis
      by (intro exI [of _ d] exI [of _ c] exI [of _ t] exI [of _ c'])
        (use 2 c d in \<open>auto simp: d' stamp_def clear_outcomes_def with_cycle_def markReviewStageComplete_def
          split: option.splits\<close>)
  qed
qed

section \<open>Amending a body\<close>

text \<open>
  A body amendment opens a cycle of exactly one round for a body no earlier round of the chain
  was admitted for, records the chain, and needs a spent cap and a settled or found verdict.
\<close>
theorem amendment_admits_new_body:
  assumes "beginPackReviewBodyAmendmentContinuation env store pr seq head issue run reviewed amended = Inr (d', store')"
  shows "\<exists>d c t c' origin. rs_docs store pr = Some (Document d) \<and> ad_cycle d = Some c \<and> ad_terminal d = Some t
    \<and> isLogicalRoundCycle c \<and> cycleConsumedCount c = cy_frozen_cap c \<and> at_run_id t = run
    \<and> ad_cycle d' = Some c' \<and> cy_frozen_cap c' = 1 \<and> cycleConsumedCount c' = 0 \<and> ad_terminal d' = None
    \<and> cy_amendment_origin c' = Some origin \<and> ao_amended_body_digest origin = amended
    \<and> ao_previous_cycle_id origin = cy_cycle_id c \<and> amended \<notin> set (ao_previously_admitted origin)
    \<and> reviewed \<in> set (ao_previously_admitted origin) \<and> distinct (ao_previously_admitted origin)
    \<and> (case cy_amendment_origin c of None \<Rightarrow> True
       | Some old \<Rightarrow> ao_previously_admitted origin = ao_previously_admitted old @ [ao_amended_body_digest old])"
proof -
  from assms commit_commits obtain d nxt where d: "rs_docs store pr = Some (Document d)" "authority_ok d'"
    and m: "amendment_mutate env (sha_of head) issue run reviewed amended d = Inr nxt"
    and d': "d' = stamp env Head_Observed d nxt"
    by (fastforce simp: beginPackReviewBodyAmendmentContinuation_def rbind_Inr normalizeSha_Inr commits_def
        split: if_splits)
  from m obtain c t where c: "ad_cycle d = Some c" "ad_terminal d = Some t" "isLogicalRoundCycle c"
    "cycleConsumedCount c = cy_frozen_cap c" "at_run_id t = run"
    by (auto simp: amendment_mutate_def amendment_eligible_def split: if_splits option.splits)
  define admitted where "admitted = (case cy_amendment_origin c of None \<Rightarrow> [reviewed]
      | Some old \<Rightarrow> ao_previously_admitted old @ [ao_amended_body_digest old])"
  from m c(1,2) obtain c' origin where c': "ad_cycle nxt = Some c'" "ad_terminal nxt = None"
      "cy_amendment_origin c' = Some origin" "cy_frozen_cap c' = 1" "cycleConsumedCount c' = 0"
      "cy_cap_map c' = Logical_Map"
      "ao_amended_body_digest origin = amended" "ao_reviewed_body_digest origin = reviewed"
      "ao_previous_cycle_id origin = cy_cycle_id c" "ao_previously_admitted origin = admitted"
    by (auto simp: amendment_mutate_def Let_def rbind_Inr createNewPackReviewCycle_def clear_terminal_outcomes_def
        clear_outcomes_def cycleConsumedCount_def isLogicalRoundCycle_def admitted_def split: if_splits option.splits)
  have "cycle_ok c'" using d(2) c'(1) d' by (simp add: authority_ok_def stamp_def)
  then have "amendment_ok_for c' origin" using c'(3,6) by (simp add: cycle_ok_def accounting_ok_def)
  then have "amended \<notin> set admitted" "reviewed \<in> set admitted" "distinct admitted"
    using c' by (simp_all add: amendment_ok_for_def)
  then show ?thesis
    by (intro exI [of _ d] exI [of _ c] exI [of _ t] exI [of _ c'] exI [of _ origin])
      (use c c' d(1) in \<open>simp add: d' stamp_def admitted_def split: option.splits\<close>)
qed

section \<open>Immutable records\<close>

lemma map_of_append_None: "map_of xs k = None \<Longrightarrow> map_of (xs @ ys) k = map_of ys k"
  by (induction xs) (auto split: if_splits)

lemma map_of_append_Some: "map_of xs k = Some v \<Longrightarrow> map_of (xs @ ys) k = Some v"
  by (induction xs) (auto split: if_splits)

lemma stage_record:
  assumes "stagePackReviewImmutableRecord env store kind key value = Inr (r, store')"
  shows "(\<exists>entry. map_of (rs_immutable store') (kind, js_trim key) = Some entry
      \<and> ev_sha256 env (im_bytes entry) = sr_digest r)
    \<and> sr_digest r = ev_sha256 env (stableJson value @ line_feed)
    \<and> (map_of (rs_immutable store) k = Some entry0 \<longrightarrow> map_of (rs_immutable store') k = Some entry0)"
  using assms unfolding stagePackReviewImmutableRecord_def
  by (auto simp: rbind_Inr nonEmpty_Inr Let_def map_of_append_None map_of_append_Some simp del: map_of_append
      split: if_splits option.splits dest!: withLock_Inr)

lemma effect_immutable: "effect env store base d' store' \<Longrightarrow> store' = store \<or> rs_immutable store' = rs_immutable base"
  by (auto simp: effect_def starts_def commits_def put_def)

lemma after_first_immutable:
  "map_of (rs_immutable store) k = Some entry \<Longrightarrow> map_of (rs_immutable (after_first env request store)) k = Some entry"
  by (cases request) (auto split: sum.splits dest: stage_record)

lemma evolves_immutable:
  "evolves store store' \<Longrightarrow> map_of (rs_immutable store) k = Some entry \<Longrightarrow> map_of (rs_immutable store') k = Some entry"
proof (induction rule: evolves.induct)
  case (staged store store1 env kind key val r store')
  then show ?case using stage_record by blast
next
  case (performed store store1 env request store2 d store')
  then have 1: "map_of (rs_immutable store1) k = Some entry" by blast
  with performed after_first_immutable have 2: "map_of (rs_immutable store2) k = Some entry" by blast
  with 1 have "map_of (rs_immutable (seen request store1 store2)) k = Some entry" by (cases request) simp_all
  with 1 effect_immutable [OF perform_effect [OF performed.hyps(3)]] show ?case by auto
qed

text \<open>
  A staged record has the digest of its canonical text, no later operation changes it, and
  staging a value under its key again succeeds only with the same digest.
\<close>
theorem staged_record_immutable:
  assumes "stagePackReviewImmutableRecord env store kind key value = Inr (r, store1)" "evolves store1 store2"
  shows "sr_digest r = ev_sha256 env (stableJson value @ line_feed)
    \<and> (\<exists>entry. map_of (rs_immutable store2) (kind, js_trim key) = Some entry \<and> ev_sha256 env (im_bytes entry) = sr_digest r)
    \<and> (case stagePackReviewImmutableRecord env store2 kind key value2 of
         Inl e \<Rightarrow> True | Inr (r2, store3) \<Rightarrow> sr_digest r2 = sr_digest r)"
proof -
  from stage_record [OF assms(1)] obtain entry where f: "map_of (rs_immutable store1) (kind, js_trim key) = Some entry"
    "ev_sha256 env (im_bytes entry) = sr_digest r" "sr_digest r = ev_sha256 env (stableJson value @ line_feed)"
    by blast
  note f2 = evolves_immutable [OF assms(2) f(1)]
  have "sr_digest r2 = sr_digest r" if "stagePackReviewImmutableRecord env store2 kind key value2 = Inr (r2, store3)" for r2 store3
  proof -
    from stage_record [OF that, of "(kind, js_trim key)" entry] f2 f(2) show ?thesis by auto
  qed
  with f f2 show ?thesis by (auto split: sum.splits)
qed

section \<open>Canonical JSON\<close>

lemma json_ok_sort_keys: "json_ok j \<Longrightarrow> json_ok (sort_keys j)"
  by (induction j) (auto simp: list_all_iff)

text \<open>
  The canonical text of a JSON value does not depend on the order of object keys, and two values
  with the same text are equal up to that order.
\<close>
theorem stableJson_canonical:
  assumes "json_ok a" "json_ok b" "mset kvs = mset kvs'" "distinct (map fst kvs)"
  shows "(stableJson a = stableJson b) = (sort_keys a = sort_keys b)
    \<and> stableJson (JObj kvs) = stableJson (JObj kvs')"
proof
  show "(stableJson a = stableJson b) = (sort_keys a = sort_keys b)"
    using json_text_inj [OF json_ok_sort_keys json_ok_sort_keys] assms(1,2) by (simp add: stableJson_def)
  let ?f = "\<lambda>(k, v). (k :: string, sort_keys v)"
  have "sort_key fst (map ?f kvs) = sort_key fst (map ?f kvs')"
  proof (rule sort_key_inj_key_eq)
    show "mset (map ?f kvs) = mset (sort_key fst (map ?f kvs'))" using assms(3) by (simp add: mset_map)
    have "distinct (map fst (map ?f kvs))" using assms(4) by (simp add: comp_def case_prod_unfold)
    then show "inj_on fst (set (map ?f kvs))" unfolding distinct_map by blast
    show "sorted (map fst (sort_key fst (map ?f kvs')))" by simp
  qed
  then show "stableJson (JObj kvs) = stableJson (JObj kvs')" by (simp add: stableJson_def)
qed

section \<open>Terminal rows\<close>

lemma map_sum_Some: "map_sum id Some r = Inr x \<longleftrightarrow> (\<exists>y. r = Inr y \<and> x = Some y)"
  by (cases r) auto

text \<open>
  An accepted terminal row is canonical: heads, run and digest are normalized, the disposition
  is set, a clean verdict has no findings, and validating the result again gives the same row.
\<close>
theorem terminal_row_canonical:
  assumes "validateTerminalV2 row = Inr t"
  shows "validateTerminalV2 t = Inr t \<and> is_sha (tv_target_sha t) \<and> 0 \<le> tv_finding_count t
    \<and> tv_disposition t \<in> {Some Consume, Some Non_Consuming_Explicit}
    \<and> (tv_verdict t = Clean \<and> tv_finding_count t = 0 \<or> tv_verdict t = Findings)
    \<and> js_trim (tv_run_id t) = tv_run_id t \<and> tv_run_id t \<noteq> []"
proof -
  from assms have n: "normalize_row row = Inr t" and c: "tv_schema_version row = 1" "tv_contract_version row = 2"
    "tv_source row \<in> {Normal, Conflict_Free_Carryover, Merge_Composite}" "0 \<le> tv_finding_count t"
    "tv_verdict t = Clean \<Longrightarrow> tv_finding_count t = 0"
    "tv_source t = Merge_Composite \<Longrightarrow> check_composite t = Inr ()"
    "tv_source t = Conflict_Free_Carryover \<Longrightarrow> check_carryover t = Inr ()"
    by (auto simp: validateTerminalV2_def rbind_Inr split: if_splits)
  from n have t: "tv_schema_version t = tv_schema_version row" "tv_contract_version t = tv_contract_version row"
    "tv_source t = tv_source row" "is_sha (tv_target_sha t)" "tv_verdict t = Clean \<or> tv_verdict t = Findings"
    "tv_disposition t \<in> {Some Consume, Some Non_Consuming_Explicit}"
    "js_trim (tv_run_id t) = tv_run_id t" "tv_run_id t \<noteq> []"
    "js_trim (tv_findings_digest t) = tv_findings_digest t" "tv_findings_digest t \<noteq> []"
    "pred_option (\<lambda>n. 0 < n) (tv_logical_round t)"
    by (auto simp: normalize_row_def rbind_Inr normalizeSha_Inr nonEmpty_Inr require_Inr positiveInteger_Inr
        validateBudgetDisposition_Inr disposition_known_def blank_def map_sum_Some split: option.splits)
  have "normalize_row t = Inr t"
    using t by (cases "tv_disposition t"; cases "tv_logical_round t")
      (auto simp: normalize_row_def nonEmpty_def normalizeSha_def require_def positiveInteger_def
        validateBudgetDisposition_def sha_of_fixed split: budget_disposition.splits)
  with c t show ?thesis by (auto simp: validateTerminalV2_def)
qed

section \<open>The lock\<close>

text \<open>
  The lock is acquired exactly when one of the attempts finds it free. Otherwise the error
  carries the text of the last attempt, or \<open>unreachable\<close> when the last attempt removed an
  abandoned lock.
\<close>
theorem lock_outcome_exact:
  "acquire_lock attempts probe kill attempt =
     (if \<exists>j \<in> {attempt..<attempts}. probe j = Lock_Free then Inr ()
      else Inl (''authority_lock_timeout'',
        if attempts \<le> attempt then ''unreachable''
        else case probe (attempts - 1) of
               Lock_Free \<Rightarrow> []
             | Lock_Held message owner age \<Rightarrow> if abandonedLock kill owner age then ''unreachable'' else message))"
proof (induction attempts probe kill attempt rule: acquire_lock.induct)
  case (1 attempts probe kill attempt)
  show ?case
  proof (cases "attempt < attempts")
    case True
    then have split: "{attempt..<attempts} = insert attempt {Suc attempt..<attempts}" by auto
    show ?thesis
    proof (cases "probe attempt")
      case Lock_Free
      with True split show ?thesis by (simp add: acquire_lock.simps [of attempts])
    next
      case held: (Lock_Held message owner age)
      show ?thesis
      proof (cases "Suc attempt = attempts")
        case True
        then have "attempts - 1 = attempt" "{Suc attempt..<attempts} = {}" by auto
        with True held split 1 show ?thesis by (simp add: acquire_lock.simps [of attempts])
      next
        case False
        with True have "Suc attempt < attempts" by simp
        with True held split 1 show ?thesis by (simp add: acquire_lock.simps [of attempts _ _ attempt])
      qed
    qed
  qed (simp add: acquire_lock.simps [of attempts])
qed

end
