(* ===== verification/Review_Samples.thy ===== *)
theory Review_Samples
  imports Review_Properties Review_Outcomes
begin

text \<open>
  A concrete run of the review authority, on which the properties are applied, and three places
  where the code does less than it says.
\<close>

section \<open>A concrete environment\<close>

definition head_a :: string where "head_a = replicate 40 CHR ''a''"
definition head_b :: string where "head_b = replicate 40 CHR ''b''"

definition sample_env :: review_env where
  "sample_env = \<lparr>ev_now = ''2026-01-01T00:00:00.000Z'', ev_uuid = ''u-1'',
     ev_sha256 = (\<lambda>s. replicate 64 CHR ''c''), ev_lock_attempts = None, ev_probe = (\<lambda>_. Lock_Free),
     ev_kill = (\<lambda>_. Kill_Ok)\<rparr>"

lemma sample_lock: "withPackReviewAuthorityLock sample_env action = action"
  by (simp add: withPackReviewAuthorityLock_def sample_env_def acquire_lock.simps [of 400])

definition sample_cycle :: review_cycle where
  "sample_cycle =
     \<lparr>cy_cycle_id = ''cycle-u1'', cy_amendment_origin = None, cy_state = Open, cy_frozen_tier = T2, cy_frozen_cap = 1,
      cy_cap_map = Logical_Map, cy_frozen_map_origin = None, cy_opened_at = ''2026-01-01T00:00:00.000Z'',
      cy_closed_at = None, cy_consumed_heads = [], cy_consumed_rounds = Some [], cy_at_cap_hash = None,
      cy_stage_complete = None, cy_stage_completed_at = None, cy_settlement_kind = None,
      cy_review_start_consumed = None, cy_reset_provenance = None\<rparr>"

definition sample_document :: authority_document where
  "sample_document =
     \<lparr>ad_schema_version = 1, ad_pr_number = 7, ad_transition_seq = 0, ad_phase = Head_Observed,
      ad_head_sha = head_a, ad_updated_at = ''2026-01-01T00:00:00.000Z'', ad_terminal = None,
      ad_cycle = Some sample_cycle, ad_evidence = None, ad_triage = None, ad_publication = None, ad_smoke = None\<rparr>"

definition store_0 :: review_store where "store_0 = put sample_document empty_store"

lemma sample_initial:
  "createInitialPackReviewAuthority sample_env 7 head_a T2 None (Some Logical_Map) = Inr sample_document"
  by code_simp

lemma sample_document_valid: "validateAuthority sample_document = Inr ()"
  by code_simp

lemma initialize_sample:
  "perform sample_env (\<lambda>_. other) (Initialize 7 head_a T2 None None) empty_store = Inr (sample_document, store_0)"
  using sample_initial sample_document_valid
  by (simp add: initializePackReviewAuthority_def sample_lock readAuthorityUnlocked_def positiveInteger_def
      empty_store_def writeAuthorityUnlocked_def store_0_def put_def)

section \<open>A run\<close>

definition outcome :: "authority_error + authority_document \<times> review_store \<Rightarrow> authority_document" where
  "outcome r = fst (projr r)"

definition after :: "authority_error + authority_document \<times> review_store \<Rightarrow> review_store" where
  "after r = snd (projr r)"

lemma outcome_after: "\<not> isl r \<Longrightarrow> r = Inr (outcome r, after r)"
  by (cases r) (simp_all add: outcome_def after_def)

definition sample_row :: terminal_v2 where
  "sample_row =
     \<lparr>tv_schema_version = 1, tv_contract_version = 2, tv_source = Normal, tv_disposition = None, tv_run_id = ''r1'',
      tv_target_sha = head_a, tv_logical_round = Some 1, tv_verdict = Findings, tv_finding_count = 2,
      tv_findings_digest = ''fd'', tv_delivery_digest = None, tv_source_clean_run_id = None, tv_source_head_sha = None,
      tv_merge_base_sha = None, tv_main_sha = None, tv_ordered_parents = None, tv_replay_digest = None,
      tv_bundle_digest = None, tv_helper_version = None, tv_focused_run_id = None, tv_focused_verdict = None\<rparr>"

definition sample_input :: terminal_input where
  "sample_input = \<lparr>ti_status = ''changes_requested'', ti_finding_count = Some 2, ti_failure_class = None,
     ti_reaper_killed = False, ti_superseded = False, ti_stale = False\<rparr>"

definition sample_terminal :: terminal_v2 where
  "sample_terminal = sample_row\<lparr>tv_disposition := Some Consume\<rparr>"

lemma sample_row_valid: "validateTerminalV2 sample_row = Inr sample_terminal"
  by code_simp

definition with_record :: "json \<Rightarrow> review_store \<Rightarrow> review_store" where
  "with_record v store = store\<lparr>rs_immutable :=
     [((Terminal_Record, ''r1''), \<lparr>im_bytes = stableJson v @ line_feed, im_value = Some (sort_keys v)\<rparr>)]\<rparr>"

definition digest_c :: string where "digest_c = replicate 64 CHR ''c''"

lemma sha_sample: "ev_sha256 sample_env s = digest_c"
  by (simp add: sample_env_def digest_c_def)

lemma key_r1: "nonEmpty ''r1'' ''key'' = Inr ''r1'' \<and> list_all immutable_key_char ''r1''"
  by code_simp

lemma stage_sample:
  "stagePackReviewImmutableRecord sample_env store_0 Terminal_Record ''r1'' v =
     Inr (\<lparr>sr_id = ''terminal-r1'', sr_digest = digest_c, sr_created = True\<rparr>, with_record v store_0)"
  using key_r1 by (simp add: stagePackReviewImmutableRecord_def sample_lock sha_sample with_record_def Let_def
      store_0_def put_def empty_store_def)

lemma phase_order: "phaseIndex Terminal_And_Cap_Committed = Inr 3" "phaseIndex Head_Observed = Inr 0"
  by code_simp+

text \<open>A transition that passes every check.\<close>

lemma commit_intro:
  assumes "rs_docs store 7 = Some (Document d)" "validateAuthority d = Inr ()" "ad_transition_seq d = seq"
    and "mutate d = Inr nxt" "ad_pr_number d = 7" "ad_pr_number nxt = 7" "ad_schema_version nxt = 1"
    and "phaseIndex (ad_phase d) = Inr i" "phaseIndex phase = Inr j" "i \<le> j \<or> phase = Head_Observed"
    and "validateAuthority (stamp sample_env phase d nxt) = Inr ()"
  shows "commitPackReviewAuthorityTransition sample_env store 7 seq phase mutate
    = Inr (stamp sample_env phase d nxt, put (stamp sample_env phase d nxt) store)"
proof -
  have "readAuthorityUnlocked store 7 = Inr (Some d)"
    using assms(1,2) by (simp add: readAuthorityUnlocked_def positiveInteger_def)
  moreover have "\<not> (j < i \<and> phase \<noteq> Head_Observed)" using assms(10) by auto
  ultimately show ?thesis
    using assms(3-9,11) by (simp add: commitPackReviewAuthorityTransition_def sample_lock Let_def stamp_def
        writeAuthorityUnlocked_def put_def)
qed

text \<open>The findings terminal spends the only round of the cap.\<close>

definition cycle_1 :: review_cycle where
  "cycle_1 = sample_cycle\<lparr>cy_consumed_heads := [head_a], cy_consumed_rounds := Some [1],
     cy_state := At_Cap_Open_Findings, cy_at_cap_hash := Some digest_c\<rparr>"

definition doc_1 :: authority_document where
  "doc_1 = stamp sample_env Terminal_And_Cap_Committed sample_document
     (sample_document\<lparr>ad_terminal := Some (committed_terminal sample_terminal digest_c ''changes_requested''),
        ad_cycle := Some cycle_1\<rparr>)"

definition store_1 :: review_store where
  "store_1 = put doc_1 (with_record (terminal_json sample_terminal) store_0)"

lemma doc_1_valid: "validateAuthority doc_1 = Inr ()"
  by code_simp

lemma terminal_sample:
  "terminal_mutate sample_env sample_terminal digest_c sample_input sample_document
     = Inr (sample_document\<lparr>ad_terminal := Some (committed_terminal sample_terminal digest_c ''changes_requested''),
         ad_cycle := Some cycle_1\<rparr>)"
proof -
  have "consumes_slot sample_terminal sample_input" by code_simp
  then show ?thesis
    by (simp add: terminal_mutate_def sample_document_def sample_cycle_def sample_terminal_def sample_row_def
        downgrade_cycle_def isLogicalRoundCycle_def consume_slot_def add_head_def move_cycle_def terminal_settles_def
        cycleConsumedCount_def at_cap_hash_def sha_sample sample_input_def committed_terminal_def cycle_1_def)
qed

lemma commit_sample:
  "perform sample_env (\<lambda>_. with_record (terminal_json sample_terminal) store_0)
     (Commit_Terminal 7 0 sample_row sample_input) store_0 = Inr (doc_1, store_1)"
proof -
  let ?s = "with_record (terminal_json sample_terminal) store_0"
  have run: "tv_run_id sample_terminal = ''r1''" by (simp add: sample_terminal_def sample_row_def)
  have "commitPackReviewAuthorityTransition sample_env ?s 7 0 Terminal_And_Cap_Committed
      (terminal_mutate sample_env sample_terminal digest_c sample_input) = Inr (doc_1, store_1)"
    unfolding doc_1_def store_1_def
    by (rule commit_intro [where i = 0 and j = 3])
      (use doc_1_valid sample_document_valid in \<open>simp_all add: terminal_sample phase_order doc_1_def
         with_record_def store_0_def put_def, simp_all add: sample_document_def phase_order\<close>)
  then show ?thesis by (simp add: commitPackReviewTerminal_def sample_row_valid run stage_sample)
qed

text \<open>A new head, the settlement of the findings by it, and an amended body.\<close>

definition doc_2 :: authority_document where
  "doc_2 = stamp sample_env Head_Observed doc_1
     (clear_outcomes (doc_1\<lparr>ad_head_sha := head_b, ad_cycle := Some (cycle_1\<lparr>cy_state := At_Cap_Continuation_Required\<rparr>)\<rparr>))"

definition cycle_3 :: review_cycle where
  "cycle_3 = cycle_1\<lparr>cy_state := Closed, cy_closed_at := Some (ev_now sample_env), cy_at_cap_hash := None,
     cy_stage_complete := Some True, cy_stage_completed_at := Some (ev_now sample_env)\<rparr>"

definition doc_3 :: authority_document where
  "doc_3 = stamp sample_env Head_Observed doc_2 (clear_outcomes (doc_2\<lparr>ad_cycle := Some cycle_3\<rparr>))"

definition store_2 where "store_2 = put doc_2 store_1"
definition store_3 where "store_3 = put doc_3 store_2"

lemma docs_valid: "validateAuthority doc_2 = Inr ()" "validateAuthority doc_3 = Inr ()"
  by code_simp+

lemma heads_ok: "normalizeSha head_a l = Inr head_a" "normalizeSha head_b l = Inr head_b" "head_a \<noteq> head_b"
proof -
  have "sha_of head_a = head_a \<and> is_sha head_a \<and> sha_of head_b = head_b \<and> is_sha head_b" "head_a \<noteq> head_b"
    by code_simp+
  then show "normalizeSha head_a l = Inr head_a" "normalizeSha head_b l = Inr head_b" "head_a \<noteq> head_b"
    by (simp_all add: normalizeSha_def)
qed

lemmas doc_defs = doc_1_def doc_2_def doc_3_def cycle_1_def cycle_3_def sample_document_def sample_cycle_def
  stamp_def clear_outcomes_def

lemma observe_sample: "perform sample_env (\<lambda>_. store_1) (Observe 7 1 head_b None) store_1 = Inr (doc_2, store_2)"
proof -
  have "commitPackReviewAuthorityTransition sample_env store_1 7 1 Head_Observed (observe_mutate sample_env head_b None)
      = Inr (doc_2, store_2)"
    unfolding doc_2_def store_2_def
    by (rule commit_intro [where i = 3 and j = 0])
      (use doc_1_valid docs_valid heads_ok in \<open>simp_all add: store_1_def put_def doc_2_def phase_order, simp_all add: doc_defs
        observe_mutate_def complete_on_new_head_def stage_done_on_new_head_def stage_complete_def with_cycle_def
        at_cap_states_def phase_order\<close>)
  then show ?thesis by (simp add: observePackReviewHead_def heads_ok)
qed

lemma settle_sample:
  "settleLogicalPackReviewFindingsByStrictDescendant sample_env store_2 7 2 head_a head_b True None None
     = Inr (doc_3, store_3)"
proof -
  have "commitPackReviewAuthorityTransition sample_env store_2 7 2 Head_Observed
      (descendant_mutate sample_env head_a head_b None) = Inr (doc_3, store_3)"
    unfolding doc_3_def store_3_def
    by (rule commit_intro [where i = 0 and j = 0])
      (use docs_valid in \<open>simp_all add: store_2_def put_def doc_3_def phase_order, simp_all add: doc_defs
        descendant_mutate_def at_cap_states_def isLogicalRoundCycle_def cycleConsumedCount_def committed_terminal_def
        sample_terminal_def sample_row_def markReviewStageComplete_def stage_complete_def phase_order\<close>)
  then show ?thesis
    by (simp add: settleLogicalPackReviewFindingsByStrictDescendant_def heads_ok
        packReviewFindingsSatisfiedByStrictDescendant_def)
qed

definition body_1 :: string where "body_1 = ''sha256:'' @ replicate 64 CHR ''d''"
definition body_2 :: string where "body_2 = ''sha256:'' @ replicate 64 CHR ''e''"

definition amended_origin :: amendment_origin where
  "amended_origin = \<lparr>ao_original_terminal_run_id = ''r1'', ao_original_cycle_id = ''cycle-u1'',
     ao_previous_cycle_id = ''cycle-u1'', ao_previous_terminal_run_id = ''r1'', ao_closing_issue_number = 5,
     ao_reviewed_body_digest = body_1, ao_amended_body_digest = body_2, ao_previously_admitted = [body_1]\<rparr>"

definition doc_4 :: authority_document where
  "doc_4 = stamp sample_env Head_Observed doc_3 (clear_terminal_outcomes (doc_3\<lparr>ad_cycle := Some
     (sample_cycle\<lparr>cy_amendment_origin := Some amended_origin\<rparr>)\<rparr>))"

definition store_4 where "store_4 = put doc_4 store_3"

lemma doc_4_valid: "validateAuthority doc_4 = Inr ()"
  by code_simp

lemma amended_cycle_sample:
  "createNewPackReviewCycle sample_env T2 (Some Logical_Map) (Some amended_origin) None
     = Inr (sample_cycle\<lparr>cy_amendment_origin := Some amended_origin\<rparr>)"
  by (simp add: createNewPackReviewCycle_def sample_cycle_def sample_env_def fresh_cycle_id_def)

lemma amend_sample:
  "beginPackReviewBodyAmendmentContinuation sample_env store_3 7 3 head_b 5 ''r1'' body_1 body_2 = Inr (doc_4, store_4)"
proof -
  have bodies: "body_1 \<noteq> body_2" by code_simp
  have m: "amendment_mutate sample_env head_b 5 ''r1'' body_1 body_2 doc_3
      = Inr (clear_terminal_outcomes (doc_3\<lparr>ad_cycle := Some (sample_cycle\<lparr>cy_amendment_origin := Some amended_origin\<rparr>)\<rparr>))"
    using amended_cycle_sample bodies
    by (simp add: amendment_mutate_def amendment_eligible_def doc_defs isLogicalRoundCycle_def cycleConsumedCount_def
        committed_terminal_def sample_terminal_def sample_row_def amended_origin_def)
  have "commitPackReviewAuthorityTransition sample_env store_3 7 3 Head_Observed
      (amendment_mutate sample_env head_b 5 ''r1'' body_1 body_2) = Inr (doc_4, store_4)"
    unfolding doc_4_def store_4_def
    by (rule commit_intro [where i = 0 and j = 0])
      (use docs_valid doc_4_valid m in \<open>simp_all add: store_3_def put_def doc_4_def phase_order, simp_all add: doc_defs
        clear_terminal_outcomes_def phase_order\<close>)
  then show ?thesis by (simp add: beginPackReviewBodyAmendmentContinuation_def heads_ok bodies)
qed

section \<open>The stores of the run\<close>

lemma terminal_run: "tv_run_id sample_terminal = ''r1''"
  by (simp add: sample_terminal_def sample_row_def)

lemma run_reachable: "reachable store_0" "evolves store_0 store_1" "reachable store_1" "reachable store_2" "reachable store_3"
proof -
  show 0: "reachable store_0"
    unfolding reachable_def
    by (rule evolves.performed [OF evolves.same _ initialize_sample [of empty_store]]) (simp add: evolves.same)
  show 01: "evolves store_0 store_1"
    by (rule evolves.performed [OF evolves.same _ commit_sample])
      (simp add: sample_row_valid stage_sample evolves.same terminal_run)
  show 1: "reachable store_1"
    using 0 unfolding reachable_def
    by (rule evolves.performed [OF _ _ commit_sample])
      (simp add: sample_row_valid stage_sample evolves.same terminal_run)
  show 2: "reachable store_2"
    using 1 unfolding reachable_def by (rule evolves.performed [OF _ _ observe_sample]) (simp add: evolves.same)
  have p: "perform sample_env (\<lambda>_. store_2) (Settle_Descendant 7 2 head_a head_b True None None) store_2
      = Inr (doc_3, store_3)" by (simp add: settle_sample)
  show "reachable store_3"
    using 2 unfolding reachable_def by (rule evolves.performed [OF _ _ p]) (simp add: evolves.same)
qed

lemma run_docs:
  "rs_docs store_0 7 = Some (Document sample_document)" "rs_docs store_1 7 = Some (Document doc_1)"
  "rs_docs store_2 7 = Some (Document doc_2)" "rs_docs store_3 7 = Some (Document doc_3)"
  by (simp_all add: store_0_def store_1_def store_2_def store_3_def put_def doc_defs)

lemma run_moves: "store_2 \<noteq> store_1" "ad_pr_number doc_2 = 7" "ad_cycle doc_1 = Some cycle_1"
    "ad_terminal doc_2 = Some (committed_terminal sample_terminal digest_c ''changes_requested'')"
proof -
  have "ad_transition_seq doc_2 = 2" "ad_transition_seq doc_1 = 1" by (simp_all add: doc_defs)
  then show "store_2 \<noteq> store_1" using run_docs(2,3) by auto
qed (simp_all add: doc_defs)

section \<open>The properties on the run\<close>

lemma reachable_documents_valid_witness:
  "\<exists>d. Document doc_3 = Document d \<and> ad_pr_number d = 7 \<and> validateAuthority d = Inr () \<and> is_sha (ad_head_sha d)
    \<and> (case ad_cycle d of None \<Rightarrow> True | Some c \<Rightarrow> cycleConsumedCount c \<le> cy_frozen_cap c)"
  by (rule reachable_documents_valid [OF run_reachable(5) run_docs(4)])

lemma logical_cycle_closes_full_witness: "stage_complete cycle_3 \<and> cycleConsumedCount cycle_3 = cy_frozen_cap cycle_3"
  by (rule logical_cycle_closes_full [OF run_reachable(5) run_docs(4)])
    (simp_all add: doc_defs isLogicalRoundCycle_def)

lemma history_is_linear_witness:
  "\<exists>d'. rs_docs store_1 7 = Some (Document d') \<and> ad_transition_seq sample_document \<le> ad_transition_seq d'
    \<and> (ad_transition_seq d' = ad_transition_seq sample_document \<longrightarrow> d' = sample_document)"
  by (rule history_is_linear [OF run_reachable(1,2) run_docs(1)])

lemma operation_discipline_witness:
  "store_2 = put doc_2 (seen (Observe 7 1 head_b None) store_1 store_1)
    \<and> (case doc_at (seen (Observe 7 1 head_b None) store_1 store_1) (ad_pr_number doc_2) of
         None \<Rightarrow> ad_transition_seq doc_2 = 0 \<and> ad_phase doc_2 = Head_Observed
       | Some d \<Rightarrow> ad_transition_seq doc_2 = ad_transition_seq d + 1
           \<and> (phase_rank (ad_phase d) \<le> phase_rank (ad_phase doc_2) \<or> ad_phase doc_2 = Head_Observed))"
  by (rule operation_discipline [OF run_reachable(3) _ observe_sample run_moves(1)]) (simp add: evolves.same)

lemma cycle_history_witness:
  "\<exists>c'. ad_cycle doc_2 = Some c'
    \<and> (fresh_cycle sample_env c' \<or> cycle_extends cycle_1 c' \<and> cy_frozen_cap cycle_1 \<le> cy_frozen_cap c'
          \<and> (if cy_cap_map c' = cy_cap_map cycle_1 then cycleConsumedCount cycle_1 \<le> cycleConsumedCount c'
             else isLogicalRoundCycle cycle_1 \<and> cy_cap_map c' = Cap_Map \<and> cy_consumed_rounds c' = None))"
  by (rule cycle_history [OF run_reachable(3) _ observe_sample run_moves(1) _ run_moves(3)])
    (simp_all add: evolves.same run_docs run_moves)

lemma findings_outrank_clean_witness:
  "(case ad_terminal doc_1 of None \<Rightarrow> True
      | Some t \<Rightarrow> \<not> (at_verdict t = Findings
          \<and> at_target_sha t = at_target_sha (committed_terminal sample_terminal digest_c ''changes_requested'')
          \<and> at_verdict (committed_terminal sample_terminal digest_c ''changes_requested'') = Clean))
    \<and> (if ad_terminal doc_1 = Some (committed_terminal sample_terminal digest_c ''changes_requested'') then True
       else at_target_sha (committed_terminal sample_terminal digest_c ''changes_requested'') = ad_head_sha doc_1)"
  by (rule findings_outrank_clean [OF run_reachable(3) _ observe_sample run_moves(1) _ run_moves(4)])
    (simp_all add: evolves.same run_docs run_moves)

lemma one_writer_wins_witness:
  "\<exists>code detail. commitPackReviewAuthorityTransition sample_env store_2 7 1 Head_Observed Inr = Inl (code, detail)
    \<and> (code = ''authority_transition_conflict'' \<or> code = ''authority_lock_timeout'')"
  by (rule one_writer_wins [OF run_reachable(3)])
    (use observe_sample in \<open>simp add: observePackReviewHead_def heads_ok\<close>)

lemma slot_spent_once_witness:
  "consume_slot sample_terminal (sample_cycle\<lparr>cy_consumed_rounds := Some [1], cy_consumed_heads := [head_a]\<rparr>)
      = Inr (sample_cycle\<lparr>cy_consumed_rounds := Some [1], cy_consumed_heads := [head_a]\<rparr>)
    \<and> (cycleConsumedCount (sample_cycle\<lparr>cy_consumed_rounds := Some [1], cy_consumed_heads := [head_a]\<rparr>)
        = cycleConsumedCount sample_cycle
       \<or> cycleConsumedCount (sample_cycle\<lparr>cy_consumed_rounds := Some [1], cy_consumed_heads := [head_a]\<rparr>)
        = cycleConsumedCount sample_cycle + 1 \<and> cycleConsumedCount sample_cycle < cy_frozen_cap sample_cycle)"
proof (rule slot_spent_once)
  show "consume_slot sample_terminal sample_cycle
      = Inr (sample_cycle\<lparr>cy_consumed_rounds := Some [1], cy_consumed_heads := [head_a]\<rparr>)"
    by (simp add: consume_slot_def sample_terminal_def sample_row_def sample_cycle_def isLogicalRoundCycle_def add_head_def)
  show "cycle_ok sample_cycle"
    using sample_document_valid [folded] by (simp add: validateAuthority_ok authority_ok_def sample_document_def)
qed (simp add: sample_terminal_def sample_row_def)

lemma findings_settlement_witness:
  "\<exists>d c t c'. rs_docs store_2 7 = Some (Document d) \<and> ad_cycle d = Some c \<and> ad_terminal d = Some t
    \<and> isLogicalRoundCycle c \<and> at_verdict t = Findings \<and> at_target_sha t = sha_of head_a
    \<and> ad_head_sha d = sha_of head_b
    \<and> ad_terminal doc_3 = Some t \<and> ad_evidence doc_3 = None \<and> ad_triage doc_3 = None \<and> ad_publication doc_3 = None
    \<and> ad_phase doc_3 = Head_Observed \<and> ad_cycle doc_3 = Some c' \<and> cy_at_cap_hash c' = None
    \<and> (if cycleConsumedCount c < cy_frozen_cap c then cy_state c = Open_Findings \<and> cy_state c' = Open
       else cy_state c \<in> at_cap_states \<and> cy_state c' = Closed \<and> stage_complete c')"
  by (rule findings_settlement [OF settle_sample])

lemma amendment_admits_new_body_witness:
  "\<exists>d c t c' origin. rs_docs store_3 7 = Some (Document d) \<and> ad_cycle d = Some c \<and> ad_terminal d = Some t
    \<and> isLogicalRoundCycle c \<and> cycleConsumedCount c = cy_frozen_cap c \<and> at_run_id t = ''r1''
    \<and> ad_cycle doc_4 = Some c' \<and> cy_frozen_cap c' = 1 \<and> cycleConsumedCount c' = 0 \<and> ad_terminal doc_4 = None
    \<and> cy_amendment_origin c' = Some origin \<and> ao_amended_body_digest origin = body_2
    \<and> ao_previous_cycle_id origin = cy_cycle_id c \<and> body_2 \<notin> set (ao_previously_admitted origin)
    \<and> body_1 \<in> set (ao_previously_admitted origin) \<and> distinct (ao_previously_admitted origin)
    \<and> (case cy_amendment_origin c of None \<Rightarrow> True
       | Some old \<Rightarrow> ao_previously_admitted origin = ao_previously_admitted old @ [ao_amended_body_digest old])"
  by (rule amendment_admits_new_body [OF amend_sample])

lemma staged_record_immutable_witness:
  "digest_c = ev_sha256 sample_env (stableJson JNull @ line_feed)
    \<and> (\<exists>entry. map_of (rs_immutable (with_record JNull store_0)) (Terminal_Record, js_trim ''r1'') = Some entry
        \<and> ev_sha256 sample_env (im_bytes entry) = digest_c)
    \<and> (case stagePackReviewImmutableRecord sample_env (with_record JNull store_0) Terminal_Record ''r1'' (JInt 1) of
         Inl e \<Rightarrow> True | Inr (r2, store3) \<Rightarrow> sr_digest r2 = digest_c)"
  using staged_record_immutable [OF stage_sample [of JNull] evolves.same, of "JInt 1"]
  by (simp only: staged_record.simps)

lemma stableJson_canonical_witness:
  "(stableJson (JInt 1) = stableJson (JStr ''1'')) = (sort_keys (JInt 1) = sort_keys (JStr ''1''))
    \<and> stableJson (JObj [(''b'', JNull), (''a'', JInt 2)]) = stableJson (JObj [(''a'', JInt 2), (''b'', JNull)])"
  by (rule stableJson_canonical) simp_all

lemma terminal_row_canonical_witness:
  "validateTerminalV2 sample_terminal = Inr sample_terminal \<and> is_sha (tv_target_sha sample_terminal)
    \<and> 0 \<le> tv_finding_count sample_terminal
    \<and> tv_disposition sample_terminal \<in> {Some Consume, Some Non_Consuming_Explicit}
    \<and> (tv_verdict sample_terminal = Clean \<and> tv_finding_count sample_terminal = 0 \<or> tv_verdict sample_terminal = Findings)
    \<and> js_trim (tv_run_id sample_terminal) = tv_run_id sample_terminal \<and> tv_run_id sample_terminal \<noteq> []"
  by (rule terminal_row_canonical [OF sample_row_valid])

section \<open>Where the code does less than it says\<close>

lemma reopened_settlement_valid: "validateAuthority (stamp sample_env Head_Observed doc_1 (clear_outcomes (doc_1\<lparr>ad_cycle := Some cycle_3\<rparr>))) = Inr ()"
  by code_simp

text \<open>
  With an ancestry anchor, findings are settled on the very head they were found on: the anchor
  replaces the reviewed head in the test for a strict descendant.
\<close>
theorem anchor_settles_reviewed_head:
  "case settleLogicalPackReviewFindingsByStrictDescendant sample_env store_1 7 1 head_a head_a True (Some head_b) None of
     Inl e \<Rightarrow> False
   | Inr (d, store) \<Rightarrow> ad_head_sha d = head_a \<and> ad_terminal d = ad_terminal doc_1 \<and> ad_cycle d = Some cycle_3
       \<and> cy_state cycle_3 = Closed"
proof -
  let ?n = "clear_outcomes (doc_1\<lparr>ad_cycle := Some cycle_3\<rparr>)"
  have "commitPackReviewAuthorityTransition sample_env store_1 7 1 Head_Observed (descendant_mutate sample_env head_a head_a None)
      = Inr (stamp sample_env Head_Observed doc_1 ?n, put (stamp sample_env Head_Observed doc_1 ?n) store_1)"
    by (rule commit_intro [where i = 3 and j = 0])
      (use doc_1_valid reopened_settlement_valid in \<open>simp_all add: store_1_def put_def phase_order, simp_all add: doc_defs
        descendant_mutate_def at_cap_states_def isLogicalRoundCycle_def cycleConsumedCount_def committed_terminal_def
        sample_terminal_def sample_row_def markReviewStageComplete_def stage_complete_def phase_order\<close>)
  then show ?thesis
    using heads_ok by (simp add: settleLogicalPackReviewFindingsByStrictDescendant_def
        packReviewFindingsSatisfiedByStrictDescendant_def) (simp add: doc_defs)
qed

text \<open>
  The tier check of \<open>validateCycle\<close> lets a name through that every object inherits: a cycle
  frozen at the tier \<open>toString\<close> is valid.
\<close>
theorem inherited_name_passes_as_tier:
  "validateCycle (Some (sample_cycle\<lparr>cy_frozen_tier := Unknown_Tier ''toString'', cy_cap_map := Legacy_Map,
      cy_frozen_map_origin := Some ''persisted-open-cycle'', cy_consumed_rounds := None\<rparr>)) = Inr ()"
  by code_simp

text \<open>
  The promotion of an amended cycle to T3 writes the cap of T3, which validation refuses for an
  amended cycle: the reconciliation fails, and keeps failing, instead of keeping or raising the tier.
\<close>
theorem amended_cycle_promotion_fails:
  "reconcilePackReviewTier sample_env (\<lambda>s. s) store_4 7 T3 (Some True) None
     = Inl (''cap_state_invalid'', ''current-map cycle has mismatched discriminator'')"
proof -
  let ?c = "sample_cycle\<lparr>cy_amendment_origin := Some amended_origin\<rparr>"
  let ?p = "doc_4\<lparr>ad_cycle := Some (?c\<lparr>cy_frozen_tier := T3, cy_frozen_cap := 2\<rparr>)\<rparr>"
  have read: "readAuthorityUnlocked store_4 7 = Inr (Some doc_4)"
    using doc_4_valid by (simp add: readAuthorityUnlocked_def positiveInteger_def store_4_def put_def)
      (simp add: doc_4_def doc_defs clear_terminal_outcomes_def)
  have c: "ad_cycle doc_4 = Some ?c" "ad_phase doc_4 = Head_Observed" "ad_pr_number doc_4 = 7" "ad_schema_version doc_4 = 1"
    "ad_transition_seq doc_4 = 4"
    by (simp_all add: doc_4_def doc_defs clear_terminal_outcomes_def)
  have m: "promote_mutate sample_env T3 ?c doc_4 = Inr ?p"
    by (simp add: promote_mutate_def c stage_complete_def sample_cycle_def finding_states_def cap_value_def)
  have v: "validateAuthority (?p\<lparr>ad_phase := Head_Observed, ad_transition_seq := 5, ad_updated_at := ev_now sample_env\<rparr>)
      = Inl (''cap_state_invalid'', ''current-map cycle has mismatched discriminator'')"
    by code_simp
  have s: "\<not> safely_replaceable doc_4 ?c (Some True) None" by (simp add: safely_replaceable_def)
  have t: "cy_frozen_tier ?c = T2" "\<not> stage_complete ?c" "cy_state ?c = Open" "isLogicalRoundCycle ?c"
    by (simp_all add: sample_cycle_def stage_complete_def isLogicalRoundCycle_def)
  show ?thesis
    by (simp add: reconcilePackReviewTier_def readPackReviewAuthority_def sample_lock read c s t num_le_def
        commitPackReviewAuthorityTransition_def m phase_order v Let_def)
qed

end
