(* ===== verification/Crash_Backoff.thy ===== *)
theory Crash_Backoff
  imports Js_Number
begin

text \<open>
  The crash backoff of a supervised child, \<open>scripts/runtime/crash-backoff.ts\<close>. Times are
  milliseconds as integers. The specification counts the rapid exits at the end of a history; the
  transition function implements it.
\<close>

section \<open>Policy and state\<close>

record crash_policy =
  cp_rapid_threshold :: int
  cp_max_rapid :: int
  cp_terminal :: int
  cp_base :: int
  cp_max :: int

record crash_state =
  cs_rapid :: int
  cs_backoff_until :: int
  cs_last_exit :: int
  cs_terminal :: bool
  cs_terminal_reason :: "string option"

datatype decision_reason = Restart_Allowed | Backoff | Terminal_Reason

record crash_decision = crash_state +
  cd_restart_allowed :: bool
  cd_reason :: decision_reason
  cd_wait :: int

definition env_integer :: "string option \<Rightarrow> int \<Rightarrow> int \<Rightarrow> int" where
  "env_integer value fallback minimum =
     (case number_integer (map_option JStr value) of
        None \<Rightarrow> fallback
      | Some parsed \<Rightarrow> if minimum \<le> parsed then parsed else fallback)"

definition crashBackoffPolicyFromEnv :: "(string \<Rightarrow> string option) \<Rightarrow> crash_policy" where
  "crashBackoffPolicyFromEnv env =
     \<lparr>cp_rapid_threshold = env_integer (env ''OPK_SUPERVISOR_CRASH_RAPID_EXIT_THRESHOLD_MS'') 5000 1000,
      cp_max_rapid = env_integer (env ''OPK_SUPERVISOR_CRASH_MAX_RAPID_EXITS'') 3 1,
      cp_terminal = env_integer (env ''OPK_SUPERVISOR_CRASH_TERMINAL_RAPID_EXITS'') 12 2,
      cp_base = env_integer (env ''OPK_SUPERVISOR_CRASH_BASE_BACKOFF_MS'') 30000 1,
      cp_max = env_integer (env ''OPK_SUPERVISOR_CRASH_MAX_BACKOFF_MS'') 600000 1\<rparr>"

definition EMPTY_CRASH_BACKOFF_STATE :: crash_state where
  "EMPTY_CRASH_BACKOFF_STATE =
     \<lparr>cs_rapid = 0, cs_backoff_until = 0, cs_last_exit = 0, cs_terminal = False, cs_terminal_reason = None\<rparr>"

section \<open>Transitions\<close>

record child_exit =
  ce_started :: int
  ce_exited :: int
  ce_progress :: "bool option"

definition isRapidExit :: "crash_policy \<Rightarrow> child_exit \<Rightarrow> bool" where
  "isRapidExit policy input =
     (if ce_progress input = Some True then False
      else if ce_started input \<le> 0 \<or> ce_exited input \<le> ce_started input then True
      else if ce_progress input = Some False then True
      else ce_exited input - ce_started input < cp_rapid_threshold policy)"

definition crashBackoffDurationMs :: "int \<Rightarrow> crash_policy \<Rightarrow> int" where
  "crashBackoffDurationMs rapidExits policy =
     (if rapidExits < cp_max_rapid policy then 0
      else
        let exponent = min 10 (rapidExits - cp_max_rapid policy)
        in min (cp_max policy) (cp_base policy * 2 ^ nat exponent))"

text \<open>\<open>{...state, restartAllowed, reason, waitMs}\<close>.\<close>

definition decide :: "crash_state \<Rightarrow> bool \<Rightarrow> decision_reason \<Rightarrow> int \<Rightarrow> crash_decision" where
  "decide state allowed reason wait =
     \<lparr>cs_rapid = cs_rapid state, cs_backoff_until = cs_backoff_until state, cs_last_exit = cs_last_exit state,
      cs_terminal = cs_terminal state, cs_terminal_reason = cs_terminal_reason state,
      cd_restart_allowed = allowed, cd_reason = reason, cd_wait = wait\<rparr>"

definition recordChildExit :: "crash_policy \<Rightarrow> crash_state option \<Rightarrow> child_exit \<Rightarrow> crash_decision" where
  "recordChildExit policy previous_state input =
     (let previous = (case previous_state of None \<Rightarrow> EMPTY_CRASH_BACKOFF_STATE | Some s \<Rightarrow> s) in
      if cs_terminal previous then decide previous False Terminal_Reason 0
      else
        let rapid = isRapidExit policy input;
            rapidExits = (if rapid then cs_rapid previous + 1 else 0)
        in if cp_terminal policy \<le> rapidExits
           then decide \<lparr>cs_rapid = rapidExits, cs_backoff_until = 0, cs_last_exit = ce_exited input, cs_terminal = True,
                        cs_terminal_reason = Some (''crash_loop:'' @ show_int rapidExits @ ''_rapid_exits'')\<rparr>
                  False Terminal_Reason 0
           else
             let waitMs = crashBackoffDurationMs rapidExits policy
             in decide \<lparr>cs_rapid = rapidExits,
                        cs_backoff_until = (if 0 < waitMs then ce_exited input + waitMs else 0),
                        cs_last_exit = ce_exited input, cs_terminal = False, cs_terminal_reason = None\<rparr>
                  (waitMs = 0) (if waitMs = 0 then Restart_Allowed else Backoff) waitMs)"

definition restartDecisionAt :: "crash_state \<Rightarrow> int \<Rightarrow> crash_decision" where
  "restartDecisionAt state nowMs =
     (if cs_terminal state then decide state False Terminal_Reason 0
      else
        let waitMs = max 0 (cs_backoff_until state - nowMs)
        in decide state (waitMs = 0) (if waitMs = 0 then Restart_Allowed else Backoff) waitMs)"

definition rearmTerminalCrashState :: "crash_state \<Rightarrow> bool \<Rightarrow> crash_state" where
  "rearmTerminalCrashState state replacementHealthy =
     (if \<not> cs_terminal state \<or> \<not> replacementHealthy then state else EMPTY_CRASH_BACKOFF_STATE)"

section \<open>The specification: rapid exits at the end of a history\<close>

text \<open>The state after a sequence of exits, as the caller threads it.\<close>

definition crash_run :: "crash_policy \<Rightarrow> child_exit list \<Rightarrow> crash_state" where
  "crash_run policy exits =
     foldl (\<lambda>s e. crash_state.truncate (recordChildExit policy (Some s) e)) EMPTY_CRASH_BACKOFF_STATE exits"

definition trailing_rapid :: "crash_policy \<Rightarrow> child_exit list \<Rightarrow> int" where
  "trailing_rapid policy exits = int (length (takeWhile (isRapidExit policy) (rev exits)))"

text \<open>Some moment of the history saw the limit of rapid exits in a row.\<close>

definition crash_loop :: "crash_policy \<Rightarrow> child_exit list \<Rightarrow> bool" where
  "crash_loop policy exits \<longleftrightarrow>
     list_ex (\<lambda>n. cp_terminal policy \<le> trailing_rapid policy (take n exits)) [1..<Suc (length exits)]"

lemma trailing_snoc:
  "trailing_rapid policy (xs @ [e]) = (if isRapidExit policy e then trailing_rapid policy xs + 1 else 0)"
  by (simp add: trailing_rapid_def)

lemma trailing_empty [simp]: "trailing_rapid policy [] = 0"
  by (simp add: trailing_rapid_def)

lemma crash_loop_empty [simp]: "\<not> crash_loop policy []"
  by (simp add: crash_loop_def)

lemma crash_loop_snoc:
  "crash_loop policy (xs @ [e]) \<longleftrightarrow> crash_loop policy xs \<or> cp_terminal policy \<le> trailing_rapid policy (xs @ [e])"
proof -
  have "[1..<Suc (length (xs @ [e]))] = [1..<Suc (length xs)] @ [Suc (length xs)]" by simp
  moreover have "list_ex (\<lambda>n. cp_terminal policy \<le> trailing_rapid policy (take n (xs @ [e]))) [1..<Suc (length xs)]
      = list_ex (\<lambda>n. cp_terminal policy \<le> trailing_rapid policy (take n xs)) [1..<Suc (length xs)]"
    by (rule list_ex_cong) auto
  ultimately show ?thesis by (simp add: crash_loop_def del: upt_Suc)
qed

lemma truncate_decide [simp]: "crash_state.truncate (decide s a r w) = s"
  by (simp add: decide_def crash_state.defs)

lemma decide_fields [simp]:
  "cs_terminal (decide s a r w) = cs_terminal s" "cs_rapid (decide s a r w) = cs_rapid s"
  "cd_restart_allowed (decide s a r w) = a" "cd_wait (decide s a r w) = w"
  "cs_backoff_until (decide s a r w) = cs_backoff_until s" "cs_last_exit (decide s a r w) = cs_last_exit s"
  "cd_reason (decide s a r w) = r" "cs_terminal_reason (decide s a r w) = cs_terminal_reason s"
  by (simp_all add: decide_def)

lemma crash_run_snoc:
  "crash_run policy (xs @ [e]) = crash_state.truncate (recordChildExit policy (Some (crash_run policy xs)) e)"
  by (simp add: crash_run_def)

lemma crash_run_spec:
  "cs_terminal (crash_run policy xs) = crash_loop policy xs
    \<and> (\<not> crash_loop policy xs \<longrightarrow> cs_rapid (crash_run policy xs) = trailing_rapid policy xs)"
proof (induction xs rule: rev_induct)
  case Nil
  show ?case by (simp add: crash_run_def EMPTY_CRASH_BACKOFF_STATE_def)
next
  case (snoc e xs)
  then show ?case
    by (cases "crash_loop policy xs")
      (auto simp: crash_run_snoc recordChildExit_def Let_def crash_loop_snoc trailing_snoc)
qed

section \<open>Properties\<close>

text \<open>
  C27: The backoff implements its specification: after any sequence of exits the state is terminal
  exactly when the limit of rapid exits in a row was reached at some moment, the count is the number
  of rapid exits at the end, and a further exit is answered accordingly.
\<close>
theorem crash_backoff_refines:
  "cs_terminal (crash_run policy exits) = crash_loop policy exits
    \<and> (crash_loop policy exits \<or> cs_rapid (crash_run policy exits) = trailing_rapid policy exits)
    \<and> (let answer = recordChildExit policy (Some (crash_run policy exits)) exit_now;
           n = trailing_rapid policy (exits @ [exit_now])
       in if crash_loop policy (exits @ [exit_now])
          then \<not> cd_restart_allowed answer \<and> cd_reason answer = Terminal_Reason \<and> cd_wait answer = 0
          else cd_wait answer = crashBackoffDurationMs n policy \<and> cd_restart_allowed answer = (cd_wait answer = 0))"
  using crash_run_spec [of policy exits]
  by (auto simp: recordChildExit_def Let_def crash_loop_snoc trailing_snoc)

lemma power_bound: "(2 :: int) ^ nat (min 10 k) \<le> 1024"
proof -
  have "(2 :: int) ^ nat (min 10 k) \<le> 2 ^ 10" by (rule power_increasing) auto
  then show ?thesis by simp
qed

text \<open>
  C40: The policy read from any environment gives backoff times between 0 and its maximum, at most
  1024 times the base, that grow with the number of rapid exits.
\<close>
theorem backoff_bounds:
  "let policy = crashBackoffPolicyFromEnv env
   in 0 \<le> crashBackoffDurationMs n policy \<and> crashBackoffDurationMs n policy \<le> cp_max policy
    \<and> crashBackoffDurationMs n policy \<le> 1024 * cp_base policy
    \<and> crashBackoffDurationMs n policy \<le> crashBackoffDurationMs (n + int k) policy
    \<and> (crashBackoffDurationMs n policy = 0) = (n < cp_max_rapid policy) \<and> 2 \<le> cp_terminal policy"
proof -
  have ge: "m \<le> f \<Longrightarrow> m \<le> env_integer v f m" for v f m by (simp add: env_integer_def split: option.splits)
  define policy where "policy = crashBackoffPolicyFromEnv env"
  have p: "1 \<le> cp_base policy" "1 \<le> cp_max policy" "2 \<le> cp_terminal policy"
    by (simp_all add: policy_def crashBackoffPolicyFromEnv_def ge)
  let ?w = "\<lambda>k. min (cp_max policy) (cp_base policy * 2 ^ nat (min 10 k))"
  have pos: "0 < ?w k" for k using p by (simp add: min_less_iff_conj zero_less_mult_iff)
  have bound: "?w k \<le> cp_max policy" "?w k \<le> 1024 * cp_base policy" for k
  proof -
    show "?w k \<le> cp_max policy" by simp
    have "cp_base policy * 2 ^ nat (min 10 k) \<le> cp_base policy * 1024"
      using p power_bound by (intro mult_left_mono) auto
    then show "?w k \<le> 1024 * cp_base policy" by (simp add: min_le_iff_disj)
  qed
  have mono: "?w a \<le> ?w b" if "a \<le> b" for a b
  proof -
    have "(2 :: int) ^ nat (min 10 a) \<le> 2 ^ nat (min 10 b)" using that by (intro power_increasing) auto
    then show ?thesis using p by (intro min.mono mult_left_mono) auto
  qed
  have d: "crashBackoffDurationMs m policy = (if m < cp_max_rapid policy then 0 else ?w (m - cp_max_rapid policy))" for m
    by (simp add: crashBackoffDurationMs_def Let_def)
  have "0 \<le> ?w k" "?w k \<noteq> 0" for k using pos [of k] by linarith+
  with bound mono p show ?thesis
    unfolding policy_def [symmetric] Let_def d by (simp add: order_less_imp_le)
qed

text \<open>
  A terminal state stays terminal and refuses every restart until it is rearmed with a healthy
  replacement; a wait reported after an exit is over exactly when its time has passed.
\<close>
theorem terminal_until_rearmed:
  "let later = crash_state.truncate (recordChildExit policy (Some s) e)
   in (if cs_terminal s
       then later = s \<and> \<not> cd_restart_allowed (recordChildExit policy (Some s) e)
         \<and> \<not> cd_restart_allowed (restartDecisionAt s now) \<and> rearmTerminalCrashState s False = s
         \<and> cd_restart_allowed (restartDecisionAt (rearmTerminalCrashState s True) (max 0 now))
       else rearmTerminalCrashState s healthy = s
         \<and> cd_restart_allowed (restartDecisionAt s now) = (cs_backoff_until s \<le> now))"
  by (auto simp: recordChildExit_def restartDecisionAt_def rearmTerminalCrashState_def EMPTY_CRASH_BACKOFF_STATE_def Let_def)

end
