(* ===== verification/Node_Path.thy ===== *)
theory Node_Path
  imports Prelude
begin

text \<open>
  What the modelled modules use of Node's \<open>path\<close> module on POSIX (\<open>join\<close>, \<open>resolve\<close>, \<open>dirname\<close>,
  \<open>isAbsolute\<close>) and of string splitting with a text separator.
\<close>

section \<open>Splitting on a text\<close>

fun js_split_text :: "string \<Rightarrow> string \<Rightarrow> string list" where
  "js_split_text sep [] = [[]]"
| "js_split_text sep (x # xs) =
     (if sep \<noteq> [] \<and> js_starts_with sep (x # xs) then [] # js_split_text sep (drop (length sep - 1) xs)
      else (case js_split_text sep xs of [] \<Rightarrow> [[x]] | y # ys \<Rightarrow> (x # y) # ys))"

lemma js_split_text_nonempty [simp]: "js_split_text sep s \<noteq> []"
  by (induction sep s rule: js_split_text.induct) (auto split: list.splits)

lemma js_includes_drop: "js_includes p (drop n s) \<Longrightarrow> js_includes p s"
proof (induction s arbitrary: n)
  case (Cons x xs)
  then show ?case by (cases n) auto
qed simp

lemma js_split_text_single: "sep \<noteq> [] \<Longrightarrow> \<not> js_includes sep s \<Longrightarrow> js_split_text sep s = [s]"
  by (induction sep s rule: js_split_text.induct) (auto split: list.splits)

text \<open>The first separator is where the text before it, followed by the separator, first shows it.\<close>

lemma js_split_text_first:
  assumes "sep \<noteq> []" "\<And>n. n < length u \<Longrightarrow> \<not> js_starts_with sep (drop n u @ sep @ v)"
  shows "js_split_text sep (u @ sep @ v) = u # js_split_text sep v"
  using assms(2)
proof (induction u)
  case Nil
  obtain c cs where "sep = c # cs" using assms(1) by (cases sep) auto
  then show ?case by (simp add: js_starts_with_def)
next
  case (Cons x xs)
  have "js_split_text sep (xs @ sep @ v) = xs # js_split_text sep v"
    using Cons.prems [of "Suc n" for n] by (intro Cons.IH) auto
  moreover have "\<not> js_starts_with sep (x # xs @ sep @ v)" using Cons.prems [of 0] by simp
  ultimately show ?case by simp
qed

section \<open>Paths\<close>

definition isAbsolute :: "string \<Rightarrow> bool" where
  "isAbsolute path \<longleftrightarrow> js_starts_with ''/'' path"

definition path_step :: "bool \<Rightarrow> string list \<Rightarrow> string \<Rightarrow> string list" where
  "path_step upward acc segment =
     (if segment = [] \<or> segment = ''.'' then acc
      else if segment = ''..''
      then (if acc \<noteq> [] \<and> last acc \<noteq> ''..'' then butlast acc
            else if upward then acc @ [''..''] else acc)
      else acc @ [segment])"

definition path_segments :: "bool \<Rightarrow> string \<Rightarrow> string list" where
  "path_segments upward path = foldl (path_step upward) [] (js_split CHR ''/'' path)"

definition path_normalize :: "string \<Rightarrow> string" where
  "path_normalize path =
     (if path = [] then ''.''
      else
        let absolute = isAbsolute path;
            trailing = js_ends_with ''/'' path;
            body = js_join ''/'' (path_segments (\<not> absolute) path)
        in if body = []
           then (if absolute then ''/'' else if trailing then ''./'' else ''.'')
           else (if absolute then ''/'' else []) @ body @ (if trailing then ''/'' else []))"

definition path_join :: "string list \<Rightarrow> string" where
  "path_join parts = path_normalize (js_join ''/'' (filter (\<lambda>p. p \<noteq> []) parts))"

definition path_resolve :: "string \<Rightarrow> string \<Rightarrow> string" where
  "path_resolve cwd path =
     (let full = (if isAbsolute path then path else if path = [] then cwd else cwd @ ''/'' @ path)
      in ''/'' @ js_join ''/'' (path_segments False full))"

definition plain_segment :: "string \<Rightarrow> bool" where
  "plain_segment s \<longleftrightarrow> s \<noteq> [] \<and> s \<noteq> ''.'' \<and> s \<noteq> ''..'' \<and> CHR ''/'' \<notin> set s"

lemma path_step_plain:
  "list_all plain_segment acc \<Longrightarrow> CHR ''/'' \<notin> set s \<Longrightarrow> list_all plain_segment (path_step False acc s)"
  by (auto simp: path_step_def plain_segment_def list_all_iff dest: in_set_butlastD)

lemma path_segments_plain: "list_all plain_segment (path_segments False path)"
proof -
  have "list_all plain_segment (foldl (path_step False) acc ss)"
    if "list_all plain_segment acc" "\<forall>s \<in> set ss. CHR ''/'' \<notin> set s" for acc ss
    using that by (induction ss arbitrary: acc) (auto simp: path_step_plain)
  from this [of "[]"] show ?thesis by (simp add: path_segments_def js_split_no_sep)
qed

lemma foldl_path_step_plain:
  "list_all plain_segment ss \<Longrightarrow> foldl (path_step upward) acc ss = acc @ ss"
  by (induction ss arbitrary: acc) (auto simp: path_step_def plain_segment_def)

lemma js_split_append_sep: "c \<notin> set u \<Longrightarrow> js_split c (u @ c # v) = u # js_split c v"
  by (induction u) (auto split: list.splits)

lemma js_split_plain: "c \<notin> set u \<Longrightarrow> js_split c u = [u]"
  by (induction u) auto

lemma js_split_join_path:
  "ss \<noteq> [] \<Longrightarrow> list_all plain_segment ss \<Longrightarrow> js_split CHR ''/'' (js_join ''/'' ss) = ss"
  by (induction "''/''" ss rule: js_join.induct) (auto simp: plain_segment_def js_split_plain js_split_append_sep)

lemma path_resolve_segments: "\<exists>ss. list_all plain_segment ss \<and> path_resolve cwd path = ''/'' @ js_join ''/'' ss"
  using path_segments_plain by (auto simp: path_resolve_def Let_def)

lemma path_resolve_idem: "path_resolve cwd (path_resolve cwd' path) = path_resolve cwd' path"
proof -
  obtain ss where plain: "list_all plain_segment ss" and r: "path_resolve cwd' path = ''/'' @ js_join ''/'' ss"
    using path_resolve_segments by blast
  have "path_segments False (''/'' @ js_join ''/'' ss) = ss"
  proof (cases "ss = []")
    case True
    then show ?thesis by (simp add: path_segments_def path_step_def)
  next
    case False
    then show ?thesis
      using plain by (simp add: path_segments_def js_split_join_path foldl_path_step_plain path_step_def)
  qed
  then show ?thesis
    unfolding r by (simp add: path_resolve_def Let_def isAbsolute_def js_starts_with_def)
qed

lemma path_examples:
  "path_join [''/home/u/.config'', ''orchestrator-pack'', ''projects'', ''x.json''] = ''/home/u/.config/orchestrator-pack/projects/x.json''"
  "path_join [''ns'', ''active'', ''..'', ''..'', ''..'', ''k.json''] = ''../k.json''"
  "path_resolve ''/w'' ''a/./b//../c/'' = ''/w/a/c''" "path_resolve ''/w'' ''/../x'' = ''/x''"
  "js_split_text '' / '' ''a / b'' = [''a'', ''b'']" "js_split_text '' / '' ''a /  / b'' = [''a'', '''', ''b'']"
  by code_simp+

end
