(* ===== verification/Target_Card.thy ===== *)
theory Target_Card
  imports Node_Path Js_Number
begin

text \<open>
  The project card of a target repository: the parsers of \<open>scripts/lib/target-context.ts\<close> for the
  required CI selectors, the verification commands and the contract evidence producer, and the
  repository identity of a git remote, \<open>parseRemoteSlug\<close> of \<open>scripts/lib/git-origin-slug.mjs\<close>.
\<close>

section \<open>Errors and data\<close>

datatype target_code =
    missing_selection | selector_mismatch | invalid_project_id | card_missing | card_invalid
  | project_id_mismatch | primary_root_invalid | origin_unavailable | origin_mismatch

record target_error =
  te_code :: target_code
  te_message :: string

definition target_error :: "target_code \<Rightarrow> string \<Rightarrow> target_error" where
  "target_error code message = \<lparr>te_code = code, te_message = message\<rparr>"

record formatter_commands =
  fc_fix :: "string list"
  fc_check :: string

record target_verification =
  tv_local :: "string list option"
  tv_focused :: "string option"
  tv_formatter :: "formatter_commands option"

record evidence_producer =
  ep_name :: string
  ep_boundary :: string

definition text_of :: "json option \<Rightarrow> string" where
  "text_of v = js_trim (json_string v)"

section \<open>The identity of a remote\<close>

definition remote_prefixes :: "string list" where
  "remote_prefixes =
     [''git@github.com:'', ''https://github.com/'', ''ssh://git@github.com/'',
      ''https://github.com:443/'', ''ssh://git@github.com:22/'']"

fun strip_prefix :: "string list \<Rightarrow> string \<Rightarrow> string option" where
  "strip_prefix [] remote = None"
| "strip_prefix (p # ps) remote =
     (if js_lower (take (length p) remote) = p then Some (drop (length p) remote) else strip_prefix ps remote)"

text \<open>The shortest text the lazy group can match before an optional \<open>.git\<close> and an optional slash.\<close>

definition strip_git_suffix :: "string \<Rightarrow> string" where
  "strip_git_suffix s =
     (let drop_end = (\<lambda>n. take (length s - n) s) in
      if js_ends_with ''.git/'' (js_lower s) \<and> length s > 5 then drop_end 5
      else if js_ends_with ''.git'' (js_lower s) \<and> length s > 4 then drop_end 4
      else if js_ends_with ''/'' s \<and> length s > 1 then drop_end 1
      else s)"

definition ascii_alnum :: "char \<Rightarrow> bool" where
  "ascii_alnum c \<longleftrightarrow> is_ascii_letter c \<or> is_digit c"

definition repo_char :: "char \<Rightarrow> bool" where
  "repo_char c \<longleftrightarrow> ascii_alnum c \<or> c \<in> set ''._-''"

definition valid_owner :: "string \<Rightarrow> bool" where
  "valid_owner s \<longleftrightarrow> s \<noteq> [] \<and> list_all (\<lambda>c. ascii_alnum c \<or> c = CHR ''-'') s
     \<and> \<not> js_starts_with ''-'' s \<and> \<not> js_ends_with ''-'' s"

definition valid_repository :: "string \<Rightarrow> bool" where
  "valid_repository s \<longleftrightarrow> s \<noteq> [] \<and> list_all repo_char s \<and> s \<noteq> ''.'' \<and> s \<noteq> ''..''"

definition path_part :: "string \<Rightarrow> bool" where
  "path_part s \<longleftrightarrow> s \<noteq> [] \<and> list_all (\<lambda>c. c \<noteq> CHR ''/'' \<and> \<not> js_space c) s"

definition parseRemoteSlug :: "string \<Rightarrow> string option" where
  "parseRemoteSlug url =
     (case strip_prefix remote_prefixes (js_trim url) of
        None \<Rightarrow> None
      | Some rest \<Rightarrow>
          let owner = takeWhile (\<lambda>c. c \<noteq> CHR ''/'') rest;
              after = drop (length owner) rest;
              repository = strip_git_suffix (drop 1 after)
          in if after = [] \<or> \<not> path_part owner \<or> \<not> path_part repository then None
             else if \<not> valid_owner owner \<or> \<not> valid_repository repository then None
             else Some (owner @ ''/'' @ repository))"

definition canonicalGitHubRepository :: "string \<Rightarrow> string option" where
  "canonicalGitHubRepository remote = map_option js_lower (parseRemoteSlug remote)"

section \<open>Required CI selectors\<close>

definition ci_separator :: string where
  "ci_separator = '' / ''"

fun required_ci_entries :: "string \<Rightarrow> string list \<Rightarrow> json list \<Rightarrow> target_error + string list" where
  "required_ci_entries cardPath seen [] = Inr []"
| "required_ci_entries cardPath seen (JStr raw # rest) =
     (case js_split_text ci_separator raw of
        [left, right] \<Rightarrow>
          let workflow = js_trim left; job = js_trim right; key = js_lower workflow @ CHR 0x00 # js_lower job in
          if workflow = [] \<or> job = []
          then Inl (target_error card_invalid (''requiredCi workflow and job must both be non-empty in '' @ cardPath @ '': '' @ raw))
          else if key \<in> set seen
          then Inl (target_error card_invalid (''requiredCi contains a duplicate normalized workflow/job selector in '' @ cardPath @ '': '' @ raw))
          else rbind (required_ci_entries cardPath (key # seen) rest) (\<lambda>others. Inr ((workflow @ ci_separator @ job) # others))
      | _ \<Rightarrow> Inl (target_error card_invalid
               (''requiredCi entry must contain exactly one literal \" / \" separator in '' @ cardPath @ '': '' @ raw)))"
| "required_ci_entries cardPath seen (other # rest) =
     Inl (target_error card_invalid (''requiredCi entries must be strings in '' @ cardPath))"

definition parseRequiredCi :: "json option \<Rightarrow> string \<Rightarrow> target_error + string list option" where
  "parseRequiredCi value cardPath =
     (case value of
        None \<Rightarrow> Inr None
      | Some (JArr (x # xs)) \<Rightarrow> rbind (required_ci_entries cardPath [] (x # xs)) (\<lambda>entries. Inr (Some entries))
      | Some _ \<Rightarrow> Inl (target_error card_invalid
               (''requiredCi must be a non-empty array of \"<workflow> / <job>\" selectors in '' @ cardPath)))"

section \<open>Verification commands and the evidence producer\<close>

definition nonblank :: "json \<Rightarrow> bool" where
  "nonblank v \<longleftrightarrow> (case v of JStr s \<Rightarrow> js_trim s \<noteq> [] | _ \<Rightarrow> False)"

definition parseVerification :: "json option \<Rightarrow> string \<Rightarrow> target_error + target_verification option" where
  "parseVerification value cardPath =
     (case value of
        None \<Rightarrow> Inr None
      | Some v \<Rightarrow>
          if \<not> isRecord (Some v)
          then Inl (target_error card_invalid (''verification must be an object in '' @ cardPath))
          else rbind (case json_field v ''local'' of
                 None \<Rightarrow> Inr None
               | Some (JArr items) \<Rightarrow>
                   if list_all nonblank items then Inr (Some (json_strings (Some (JArr items))))
                   else Inl (target_error card_invalid (''verification.local must be an array of non-empty commands in '' @ cardPath))
               | Some _ \<Rightarrow> Inl (target_error card_invalid (''verification.local must be an array of non-empty commands in '' @ cardPath)))
             (\<lambda>commands. rbind (case json_field v ''focused'' of
                 None \<Rightarrow> Inr None
               | Some f \<Rightarrow> if nonblank f then Inr (Some (json_string (Some f)))
                   else Inl (target_error card_invalid (''verification.focused must be a non-empty string in '' @ cardPath)))
             (\<lambda>focused. rbind (case json_field v ''formatter'' of
                 None \<Rightarrow> Inr None
               | Some f \<Rightarrow>
                   (case (json_field f ''fix'', json_field f ''check'') of
                      (Some (JArr (c # cs)), Some check) \<Rightarrow>
                        if list_all nonblank (c # cs) \<and> nonblank check
                        then Inr (Some \<lparr>fc_fix = json_strings (Some (JArr (c # cs))), fc_check = json_string (Some check)\<rparr>)
                        else Inl (target_error card_invalid (''verification.formatter requires a non-empty fix command list and check command in '' @ cardPath))
                    | _ \<Rightarrow> Inl (target_error card_invalid (''verification.formatter requires a non-empty fix command list and check command in '' @ cardPath))))
             (\<lambda>formatter. Inr (Some \<lparr>tv_local = commands, tv_focused = focused, tv_formatter = formatter\<rparr>)))))"

definition producer_name :: "string \<Rightarrow> bool" where
  "producer_name s \<longleftrightarrow> s \<noteq> [] \<and> ascii_alnum (hd s) \<and> list_all repo_char s
     \<and> list_all (\<lambda>c. js_lower_char c = c) s"

definition parseContractEvidenceProducer :: "json option \<Rightarrow> string \<Rightarrow> target_error + evidence_producer option" where
  "parseContractEvidenceProducer value cardPath =
     (case value of
        None \<Rightarrow> Inr None
      | Some v \<Rightarrow>
          if \<not> isRecord (Some v)
          then Inl (target_error card_invalid (''contractEvidenceProducer must be an object in '' @ cardPath))
          else
            let name = js_lower (text_of (json_field v ''name'')); boundary = text_of (json_field v ''boundaryCommand'') in
            if \<not> producer_name name \<or> boundary = [] \<or> list_ex (\<lambda>c. c \<in> {CHR 0x0A, CHR 0x0D}) boundary
            then Inl (target_error card_invalid (''contractEvidenceProducer requires a valid name and a single-line boundaryCommand in '' @ cardPath))
            else Inr (Some \<lparr>ep_name = name, ep_boundary = boundary\<rparr>))"

section \<open>Spellings of a remote\<close>

definition git_suffixes :: "string list" where
  "git_suffixes = [[], ''.git'', ''/'', ''.git/'']"

lemma strip_prefix_Some:
  "strip_prefix ps remote = Some rest \<Longrightarrow> \<exists>q. remote = q @ rest \<and> js_lower q \<in> set ps"
  by (induction ps remote rule: strip_prefix.induct) (auto split: if_splits intro: append_take_drop_id [symmetric])

lemma js_ends_with_append: "js_ends_with p (u @ p)"
  by (simp add: js_ends_with_def)

lemma js_ends_with_split: "js_ends_with p s \<Longrightarrow> s = take (length s - length p) s @ p"
  unfolding js_ends_with_def by (metis append_take_drop_id)

lemma js_lower_append [simp]: "js_lower (u @ v) = js_lower u @ js_lower v"
  by (simp add: js_lower_def)

lemma js_lower_length [simp]: "length (js_lower s) = length s"
  by (simp add: js_lower_def)

lemma js_lower_take: "js_lower (take n s) = take n (js_lower s)" and js_lower_drop: "js_lower (drop n s) = drop n (js_lower s)"
  by (simp_all add: js_lower_def take_map drop_map)

lemma js_ends_with_lower:
  "js_ends_with p (js_lower s) \<Longrightarrow> \<exists>sfx. s = take (length s - length p) s @ sfx \<and> js_lower sfx = p"
  by (rule exI [of _ "drop (length s - length p) s"]) (simp add: js_ends_with_def js_lower_drop)

lemma strip_git_suffix_cases:
  "\<exists>sfx. s = strip_git_suffix s @ sfx \<and> js_lower sfx \<in> set git_suffixes"
proof -
  consider "js_ends_with ''.git/'' (js_lower s) \<and> length s > 5"
    | "\<not> (js_ends_with ''.git/'' (js_lower s) \<and> length s > 5)" "js_ends_with ''.git'' (js_lower s) \<and> length s > 4"
    | "\<not> (js_ends_with ''.git/'' (js_lower s) \<and> length s > 5)" "\<not> (js_ends_with ''.git'' (js_lower s) \<and> length s > 4)"
      "js_ends_with ''/'' s \<and> length s > 1"
    | "\<not> (js_ends_with ''.git/'' (js_lower s) \<and> length s > 5)" "\<not> (js_ends_with ''.git'' (js_lower s) \<and> length s > 4)"
      "\<not> (js_ends_with ''/'' s \<and> length s > 1)" by blast
  then show ?thesis
  proof cases
    case 1
    with js_ends_with_lower [of "''.git/''" s] show ?thesis
      by (auto simp: strip_git_suffix_def git_suffixes_def eval_nat_numeral)
  next
    case 2
    with js_ends_with_lower [of "''.git''" s] show ?thesis
      by (auto simp: strip_git_suffix_def git_suffixes_def eval_nat_numeral)
  next
    case 3
    with js_ends_with_split [of "''/''" s] show ?thesis
      by (intro exI [of _ "''/''"]) (auto simp: strip_git_suffix_def git_suffixes_def js_lower_def js_lower_char_def)
  next
    case 4
    then show ?thesis by (intro exI [of _ "[]"]) (auto simp: strip_git_suffix_def git_suffixes_def js_lower_def)
  qed
qed

lemma ends_with_append_other:
  "length p \<le> length v \<Longrightarrow> js_ends_with p (u @ v) = js_ends_with p v"
  by (auto simp: js_ends_with_def)

lemma lower_slash: "js_lower_char x = CHR ''/'' \<longleftrightarrow> x = CHR ''/''"
proof
  assume a: "js_lower_char x = CHR ''/''"
  then have "(of_char (js_lower_char x) :: nat) = 47" by simp
  then have "\<not> (65 \<le> (of_char x :: nat) \<and> (of_char x :: nat) \<le> 90 \<or> 192 \<le> (of_char x :: nat) \<and> (of_char x :: nat) \<le> 222 \<and> (of_char x :: nat) \<noteq> 215)"
    by (auto simp: js_lower_char_def Let_def split: if_splits)
  then show "x = CHR ''/''" using a unfolding js_lower_char_def Let_def by (simp only: if_False)
qed (simp add: js_lower_char_def)

lemma strip_git_suffix_plain:
  assumes "r \<noteq> []" "\<not> js_ends_with ''.git'' (js_lower r)" "CHR ''/'' \<notin> set r" "sfx \<in> set git_suffixes"
  shows "strip_git_suffix (r @ sfx) = r"
proof -
  obtain y c where r: "r = y @ [c]" using assms(1) by (cases r rule: rev_cases) auto
  have c: "c \<noteq> CHR ''/''" using assms(3) r by auto
  have slash: "\<not> js_ends_with ''/'' r" using c by (auto simp: r js_ends_with_def)
  have git: "\<not> js_ends_with ''.git/'' (js_lower r)"
  proof
    assume "js_ends_with ''.git/'' (js_lower r)"
    from js_ends_with_split [OF this] have "last (js_lower r) = CHR ''/''" by (metis last_appendR list.distinct(1) last.simps)
    then show False using c by (simp add: r js_lower_def lower_slash)
  qed
  have low: "js_lower ''.git'' = ''.git''" "js_lower ''.git/'' = ''.git/''" "js_lower ''/'' = ''/''" by code_simp+
  consider "sfx = []" | "sfx = ''.git''" | "sfx = ''/''" | "sfx = ''.git/''"
    using assms(4) by (auto simp: git_suffixes_def)
  then show ?thesis
  proof cases
    case 1
    then show ?thesis using assms(2) git slash by (simp add: strip_git_suffix_def)
  next
    case 2
    have "\<not> js_ends_with ''.git/'' (js_lower r @ ''.git'')" by (simp add: js_ends_with_def)
    then show ?thesis using 2 assms(1) by (simp add: strip_git_suffix_def low js_ends_with_append)
  next
    case 3
    have "\<not> js_ends_with ''.git'' (js_lower r @ ''/'')" by (auto simp: js_ends_with_def)
    moreover have "\<not> js_ends_with ''.git/'' (js_lower r @ ''/'')"
    proof
      assume "js_ends_with ''.git/'' (js_lower r @ ''/'')"
      from js_ends_with_split [OF this] obtain y where "js_lower r @ ''/'' = (y @ ''.git'') @ ''/''" by auto
      then have "js_lower r = y @ ''.git''" by (rule append_same_eq [THEN iffD1])
      then show False using assms(2) js_ends_with_append by metis
    qed
    ultimately show ?thesis using 3 assms(1) by (simp add: strip_git_suffix_def low js_ends_with_append)
  next
    case 4
    then show ?thesis using assms(1) by (simp add: strip_git_suffix_def low js_ends_with_append)
  qed
qed

lemma strip_prefix_remote:
  assumes "js_lower q \<in> set remote_prefixes"
  shows "strip_prefix remote_prefixes (q @ rest) = Some rest"
proof -
  have t: "js_lower (take n (q @ rest)) = take n (js_lower q)" if "n \<le> length (js_lower q)" for n
    using that by (simp add: js_lower_take)
  have n: "length q = length (js_lower q)" by simp
  consider "js_lower q = ''git@github.com:''" | "js_lower q = ''https://github.com/''" | "js_lower q = ''https://github.com:443/''"
    | "js_lower q = ''ssh://git@github.com/''" | "js_lower q = ''ssh://git@github.com:22/''"
    using assms by (auto simp: remote_prefixes_def)
  then show ?thesis by cases (simp_all add: remote_prefixes_def t n del: take_append js_lower_length)
qed

lemma git_suffix_last:
  "sfx \<in> set git_suffixes \<Longrightarrow> r \<noteq> [] \<Longrightarrow> list_all repo_char r \<Longrightarrow> \<not> js_space (last (r @ sfx))"
proof -
  have rc: "repo_char c \<Longrightarrow> \<not> js_space c" for c
    by (auto simp: repo_char_def ascii_alnum_def is_ascii_letter_def is_digit_def js_space_def Let_def)
  assume "sfx \<in> set git_suffixes" "r \<noteq> []" "list_all repo_char r"
  moreover have "\<not> js_space CHR ''t''" "\<not> js_space CHR ''/''" by code_simp+
  moreover have "repo_char (last r)" using calculation by (simp add: list_all_iff)
  ultimately show ?thesis using rc by (auto simp: git_suffixes_def)
qed

lemma owner_part: "valid_owner owner \<Longrightarrow> path_part owner \<and> CHR ''/'' \<notin> set owner"
  by (auto simp: valid_owner_def path_part_def list_all_iff ascii_alnum_def is_ascii_letter_def is_digit_def
      js_space_def Let_def)

lemma repository_part: "valid_repository r \<Longrightarrow> path_part r \<and> CHR ''/'' \<notin> set r"
  by (auto simp: valid_repository_def path_part_def list_all_iff repo_char_def ascii_alnum_def is_ascii_letter_def
      is_digit_def js_space_def Let_def)

lemma takeWhile_slash: "CHR ''/'' \<notin> set u \<Longrightarrow> takeWhile (\<lambda>c. c \<noteq> CHR ''/'') (u @ CHR ''/'' # v) = u"
  by (induction u) auto

text \<open>
  A remote has the identity \<open>owner/repository\<close> exactly when it is one of the five GitHub
  spellings of it, with \<open>.git\<close>, a slash, both or nothing at the end: every such spelling gives
  the same identity, and a remote of another host or with other characters has none.
\<close>
theorem remote_identity:
  "(case parseRemoteSlug url of
      None \<Rightarrow> True
    | Some slug \<Rightarrow> \<exists>q owner r sfx. js_trim url = q @ owner @ ''/'' @ r @ sfx \<and> js_lower q \<in> set remote_prefixes
        \<and> valid_owner owner \<and> valid_repository r \<and> js_lower sfx \<in> set git_suffixes \<and> slug = owner @ ''/'' @ r)
    \<and> (js_lower q \<in> set remote_prefixes \<and> valid_owner owner \<and> valid_repository r
          \<and> \<not> js_ends_with ''.git'' (js_lower r) \<and> sfx \<in> set git_suffixes
       \<longrightarrow> parseRemoteSlug (q @ owner @ ''/'' @ r @ sfx) = Some (owner @ ''/'' @ r))"
proof (intro conjI)
  show "case parseRemoteSlug url of
      None \<Rightarrow> True
    | Some slug \<Rightarrow> \<exists>q owner r sfx. js_trim url = q @ owner @ ''/'' @ r @ sfx \<and> js_lower q \<in> set remote_prefixes
        \<and> valid_owner owner \<and> valid_repository r \<and> js_lower sfx \<in> set git_suffixes \<and> slug = owner @ ''/'' @ r"
  proof (cases "parseRemoteSlug url")
    case (Some slug)
    then obtain rest owner after where rest: "strip_prefix remote_prefixes (js_trim url) = Some rest"
      and o: "owner = takeWhile (\<lambda>c. c \<noteq> CHR ''/'') rest" "after = drop (length owner) rest" "after \<noteq> []"
      and v: "valid_owner owner" "valid_repository (strip_git_suffix (drop 1 after))"
      and slug: "slug = owner @ ''/'' @ strip_git_suffix (drop 1 after)"
      by (auto simp: parseRemoteSlug_def Let_def split: option.splits if_splits)
    from strip_prefix_Some [OF rest] obtain q where q: "js_trim url = q @ rest" "js_lower q \<in> set remote_prefixes" by auto
    have after: "after = dropWhile (\<lambda>c. c \<noteq> CHR ''/'') rest" unfolding o by (simp add: dropWhile_eq_drop)
    then have hd: "hd after = CHR ''/''" using o(3) hd_dropWhile [of "\<lambda>c. c \<noteq> CHR ''/''" rest] by auto
    have "rest = owner @ after" unfolding after o(1) by simp
    also have "after = ''/'' @ drop 1 after" using hd o(3) by (cases after) auto
    finally have r: "rest = owner @ ''/'' @ drop 1 after" .
    obtain sfx where sfx: "drop 1 after = strip_git_suffix (drop 1 after) @ sfx" "js_lower sfx \<in> set git_suffixes"
      using strip_git_suffix_cases by blast
    have "js_trim url = q @ owner @ ''/'' @ strip_git_suffix (drop 1 after) @ sfx" using q(1) r sfx(1) by simp
    then show ?thesis using Some q(2) v slug sfx(2) by auto
  qed simp
  have "parseRemoteSlug (q @ owner @ ''/'' @ r @ sfx) = Some (owner @ ''/'' @ r)"
    if a: "js_lower q \<in> set remote_prefixes" "valid_owner owner" "valid_repository r"
      "\<not> js_ends_with ''.git'' (js_lower r)" "sfx \<in> set git_suffixes"
  proof -
    let ?s = "q @ owner @ ''/'' @ r @ sfx"
    have r: "r \<noteq> []" "list_all repo_char r" using a(3) by (simp_all add: valid_repository_def)
    have q: "q \<noteq> [] \<and> \<not> js_space (hd q)"
    proof -
      have "q \<noteq> []" using a(1) by (auto simp: remote_prefixes_def js_lower_def)
      moreover from this have "js_lower_char (hd q) \<in> {CHR ''g'', CHR ''h'', CHR ''s''}"
        using a(1) by (cases q) (auto simp: remote_prefixes_def js_lower_def)
      ultimately show ?thesis by (auto simp: js_lower_char_def js_space_def Let_def)
    qed
    have "last ?s = last (r @ sfx)" using r by simp
    then have trim: "js_trim ?s = ?s"
      using q git_suffix_last [OF a(5) r] by (intro js_trim_fixed) auto
    have "strip_git_suffix (r @ sfx) = r"
      using repository_part [OF a(3)] r(1) a(4,5) by (intro strip_git_suffix_plain) auto
    then show ?thesis
      unfolding parseRemoteSlug_def trim strip_prefix_remote [OF a(1)]
      using a(2,3) owner_part [OF a(2)] repository_part [OF a(3)] by (simp add: takeWhile_slash)
  qed
  then show "js_lower q \<in> set remote_prefixes \<and> valid_owner owner \<and> valid_repository r
          \<and> \<not> js_ends_with ''.git'' (js_lower r) \<and> sfx \<in> set git_suffixes
       \<longrightarrow> parseRemoteSlug (q @ owner @ ''/'' @ r @ sfx) = Some (owner @ ''/'' @ r)" by simp
qed

lemma remote_identity_witness:
  "parseRemoteSlug ''HTTPS://GitHub.com/chetwerikoff/orchestrator-pack.git'' = Some ''chetwerikoff/orchestrator-pack''"
proof -
  have h: "js_lower ''HTTPS://GitHub.com/'' \<in> set remote_prefixes" "valid_owner ''chetwerikoff''"
    "valid_repository ''orchestrator-pack''" "\<not> js_ends_with ''.git'' (js_lower ''orchestrator-pack'')"
    "''.git'' \<in> set git_suffixes" by code_simp+
  show ?thesis
    using remote_identity [of "[]" "''HTTPS://GitHub.com/''" "''chetwerikoff''" "''orchestrator-pack''" "''.git''"] h by simp
qed

section \<open>Accepted selector lists\<close>

definition selector_parts :: "string \<Rightarrow> (string \<times> string) option" where
  "selector_parts raw =
     (case js_split_text ci_separator raw of
        [left, right] \<Rightarrow> if js_trim left = [] \<or> js_trim right = [] then None else Some (js_trim left, js_trim right)
      | _ \<Rightarrow> None)"

definition selector_key :: "string \<times> string \<Rightarrow> string" where
  "selector_key p = js_lower (fst p) @ CHR 0x00 # js_lower (snd p)"

definition selector_text :: "string \<times> string \<Rightarrow> string" where
  "selector_text p = fst p @ ci_separator @ snd p"

lemma required_ci_entries_JStr:
  "required_ci_entries cardPath seen (JStr raw # rest) = Inr entries \<longleftrightarrow>
     (\<exists>p others. selector_parts raw = Some p \<and> selector_key p \<notin> set seen
        \<and> required_ci_entries cardPath (selector_key p # seen) rest = Inr others \<and> entries = selector_text p # others)"
  by (auto simp: selector_parts_def selector_key_def selector_text_def Let_def rbind_Inr split: list.splits if_splits)

lemma required_ci_entries_iff:
  "required_ci_entries cardPath seen raws = Inr entries \<longleftrightarrow>
     (\<exists>texts pairs. raws = map JStr texts \<and> map selector_parts texts = map Some pairs
        \<and> distinct (map selector_key pairs) \<and> set (map selector_key pairs) \<inter> set seen = {}
        \<and> entries = map selector_text pairs)"
proof (induction raws arbitrary: seen entries)
  case (Cons raw rest)
  show ?case
  proof (cases raw)
    case (JStr t)
    show ?thesis (is "?l = ?r")
    proof
      assume ?l
      then obtain p others where p: "selector_parts t = Some p" "selector_key p \<notin> set seen"
        "required_ci_entries cardPath (selector_key p # seen) rest = Inr others" "entries = selector_text p # others"
        unfolding JStr required_ci_entries_JStr by blast
      from p(3) obtain texts pairs where "rest = map JStr texts" "map selector_parts texts = map Some pairs"
        "distinct (map selector_key pairs)" "set (map selector_key pairs) \<inter> set (selector_key p # seen) = {}"
        "others = map selector_text pairs" unfolding Cons.IH by blast
      then show ?r using p JStr by (intro exI [of _ "t # texts"] exI [of _ "p # pairs"]) auto
    next
      assume ?r
      then obtain texts pairs where e: "raw # rest = map JStr texts" "map selector_parts texts = map Some pairs"
        "distinct (map selector_key pairs)" "set (map selector_key pairs) \<inter> set seen = {}"
        "entries = map selector_text pairs" by metis
      then obtain texts' p pairs' where t: "texts = t # texts'" "pairs = p # pairs'" using JStr by (cases texts; cases pairs) auto
      have "required_ci_entries cardPath (selector_key p # seen) rest = Inr (map selector_text pairs')"
        unfolding Cons.IH using e t by (intro exI [of _ texts'] exI [of _ pairs']) auto
      then show ?l unfolding JStr required_ci_entries_JStr using e t by auto
    qed
  qed (auto simp: Cons_eq_map_conv)
qed auto

text \<open>
  A card's required CI list is accepted exactly when it is a non-empty array of texts that each
  hold one separator with a workflow and a job around it, no two of them the same up to case; the
  context then holds them trimmed, in their order, and a card without the list has none.
\<close>
theorem required_ci_accepts_iff:
  "parseRequiredCi value cardPath = Inr answer \<longleftrightarrow>
     (case value of
        None \<Rightarrow> answer = None
      | Some v \<Rightarrow> \<exists>texts pairs. v = JArr (map JStr texts) \<and> texts \<noteq> [] \<and> map selector_parts texts = map Some pairs
          \<and> distinct (map selector_key pairs) \<and> answer = Some (map selector_text pairs))"
proof (cases "value")
  case (Some v)
  show ?thesis
  proof (cases v)
    case (JArr xs)
    have "parseRequiredCi value cardPath = Inr answer \<longleftrightarrow>
        xs \<noteq> [] \<and> (\<exists>entries. required_ci_entries cardPath [] xs = Inr entries \<and> answer = Some entries)"
      using Some JArr by (cases xs) (auto simp: parseRequiredCi_def rbind_Inr simp del: required_ci_entries.simps)
    also have "\<dots> \<longleftrightarrow> (\<exists>texts pairs. v = JArr (map JStr texts) \<and> texts \<noteq> []
        \<and> map selector_parts texts = map Some pairs
        \<and> distinct (map selector_key pairs) \<and> answer = Some (map selector_text pairs))"
      unfolding required_ci_entries_iff JArr json.inject by (simp, metis Nil_is_map_conv)
    finally show ?thesis by (simp add: Some)
  qed (use Some in \<open>auto simp: parseRequiredCi_def\<close>)
qed (auto simp: parseRequiredCi_def)

end
