(* ===== verification/Target_Context.thy ===== *)
theory Target_Context
  imports Target_Card
begin

text \<open>
  The target project of a run, \<open>scripts/lib/target-context.ts\<close>: selecting the project, reading and
  checking its card, and running its verification commands in a worktree of that project. The file
  system, git, \<open>RegExp\<close> and \<open>URL\<close> are fields of an environment; the command runner is a state
  transformer, so the order of the commands is part of the model.
\<close>

section \<open>Environment\<close>

datatype card_file = No_Card | Unparsable_Card string | Parsed_Card json

record git_answer =
  ga_ok :: bool
  ga_stdout :: string
  ga_detail :: string

record target_env =
  tn_vars :: "string \<Rightarrow> string option"
  tn_homedir :: string
  tn_cwd :: string
  tn_pack_root :: string
  tn_card :: "string \<Rightarrow> card_file"
  tn_directory :: "string \<Rightarrow> bool"
  tn_regexp :: "string \<Rightarrow> string \<Rightarrow> bool"
  tn_protocol :: "string \<Rightarrow> string option"
  tn_git :: "string \<Rightarrow> string list \<Rightarrow> git_answer"
  tn_realpath :: "string \<Rightarrow> string option"

record target_context =
  tc_projectId :: string
  tc_repository :: string
  tc_primaryRoot :: string
  tc_defaultBranch :: string
  tc_requiredCi :: "string list option"
  tc_orcaPattern :: string
  tc_titlePattern :: string
  tc_projectUrl :: string
  tc_verification :: "target_verification option"
  tc_producer :: "evidence_producer option"
  tc_packRoot :: string
  tc_cardPath :: string

section \<open>Selecting the project\<close>

definition env_text :: "target_env \<Rightarrow> string \<Rightarrow> string" where
  "env_text env name = (case tn_vars env name of None \<Rightarrow> [] | Some s \<Rightarrow> js_trim s)"

definition configHome :: "target_env \<Rightarrow> string" where
  "configHome env =
     (let xdg = env_text env ''XDG_CONFIG_HOME'';
          home = env_text env ''HOME''
      in if xdg \<noteq> [] then xdg else path_join [if home \<noteq> [] then home else tn_homedir env, ''.config''])"

definition projectCardPath :: "string \<Rightarrow> target_env \<Rightarrow> string" where
  "projectCardPath projectId env =
     path_join [configHome env, ''orchestrator-pack'', ''projects'', projectId @ ''.json'']"

definition project_id_ok :: "string \<Rightarrow> bool" where
  "project_id_ok s \<longleftrightarrow> s \<noteq> [] \<and> ascii_alnum (hd s) \<and> list_all repo_char s"

definition selectedProjectId :: "string option \<Rightarrow> target_env \<Rightarrow> target_error + string" where
  "selectedProjectId projectId env =
     (let cli = (case projectId of None \<Rightarrow> [] | Some s \<Rightarrow> js_trim s);
          envId = env_text env ''OPK_PROJECT_ID'';
          selected = (if cli \<noteq> [] then cli else envId)
      in if cli \<noteq> [] \<and> envId \<noteq> [] \<and> cli \<noteq> envId
         then Inl (target_error selector_mismatch
                (''target project selector mismatch: --project='' @ cli @ '' OPK_PROJECT_ID='' @ envId))
         else if selected = []
         then Inl (target_error missing_selection
                (''target project is not selected; pass --project <id> or set OPK_PROJECT_ID (cards: ''
                  @ path_join [configHome env, ''orchestrator-pack'', ''projects''] @ '')''))
         else if \<not> project_id_ok selected
         then Inl (target_error invalid_project_id (''invalid project id: '' @ selected))
         else Inr selected)"

section \<open>Reading the card\<close>

definition repository_ok :: "string \<Rightarrow> bool" where
  "repository_ok s \<longleftrightarrow>
     (let owner = takeWhile (\<lambda>c. c \<noteq> CHR ''/'') s; rest = drop (length owner) s
      in rest \<noteq> [] \<and> path_part owner \<and> path_part (drop 1 rest))"

definition readOrigin :: "target_env \<Rightarrow> string \<Rightarrow> target_error + string" where
  "readOrigin env primaryRoot =
     (let result = tn_git env primaryRoot [''remote'', ''get-url'', ''origin'']; detail = js_trim (ga_detail result) in
      if \<not> ga_ok result
      then Inl (target_error origin_unavailable
             (''cannot read git origin for target primaryRoot '' @ primaryRoot @ (if detail = [] then [] else '': '' @ detail)))
      else Inr (js_trim (ga_stdout result)))"

definition read_card :: "target_env \<Rightarrow> string \<Rightarrow> target_error + json" where
  "read_card env cardPath =
     (case tn_card env cardPath of
        No_Card \<Rightarrow> Inl (target_error card_missing (''target project card not found: '' @ cardPath))
      | Unparsable_Card e \<Rightarrow> Inl (target_error card_invalid (''cannot parse target project card '' @ cardPath @ '': '' @ e))
      | Parsed_Card raw \<Rightarrow>
          if isRecord (Some raw) then Inr raw
          else Inl (target_error card_invalid (''target project card must be a JSON object: '' @ cardPath)))"

definition card_patterns_ok :: "target_env \<Rightarrow> string \<Rightarrow> string \<Rightarrow> string \<Rightarrow> bool" where
  "card_patterns_ok env orca title projectUrl \<longleftrightarrow>
     tn_regexp env orca ''u'' \<and> tn_regexp env title ''iu''
     \<and> (case tn_protocol env projectUrl of None \<Rightarrow> False | Some p \<Rightarrow> p = ''https:'' \<or> p = ''http:'')"

definition resolveTargetContext :: "string option \<Rightarrow> target_env \<Rightarrow> target_error + target_context" where
  "resolveTargetContext projectIdInput env =
     rbind (selectedProjectId projectIdInput env) (\<lambda>projectId.
     let cardPath = projectCardPath projectId env in
     rbind (read_card env cardPath) (\<lambda>card.
     let cardProjectId = text_of (json_field card ''projectId'');
         repository = js_lower (text_of (json_field card ''repository''));
         primaryRoot = text_of (json_field card ''primaryRoot'');
         defaultBranch = text_of (json_field card ''defaultBranch'');
         orca = text_of (json_field card ''orcaWorkspacePattern'');
         title = text_of (json_field card ''orchestratorTitlePattern'');
         projectUrl = (case json_field card ''browserGpt'' of None \<Rightarrow> [] | Some b \<Rightarrow> text_of (json_field b ''projectUrl''))
     in
     rbind (require (cardProjectId = projectId)
              (target_error project_id_mismatch
                (''target project card projectId '' @ (if cardProjectId = [] then ''<empty>'' else cardProjectId)
                  @ '' does not match file/selector '' @ projectId @ '': '' @ cardPath))) (\<lambda>_.
     rbind (require (repository_ok repository \<and> primaryRoot \<noteq> [] \<and> defaultBranch \<noteq> [] \<and> orca \<noteq> [] \<and> title \<noteq> [] \<and> projectUrl \<noteq> [])
              (target_error card_invalid
                (''target project card requires projectId, repository, primaryRoot, defaultBranch, orcaWorkspacePattern, orchestratorTitlePattern, and browserGpt.projectUrl: ''
                  @ cardPath))) (\<lambda>_.
     rbind (require (isAbsolute primaryRoot)
              (target_error primary_root_invalid (''target primaryRoot must be absolute: '' @ primaryRoot))) (\<lambda>_.
     rbind (require (tn_directory env primaryRoot)
              (target_error primary_root_invalid (''target primaryRoot is not a readable directory: '' @ primaryRoot))) (\<lambda>_.
     rbind (require (card_patterns_ok env orca title projectUrl)
              (target_error card_invalid (''target card contains an invalid regex or Browser-GPT project URL: '' @ cardPath))) (\<lambda>_.
     rbind (readOrigin env primaryRoot) (\<lambda>origin.
     rbind (require (canonicalGitHubRepository origin = Some repository)
              (target_error origin_mismatch
                (''target card repository '' @ repository @ '' does not match primaryRoot origin ''
                  @ (if origin = [] then ''<empty>'' else origin) @ '': '' @ cardPath))) (\<lambda>_.
     rbind (parseRequiredCi (json_field card ''requiredCi'') cardPath) (\<lambda>requiredCi.
     rbind (parseVerification (json_field card ''verification'') cardPath) (\<lambda>verification.
     rbind (parseContractEvidenceProducer (json_field card ''contractEvidenceProducer'') cardPath) (\<lambda>producer.
     Inr \<lparr>tc_projectId = projectId, tc_repository = repository, tc_primaryRoot = path_resolve (tn_cwd env) primaryRoot,
          tc_defaultBranch = defaultBranch, tc_requiredCi = requiredCi, tc_orcaPattern = orca, tc_titlePattern = title,
          tc_projectUrl = projectUrl, tc_verification = verification, tc_producer = producer,
          tc_packRoot = tn_pack_root env, tc_cardPath = cardPath\<rparr>))))))))))))"

section \<open>Verification in a worktree\<close>

datatype verification_code =
    verification_local_required | target_worktree_required | target_worktree_invalid
  | target_worktree_repository_mismatch | verification_command_spawn_failed | verification_command_failed

record verification_error =
  ve_code :: verification_code
  ve_message :: string
  ve_index :: "nat option"

definition verification_error :: "verification_code \<Rightarrow> string \<Rightarrow> verification_error" where
  "verification_error code message = \<lparr>ve_code = code, ve_message = message, ve_index = None\<rparr>"

definition targetVerificationCommands :: "target_context \<Rightarrow> verification_error + string list" where
  "targetVerificationCommands context =
     (let missing = Inl (verification_error verification_local_required
            (''target project '' @ tc_projectId context @ '' requires a non-empty verification.local command list in '' @ tc_cardPath context))
      in case Option.bind (tc_verification context) tv_local of
           None \<Rightarrow> missing
         | Some commands \<Rightarrow> if commands = [] \<or> list_ex (\<lambda>c. js_trim c = []) commands then missing else Inr commands)"

definition realpath_dir :: "target_env \<Rightarrow> string \<Rightarrow> string option" where
  "realpath_dir env path =
     (case tn_realpath env (path_resolve (tn_cwd env) path) of
        None \<Rightarrow> None
      | Some root \<Rightarrow> if tn_directory env root then Some root else None)"

definition validatedTargetWorktreeRoot :: "target_env \<Rightarrow> target_context \<Rightarrow> string \<Rightarrow> verification_error + string" where
  "validatedTargetWorktreeRoot env context value =
     (let requested = js_trim value in
      if requested = []
      then Inl (verification_error target_worktree_required ''target verification requires an explicit current target worktree root'')
      else case realpath_dir env requested of
        None \<Rightarrow> Inl (verification_error target_worktree_invalid
                  (''target verification worktree is not a readable directory: '' @ requested))
      | Some root \<Rightarrow>
          let topLevel = tn_git env root [''rev-parse'', ''--show-toplevel'']; top = js_trim (ga_stdout topLevel) in
          if \<not> ga_ok topLevel \<or> top = []
          then Inl (verification_error target_worktree_invalid (''target verification root is not a readable Git worktree: '' @ root))
          else case tn_realpath env (path_resolve (tn_cwd env) top) of
            None \<Rightarrow> Inl (verification_error target_worktree_invalid (''target verification Git top level is unreadable: '' @ top))
          | Some canonical \<Rightarrow>
              if canonical \<noteq> root
              then Inl (verification_error target_worktree_invalid (''target verification root must be the Git worktree top level: '' @ root))
              else
                let origin = tn_git env root [''remote'', ''get-url'', ''origin''];
                    observed = (if ga_ok origin then canonicalGitHubRepository (ga_stdout origin) else None)
                in if observed \<noteq> Some (js_lower (tc_repository context))
                   then Inl (verification_error target_worktree_repository_mismatch
                          (''target verification worktree origin does not match selected card repository '' @ tc_repository context @ '': '' @ root))
                   else Inr root)"

datatype run_answer =
    Run_Threw string
  | Run_Spawn_Failure
  | Run_Finished bool "int option" "string option" string

text \<open>\<open>Run_Finished ok exitCode signal outcome\<close>. The runner is given the shell command and its directory.\<close>

fun run_commands ::
  "('w \<Rightarrow> string \<Rightarrow> string \<Rightarrow> run_answer \<times> 'w) \<Rightarrow> string \<Rightarrow> nat \<Rightarrow> string list \<Rightarrow> 'w \<Rightarrow> (verification_error + unit) \<times> 'w" where
  "run_commands runner root index [] w = (Inr (), w)"
| "run_commands runner root index (command # commands) w =
     (case runner w command root of
        (Run_Threw e, w') \<Rightarrow>
          (Inl \<lparr>ve_code = verification_command_spawn_failed,
                ve_message = ''target verification command '' @ show_nat (index + 1) @ '' could not spawn: '' @ e,
                ve_index = Some index\<rparr>, w')
      | (Run_Spawn_Failure, w') \<Rightarrow>
          (Inl \<lparr>ve_code = verification_command_spawn_failed,
                ve_message = ''target verification command '' @ show_nat (index + 1) @ '' could not spawn'',
                ve_index = Some index\<rparr>, w')
      | (Run_Finished ok exitCode signal outcome, w') \<Rightarrow>
          if ok then run_commands runner root (index + 1) commands w'
          else
            let terminal = (case exitCode of
                  Some n \<Rightarrow> ''exit '' @ show_int n
                | None \<Rightarrow> (case signal of Some s \<Rightarrow> if s \<noteq> [] then ''signal '' @ s else outcome | None \<Rightarrow> outcome))
            in (Inl \<lparr>ve_code = verification_command_failed,
                     ve_message = ''target verification command '' @ show_nat (index + 1) @ '' failed with '' @ terminal,
                     ve_index = Some index\<rparr>, w'))"

record verification_result =
  vr_projectId :: string
  vr_repository :: string
  vr_root :: string
  vr_count :: nat

definition runTargetVerification ::
  "target_env \<Rightarrow> ('w \<Rightarrow> string \<Rightarrow> string \<Rightarrow> run_answer \<times> 'w) \<Rightarrow> target_context \<Rightarrow> string \<Rightarrow> 'w
    \<Rightarrow> (verification_error + verification_result) \<times> 'w" where
  "runTargetVerification env runner context worktree w =
     (case targetVerificationCommands context of
        Inl e \<Rightarrow> (Inl e, w)
      | Inr commands \<Rightarrow>
          (case validatedTargetWorktreeRoot env context worktree of
             Inl e \<Rightarrow> (Inl e, w)
           | Inr root \<Rightarrow>
               (case run_commands runner root 0 commands w of
                  (Inl e, w') \<Rightarrow> (Inl e, w')
                | (Inr _, w') \<Rightarrow>
                    (Inr \<lparr>vr_projectId = tc_projectId context, vr_repository = tc_repository context,
                          vr_root = root, vr_count = length commands\<rparr>, w'))))"

section \<open>Properties\<close>

lemma readOrigin_Inr:
  "readOrigin env root = Inr origin \<longleftrightarrow>
     ga_ok (tn_git env root [''remote'', ''get-url'', ''origin''])
     \<and> origin = js_trim (ga_stdout (tn_git env root [''remote'', ''get-url'', ''origin'']))"
  by (auto simp: readOrigin_def Let_def)

lemma read_card_Inr: "read_card env cardPath = Inr raw \<longleftrightarrow> tn_card env cardPath = Parsed_Card raw \<and> isRecord (Some raw)"
  by (auto simp: read_card_def split: card_file.splits)

text \<open>What the context of an accepted card says, field by field.\<close>

lemma resolveTargetContext_Inr:
  assumes "resolveTargetContext projectId env = Inr c"
  shows "selectedProjectId projectId env = Inr (tc_projectId c) \<and> tc_cardPath c = projectCardPath (tc_projectId c) env
    \<and> (\<exists>card. tn_card env (tc_cardPath c) = Parsed_Card card
        \<and> text_of (json_field card ''projectId'') = tc_projectId c
        \<and> js_lower (text_of (json_field card ''repository'')) = tc_repository c
        \<and> isAbsolute (text_of (json_field card ''primaryRoot'')) \<and> tn_directory env (text_of (json_field card ''primaryRoot''))
        \<and> tc_primaryRoot c = path_resolve (tn_cwd env) (text_of (json_field card ''primaryRoot''))
        \<and> (\<exists>origin. readOrigin env (text_of (json_field card ''primaryRoot'')) = Inr origin
             \<and> canonicalGitHubRepository origin = Some (tc_repository c))
        \<and> tc_defaultBranch c = text_of (json_field card ''defaultBranch'') \<and> tc_defaultBranch c \<noteq> []
        \<and> parseRequiredCi (json_field card ''requiredCi'') (tc_cardPath c) = Inr (tc_requiredCi c)
        \<and> parseVerification (json_field card ''verification'') (tc_cardPath c) = Inr (tc_verification c)
        \<and> parseContractEvidenceProducer (json_field card ''contractEvidenceProducer'') (tc_cardPath c) = Inr (tc_producer c))"
  using assms
  unfolding resolveTargetContext_def Let_def rbind_Inr require_Inr read_card_Inr
  by (elim exE conjE, simp only: sum.inject, hypsubst) (simp only: target_context.select_convs, intro conjI exI; simp?)

text \<open>
  C22: An accepted context belongs to the project that was selected: it comes from that project's card,
  which names the project itself and an absolute readable root, and the repository it names is the
  GitHub identity of the origin of that root; its base branch is never empty. A selector and an
  environment that disagree select nothing.
\<close>
theorem target_context_bound:
  assumes "resolveTargetContext projectId env = Inr c"
  shows "selectedProjectId projectId env = Inr (tc_projectId c)
    \<and> (\<exists>card. tn_card env (projectCardPath (tc_projectId c) env) = Parsed_Card card
      \<and> text_of (json_field card ''projectId'') = tc_projectId c
      \<and> js_lower (text_of (json_field card ''repository'')) = tc_repository c
      \<and> (let root = text_of (json_field card ''primaryRoot''); git = tn_git env root [''remote'', ''get-url'', ''origin'']
         in isAbsolute root \<and> tn_directory env root \<and> tc_primaryRoot c = path_resolve (tn_cwd env) root
            \<and> ga_ok git \<and> canonicalGitHubRepository (ga_stdout git) = Some (tc_repository c))
      \<and> parseRequiredCi (json_field card ''requiredCi'') (tc_cardPath c) = Inr (tc_requiredCi c))
    \<and> tc_defaultBranch c \<noteq> [] \<and> path_resolve cwd (tc_primaryRoot c) = tc_primaryRoot c
    \<and> (case (map_option js_trim projectId, map_option js_trim (tn_vars env ''OPK_PROJECT_ID'')) of
        (Some a, Some b) \<Rightarrow> a = [] \<or> b = [] \<or> a = b
      | _ \<Rightarrow> True)"
proof -
  have trim: "canonicalGitHubRepository (js_trim s) = canonicalGitHubRepository s" for s
    by (simp add: canonicalGitHubRepository_def parseRemoteSlug_def)
  note r = resolveTargetContext_Inr [OF assms]
  have "\<exists>card. tn_card env (projectCardPath (tc_projectId c) env) = Parsed_Card card
      \<and> text_of (json_field card ''projectId'') = tc_projectId c
      \<and> js_lower (text_of (json_field card ''repository'')) = tc_repository c
      \<and> (let root = text_of (json_field card ''primaryRoot''); git = tn_git env root [''remote'', ''get-url'', ''origin'']
         in isAbsolute root \<and> tn_directory env root \<and> tc_primaryRoot c = path_resolve (tn_cwd env) root
            \<and> ga_ok git \<and> canonicalGitHubRepository (ga_stdout git) = Some (tc_repository c))
      \<and> parseRequiredCi (json_field card ''requiredCi'') (tc_cardPath c) = Inr (tc_requiredCi c)"
    using r unfolding readOrigin_Inr Let_def by (metis trim)
  moreover have "tc_defaultBranch c \<noteq> [] \<and> path_resolve cwd (tc_primaryRoot c) = tc_primaryRoot c"
    using r by (metis path_resolve_idem)
  moreover have "case (map_option js_trim projectId, map_option js_trim (tn_vars env ''OPK_PROJECT_ID'')) of
        (Some a, Some b) \<Rightarrow> a = [] \<or> b = [] \<or> a = b
      | _ \<Rightarrow> True"
    using r by (auto simp: selectedProjectId_def env_text_def Let_def split: if_splits option.splits)
  ultimately show ?thesis using r by blast
qed

definition finished_ok :: "run_answer \<Rightarrow> bool" where
  "finished_ok a \<longleftrightarrow> (case a of Run_Finished ok _ _ _ \<Rightarrow> ok | _ \<Rightarrow> False)"

text \<open>The state after running the commands one by one, whatever they answer.\<close>

definition run_all :: "('w \<Rightarrow> string \<Rightarrow> string \<Rightarrow> run_answer \<times> 'w) \<Rightarrow> string \<Rightarrow> string list \<Rightarrow> 'w \<Rightarrow> 'w" where
  "run_all runner root commands w = foldl (\<lambda>w command. snd (runner w command root)) w commands"

definition step_ok :: "('w \<Rightarrow> string \<Rightarrow> string \<Rightarrow> run_answer \<times> 'w) \<Rightarrow> string \<Rightarrow> string list \<Rightarrow> 'w \<Rightarrow> nat \<Rightarrow> bool" where
  "step_ok runner root commands w i = finished_ok (fst (runner (run_all runner root (take i commands) w) (commands ! i) root))"

lemma run_all_Cons [simp]: "run_all runner root (c # cs) w = run_all runner root cs (snd (runner w c root))"
  by (simp add: run_all_def)

lemma run_all_Nil [simp]: "run_all runner root [] w = w"
  by (simp add: run_all_def)

lemma step_ok_Cons [simp]:
  "step_ok runner root (c # cs) w 0 = finished_ok (fst (runner w c root))"
  "step_ok runner root (c # cs) w (Suc i) = step_ok runner root cs (snd (runner w c root)) i"
  by (simp_all add: step_ok_def)

lemma run_commands_spec:
  "case run_commands runner root k commands w of
     (Inr _, w') \<Rightarrow> w' = run_all runner root commands w \<and> (\<forall>i < length commands. step_ok runner root commands w i)
   | (Inl e, w') \<Rightarrow> \<exists>i < length commands. ve_index e = Some (k + i) \<and> w' = run_all runner root (take (Suc i) commands) w
        \<and> \<not> step_ok runner root commands w i \<and> (\<forall>j < i. step_ok runner root commands w j)"
proof (induction commands arbitrary: k w)
  case (Cons c cs)
  obtain a w' where rw: "runner w c root = (a, w')" by (cases "runner w c root")
  show ?case
  proof (cases "finished_ok a")
    case True
    then have "run_commands runner root k (c # cs) w = run_commands runner root (k + 1) cs w'"
      by (auto simp: rw finished_ok_def split: run_answer.splits)
    then show ?thesis
      using Cons.IH [of "k + 1" w'] True rw
      by (force simp: less_Suc_eq_0_disj split: prod.splits sum.splits)
  next
    case False
    then show ?thesis using rw by (auto simp: finished_ok_def Let_def split: run_answer.splits)
  qed
qed simp

text \<open>
  C29: Verification runs the card's commands in their order, each once, in the root of a checked-out
  worktree of the card's repository, and stops at the first that fails: it succeeds exactly when
  every command succeeded; an error with an index names the first command that did not, with none
  after it run; an error without an index was raised before anything ran.
\<close>
theorem verification_runs_in_order:
  "case runTargetVerification env runner ctxt worktree w of (answer, w') \<Rightarrow>
     (case answer of
        Inr r \<Rightarrow> \<exists>commands. Option.bind (tc_verification ctxt) tv_local = Some commands \<and> commands \<noteq> []
          \<and> validatedTargetWorktreeRoot env ctxt worktree = Inr (vr_root r) \<and> vr_count r = length commands
          \<and> canonicalGitHubRepository (ga_stdout (tn_git env (vr_root r) [''remote'', ''get-url'', ''origin'']))
              = Some (js_lower (tc_repository ctxt))
          \<and> w' = run_all runner (vr_root r) commands w \<and> (\<forall>i < length commands. step_ok runner (vr_root r) commands w i)
      | Inl e \<Rightarrow>
          (case ve_index e of
             None \<Rightarrow> w' = w
           | Some i \<Rightarrow> \<exists>commands root. Option.bind (tc_verification ctxt) tv_local = Some commands
               \<and> validatedTargetWorktreeRoot env ctxt worktree = Inr root \<and> i < length commands
               \<and> w' = run_all runner root (take (Suc i) commands) w
               \<and> \<not> step_ok runner root commands w i \<and> (\<forall>j < i. step_ok runner root commands w j)))"
proof -
  have none: "targetVerificationCommands ctxt = Inl e \<Longrightarrow> ve_index e = None"
    "validatedTargetWorktreeRoot env ctxt worktree = Inl e \<Longrightarrow> ve_index e = None" for e
    by (auto simp: targetVerificationCommands_def validatedTargetWorktreeRoot_def verification_error_def Let_def
        split: option.splits if_splits)
  have cmds: "targetVerificationCommands ctxt = Inr cs \<Longrightarrow>
      Option.bind (tc_verification ctxt) tv_local = Some cs \<and> cs \<noteq> []" for cs
    by (auto simp: targetVerificationCommands_def Let_def split: option.splits if_splits)
  have repo: "validatedTargetWorktreeRoot env ctxt worktree = Inr root \<Longrightarrow>
      canonicalGitHubRepository (ga_stdout (tn_git env root [''remote'', ''get-url'', ''origin'']))
        = Some (js_lower (tc_repository ctxt))" for root
    by (auto simp: validatedTargetWorktreeRoot_def Let_def split: option.splits if_splits)
  show ?thesis
  proof (cases "targetVerificationCommands ctxt")
    case (Inl e)
    then show ?thesis using none by (simp add: runTargetVerification_def)
  next
    case cs: (Inr cs)
    show ?thesis
    proof (cases "validatedTargetWorktreeRoot env ctxt worktree")
      case (Inl e)
      then show ?thesis using none cs by (simp add: runTargetVerification_def)
    next
      case (Inr root)
      then show ?thesis
        using cs cmds [OF cs] repo [OF Inr] run_commands_spec [where runner = runner and root = root and k = 0 and commands = cs and w = w]
        by (auto simp: runTargetVerification_def split: prod.splits sum.splits)
    qed
  qed
qed

section \<open>A sample project\<close>

definition sample_card :: json where
  "sample_card = JObj
     [(''projectId'', JStr ''pack''), (''repository'', JStr ''Owner/Repo''), (''primaryRoot'', JStr ''/srv/repo''),
      (''defaultBranch'', JStr ''main''), (''orcaWorkspacePattern'', JStr ''w''), (''orchestratorTitlePattern'', JStr ''t''),
      (''browserGpt'', JObj [(''projectUrl'', JStr ''https://chat'')]),
      (''requiredCi'', JArr [JStr ''build / test'', JStr ''build / lint'']),
      (''verification'', JObj [(''local'', JArr [JStr ''npm test''])])]"

definition sample_env :: target_env where
  "sample_env = \<lparr>tn_vars = (\<lambda>n. if n = ''HOME'' then Some ''/home/u'' else None), tn_homedir = ''/root'', tn_cwd = ''/w'',
     tn_pack_root = ''/pack'',
     tn_card = (\<lambda>p. if p = ''/home/u/.config/orchestrator-pack/projects/pack.json'' then Parsed_Card sample_card else No_Card),
     tn_directory = (\<lambda>p. p = ''/srv/repo''), tn_regexp = (\<lambda>_ _. True), tn_protocol = (\<lambda>_. Some ''https:''),
     tn_git = (\<lambda>_ _. \<lparr>ga_ok = True, ga_stdout = ''git@github.com:owner/repo.git'', ga_detail = []\<rparr>),
     tn_realpath = (\<lambda>p. Some p)\<rparr>"

definition sample_context :: target_context where
  "sample_context = \<lparr>tc_projectId = ''pack'', tc_repository = ''owner/repo'', tc_primaryRoot = ''/srv/repo'',
     tc_defaultBranch = ''main'', tc_requiredCi = Some [''build / test'', ''build / lint''], tc_orcaPattern = ''w'',
     tc_titlePattern = ''t'', tc_projectUrl = ''https://chat'',
     tc_verification = Some \<lparr>tv_local = Some [''npm test''], tv_focused = None, tv_formatter = None\<rparr>,
     tc_producer = None, tc_packRoot = ''/pack'',
     tc_cardPath = ''/home/u/.config/orchestrator-pack/projects/pack.json''\<rparr>"

lemma sample_resolves: "resolveTargetContext (Some ''pack'') sample_env = Inr sample_context"
  by code_simp

lemma target_context_bound_witness:
  "selectedProjectId (Some ''pack'') sample_env = Inr ''pack'' \<and> tc_primaryRoot sample_context = ''/srv/repo''"
  using target_context_bound [OF sample_resolves, of "''/''"] by (simp add: sample_context_def)

text \<open>A runner whose commands all succeed, and which keeps them in the order they were run.\<close>

definition logging_runner :: "string list \<Rightarrow> string \<Rightarrow> string \<Rightarrow> run_answer \<times> string list" where
  "logging_runner log command root = (Run_Finished True (Some 0) None ''exit'', log @ [command])"

definition sample_worktree_env :: target_env where
  "sample_worktree_env = sample_env\<lparr>tn_git := (\<lambda>_ args.
     \<lparr>ga_ok = True, ga_stdout = (if args = [''rev-parse'', ''--show-toplevel''] then ''/srv/repo'' else ''git@github.com:owner/repo.git''),
      ga_detail = []\<rparr>)\<rparr>"

lemma sample_verification:
  "runTargetVerification sample_worktree_env logging_runner sample_context ''/srv/repo'' []
     = (Inr \<lparr>vr_projectId = ''pack'', vr_repository = ''owner/repo'', vr_root = ''/srv/repo'', vr_count = 1\<rparr>, [''npm test''])"
  by code_simp

lemma sample_commands: "Option.bind (tc_verification sample_context) tv_local = Some [''npm test'']"
  by (simp add: sample_context_def)

lemma verification_runs_in_order_witness:
  "run_all logging_runner ''/srv/repo'' [''npm test''] [] = [''npm test'']
    \<and> step_ok logging_runner ''/srv/repo'' [''npm test''] [] 0"
  using verification_runs_in_order [where ?env = sample_worktree_env and ?runner = logging_runner
      and ?ctxt = sample_context and ?worktree = "''/srv/repo''" and ?w = "[]"]
  by (simp add: sample_verification sample_commands logging_runner_def)

end
