(* ===== verification/Required_Ci.thy ===== *)
theory Required_Ci
  imports Target_Context
begin

text \<open>
  The required-CI gate of a pull request, \<open>scripts/lib/required-ci.ts\<close>, with the check
  classifiers of \<open>docs/review-ready-stuck-guard.mjs\<close>. The three remote reads are state
  transformers that fail with \<open>None\<close>, so their order is part of the model.
\<close>

section \<open>Data\<close>

record check_row =
  ck_name :: "string option"
  ck_workflow :: "string option"
  ck_state :: "string option"
  ck_conclusion :: "string option"
  ck_status :: "string option"
  ck_bucket :: "string option"

datatype ci_selector = Actions string string | Context string

record protection_policy =
  pp_contexts :: "json list option"
  pp_checks :: "json list option"

datatype protection_read = Protection_Ok protection_policy | Protection_Unavailable int

datatype ci_source = project_card | branch_protection | merge_contract_fallback | source_lookup_unavailable | source_none

datatype ci_state = Ci_Green | Ci_Pending | Ci_Failure

datatype ci_reason =
    reason_green | base_branch_mismatch | lookup_unavailable | no_required_ci_configured | projection_unavailable
  | head_changed | evidence_stale | required_selector_missing | required_selector_pending | required_selector_failed

datatype head_binding = inferred_current | binding_mismatch | binding_unavailable

record ci_outcome =
  co_state :: ci_state
  co_source :: ci_source
  co_reason :: ci_reason
  co_postHead :: string
  co_binding :: head_binding
  co_selectors :: "ci_selector list"
  co_diagnostics :: "string list"

record ci_result = ci_outcome +
  cr_green :: bool
  cr_expectedHead :: string

record pr_witness =
  pw_headSha :: string
  pw_baseRef :: string

record ci_input =
  ci_projectId :: string
  ci_repository :: string
  ci_defaultBranch :: string
  ci_requiredCi :: "string list option"
  ci_expectedHead :: string
  ci_prBaseRef :: string

section \<open>Check rows\<close>

definition normalized :: "string option \<Rightarrow> string" where
  "normalized v = js_lower (js_trim (case v of None \<Rightarrow> [] | Some s \<Rightarrow> s))"

definition first_of :: "string option list \<Rightarrow> string option" where
  "first_of vs = (case filter (\<lambda>v. v \<noteq> None) vs of [] \<Rightarrow> None | v # _ \<Rightarrow> v)"

definition isCiCheckSuccess :: "check_row \<Rightarrow> bool" where
  "isCiCheckSuccess row \<longleftrightarrow>
     normalized (first_of [ck_state row, ck_conclusion row, ck_status row]) \<in> {''success'', ''neutral'', ''skipped''}"

definition isCiCheckPending :: "check_row \<Rightarrow> bool" where
  "isCiCheckPending row \<longleftrightarrow>
     normalized (first_of [ck_state row, ck_status row]) \<in> {''pending'', ''queued'', ''in_progress'', ''waiting''}"

definition isCiCheckFailure :: "check_row \<Rightarrow> bool" where
  "isCiCheckFailure row \<longleftrightarrow>
     normalized (first_of [ck_state row, ck_conclusion row, ck_status row])
       \<in> {''failure'', ''failed'', ''error'', ''cancelled'', ''timed_out'', ''action_required''}"

definition PACK_MERGE_CONTRACT_CHECK_NAMES :: "string list" where
  "PACK_MERGE_CONTRACT_CHECK_NAMES =
     [''verify orchestrator-pack structure'', ''pr scope guard'', ''run pack contract tests'', ''self-architect lint'']"

section \<open>Selectors\<close>

definition parseRequiredCiSelector :: "string \<Rightarrow> string + (string \<times> string)" where
  "parseRequiredCiSelector selector =
     (case js_split_text ci_separator selector of
        [left, right] \<Rightarrow>
          if js_trim left = [] \<or> js_trim right = [] then Inl (''invalid requiredCi selector: '' @ selector)
          else Inr (js_trim left, js_trim right)
      | _ \<Rightarrow> Inl (''invalid requiredCi selector: '' @ selector))"

definition display_json :: "json option \<Rightarrow> string" where
  "display_json v = (case v of None \<Rightarrow> [] | Some JNull \<Rightarrow> [] | Some j \<Rightarrow> js_trim (json_to_string j))"

fun add_contexts :: "string list \<Rightarrow> string list \<Rightarrow> string list \<Rightarrow> string list" where
  "add_contexts seen names [] = names"
| "add_contexts seen names (name # rest) =
     (if name = [] then add_contexts seen names rest
      else
        let key = js_lower (js_trim name) in
        if key \<in> set seen then add_contexts seen names rest
        else add_contexts (key # seen) (names @ [name]) rest)"

definition check_context :: "json \<Rightarrow> string list" where
  "check_context v = (case v of
      JStr s \<Rightarrow> [display_json (Some v)]
    | JArr _ \<Rightarrow> [display_json None]
    | JObj _ \<Rightarrow> [display_json (json_field v ''context'')]
    | _ \<Rightarrow> [])"

definition policy_names :: "protection_policy \<Rightarrow> string list" where
  "policy_names policy =
     map (\<lambda>v. display_json (Some v)) (case pp_contexts policy of None \<Rightarrow> [] | Some vs \<Rightarrow> vs)
     @ concat (map check_context (case pp_checks policy of None \<Rightarrow> [] | Some vs \<Rightarrow> vs))"

definition branchProtectionContexts :: "protection_policy \<Rightarrow> string list" where
  "branchProtectionContexts policy = add_contexts [] [] (policy_names policy)"

definition PACK_REVIEW_REQUIRED_STATUS_CONTEXT :: string where
  "PACK_REVIEW_REQUIRED_STATUS_CONTEXT = ''orchestrator-pack/pack-review''"

definition reviewIndependentRequiredCiContexts :: "string list \<Rightarrow> string list" where
  "reviewIndependentRequiredCiContexts contexts =
     filter (\<lambda>name. normalized (Some name) \<noteq> normalized (Some PACK_REVIEW_REQUIRED_STATUS_CONTEXT)) contexts"

definition projectCardSelectors :: "string list \<Rightarrow> string + ci_selector list" where
  "projectCardSelectors requiredCi =
     rall (\<lambda>s. rbind (parseRequiredCiSelector s) (\<lambda>(workflow, job). Inr (Actions workflow job))) requiredCi"

definition contextSelectors :: "string list \<Rightarrow> ci_selector list" where
  "contextSelectors names = map Context names"

fun selectorRows :: "ci_selector \<Rightarrow> check_row list \<Rightarrow> check_row list" where
  "selectorRows (Context name) rows = filter (\<lambda>row. normalized (ck_name row) = normalized (Some name)) rows"
| "selectorRows (Actions workflow job) rows =
     filter (\<lambda>row. normalized (ck_workflow row) = normalized (Some workflow)
       \<and> normalized (ck_name row) = normalized (Some job)) rows"

fun selector_name :: "ci_selector \<Rightarrow> string" where
  "selector_name (Actions workflow job) = workflow @ '' / '' @ job"
| "selector_name (Context name) = name"

section \<open>Evaluation\<close>

fun evaluate_from :: "bool \<Rightarrow> ci_selector list \<Rightarrow> check_row list \<Rightarrow> ci_state \<times> ci_reason \<times> string list" where
  "evaluate_from sawPending [] rows =
     (if sawPending then (Ci_Pending, required_selector_pending, [''required_selector_pending''])
      else (Ci_Green, reason_green, []))"
| "evaluate_from sawPending (selector # rest) rows =
     (let matched = selectorRows selector rows; name = selector_name selector in
      if matched = [] then (Ci_Pending, required_selector_missing, [''required_selector_missing:'' @ name])
      else if list_ex isCiCheckPending matched then evaluate_from True rest rows
      else if list_ex isCiCheckFailure matched then (Ci_Failure, required_selector_failed, [''required_selector_failed:'' @ name])
      else if \<not> list_all isCiCheckSuccess matched
      then (Ci_Pending, required_selector_pending, [''required_selector_unresolved:'' @ name])
      else evaluate_from sawPending rest rows)"

definition evaluateSelectors :: "ci_selector list \<Rightarrow> check_row list \<Rightarrow> ci_state \<times> ci_reason \<times> string list" where
  "evaluateSelectors selectors rows =
     (if selectors = [] then (Ci_Green, reason_green, []) else evaluate_from False selectors rows)"

definition canonicalPackTarget :: "ci_input \<Rightarrow> bool" where
  "canonicalPackTarget input \<longleftrightarrow>
     normalized (Some (ci_projectId input)) = ''orchestrator-pack''
     \<and> normalized (Some (ci_repository input)) = ''chetwerikoff/orchestrator-pack''"

section \<open>The gate\<close>

definition ci_result_of :: "ci_input \<Rightarrow> ci_outcome \<Rightarrow> ci_result" where
  "ci_result_of input out =
     ci_outcome.extend out
       (ci_result.fields (co_state out = Ci_Green) (normalized (Some (ci_expectedHead input))))"

definition outcome ::
  "ci_state \<Rightarrow> ci_source \<Rightarrow> ci_reason \<Rightarrow> string \<Rightarrow> head_binding \<Rightarrow> ci_selector list \<Rightarrow> string list \<Rightarrow> ci_outcome" where
  "outcome state source reason postHead binding selectors diagnostics =
     \<lparr>co_state = state, co_source = source, co_reason = reason, co_postHead = postHead, co_binding = binding,
      co_selectors = selectors, co_diagnostics = diagnostics\<rparr>"

definition or_empty :: "string \<Rightarrow> string" where
  "or_empty s = (if s = [] then ''<empty>'' else s)"

text \<open>Which selectors are required: an early outcome, or the source and its selectors.\<close>

definition required_selectors ::
  "ci_input \<Rightarrow> ('w \<Rightarrow> protection_read option \<times> 'w) \<Rightarrow> 'w \<Rightarrow> (string + (ci_outcome + ci_source \<times> ci_selector list)) \<times> 'w" where
  "required_selectors input readProtection w =
     (case ci_requiredCi input of
        Some requiredCi \<Rightarrow> (rbind (projectCardSelectors requiredCi) (\<lambda>sel. Inr (Inr (project_card, sel))), w)
      | None \<Rightarrow>
          (case readProtection w of
             (None, w') \<Rightarrow>
               (Inr (Inl (outcome Ci_Pending source_lookup_unavailable lookup_unavailable [] binding_unavailable []
                  [''lookup_unavailable:transport_error''])), w')
           | (Some (Protection_Unavailable httpStatus), w') \<Rightarrow>
               (Inr (Inl (outcome Ci_Pending source_lookup_unavailable lookup_unavailable [] binding_unavailable []
                  [''lookup_unavailable:http_'' @ show_int httpStatus])), w')
           | (Some (Protection_Ok policy), w') \<Rightarrow>
               (let rawContexts = branchProtectionContexts policy in
                if rawContexts = []
                then (if \<not> canonicalPackTarget input
                      then (Inr (Inl (outcome Ci_Pending source_none no_required_ci_configured [] binding_unavailable []
                             [''no_required_ci_configured''])), w')
                      else (Inr (Inr (merge_contract_fallback, contextSelectors PACK_MERGE_CONTRACT_CHECK_NAMES)), w'))
                else (Inr (Inr (branch_protection, contextSelectors (reviewIndependentRequiredCiContexts rawContexts))), w'))))"

definition resolveRequiredCi ::
  "('w \<Rightarrow> protection_read option \<times> 'w) \<Rightarrow> ('w \<Rightarrow> check_row list option \<times> 'w) \<Rightarrow> ('w \<Rightarrow> pr_witness option \<times> 'w)
    \<Rightarrow> ci_input \<Rightarrow> 'w \<Rightarrow> (string + ci_result) \<times> 'w" where
  "resolveRequiredCi readProtection readChecks readCurrentPr input w =
     (let expected = normalized (Some (ci_expectedHead input));
          prBase = js_trim (ci_prBaseRef input);
          defaultBranch = js_trim (ci_defaultBranch input);
          finish = (\<lambda>out. Inr (ci_result_of input out))
      in
      if expected = [] \<or> prBase \<noteq> defaultBranch
      then (finish (outcome Ci_Failure (if ci_requiredCi input \<noteq> None then project_card else source_none)
              base_branch_mismatch [] binding_unavailable []
              [''base_branch_mismatch:expected='' @ defaultBranch @ '':observed='' @ or_empty prBase]), w)
      else
        (case required_selectors input readProtection w of
           (Inl e, w1) \<Rightarrow> (Inl e, w1)
         | (Inr (Inl out), w1) \<Rightarrow> (finish out, w1)
         | (Inr (Inr (source, selectors)), w1) \<Rightarrow>
             (case readChecks w1 of
                (None, w2) \<Rightarrow>
                  (finish (outcome Ci_Pending source projection_unavailable [] binding_unavailable selectors
                     [''projection_unavailable'']), w2)
              | (Some rows, w2) \<Rightarrow>
                  (case readCurrentPr w2 of
                     (None, w3) \<Rightarrow>
                       (finish (outcome Ci_Pending source evidence_stale [] binding_unavailable selectors
                          [''evidence_stale:post_projection_pr_unavailable'']), w3)
                   | (Some witness, w3) \<Rightarrow>
                       (let postHead = normalized (Some (pw_headSha witness)); postBase = js_trim (pw_baseRef witness) in
                        if postHead = [] \<or> postHead \<noteq> expected
                        then (finish (outcome Ci_Pending source head_changed postHead binding_mismatch selectors
                               [''head_changed:expectedHeadSha='' @ expected @ '':postProjectionHeadSha='' @ or_empty postHead,
                                ''evidence_stale'']), w3)
                        else if postBase \<noteq> defaultBranch
                        then (finish (outcome Ci_Failure source base_branch_mismatch postHead inferred_current selectors
                               [''base_branch_mismatch:expected='' @ defaultBranch @ '':observed='' @ or_empty postBase,
                                ''evidence_stale'']), w3)
                        else
                          (case evaluateSelectors selectors rows of (state, reason, diagnostics) \<Rightarrow>
                             (finish (outcome state source reason postHead inferred_current selectors diagnostics), w3)))))))"

section \<open>What green means\<close>

definition selector_holds :: "check_row list \<Rightarrow> ci_selector \<Rightarrow> bool" where
  "selector_holds rows selector \<longleftrightarrow>
     selectorRows selector rows \<noteq> []
     \<and> list_all (\<lambda>row. isCiCheckSuccess row \<and> \<not> isCiCheckPending row) (selectorRows selector rows)"

lemma success_not_failure: "isCiCheckSuccess row \<Longrightarrow> \<not> isCiCheckFailure row"
  by (auto simp: isCiCheckSuccess_def isCiCheckFailure_def)

lemma evaluate_from_green:
  "fst (evaluate_from sawPending selectors rows) = Ci_Green \<longleftrightarrow> \<not> sawPending \<and> list_all (selector_holds rows) selectors"
proof (induction selectors arbitrary: sawPending)
  case (Cons selector rest)
  let ?m = "selectorRows selector rows"
  have ok: "selector_holds rows selector \<longleftrightarrow> ?m \<noteq> [] \<and> \<not> list_ex isCiCheckPending ?m
      \<and> \<not> list_ex isCiCheckFailure ?m \<and> list_all isCiCheckSuccess ?m"
    using success_not_failure by (auto simp: selector_holds_def list_all_iff list_ex_iff)
  show ?case by (auto simp: Let_def Cons.IH ok)
qed simp

lemma evaluateSelectors_green: "fst (evaluateSelectors selectors rows) = Ci_Green \<longleftrightarrow> list_all (selector_holds rows) selectors"
  by (simp add: evaluateSelectors_def evaluate_from_green)

lemma ci_result_fields [simp]:
  "cr_green (ci_result_of input out) = (co_state out = Ci_Green)"
  "co_state (outcome a b d e f g h) = a"
  "co_selectors (ci_result_of input out) = co_selectors out"
  "co_selectors (outcome a b d e f g h) = g"
  by (simp_all add: ci_result_of_def outcome_def ci_result.defs ci_outcome.defs)

lemma required_selectors_pending: "fst (required_selectors input readProtection w) = Inr (Inl out) \<Longrightarrow> co_state out = Ci_Pending"
  by (auto simp: required_selectors_def Let_def rbind_def split: option.splits prod.splits protection_read.splits if_splits sum.splits)

definition green_answer :: "(string + ci_result) \<Rightarrow> bool" where
  "green_answer answer \<longleftrightarrow> (case answer of Inl _ \<Rightarrow> False | Inr r \<Rightarrow> cr_green r)"

lemma green_gate_iff:
  "green_answer (fst (resolveRequiredCi readProtection readChecks readCurrentPr input w)) \<longleftrightarrow>
     normalized (Some (ci_expectedHead input)) \<noteq> [] \<and> js_trim (ci_prBaseRef input) = js_trim (ci_defaultBranch input)
     \<and> (case required_selectors input readProtection w of
          (Inr (Inr (source, selectors)), w1) \<Rightarrow>
            (case readChecks w1 of
               (Some rows, w2) \<Rightarrow>
                 (case readCurrentPr w2 of
                    (Some witness, w3) \<Rightarrow>
                      normalized (Some (pw_headSha witness)) = normalized (Some (ci_expectedHead input))
                      \<and> js_trim (pw_baseRef witness) = js_trim (ci_defaultBranch input)
                      \<and> list_all (selector_holds rows) selectors
                  | _ \<Rightarrow> False)
             | _ \<Rightarrow> False)
        | _ \<Rightarrow> False)"
proof (cases "normalized (Some (ci_expectedHead input)) = [] \<or> js_trim (ci_prBaseRef input) \<noteq> js_trim (ci_defaultBranch input)")
  case True
  then show ?thesis by (auto simp: resolveRequiredCi_def Let_def green_answer_def)
next
  case False
  obtain a w1 where rs: "required_selectors input readProtection w = (a, w1)" by fastforce
  show ?thesis
  proof (cases a)
    case (Inl e)
    then show ?thesis using False rs by (simp add: resolveRequiredCi_def Let_def green_answer_def)
  next
    case (Inr b)
    show ?thesis
    proof (cases b)
      case (Inl out)
      then show ?thesis
        using False rs Inr required_selectors_pending [of input readProtection w out]
        by (simp add: resolveRequiredCi_def Let_def green_answer_def)
    next
      case ss: (Inr ss)
      obtain source selectors where s: "ss = (source, selectors)" by fastforce
      show ?thesis
      proof (cases "readChecks w1")
        case ck: (Pair rows w2)
        show ?thesis
        proof (cases rows)
          case None
          then show ?thesis using False rs Inr ss s ck by (simp add: resolveRequiredCi_def Let_def green_answer_def)
        next
          case (Some rs')
          then show ?thesis
            using False rs Inr ss s ck evaluateSelectors_green [of selectors rs']
            by (auto simp: resolveRequiredCi_def Let_def green_answer_def split: option.splits prod.splits)
        qed
      qed
    qed
  qed
qed

text \<open>
  C3: The gate is green exactly when the pull request was bound to a non-empty head on the default
  branch, the required selectors could be determined, the checks were read, a read of the pull
  request made after that still shows the same head and base, and every required selector has
  rows, all of them successful and none pending.
\<close>
theorem required_ci_green_iff:
  "green_answer (fst (resolveRequiredCi readProtection readChecks readCurrentPr input w)) \<longleftrightarrow>
     normalized (Some (ci_expectedHead input)) \<noteq> [] \<and> js_trim (ci_prBaseRef input) = js_trim (ci_defaultBranch input)
     \<and> (case required_selectors input readProtection w of
          (Inr (Inr (source, selectors)), w1) \<Rightarrow>
            (case readChecks w1 of
               (Some rows, w2) \<Rightarrow>
                 (case readCurrentPr w2 of
                    (Some witness, w3) \<Rightarrow>
                      normalized (Some (pw_headSha witness)) = normalized (Some (ci_expectedHead input))
                      \<and> js_trim (pw_baseRef witness) = js_trim (ci_defaultBranch input)
                      \<and> list_all (selector_holds rows) selectors
                  | _ \<Rightarrow> False)
             | _ \<Rightarrow> False)
        | _ \<Rightarrow> False)"
  by (rule green_gate_iff)

section \<open>Green and branch protection\<close>

lemma add_contexts_keys:
  "set (map (\<lambda>n. js_lower (js_trim n)) (add_contexts seen names rest))
     = set (map (\<lambda>n. js_lower (js_trim n)) names)
       \<union> {k. \<exists>n \<in> set rest. n \<noteq> [] \<and> k = js_lower (js_trim n) \<and> k \<notin> set seen}"
  by (induction seen names rest rule: add_contexts.induct) (auto simp: Let_def)

lemma normalized_Some: "normalized (Some s) = js_lower (js_trim s)"
  by (simp add: normalized_def)

text \<open>
  C21: A green answer under branch protection covers it: for every context the policy names, under
  \<open>contexts\<close> or \<open>checks\<close>, other than the review's own status, there is a check row of that name, and
  every row of that name is successful and not pending.
\<close>
theorem green_covers_protection:
  assumes "green_answer (fst (resolveRequiredCi readProtection readChecks readCurrentPr input w))"
    and "ci_requiredCi input = None" and "readProtection w = (Some (Protection_Ok policy), w1)"
    and "name \<in> set (policy_names policy)" and "name \<noteq> []"
    and "normalized (Some name) \<noteq> normalized (Some PACK_REVIEW_REQUIRED_STATUS_CONTEXT)"
  shows "\<exists>rows w2. readChecks w1 = (Some rows, w2)
    \<and> list_ex (\<lambda>row. normalized (ck_name row) = normalized (Some name)) rows
    \<and> list_all (\<lambda>row. normalized (ck_name row) = normalized (Some name) \<longrightarrow> isCiCheckSuccess row \<and> \<not> isCiCheckPending row) rows"
proof -
  let ?key = "\<lambda>n. js_lower (js_trim n)"
  let ?raw = "branchProtectionContexts policy"
  have "?key name \<in> set (map ?key ?raw)"
    unfolding branchProtectionContexts_def add_contexts_keys using assms(4,5) by auto
  then obtain n where n: "n \<in> set ?raw" "?key n = ?key name" by auto
  then have ne: "?raw \<noteq> []" by auto
  have rs: "required_selectors input readProtection w
      = (Inr (Inr (branch_protection, contextSelectors (reviewIndependentRequiredCiContexts ?raw))), w1)"
    using assms(2,3) ne by (simp add: required_selectors_def Let_def)
  have mem: "Context n \<in> set (contextSelectors (reviewIndependentRequiredCiContexts ?raw))"
    using n assms(6) by (simp add: contextSelectors_def reviewIndependentRequiredCiContexts_def normalized_Some)
  from assms(1) obtain rows w2 where ck: "readChecks w1 = (Some rows, w2)"
    and all: "list_all (selector_holds rows) (contextSelectors (reviewIndependentRequiredCiContexts ?raw))"
    unfolding green_gate_iff rs
    by (cases "readChecks w1"; cases "readCurrentPr (snd (readChecks w1))") (auto split: option.splits)
  from all mem have "selector_holds rows (Context n)" by (auto simp: list_all_iff)
  then show ?thesis
    using ck n(2) by (auto simp: selector_holds_def list_all_iff list_ex_iff normalized_Some filter_empty_conv)
qed

section \<open>Green and the project card\<close>

lemma js_split_text_head: "\<exists>z. s = hd (js_split_text sep s) @ z"
  by (induction sep s rule: js_split_text.induct) (auto split: list.splits)

lemma starts_with_append: "js_starts_with p u \<Longrightarrow> js_starts_with p (u @ v)"
  by (auto simp: js_starts_with_def) (metis append_Nil2 diff_is_0_eq' length_take min.absorb_iff2 nat_le_linear take_all take_eq_Nil)

lemma js_split_text_parts: "sep \<noteq> [] \<Longrightarrow> part \<in> set (js_split_text sep s) \<Longrightarrow> \<not> js_includes sep part"
proof (induction sep s arbitrary: part rule: js_split_text.induct)
  case (2 sep x xs)
  show ?case
  proof (cases "js_starts_with sep (x # xs)")
    case True
    then show ?thesis using 2 by auto
  next
    case False
    obtain y ys where y: "js_split_text sep xs = y # ys" by (cases "js_split_text sep xs") auto
    obtain z where z: "xs = y @ z" using js_split_text_head [of xs sep] y by auto
    have "\<not> js_starts_with sep (x # y)" using False starts_with_append [of sep "x # y" z] z by auto
    then show ?thesis using 2 False y by auto
  qed
qed auto

lemma js_includes_append: "js_includes p v \<Longrightarrow> js_includes p (u @ v @ w)"
proof (induction u)
  case Nil
  then show ?case
  proof (induction v)
    case (Cons x v)
    then show ?case using starts_with_append [of p "x # v" w] by auto
  qed (cases w; simp add: js_starts_with_def)
qed simp

lemma js_includes_trim: "js_includes p (js_trim s) \<Longrightarrow> js_includes p s"
proof -
  obtain u where u: "s = u @ dropWhile js_space s" by (metis takeWhile_dropWhile_id)
  obtain v where "dropWhile js_space s = js_trim s @ v"
    unfolding js_trim_def by (metis rev_append rev_rev_ident takeWhile_dropWhile_id)
  then have "s = u @ js_trim s @ v" using u by simp
  then show "js_includes p (js_trim s) \<Longrightarrow> js_includes p s" by (metis js_includes_append)
qed

text \<open>A selector whose workflow does not end in a separate slash is read back as it was accepted.\<close>

lemma selector_reparse:
  assumes "selector_parts raw = Some p" "\<not> js_ends_with '' /'' (fst p)"
  shows "parseRequiredCiSelector (selector_text p) = Inr p"
proof -
  obtain workflow job where p: "p = (workflow, job)" by fastforce
  from assms(1) obtain l r where lr: "js_split_text ci_separator raw = [l, r]" "workflow = js_trim l" "job = js_trim r"
    and ne: "workflow \<noteq> []" "job \<noteq> []"
    by (auto simp: selector_parts_def p split: list.splits if_splits)
  have sep: "ci_separator \<noteq> []" by (simp add: ci_separator_def)
  have inc: "\<not> js_includes ci_separator workflow" "\<not> js_includes ci_separator job"
    using js_split_text_parts [OF sep, of l raw] js_split_text_parts [OF sep, of r raw] lr
      js_includes_trim [of ci_separator l] js_includes_trim [of ci_separator r] by auto
  have "js_split_text ci_separator (workflow @ ci_separator @ job) = workflow # js_split_text ci_separator job"
  proof (rule js_split_text_first [OF sep])
    fix n assume n: "n < length workflow"
    let ?t = "drop n workflow"
    show "\<not> js_starts_with ci_separator (?t @ ci_separator @ job)"
    proof
      assume st: "js_starts_with ci_separator (?t @ ci_separator @ job)"
      consider c where "?t = [c]" | c d where "?t = [c, d]" | c d e es where "?t = c # d # e # es"
        using n by (cases ?t rule: list.exhaust) (auto simp: neq_Nil_conv, metis list.exhaust)
      then show False
      proof cases
        case 1
        then have "last workflow = CHR '' ''" using st n
          by (metis ci_separator_def js_starts_with_def last_drop last_ConsL append_Cons list.inject take_Suc_Cons length_Cons)
        then show False using js_trim_not_space_ends [of l] ne lr(2) by (simp add: js_space_def)
      next
        case 2
        then have "?t = '' /''" using st by (simp add: js_starts_with_def ci_separator_def)
        then show False using assms(2) n
          by (metis js_ends_with_append append_take_drop_id fst_conv p)
      next
        case 3
        then have "js_starts_with ci_separator ?t" using st by (simp add: js_starts_with_def ci_separator_def)
        then have "js_includes ci_separator ?t" using 3 by simp
        then show False using inc(1) js_includes_drop by blast
      qed
    qed
  qed
  then show ?thesis
    using js_split_text_single [OF sep inc(2)] ne lr
    by (simp add: p parseRequiredCiSelector_def selector_text_def)
qed

definition card_selector_holds :: "check_row list \<Rightarrow> string \<Rightarrow> bool" where
  "card_selector_holds rows t =
     (case selector_parts t of
        None \<Rightarrow> False
      | Some (workflow, job) \<Rightarrow>
          let same = (\<lambda>row. normalized (ck_workflow row) = normalized (Some workflow) \<and> normalized (ck_name row) = normalized (Some job))
          in list_ex same rows \<and> list_all (\<lambda>row. same row \<longrightarrow> isCiCheckSuccess row \<and> \<not> isCiCheckPending row) rows)"

lemma card_selector_holds_iff:
  "selector_parts t = Some p \<Longrightarrow> card_selector_holds rows t = selector_holds rows (Actions (fst p) (snd p))"
  by (cases p) (auto simp: card_selector_holds_def selector_holds_def list_all_iff list_ex_iff Let_def filter_empty_conv)

text \<open>An accepted entry whose workflow ends in a separate slash.\<close>

definition ends_in_slash :: "string \<Rightarrow> bool" where
  "ends_in_slash t \<longleftrightarrow> (case selector_parts t of None \<Rightarrow> False | Some p \<Rightarrow> js_ends_with '' /'' (fst p))"

lemma card_selectors:
  assumes "map selector_parts texts = map Some pairs"
  shows "case projectCardSelectors (map selector_text pairs) of
      Inl e \<Rightarrow> list_ex ends_in_slash texts
    | Inr selectors \<Rightarrow> list_all2 (\<lambda>t sel. ends_in_slash t \<or> (\<forall>rows. card_selector_holds rows t = selector_holds rows sel)) texts selectors"
  using assms
proof (induction texts arbitrary: pairs)
  case (Cons t texts)
  then obtain p ps where p: "pairs = p # ps" "selector_parts t = Some p" "map selector_parts texts = map Some ps"
    by (cases pairs) auto
  have read: "parseRequiredCiSelector (selector_text p) = Inr p" if "\<not> ends_in_slash t"
    using selector_reparse [OF p(2)] that p(2) by (simp add: ends_in_slash_def)
  show ?case
    using Cons.IH [OF p(3)] read card_selector_holds_iff [OF p(2)]
    by (cases "ends_in_slash t"; cases "parseRequiredCiSelector (selector_text p)")
      (auto simp: p(1) projectCardSelectors_def split_beta split: sum.splits)
qed (simp add: projectCardSelectors_def)

text \<open>
  C37: The gate on a card whose list was accepted: it fails with an error only when some workflow name
  of the list ends in a separate slash, and a green answer means that every other listed workflow and
  job has check rows, all of them successful and none pending. An entry whose workflow ends in a
  separate slash may be read as another one.
\<close>
theorem card_selectors_respected:
  assumes "parseRequiredCi (Some (JArr (map JStr texts))) cardPath = Inr (ci_requiredCi input)"
  shows "case fst (resolveRequiredCi readProtection readChecks readCurrentPr input w) of
       Inl e \<Rightarrow> list_ex ends_in_slash texts
     | Inr r \<Rightarrow> cr_green r \<longrightarrow> (\<exists>rows w'. readChecks w = (Some rows, w')
         \<and> list_all (\<lambda>t. ends_in_slash t \<or> card_selector_holds rows t) texts)"
proof -
  from assms obtain pairs where p: "map selector_parts texts = map Some pairs"
    and ci: "ci_requiredCi input = Some (map selector_text pairs)"
    unfolding required_ci_accepts_iff by (auto simp: inj_map_eq_map [of JStr] inj_def)
  show ?thesis
  proof (cases "projectCardSelectors (map selector_text pairs)")
    case (Inl e)
    have "\<not> green_answer (fst (resolveRequiredCi readProtection readChecks readCurrentPr input w))"
      unfolding green_gate_iff by (simp add: required_selectors_def ci Inl)
    with card_selectors [OF p] Inl show ?thesis by (auto simp: green_answer_def split: sum.splits)
  next
    case (Inr selectors)
    have rs: "required_selectors input readProtection w = (Inr (Inr (project_card, selectors)), w)"
      by (simp add: required_selectors_def ci Inr)
    have no_throw: "\<exists>r. fst (resolveRequiredCi readProtection readChecks readCurrentPr input w) = Inr r"
      by (auto simp: resolveRequiredCi_def rs Let_def split: option.splits prod.splits)
    have same: "list_all2 (\<lambda>t sel. ends_in_slash t \<or> (\<forall>rows. card_selector_holds rows t = selector_holds rows sel)) texts selectors"
      using card_selectors [OF p] Inr by simp
    have holds: "list_all (\<lambda>t. ends_in_slash t \<or> card_selector_holds rows t) texts" if "list_all (selector_holds rows) selectors" for rows
      using same that by (induction rule: list_all2_induct) auto
    have "green_answer (fst (resolveRequiredCi readProtection readChecks readCurrentPr input w)) \<Longrightarrow>
        \<exists>rows w'. readChecks w = (Some rows, w') \<and> list_all (\<lambda>t. ends_in_slash t \<or> card_selector_holds rows t) texts"
      unfolding green_gate_iff rs using holds
      by (cases "readChecks w"; cases "readCurrentPr (snd (readChecks w))") (auto split: option.splits)
    with no_throw show ?thesis by (auto simp: green_answer_def)
  qed
qed

text \<open>
  With a tab before the separator the accepted workflow ends in a separate slash, and the context's
  text is split at another place than the card's.
\<close>

lemma slash_workflow_misread:
  "parseRequiredCi (Some (JArr [JStr (''x /'' @ CHR 0x09 # '' / y'')])) p = Inr (Some [''x / / y''])
    \<and> selector_parts (''x /'' @ CHR 0x09 # '' / y'') = Some (''x /'', ''y'')
    \<and> projectCardSelectors [''x / / y''] = Inr [Actions ''x'' ''/ y'']"
proof -
  have "selector_parts (''x /'' @ CHR 0x09 # '' / y'') = Some (''x /'', ''y'')"
    "projectCardSelectors [''x / / y''] = Inr [Actions ''x'' ''/ y'']" by code_simp+
  moreover have "map selector_parts [''x /'' @ CHR 0x09 # '' / y''] = map Some [(''x /'', ''y'')]"
    using calculation by simp
  ultimately show ?thesis
    unfolding parseRequiredCi_def by (simp add: required_ci_entries_JStr rbind_Inr selector_text_def ci_separator_def del: required_ci_entries.simps(2))
qed

section \<open>A sample gate\<close>

definition sample_row :: "string \<Rightarrow> string \<Rightarrow> string \<Rightarrow> check_row" where
  "sample_row workflow job state = \<lparr>ck_name = Some job, ck_workflow = Some workflow, ck_state = Some state,
     ck_conclusion = None, ck_status = None, ck_bucket = None\<rparr>"

definition sample_ci :: "string list option \<Rightarrow> ci_input" where
  "sample_ci required = \<lparr>ci_projectId = ''pack'', ci_repository = ''owner/repo'', ci_defaultBranch = ''main'',
     ci_requiredCi = required, ci_expectedHead = ''ABC'', ci_prBaseRef = ''main''\<rparr>"

definition sample_policy :: protection_policy where
  "sample_policy = \<lparr>pp_contexts = Some [JStr ''Build'', JStr ''orchestrator-pack/pack-review''], pp_checks = Some [JObj [(''context'', JStr ''build'')]]\<rparr>"

definition sample_protection :: "nat \<Rightarrow> protection_read option \<times> nat" where
  "sample_protection w = (Some (Protection_Ok sample_policy), w + 1)"

definition sample_checks :: "nat \<Rightarrow> check_row list option \<times> nat" where
  "sample_checks w = (Some [sample_row ''ci'' ''BUILD'' ''success'', sample_row ''ci'' ''lint'' ''skipped''], w + 10)"

definition sample_pr :: "nat \<Rightarrow> pr_witness option \<times> nat" where
  "sample_pr w = (Some \<lparr>pw_headSha = ''abc'', pw_baseRef = ''main''\<rparr>, w + 100)"

definition sample_gate :: "string list option \<Rightarrow> (string + ci_result) \<times> nat" where
  "sample_gate required = resolveRequiredCi sample_protection sample_checks sample_pr (sample_ci required) 0"

lemma green_covers_protection_witness:
  "green_answer (fst (sample_gate None)) \<and> isCiCheckSuccess (sample_row ''ci'' ''BUILD'' ''success'')"
proof -
  have g: "green_answer (fst (sample_gate None))" by code_simp
  have n: "''Build'' \<in> set (policy_names sample_policy)"
    "normalized (Some ''Build'') \<noteq> normalized (Some PACK_REVIEW_REQUIRED_STATUS_CONTEXT)"
    "normalized (ck_name (sample_row ''ci'' ''BUILD'' ''success'')) = normalized (Some ''Build'')" by code_simp+
  have "ci_requiredCi (sample_ci None) = None" by (simp add: sample_ci_def)
  from green_covers_protection [OF g [unfolded sample_gate_def] this, of sample_policy "0 + 1" "''Build''"]
  show ?thesis using g n by (simp add: sample_protection_def sample_checks_def)
qed

lemma card_selectors_respected_witness:
  "\<exists>rows. list_all (card_selector_holds rows) [''ci / Build'', '' CI / lint'']"
proof -
  have a: "parseRequiredCi (Some (JArr (map JStr [''ci / Build'', '' CI / lint'']))) ''card''
      = Inr (ci_requiredCi (sample_ci (Some [''ci / Build'', ''CI / lint''])))" by code_simp
  have b: "\<not> ends_in_slash ''ci / Build''" "\<not> ends_in_slash '' CI / lint''" by code_simp+
  have g: "green_answer (fst (sample_gate (Some [''ci / Build'', ''CI / lint''])))" by code_simp
  show ?thesis
    using card_selectors_respected [OF a, where readProtection = sample_protection and readChecks = sample_checks
        and readCurrentPr = sample_pr and w = 0] b g
    unfolding sample_gate_def green_answer_def by (auto split: sum.splits)
qed

end
