(* ===== verification/Held_Lock.thy ===== *)
theory Held_Lock
  imports Node_Path Js_Number
begin

text \<open>
  Locks held through an open file: \<open>tryAcquireHeldFileLock\<close> and its companions in
  \<open>scripts/runtime/single-instance-lease.ts\<close>. The state is the lock files and the open file
  descriptions that hold a kernel lock, with the process each belongs to. The \<open>flock\<close> helper, the
  process table, the clock and the random identifiers are fields of an environment given to every
  operation. The contents of a lock file are blank, a text that \<open>JSON.parse\<close> refuses, or a value.
\<close>

section \<open>State and environment\<close>

datatype lock_content = Blank | Unparsable | Parsed json

record lock_file =
  lf_content :: lock_content
  lf_mtime :: int

record held_lock =
  hl_path :: string
  hl_pid :: int

record lock_world =
  lw_files :: "string \<Rightarrow> lock_file option"
  lw_held :: "nat \<Rightarrow> held_lock option"
  lw_next :: nat

datatype flock_answer = Open_Failed | Spawn_Failed | Denied | Granted

text \<open>
  \<open>le_identity\<close> is \<open>readProcessIdentity\<close>: the start ticks of a process, or \<open>None\<close> when it throws.
  \<open>le_alive_strict\<close> is \<open>processAliveStrict\<close>, which throws when the signal is refused for another
  reason than a missing process.
\<close>

record lock_env =
  le_flock :: "lock_world \<Rightarrow> string \<Rightarrow> flock_answer"
  le_identity :: "int \<Rightarrow> string option"
  le_alive :: "int \<Rightarrow> bool"
  le_alive_strict :: "int \<Rightarrow> bool option"
  le_now :: int
  le_iso_now :: string
  le_uuid :: string
  le_host :: string
  le_create :: "string \<Rightarrow> bool"

definition path_held :: "lock_world \<Rightarrow> string \<Rightarrow> bool" where
  "path_held w path \<longleftrightarrow> (\<exists>d h. lw_held w d = Some h \<and> hl_path h = path)"

text \<open>The documented behaviour of an exclusive \<open>flock\<close>: it is granted only when no open file holds it.\<close>

definition flock_exclusive :: "lock_env \<Rightarrow> bool" where
  "flock_exclusive env \<longleftrightarrow> (\<forall>w path. le_flock env w path = Granted \<longrightarrow> \<not> path_held w path)"

section \<open>Operations on one lock file\<close>

datatype held_result = Acquired nat | Not_Acquired_Busy | Not_Acquired_Unavailable

definition touch :: "lock_env \<Rightarrow> string \<Rightarrow> lock_world \<Rightarrow> lock_world" where
  "touch env path w =
     (case lw_files w path of
        Some _ \<Rightarrow> w
      | None \<Rightarrow> w\<lparr>lw_files := (lw_files w)(path \<mapsto> \<lparr>lf_content = Blank, lf_mtime = le_now env\<rparr>)\<rparr>)"

definition tryAcquireHeldFileLock :: "lock_env \<Rightarrow> int \<Rightarrow> string \<Rightarrow> lock_world \<Rightarrow> held_result \<times> lock_world" where
  "tryAcquireHeldFileLock env pid path w =
     (case le_flock env w path of
        Open_Failed \<Rightarrow> (Not_Acquired_Unavailable, w)
      | Spawn_Failed \<Rightarrow> (Not_Acquired_Unavailable, touch env path w)
      | Denied \<Rightarrow> (Not_Acquired_Busy, touch env path w)
      | Granted \<Rightarrow>
          (let w1 = touch env path w; d = lw_next w1 in
           (Acquired d, w1\<lparr>lw_held := (lw_held w1)(d \<mapsto> \<lparr>hl_path = path, hl_pid = pid\<rparr>), lw_next := d + 1\<rparr>)))"

definition releaseHeldFileLock :: "nat \<Rightarrow> lock_world \<Rightarrow> lock_world" where
  "releaseHeldFileLock d w = w\<lparr>lw_held := (lw_held w)(d := None)\<rparr>"

text \<open>Reading through a closed descriptor throws.\<close>

definition locked_file :: "nat \<Rightarrow> lock_world \<Rightarrow> lock_file option" where
  "locked_file d w = Option.bind (lw_held w d) (\<lambda>h. lw_files w (hl_path h))"

definition readLockedFileContents :: "nat \<Rightarrow> lock_world \<Rightarrow> lock_content option" where
  "readLockedFileContents d w = map_option lf_content (locked_file d w)"

definition store_content :: "lock_env \<Rightarrow> nat \<Rightarrow> lock_content \<Rightarrow> lock_world \<Rightarrow> lock_world" where
  "store_content env d content w =
     (case lw_held w d of
        None \<Rightarrow> w
      | Some h \<Rightarrow> w\<lparr>lw_files := (lw_files w)(hl_path h \<mapsto> \<lparr>lf_content = content, lf_mtime = le_now env\<rparr>)\<rparr>)"

definition replaceLockedFileContents :: "lock_env \<Rightarrow> nat \<Rightarrow> json \<Rightarrow> lock_world \<Rightarrow> lock_world" where
  "replaceLockedFileContents env d value = store_content env d (Parsed value)"

definition clearLockedFileContents :: "lock_env \<Rightarrow> nat \<Rightarrow> lock_world \<Rightarrow> lock_world" where
  "clearLockedFileContents env d = store_content env d Blank"

section \<open>Values\<close>

text \<open>\<open>!value\<close> of a property.\<close>

definition falsy :: "json option \<Rightarrow> bool" where
  "falsy v \<longleftrightarrow> v \<in> {None, Some JNull, Some (JBool False), Some (JInt 0), Some (JStr [])}"

fun is_integer :: "json option \<Rightarrow> bool" where
  "is_integer (Some (JInt _)) = True"
| "is_integer _ = False"

fun is_number :: "json option \<Rightarrow> bool" where
  "is_number (Some (JInt _)) = True"
| "is_number (Some (JFrac _)) = True"
| "is_number _ = False"

fun json_int :: "json option \<Rightarrow> int" where
  "json_int (Some (JInt i)) = i"
| "json_int _ = 0"

text \<open>\<open>value <= bound\<close> for a JSON number and an integer bound, without fractions.\<close>

definition decimal_at_most :: "string \<Rightarrow> int \<Rightarrow> bool" where
  "decimal_at_most s bound =
     (let (sign, body) = split_sign s;
          mantissa = takeWhile (\<lambda>c. \<not> exponent_char c) body;
          rest = drop (length mantissa) body;
          whole = takeWhile (\<lambda>c. c \<noteq> CHR ''.'') mantissa;
          fraction = drop (Suc (length whole)) mantissa;
          (esign, edigits) = split_sign (drop 1 rest);
          shift = (if rest = [] then 0 else esign * digits_int edigits) - int (length fraction);
          digits = sign * digits_int (whole @ fraction)
      in if 0 \<le> shift then digits * 10 ^ nat shift \<le> bound else digits \<le> bound * 10 ^ nat (- shift))"

fun number_at_most :: "json \<Rightarrow> int \<Rightarrow> bool" where
  "number_at_most (JInt i) bound = (i \<le> bound)"
| "number_at_most (JFrac s) bound = decimal_at_most s bound"
| "number_at_most _ bound = False"

section \<open>Well-formed worlds\<close>

text \<open>
  Every lock belongs to an existing file, descriptors are fresh, and no two open descriptions hold
  the same file.
\<close>

definition lock_inv :: "lock_world \<Rightarrow> bool" where
  "lock_inv w \<longleftrightarrow>
     (\<forall>d h. lw_held w d = Some h \<longrightarrow> d < lw_next w \<and> lw_files w (hl_path h) \<noteq> None)
     \<and> (\<forall>d d' h h'. lw_held w d = Some h \<longrightarrow> lw_held w d' = Some h' \<longrightarrow> hl_path h = hl_path h' \<longrightarrow> d = d')"

text \<open>
  What an operation that works on at most one descriptor may do: it keeps the invariant, it only
  takes a lock no one holds, and it leaves the file and the lock of every other description alone.
\<close>

definition only_touches :: "nat option \<Rightarrow> lock_world \<Rightarrow> lock_world \<Rightarrow> bool" where
  "only_touches own w w' \<longleftrightarrow>
     lw_next w \<le> lw_next w'
     \<and> (\<forall>d h. lw_held w d = Some h \<longrightarrow> Some d \<noteq> own \<longrightarrow> lw_held w' d = Some h \<and> lw_files w' (hl_path h) = lw_files w (hl_path h))
     \<and> (\<forall>d. d < lw_next w \<longrightarrow> lw_held w d = None \<longrightarrow> lw_held w' d = None)"

lemma only_touches_refl [simp, intro]: "only_touches own w w"
  by (simp add: only_touches_def)

lemma only_touches_trans:
  assumes "only_touches own w1 w2" "only_touches own' w2 w3" "own' = own \<or> (\<exists>d. own' = Some d \<and> lw_next w1 \<le> d)" "lock_inv w1"
  shows "only_touches own w1 w3"
  unfolding only_touches_def
proof (intro conjI allI impI)
  show "lw_next w1 \<le> lw_next w3" using assms(1,2) by (auto simp: only_touches_def)
next
  fix d h assume d: "lw_held w1 d = Some h" "Some d \<noteq> own"
  then have "d < lw_next w1" using assms(4) by (auto simp: lock_inv_def)
  with assms(3) d have "Some d \<noteq> own'" by auto
  have "lw_held w2 d = Some h \<and> lw_files w2 (hl_path h) = lw_files w1 (hl_path h)"
    using assms(1) d by (simp add: only_touches_def)
  then have "lw_held w3 d = Some h \<and> lw_files w3 (hl_path h) = lw_files w1 (hl_path h)"
    using assms(2) \<open>Some d \<noteq> own'\<close> unfolding only_touches_def by metis
  then show "lw_held w3 d = Some h" "lw_files w3 (hl_path h) = lw_files w1 (hl_path h)" by auto
next
  fix d assume "d < lw_next w1" "lw_held w1 d = None"
  then show "lw_held w3 d = None" using assms(1,2) unfolding only_touches_def by (metis le_trans less_le_trans)
qed

lemma touch_files: "lw_held (touch env path w) = lw_held w" "lw_next (touch env path w) = lw_next w"
  "lw_files w p \<noteq> None \<Longrightarrow> lw_files (touch env path w) p = lw_files w p"
  "lw_files (touch env path w) path \<noteq> None"
  by (auto simp: touch_def split: option.splits)

lemma touch_ok: "lock_inv w \<Longrightarrow> lock_inv (touch env path w) \<and> only_touches own w (touch env path w)"
  by (cases "lw_files w path") (fastforce simp: lock_inv_def only_touches_def touch_def)+

lemma acquire_ok:
  assumes "flock_exclusive env" "lock_inv w" "tryAcquireHeldFileLock env pid path w = (r, w')"
  shows "lock_inv w'" "only_touches None w w'"
    and "r = Acquired d \<Longrightarrow> \<not> path_held w path \<and> lw_next w \<le> d \<and> lw_held w' d = Some \<lparr>hl_path = path, hl_pid = pid\<rparr>"
proof -
  note t = touch_files [where env = env and path = path and w = w]
  have free: "\<not> path_held w path" if "le_flock env w path = Granted"
    using that assms(1) by (simp add: flock_exclusive_def)
  have all: "lock_inv w' \<and> only_touches None w w'
    \<and> (r = Acquired d \<longrightarrow> \<not> path_held w path \<and> lw_next w \<le> d \<and> lw_held w' d = Some \<lparr>hl_path = path, hl_pid = pid\<rparr>)"
  proof (cases "le_flock env w path")
    case Granted
    let ?d = "lw_next w"
    have w': "w' = (touch env path w)\<lparr>lw_held := (lw_held w)(?d \<mapsto> \<lparr>hl_path = path, hl_pid = pid\<rparr>), lw_next := ?d + 1\<rparr>"
      and r: "r = Acquired ?d"
      using assms(3) Granted t by (auto simp: tryAcquireHeldFileLock_def Let_def)
    have "lock_inv w'"
      using touch_ok [OF assms(2), of env path] free [OF Granted] t(1,2,4)
      unfolding w' lock_inv_def path_held_def by (auto simp: less_Suc_eq split: if_splits)
    moreover have "only_touches None w w'"
      using touch_ok [OF assms(2), of env path None] assms(2) t(1,2)
      unfolding w' only_touches_def lock_inv_def by auto
    ultimately show ?thesis using r free [OF Granted] w' by simp
  qed (use assms touch_ok [OF assms(2)] in \<open>auto simp: tryAcquireHeldFileLock_def\<close>)
  then show "lock_inv w'" "only_touches None w w'" by blast+
  show "r = Acquired d \<Longrightarrow> \<not> path_held w path \<and> lw_next w \<le> d \<and> lw_held w' d = Some \<lparr>hl_path = path, hl_pid = pid\<rparr>"
    using all by blast
qed

lemma release_ok: "lock_inv w \<Longrightarrow> lock_inv (releaseHeldFileLock d w) \<and> only_touches (Some d) w (releaseHeldFileLock d w)"
  unfolding releaseHeldFileLock_def lock_inv_def only_touches_def by (auto split: if_splits)

lemma store_ok: "lock_inv w \<Longrightarrow> lock_inv (store_content env d content w) \<and> only_touches (Some d) w (store_content env d content w)"
  unfolding store_content_def lock_inv_def only_touches_def by (auto split: option.splits if_splits)

lemma acquire_held:
  assumes "lock_inv w" "tryAcquireHeldFileLock env pid path w = (r, w')"
  shows "case r of
      Acquired d \<Rightarrow> lw_held w d = None \<and> lw_held w' = (lw_held w)(d \<mapsto> \<lparr>hl_path = path, hl_pid = pid\<rparr>) \<and> lw_files w' path \<noteq> None
    | _ \<Rightarrow> lw_held w' = lw_held w"
proof -
  have "lw_held w (lw_next w) = None"
    using assms(1) unfolding lock_inv_def by (metis less_irrefl not_None_eq)
  then show ?thesis
    using assms(2) touch_files [where env = env and path = path and w = w]
    by (auto simp: tryAcquireHeldFileLock_def Let_def split: flock_answer.splits)
qed

text \<open>Working on a descriptor taken since touches none of those open before.\<close>

lemma acquire_then:
  assumes "flock_exclusive env" "lock_inv w" "tryAcquireHeldFileLock env pid path w = (Acquired d, w1)"
    "only_touches (Some d) w1 w2"
  shows "only_touches None w w2"
  using only_touches_trans [OF acquire_ok(2) [OF assms(1-3)] assms(4)] acquire_ok(3) [OF assms(1-3), of d] assms(2) by auto

lemma released_again:
  assumes "lock_inv w" "tryAcquireHeldFileLock env pid path w = (Acquired d, w1)"
  shows "lw_held (releaseHeldFileLock d w1) = lw_held w"
  using acquire_held [OF assms] by (auto simp: releaseHeldFileLock_def fun_eq_iff)

lemma store_held [simp]: "lw_held (store_content env d content w) = lw_held w"
  by (simp add: store_content_def split: option.splits)

lemma acquired_read:
  assumes "lock_inv w" "tryAcquireHeldFileLock env pid path w = (Acquired d, w1)"
  shows "readLockedFileContents d w1 \<noteq> None"
  using acquire_held [OF assms] by (auto simp: readLockedFileContents_def locked_file_def)

section \<open>The contract of an owner record\<close>

text \<open>
  What a protocol writes into the file it locked, and how it recognises its own record there: its
  own record is recognised, a blank file is not anyone's, and a record recognised by two owners
  carries the key of both.
\<close>

locale owner_record =
  fixes encode :: "'o \<Rightarrow> json" and owned :: "lock_content \<Rightarrow> 'o \<Rightarrow> bool" and well_formed :: "'o \<Rightarrow> bool" and key :: "'o \<Rightarrow> 'k"
  assumes owned_encode: "well_formed owner \<Longrightarrow> owned (Parsed (encode owner)) owner"
    and owned_blank: "\<not> owned Blank owner"
    and owned_key: "owned (Parsed (encode owner')) owner \<Longrightarrow> well_formed owner' \<Longrightarrow> key owner' = key owner"
begin

definition holds :: "lock_world \<Rightarrow> nat \<Rightarrow> 'o \<Rightarrow> bool" where
  "holds w d owner \<longleftrightarrow> readLockedFileContents d w = Some (Parsed (encode owner))"

lemma holds_kept:
  assumes "holds w d owner" "only_touches own w w'" "own \<noteq> Some d"
  shows "holds w' d owner"
proof -
  obtain h where h: "lw_held w d = Some h" and c: "map_option lf_content (lw_files w (hl_path h)) = Some (Parsed (encode owner))"
    using assms(1) by (auto simp: holds_def readLockedFileContents_def locked_file_def bind_eq_Some_conv)
  have "lw_held w' d = Some h \<and> lw_files w' (hl_path h) = lw_files w (hl_path h)"
    using assms(2,3) h unfolding only_touches_def by metis
  then show ?thesis using c by (simp add: holds_def readLockedFileContents_def locked_file_def)
qed

lemma holds_owned: "holds w d owner \<Longrightarrow> well_formed owner \<Longrightarrow> \<exists>c. readLockedFileContents d w = Some c \<and> owned c owner"
  by (simp add: holds_def owned_encode)

lemma holds_other: "holds w d owner \<Longrightarrow> well_formed owner \<Longrightarrow> key owner \<noteq> key other
    \<Longrightarrow> readLockedFileContents d w = Some c \<Longrightarrow> \<not> owned c other"
  using owned_key by (auto simp: holds_def)

lemma holds_open: "holds w d owner \<Longrightarrow> \<exists>h. lw_held w d = Some h \<and> path_held w (hl_path h)"
  by (auto simp: holds_def readLockedFileContents_def locked_file_def path_held_def bind_eq_Some_conv)

lemma holds_stored: "lw_held w d = Some h \<Longrightarrow> holds (replaceLockedFileContents env d (encode owner) w) d owner"
  by (simp add: holds_def readLockedFileContents_def locked_file_def replaceLockedFileContents_def store_content_def)

end

end
