(* ===== verification/Instance_Lease.thy ===== *)
theory Instance_Lease
  imports Held_Lock
begin

text \<open>
  The lease of a single running instance, \<open>scripts/runtime/single-instance-lease.ts\<close>: the owner
  record in \<open>owner.json\<close>, its acquisition and its release.
\<close>

section \<open>Owner record\<close>

record lease_owner =
  lo_pid :: int
  lo_ticks :: string
  lo_generation :: string
  lo_acquired :: string
  lo_metadata :: json

record lease_handle =
  lh_dir :: string
  lh_owner :: lease_owner
  lh_descriptor :: nat

datatype lock_error = Error_Text string | Identity_Unreadable | Liveness_Unobservable | Type_Error | Bad_Descriptor

definition lease_json :: "lease_owner \<Rightarrow> json" where
  "lease_json owner = JObj
     [(''schemaVersion'', JInt 1), (''pid'', JInt (lo_pid owner)), (''startTicks'', JStr (lo_ticks owner)),
      (''generation'', JStr (lo_generation owner)), (''acquiredAt'', JStr (lo_acquired owner)),
      (''metadata'', lo_metadata owner)]"

definition ownerPath :: "string \<Rightarrow> string" where
  "ownerPath lockDir = path_join [lockDir, ''owner.json'']"

fun parseOwner :: "lock_content \<Rightarrow> lock_error + json" where
  "parseOwner (Parsed JNull) = Inl Type_Error"
| "parseOwner (Parsed owner) =
     (if json_field owner ''schemaVersion'' \<noteq> Some (JInt 1) \<or> \<not> is_integer (json_field owner ''pid'')
         \<or> json_int (json_field owner ''pid'') \<le> 0
         \<or> falsy (json_field owner ''startTicks'') \<or> falsy (json_field owner ''generation'')
      then Inl (Error_Text ''single_instance_lease_invalid'') else Inr owner)"
| "parseOwner _ = Inl (Error_Text ''single_instance_lease_unreadable'')"

definition liveOwner :: "lock_env \<Rightarrow> json \<Rightarrow> lock_error + bool" where
  "liveOwner env owner =
     (let pid = json_int (json_field owner ''pid'') in
      case le_alive_strict env pid of
        None \<Rightarrow> Inl Liveness_Unobservable
      | Some alive \<Rightarrow>
          if \<not> alive then Inr False
          else case le_identity env pid of
            None \<Rightarrow> Inl Identity_Unreadable
          | Some ticks \<Rightarrow> Inr (json_field owner ''startTicks'' = Some (JStr ticks)))"

definition readLiveSingleInstanceLease :: "lock_env \<Rightarrow> string \<Rightarrow> lock_world \<Rightarrow> lock_error + json option" where
  "readLiveSingleInstanceLease env lockDir w =
     (case lw_files w (ownerPath lockDir) of
        None \<Rightarrow> Inr None
      | Some f \<Rightarrow>
          if lf_content f = Blank then Inr None
          else rbind (parseOwner (lf_content f)) (\<lambda>owner.
               rbind (liveOwner env owner) (\<lambda>live. Inr (if live then Some owner else None))))"

section \<open>Acquire and release\<close>

definition busy_error :: "json option \<Rightarrow> lock_error" where
  "busy_error live = Error_Text (''single_instance_busy:'' @
     (case live of None \<Rightarrow> ''unknown'' | Some owner \<Rightarrow> show_int (json_int (json_field owner ''pid''))))"

text \<open>The check of the locked contents before they are replaced.\<close>

definition previous_lease :: "lock_env \<Rightarrow> lock_content \<Rightarrow> lock_error + unit" where
  "previous_lease env raw =
     (if raw = Blank then Inr ()
      else rbind (parseOwner raw) (\<lambda>previous.
           rbind (liveOwner env previous) (\<lambda>live.
             if live then Inl (busy_error (Some previous)) else Inr ())))"

definition acquireSingleInstanceLease ::
  "lock_env \<Rightarrow> int \<Rightarrow> string \<Rightarrow> json option \<Rightarrow> lock_world \<Rightarrow> (lock_error + lease_handle) \<times> lock_world" where
  "acquireSingleInstanceLease env pid lockDir metadata w =
     (case le_identity env pid of
        None \<Rightarrow> (Inl Identity_Unreadable, w)
      | Some ticks \<Rightarrow>
          (case tryAcquireHeldFileLock env pid (ownerPath lockDir) w of
             (Not_Acquired_Unavailable, w1) \<Rightarrow> (Inl (Error_Text ''single_instance_lock_unavailable''), w1)
           | (Not_Acquired_Busy, w1) \<Rightarrow>
               (Inl (busy_error (case readLiveSingleInstanceLease env lockDir w1 of Inl _ \<Rightarrow> None | Inr live \<Rightarrow> live)), w1)
           | (Acquired d, w1) \<Rightarrow>
               (case readLockedFileContents d w1 of
                  None \<Rightarrow> (Inl Bad_Descriptor, releaseHeldFileLock d w1)
                | Some raw \<Rightarrow>
                    (case previous_lease env raw of
                       Inl e \<Rightarrow> (Inl e, releaseHeldFileLock d w1)
                     | Inr _ \<Rightarrow>
                         (let owner = \<lparr>lo_pid = pid, lo_ticks = ticks, lo_generation = le_uuid env,
                                lo_acquired = le_iso_now env, lo_metadata = (case metadata of None \<Rightarrow> JObj [] | Some m \<Rightarrow> m)\<rparr>
                          in (Inr \<lparr>lh_dir = lockDir, lh_owner = owner, lh_descriptor = d\<rparr>,
                              replaceLockedFileContents env d (lease_json owner) w1))))))"

definition lease_owned :: "lock_content \<Rightarrow> lease_owner \<Rightarrow> bool" where
  "lease_owned raw mine =
     (raw \<noteq> Blank \<and>
      (case parseOwner raw of
         Inl _ \<Rightarrow> False
       | Inr owner \<Rightarrow> json_field owner ''pid'' = Some (JInt (lo_pid mine))
           \<and> json_field owner ''startTicks'' = Some (JStr (lo_ticks mine))
           \<and> json_field owner ''generation'' = Some (JStr (lo_generation mine))))"

definition releaseSingleInstanceLease :: "lock_env \<Rightarrow> lease_handle \<Rightarrow> lock_world \<Rightarrow> bool \<times> lock_world" where
  "releaseSingleInstanceLease env handle w =
     (case readLockedFileContents (lh_descriptor handle) w of
        None \<Rightarrow> (False, w)
      | Some raw \<Rightarrow>
          if \<not> lease_owned raw (lh_owner handle) then (False, w)
          else (True, releaseHeldFileLock (lh_descriptor handle) (clearLockedFileContents env (lh_descriptor handle) w)))"

section \<open>The lease owner as an owner record\<close>

definition lease_wf :: "lease_owner \<Rightarrow> bool" where
  "lease_wf owner \<longleftrightarrow> 0 < lo_pid owner \<and> lo_ticks owner \<noteq> [] \<and> lo_generation owner \<noteq> []"

definition lease_key :: "lease_owner \<Rightarrow> int \<times> string \<times> string" where
  "lease_key owner = (lo_pid owner, lo_ticks owner, lo_generation owner)"

lemma parseOwner_lease: "lease_wf owner \<Longrightarrow> parseOwner (Parsed (lease_json owner)) = Inr (lease_json owner)"
  by (simp add: lease_json_def lease_wf_def falsy_def)

interpretation lease: owner_record lease_json lease_owned lease_wf lease_key
proof
  show "lease_wf owner \<Longrightarrow> lease_owned (Parsed (lease_json owner)) owner" for owner
    by (simp add: lease_owned_def parseOwner_lease) (simp add: lease_json_def)
  show "\<not> lease_owned Blank owner" for owner by (simp add: lease_owned_def)
  show "lease_owned (Parsed (lease_json owner')) owner \<Longrightarrow> lease_wf owner' \<Longrightarrow> lease_key owner' = lease_key owner" for owner owner'
    by (simp add: lease_owned_def parseOwner_lease) (simp add: lease_json_def lease_key_def)
qed

section \<open>Effect on the locks\<close>

lemma acquire_lease_ok:
  assumes "flock_exclusive env" "lock_inv w" "acquireSingleInstanceLease env pid lockDir metadata w = (r, w')"
  shows "lock_inv w' \<and> only_touches None w w'
    \<and> (case r of Inl _ \<Rightarrow> \<forall>d. lw_held w' d = lw_held w d
       | Inr h \<Rightarrow> lease.holds w' (lh_descriptor h) (lh_owner h) \<and> \<not> path_held w (ownerPath lockDir)
           \<and> lw_held w' (lh_descriptor h) = Some \<lparr>hl_path = ownerPath lockDir, hl_pid = pid\<rparr>
           \<and> lo_pid (lh_owner h) = pid \<and> le_identity env pid = Some (lo_ticks (lh_owner h)) \<and> lo_generation (lh_owner h) = le_uuid env)"
proof -
  note lock = acquire_ok [OF assms(1,2)] acquire_held [OF assms(2)]
  show ?thesis
  proof (cases "le_identity env pid")
    case None
    then show ?thesis using assms(2,3) by (auto simp: acquireSingleInstanceLease_def)
  next
    case (Some ticks)
    obtain a w1 where a: "tryAcquireHeldFileLock env pid (ownerPath lockDir) w = (a, w1)" by fastforce
    note l = lock(1,2) [OF a] lock(4) [OF a]
    show ?thesis
    proof (cases a)
      case (Acquired d)
      note a' = a [unfolded Acquired]
      obtain raw where raw: "readLockedFileContents d w1 = Some raw" using acquired_read [OF assms(2) a'] by auto
      have held: "lw_held w1 d = Some \<lparr>hl_path = ownerPath lockDir, hl_pid = pid\<rparr>" "\<not> path_held w (ownerPath lockDir)"
        using lock(3) [OF a', of d] Acquired by auto
      show ?thesis
      proof (cases "previous_lease env raw")
        case (Inl e)
        then have "w' = releaseHeldFileLock d w1" "r = Inl e"
          using assms(3) Some a' raw by (auto simp: acquireSingleInstanceLease_def)
        then show ?thesis
          using release_ok [OF l(1), of d] acquire_then [OF assms(1,2) a'] released_again [OF assms(2) a'] by auto
      next
        case (Inr u)
        then show ?thesis
          using assms(3) Some a' raw held store_ok [OF l(1), of env d] acquire_then [OF assms(1,2) a']
            lease.holds_stored [OF held(1)]
          by (auto simp: acquireSingleInstanceLease_def Let_def replaceLockedFileContents_def)
      qed
    qed (use assms(3) Some a l in \<open>auto simp: acquireSingleInstanceLease_def\<close>)
  qed
qed

lemma release_lease_ok:
  assumes "lock_inv w" "releaseSingleInstanceLease env handle w = (r, w')"
  shows "lock_inv w' \<and> only_touches (Some (lh_descriptor handle)) w w' \<and> (if r then lw_held w' (lh_descriptor handle) = None else w' = w)"
proof (cases "readLockedFileContents (lh_descriptor handle) w")
  case (Some raw)
  let ?d = "lh_descriptor handle"
  note s = store_ok [OF assms(1), of env ?d Blank]
  note t = release_ok [OF s [THEN conjunct1], of ?d]
  show ?thesis
    using assms Some s t only_touches_trans [OF s [THEN conjunct2] t [THEN conjunct2] _ assms(1)]
    by (auto simp: releaseSingleInstanceLease_def clearLockedFileContents_def releaseHeldFileLock_def split: if_splits)
qed (use assms in \<open>auto simp: releaseSingleInstanceLease_def\<close>)

end
