(* ===== verification/Side_Effect_Fence.thy ===== *)
theory Side_Effect_Fence
  imports Instance_Lease
begin

text \<open>
  The fence around a side effect, \<open>scripts/runtime/side-effect-fence.ts\<close>: acquiring it from an empty
  or stale file, reclaiming a stale file, releasing it and running an action under it.
\<close>

section \<open>Owner record\<close>

record fence_owner =
  fo_pid :: int
  fo_ticks :: string
  fo_nonce :: string
  fo_started :: json
  fo_metadata :: json

record fence_handle =
  fh_path :: string
  fh_owner :: fence_owner
  fh_descriptor :: nat

definition fence_json :: "fence_owner \<Rightarrow> json" where
  "fence_json owner = JObj
     [(''schemaVersion'', JInt 1), (''pid'', JInt (fo_pid owner)), (''startTicks'', JStr (fo_ticks owner)),
      (''nonce'', JStr (fo_nonce owner)), (''startedAtMs'', fo_started owner), (''metadata'', fo_metadata owner)]"

definition nonempty_text :: "json option \<Rightarrow> bool" where
  "nonempty_text v \<longleftrightarrow> is_string v \<and> json_string v \<noteq> []"

fun parseOwnerRaw :: "lock_content \<Rightarrow> fence_owner option" where
  "parseOwnerRaw (Parsed v) =
     (if \<not> isRecord (Some v) \<or> json_field v ''schemaVersion'' \<noteq> Some (JInt 1)
         \<or> \<not> is_integer (json_field v ''pid'') \<or> json_int (json_field v ''pid'') \<le> 0
         \<or> \<not> nonempty_text (json_field v ''startTicks'') \<or> \<not> nonempty_text (json_field v ''nonce'')
         \<or> \<not> is_number (json_field v ''startedAtMs'') \<or> \<not> isRecord (json_field v ''metadata'')
      then None
      else Some \<lparr>fo_pid = json_int (json_field v ''pid''), fo_ticks = json_string (json_field v ''startTicks''),
                 fo_nonce = json_string (json_field v ''nonce''), fo_started = the (json_field v ''startedAtMs''),
                 fo_metadata = the (json_field v ''metadata'')\<rparr>)"
| "parseOwnerRaw _ = None"

text \<open>\<open>None\<close> when reading the identity throws.\<close>

definition exact_process_alive :: "lock_env \<Rightarrow> int \<Rightarrow> string \<Rightarrow> bool option" where
  "exact_process_alive env pid ticks =
     (if \<not> le_alive env pid then Some False else map_option (\<lambda>t. t = ticks) (le_identity env pid))"

definition exactOwnerProcessAlive :: "lock_env \<Rightarrow> fence_owner \<Rightarrow> bool option" where
  "exactOwnerProcessAlive env owner = exact_process_alive env (fo_pid owner) (fo_ticks owner)"

datatype disposition = Empty | Live | Stale | Untrusted

definition existingFenceDisposition :: "lock_env \<Rightarrow> nat \<Rightarrow> int \<Rightarrow> int \<Rightarrow> lock_world \<Rightarrow> lock_error + disposition" where
  "existingFenceDisposition env d ownerlessMaxAgeMs nowMs w =
     (case locked_file d w of
        None \<Rightarrow> Inl Bad_Descriptor
      | Some f \<Rightarrow>
          if lf_content f = Blank then Inr Empty
          else case parseOwnerRaw (lf_content f) of
            Some owner \<Rightarrow>
              (case exactOwnerProcessAlive env owner of
                 None \<Rightarrow> Inl Identity_Unreadable
               | Some alive \<Rightarrow> Inr (if alive then Live else Stale))
          | None \<Rightarrow> Inr (if ownerlessMaxAgeMs \<le> nowMs - lf_mtime f then Stale else Untrusted))"

definition ownerless_default :: int where
  "ownerless_default = 3 * 60 * 60 * 1000"

section \<open>Operations\<close>

definition reclaimStaleSideEffectFence ::
  "lock_env \<Rightarrow> int \<Rightarrow> string \<Rightarrow> int option \<Rightarrow> int option \<Rightarrow> lock_world \<Rightarrow> (lock_error + bool) \<times> lock_world" where
  "reclaimStaleSideEffectFence env pid path nowMs ownerlessMaxAgeMs w =
     (case tryAcquireHeldFileLock env pid path w of
        (Acquired d, w1) \<Rightarrow>
          (let now = (case nowMs of None \<Rightarrow> le_now env | Some n \<Rightarrow> n);
               age = (case ownerlessMaxAgeMs of None \<Rightarrow> ownerless_default | Some n \<Rightarrow> n)
           in case existingFenceDisposition env d age now w1 of
                Inl e \<Rightarrow> (Inl e, releaseHeldFileLock d w1)
              | Inr disp \<Rightarrow>
                  if disp \<noteq> Stale then (Inr False, releaseHeldFileLock d w1)
                  else (Inr True, releaseHeldFileLock d (clearLockedFileContents env d w1)))
      | (_, w1) \<Rightarrow> (Inr False, w1))"

datatype fence_refusal = side_effect_busy | side_effect_fence_untrusted

datatype fence_result = Fence_Acquired fence_handle | Fence_Refused fence_refusal | Fence_Threw lock_error

definition acquireSideEffectFence ::
  "lock_env \<Rightarrow> int \<Rightarrow> string \<Rightarrow> json option \<Rightarrow> int option \<Rightarrow> lock_world \<Rightarrow> fence_result \<times> lock_world" where
  "acquireSideEffectFence env pid path metadata ownerlessMaxAgeMs w =
     (case tryAcquireHeldFileLock env pid path w of
        (Not_Acquired_Busy, w1) \<Rightarrow> (Fence_Refused side_effect_busy, w1)
      | (Not_Acquired_Unavailable, w1) \<Rightarrow> (Fence_Refused side_effect_fence_untrusted, w1)
      | (Acquired d, w1) \<Rightarrow>
          (case existingFenceDisposition env d (case ownerlessMaxAgeMs of None \<Rightarrow> ownerless_default | Some n \<Rightarrow> n) (le_now env) w1 of
             Inl e \<Rightarrow> (Fence_Threw e, w1)
           | Inr Live \<Rightarrow> (Fence_Refused side_effect_busy, releaseHeldFileLock d w1)
           | Inr Untrusted \<Rightarrow> (Fence_Refused side_effect_fence_untrusted, releaseHeldFileLock d w1)
           | Inr _ \<Rightarrow>
               (case le_identity env pid of
                  None \<Rightarrow> (Fence_Threw Identity_Unreadable, w1)
                | Some ticks \<Rightarrow>
                    (let owner = \<lparr>fo_pid = pid, fo_ticks = ticks, fo_nonce = le_uuid env, fo_started = JInt (le_now env),
                           fo_metadata = (case metadata of None \<Rightarrow> JObj [] | Some m \<Rightarrow> m)\<rparr>
                     in (Fence_Acquired \<lparr>fh_path = path, fh_owner = owner, fh_descriptor = d\<rparr>,
                         replaceLockedFileContents env d (fence_json owner) w1)))))"

definition fence_owned :: "lock_content \<Rightarrow> fence_owner \<Rightarrow> bool" where
  "fence_owned raw mine =
     (case parseOwnerRaw raw of
        None \<Rightarrow> False
      | Some owner \<Rightarrow> fo_nonce owner = fo_nonce mine \<and> fo_pid owner = fo_pid mine \<and> fo_ticks owner = fo_ticks mine)"

text \<open>The descriptor is closed on every path; reading or closing a closed one throws.\<close>

definition releaseSideEffectFence :: "lock_env \<Rightarrow> fence_handle \<Rightarrow> lock_world \<Rightarrow> (lock_error + bool) \<times> lock_world" where
  "releaseSideEffectFence env handle w =
     (case readLockedFileContents (fh_descriptor handle) w of
        None \<Rightarrow> (Inl Bad_Descriptor, releaseHeldFileLock (fh_descriptor handle) w)
      | Some raw \<Rightarrow>
          if \<not> fence_owned raw (fh_owner handle) then (Inr False, releaseHeldFileLock (fh_descriptor handle) w)
          else (Inr True, releaseHeldFileLock (fh_descriptor handle) (clearLockedFileContents env (fh_descriptor handle) w)))"

text \<open>
  The action may throw (\<open>Inl\<close>) and may change the world, also through other processes while it is
  awaited; an error of the release replaces its outcome.
\<close>

definition withSideEffectFence ::
  "lock_env \<Rightarrow> int \<Rightarrow> string \<Rightarrow> json option \<Rightarrow> (lock_world \<Rightarrow> (lock_error + 'a) \<times> lock_world) \<Rightarrow> lock_world
    \<Rightarrow> (lock_error + (fence_refusal + 'a)) \<times> lock_world" where
  "withSideEffectFence env pid path metadata action w =
     (case acquireSideEffectFence env pid path metadata None w of
        (Fence_Refused reason, w1) \<Rightarrow> (Inr (Inl reason), w1)
      | (Fence_Threw e, w1) \<Rightarrow> (Inl e, w1)
      | (Fence_Acquired handle, w1) \<Rightarrow>
          (case action w1 of (answer, w2) \<Rightarrow>
            (case releaseSideEffectFence env handle w2 of
               (Inl e, w3) \<Rightarrow> (Inl e, w3)
             | (Inr _, w3) \<Rightarrow> (map_sum (\<lambda>e. e) Inr answer, w3))))"

section \<open>The fence owner as an owner record\<close>

definition fence_wf :: "fence_owner \<Rightarrow> bool" where
  "fence_wf owner \<longleftrightarrow> 0 < fo_pid owner \<and> fo_ticks owner \<noteq> [] \<and> fo_nonce owner \<noteq> []
     \<and> is_number (Some (fo_started owner)) \<and> isRecord (Some (fo_metadata owner))"

definition fence_key :: "fence_owner \<Rightarrow> string \<times> int \<times> string" where
  "fence_key owner = (fo_nonce owner, fo_pid owner, fo_ticks owner)"

lemma parseOwnerRaw_fence: "fence_wf owner \<Longrightarrow> parseOwnerRaw (Parsed (fence_json owner)) = Some owner"
  by (simp add: fence_json_def fence_wf_def nonempty_text_def)

lemma parseOwnerRaw_wf: "parseOwnerRaw raw = Some owner \<Longrightarrow> fence_wf owner"
  by (cases raw) (auto simp: fence_wf_def nonempty_text_def split: if_splits elim!: is_number.elims isRecord.elims)

interpretation fence: owner_record fence_json fence_owned fence_wf fence_key
proof
  show "fence_wf owner \<Longrightarrow> fence_owned (Parsed (fence_json owner)) owner" for owner
    by (simp add: fence_owned_def parseOwnerRaw_fence del: parseOwnerRaw.simps)
  show "\<not> fence_owned Blank owner" for owner by (simp add: fence_owned_def)
  show "fence_owned (Parsed (fence_json owner')) owner \<Longrightarrow> fence_wf owner' \<Longrightarrow> fence_key owner' = fence_key owner" for owner owner'
    by (simp add: fence_owned_def parseOwnerRaw_fence fence_key_def del: parseOwnerRaw.simps)
qed

section \<open>Effect on the locks\<close>

lemma acquire_fence_ok:
  assumes "flock_exclusive env" "lock_inv w" "acquireSideEffectFence env pid path metadata age w = (r, w')"
  shows "lock_inv w' \<and> only_touches None w w'
    \<and> (case r of
         Fence_Refused _ \<Rightarrow> lw_held w' = lw_held w
       | Fence_Threw _ \<Rightarrow> True
       | Fence_Acquired h \<Rightarrow> fence.holds w' (fh_descriptor h) (fh_owner h) \<and> \<not> path_held w path \<and> lw_next w \<le> fh_descriptor h
           \<and> lw_held w' (fh_descriptor h) = Some \<lparr>hl_path = path, hl_pid = pid\<rparr>
           \<and> fo_pid (fh_owner h) = pid \<and> le_identity env pid = Some (fo_ticks (fh_owner h)) \<and> fo_nonce (fh_owner h) = le_uuid env)"
proof -
  note lock = acquire_ok [OF assms(1,2)] acquire_held [OF assms(2)]
  obtain a w1 where a: "tryAcquireHeldFileLock env pid path w = (a, w1)" by fastforce
  note l = lock(1,2) [OF a] lock(4) [OF a]
  let ?age = "case age of None \<Rightarrow> ownerless_default | Some n \<Rightarrow> n"
  show ?thesis
  proof (cases a)
    case (Acquired d)
    note a' = a [unfolded Acquired]
    have held: "lw_held w1 d = Some \<lparr>hl_path = path, hl_pid = pid\<rparr>" "\<not> path_held w path" "lw_next w \<le> d"
      using lock(3) [OF a', of d] Acquired by auto
    have rel: "lock_inv (releaseHeldFileLock d w1)" "only_touches None w (releaseHeldFileLock d w1)"
      "lw_held (releaseHeldFileLock d w1) = lw_held w"
      using release_ok [OF l(1), of d] acquire_then [OF assms(1,2) a'] released_again [OF assms(2) a'] by auto
    have put: "lock_inv (replaceLockedFileContents env d v w1)" "only_touches None w (replaceLockedFileContents env d v w1)"
      "lw_held (replaceLockedFileContents env d v w1) d = Some \<lparr>hl_path = path, hl_pid = pid\<rparr>" for v
      using store_ok [OF l(1), of env d] acquire_then [OF assms(1,2) a'] held by (auto simp: replaceLockedFileContents_def)
    show ?thesis
    proof (cases "existingFenceDisposition env d ?age (le_now env) w1")
      case (Inr disp)
      then show ?thesis
        using assms(3) a' l rel put held fence.holds_stored [OF held(1)]
        by (cases disp) (auto simp: acquireSideEffectFence_def Let_def split: option.splits)
    qed (use assms(3) a' l in \<open>auto simp: acquireSideEffectFence_def\<close>)
  qed (use assms(3) a l in \<open>auto simp: acquireSideEffectFence_def\<close>)
qed

lemma release_fence_ok:
  assumes "lock_inv w" "releaseSideEffectFence env handle w = (r, w')"
  shows "lock_inv w' \<and> only_touches (Some (fh_descriptor handle)) w w' \<and> lw_held w' (fh_descriptor handle) = None"
proof -
  let ?d = "fh_descriptor handle"
  note s = store_ok [OF assms(1), of env ?d Blank]
  note t = release_ok [OF s [THEN conjunct1], of ?d]
  show ?thesis
    using assms s t release_ok [OF assms(1), of ?d] only_touches_trans [OF s [THEN conjunct2] t [THEN conjunct2] _ assms(1)]
    by (auto simp: releaseSideEffectFence_def clearLockedFileContents_def releaseHeldFileLock_def split: if_splits option.splits)
qed

lemma reclaim_fence_ok:
  assumes "flock_exclusive env" "lock_inv w" "reclaimStaleSideEffectFence env pid path nowMs age w = (r, w')"
  shows "lock_inv w' \<and> only_touches None w w' \<and> lw_held w' = lw_held w"
proof -
  note lock = acquire_ok [OF assms(1,2)] acquire_held [OF assms(2)]
  obtain a w1 where a: "tryAcquireHeldFileLock env pid path w = (a, w1)" by fastforce
  note l = lock(1,2) [OF a] lock(4) [OF a]
  show ?thesis
  proof (cases a)
    case (Acquired d)
    note a' = a [unfolded Acquired]
    note s = store_ok [OF l(1), of env d Blank]
    note t = release_ok [OF s [THEN conjunct1], of d]
    have rel: "lock_inv (releaseHeldFileLock d w1)" "only_touches None w (releaseHeldFileLock d w1)"
      "lw_held (releaseHeldFileLock d w1) = lw_held w"
      using release_ok [OF l(1), of d] acquire_then [OF assms(1,2) a'] released_again [OF assms(2) a'] by auto
    have clr: "lock_inv (releaseHeldFileLock d (clearLockedFileContents env d w1))"
      "only_touches None w (releaseHeldFileLock d (clearLockedFileContents env d w1))"
      "lw_held (releaseHeldFileLock d (clearLockedFileContents env d w1)) = lw_held w"
      using t acquire_then [OF assms(1,2) a' only_touches_trans [OF s [THEN conjunct2] t [THEN conjunct2] _ l(1)]] rel(3)
      by (auto simp: clearLockedFileContents_def releaseHeldFileLock_def)
    show ?thesis
      using assms(3) a' rel clr
      by (auto simp: reclaimStaleSideEffectFence_def Let_def split: sum.splits if_splits)
  qed (use assms(3) a l in \<open>auto simp: reclaimStaleSideEffectFence_def\<close>)
qed

end
