(* ===== verification/Recovery_Claim.thy ===== *)
theory Recovery_Claim
  imports Side_Effect_Fence
begin

text \<open>
  The claim on one recovery workspace, \<open>scripts/runtime/worker-recovery-claim.ts\<close>: the record in the
  locked active file, the terminal records it leaves, acquisition, finalisation and release.
\<close>

section \<open>Claim record\<close>

record claim_holder =
  ch_pid :: int
  ch_ticks :: string
  ch_guid :: string
  ch_host :: string
  ch_surface :: string

record claim_record =
  cl_claimKey :: string
  cl_workspacePath :: string
  cl_workerId :: "string option"
  cl_workerGeneration :: "string option"
  cl_holder :: claim_holder
  cl_acquiredAtMs :: json

record claim_handle =
  cn_path :: string
  cn_namespace :: string
  cn_record :: claim_record
  cn_descriptor :: nat

definition opt_json :: "string option \<Rightarrow> json" where
  "opt_json v = (case v of None \<Rightarrow> JNull | Some s \<Rightarrow> JStr s)"

definition claim_fields :: "claim_record \<Rightarrow> (string \<times> json) list" where
  "claim_fields r =
     [(''schemaVersion'', JInt 1), (''claimKey'', JStr (cl_claimKey r)), (''workspacePath'', JStr (cl_workspacePath r)),
      (''workerId'', opt_json (cl_workerId r)), (''workerGeneration'', opt_json (cl_workerGeneration r)),
      (''holder'', JObj [(''pid'', JInt (ch_pid (cl_holder r))), (''startTicks'', JStr (ch_ticks (cl_holder r))),
         (''processGuid'', JStr (ch_guid (cl_holder r))), (''host'', JStr (ch_host (cl_holder r))),
         (''surface'', JStr (ch_surface (cl_holder r)))]),
      (''acquiredAtMs'', cl_acquiredAtMs r)]"

definition claim_json :: "claim_record \<Rightarrow> json" where
  "claim_json r = JObj (claim_fields r)"

definition key_char :: "char \<Rightarrow> bool" where
  "key_char c \<longleftrightarrow> is_ascii_letter c \<or> is_digit c \<or> c \<in> set ''_.:-''"

definition safeKey :: "string \<Rightarrow> lock_error + string" where
  "safeKey value =
     (let key = map (\<lambda>c. if key_char c then c else CHR ''_'') (js_trim value) in
      if key = [] then Inl (Error_Text ''worker_recovery_claim_key_missing'') else Inr key)"

definition claimPath :: "string \<Rightarrow> string \<Rightarrow> lock_error + string" where
  "claimPath namespace claimKey =
     rbind (safeKey claimKey) (\<lambda>key. Inr (path_join [namespace, ''active'', key @ ''.json'']))"

definition terminalPath :: "lock_env \<Rightarrow> string \<Rightarrow> string \<Rightarrow> string \<Rightarrow> lock_error + string" where
  "terminalPath env namespace claimKey outcome =
     rbind (safeKey claimKey) (\<lambda>key. rbind (safeKey outcome) (\<lambda>out.
       Inr (path_join [namespace, ''terminal'', key @ ''-'' @ out @ ''-'' @ le_uuid env @ ''.json''])))"

definition nullableString :: "json option \<Rightarrow> bool" where
  "nullableString v \<longleftrightarrow> v = None \<or> v = Some JNull \<or> is_string v"

definition trimmed_or_null :: "string option \<Rightarrow> string option" where
  "trimmed_or_null v = (case v of None \<Rightarrow> None | Some s \<Rightarrow> if js_trim s = [] then None else Some (js_trim s))"

fun json_text_option :: "json option \<Rightarrow> string option" where
  "json_text_option (Some (JStr s)) = Some s"
| "json_text_option _ = None"

fun parseRecord :: "lock_content \<Rightarrow> claim_record option" where
  "parseRecord (Parsed v) =
     (let holder = json_field v ''holder''; part = (\<lambda>k. case holder of None \<Rightarrow> None | Some h \<Rightarrow> json_field h k) in
      if \<not> isRecord (Some v) \<or> json_field v ''schemaVersion'' \<noteq> Some (JInt 1)
         \<or> \<not> nonempty_text (json_field v ''claimKey'') \<or> \<not> nonempty_text (json_field v ''workspacePath'')
         \<or> \<not> nullableString (json_field v ''workerId'') \<or> \<not> nullableString (json_field v ''workerGeneration'')
         \<or> \<not> isRecord holder \<or> \<not> is_integer (part ''pid'')
         \<or> \<not> nonempty_text (part ''startTicks'') \<or> \<not> nonempty_text (part ''processGuid'')
         \<or> \<not> is_string (part ''host'') \<or> \<not> is_string (part ''surface'')
         \<or> \<not> is_number (json_field v ''acquiredAtMs'')
      then None
      else Some \<lparr>cl_claimKey = json_string (json_field v ''claimKey''), cl_workspacePath = json_string (json_field v ''workspacePath''),
                 cl_workerId = trimmed_or_null (json_text_option (json_field v ''workerId'')),
                 cl_workerGeneration = trimmed_or_null (json_text_option (json_field v ''workerGeneration'')),
                 cl_holder = \<lparr>ch_pid = json_int (part ''pid''), ch_ticks = json_string (part ''startTicks''),
                    ch_guid = json_string (part ''processGuid''), ch_host = json_string (part ''host''),
                    ch_surface = json_string (part ''surface'')\<rparr>,
                 cl_acquiredAtMs = the (json_field v ''acquiredAtMs'')\<rparr>)"
| "parseRecord _ = None"

definition holderAlive :: "lock_env \<Rightarrow> claim_record \<Rightarrow> bool option" where
  "holderAlive env r = exact_process_alive env (ch_pid (cl_holder r)) (ch_ticks (cl_holder r))"

section \<open>Terminal records\<close>

text \<open>\<open>openSync(path, 'wx')\<close> fails on an existing file.\<close>

definition writeExclusive :: "lock_env \<Rightarrow> string \<Rightarrow> json \<Rightarrow> lock_world \<Rightarrow> (lock_error + unit) \<times> lock_world" where
  "writeExclusive env path value w =
     (if lw_files w path \<noteq> None \<or> \<not> le_create env path then (Inl (Error_Text ''EEXIST''), w)
      else (Inr (), w\<lparr>lw_files := (lw_files w)(path \<mapsto> \<lparr>lf_content = Parsed value, lf_mtime = le_now env\<rparr>)\<rparr>))"

definition terminal_json :: "lock_env \<Rightarrow> claim_record \<Rightarrow> string \<Rightarrow> json \<Rightarrow> json" where
  "terminal_json env r outcome details =
     JObj (claim_fields r @ [(''outcome'', JStr outcome), (''details'', details), (''completedAtMs'', JInt (le_now env))])"

definition terminalizeExisting ::
  "lock_env \<Rightarrow> string \<Rightarrow> claim_record \<Rightarrow> string \<Rightarrow> json \<Rightarrow> lock_world \<Rightarrow> (lock_error + unit) \<times> lock_world" where
  "terminalizeExisting env namespace r outcome details w =
     (case terminalPath env namespace (cl_claimKey r) outcome of
        Inl e \<Rightarrow> (Inl e, w)
      | Inr path \<Rightarrow> writeExclusive env path (terminal_json env r outcome details) w)"

definition sameClaimOwner :: "claim_record \<Rightarrow> claim_record \<Rightarrow> bool" where
  "sameClaimOwner current expected \<longleftrightarrow>
     ch_guid (cl_holder current) = ch_guid (cl_holder expected) \<and> ch_pid (cl_holder current) = ch_pid (cl_holder expected)
     \<and> ch_ticks (cl_holder current) = ch_ticks (cl_holder expected)"

section \<open>Operations\<close>

record claim_input =
  cx_namespace :: string
  cx_claimKey :: string
  cx_workspacePath :: string
  cx_workerId :: "string option"
  cx_workerGeneration :: "string option"
  cx_surface :: "string option"
  cx_staleMs :: "int option"

datatype claim_refusal = claim_held | claim_untrusted

datatype claim_result = Claim_Acquired claim_handle | Claim_Refused claim_refusal | Claim_Threw lock_error

definition claim_stale :: "lock_env \<Rightarrow> claim_input \<Rightarrow> claim_record \<Rightarrow> bool option" where
  "claim_stale env input existing =
     (let staleMs = max 120000 (case cx_staleMs input of None \<Rightarrow> 15 * 60000 | Some n \<Rightarrow> n) in
      case holderAlive env existing of
        None \<Rightarrow> None
      | Some alive \<Rightarrow> Some (\<not> alive \<or> number_at_most (cl_acquiredAtMs existing) (le_now env - staleMs)))"

text \<open>What the body of the \<open>try\<close> does with the locked contents before they are replaced.\<close>

definition settle_existing ::
  "lock_env \<Rightarrow> claim_input \<Rightarrow> lock_content \<Rightarrow> lock_world \<Rightarrow> (claim_refusal + unit) \<times> lock_world" where
  "settle_existing env input raw w =
     (if raw = Blank then (Inr (), w)
      else case parseRecord raw of
        None \<Rightarrow> (Inl claim_untrusted, w)
      | Some existing \<Rightarrow>
          (case claim_stale env input existing of
             None \<Rightarrow> (Inl claim_untrusted, w)
           | Some stale \<Rightarrow>
               if \<not> stale then (Inl claim_held, w)
               else (case terminalizeExisting env (cx_namespace input) existing ''recovered_stale'' (JObj []) w of
                       (Inl e, w') \<Rightarrow> (Inl claim_untrusted, w')
                     | (Inr _, w') \<Rightarrow> (Inr (), w'))))"

definition new_claim :: "lock_env \<Rightarrow> int \<Rightarrow> string \<Rightarrow> string \<Rightarrow> claim_input \<Rightarrow> claim_record" where
  "new_claim env pid ticks key input =
     \<lparr>cl_claimKey = key, cl_workspacePath = cx_workspacePath input,
      cl_workerId = trimmed_or_null (cx_workerId input), cl_workerGeneration = trimmed_or_null (cx_workerGeneration input),
      cl_holder = \<lparr>ch_pid = pid, ch_ticks = ticks, ch_guid = le_uuid env, ch_host = le_host env,
         ch_surface = (case trimmed_or_null (cx_surface input) of None \<Rightarrow> ''worker-recovery'' | Some s \<Rightarrow> s)\<rparr>,
      cl_acquiredAtMs = JInt (le_now env)\<rparr>"

definition acquireWorkerRecoveryClaim ::
  "lock_env \<Rightarrow> int \<Rightarrow> claim_input \<Rightarrow> lock_world \<Rightarrow> claim_result \<times> lock_world" where
  "acquireWorkerRecoveryClaim env pid input w =
     (case le_identity env pid of
        None \<Rightarrow> (Claim_Threw Identity_Unreadable, w)
      | Some ticks \<Rightarrow>
          (case safeKey (cx_claimKey input) of
             Inl e \<Rightarrow> (Claim_Threw e, w)
           | Inr key \<Rightarrow>
               (let path = path_join [cx_namespace input, ''active'', key @ ''.json''] in
                case tryAcquireHeldFileLock env pid path w of
                  (Not_Acquired_Busy, w1) \<Rightarrow> (Claim_Refused claim_held, w1)
                | (Not_Acquired_Unavailable, w1) \<Rightarrow> (Claim_Refused claim_untrusted, w1)
                | (Acquired d, w1) \<Rightarrow>
                    (case readLockedFileContents d w1 of
                       None \<Rightarrow> (Claim_Refused claim_untrusted, releaseHeldFileLock d w1)
                     | Some raw \<Rightarrow>
                         (case settle_existing env input raw w1 of
                            (Inl reason, w2) \<Rightarrow> (Claim_Refused reason, releaseHeldFileLock d w2)
                          | (Inr _, w2) \<Rightarrow>
                              (let r = new_claim env pid ticks key input in
                               (Claim_Acquired \<lparr>cn_path = path, cn_namespace = cx_namespace input, cn_record = r, cn_descriptor = d\<rparr>,
                                replaceLockedFileContents env d (claim_json r) w2)))))))"

definition finalizeWorkerRecoveryClaim ::
  "lock_env \<Rightarrow> claim_handle \<Rightarrow> string \<Rightarrow> json \<Rightarrow> lock_world \<Rightarrow> (lock_error + bool) \<times> lock_world" where
  "finalizeWorkerRecoveryClaim env handle outcome details w =
     (case readLockedFileContents (cn_descriptor handle) w of
        None \<Rightarrow> (Inl Bad_Descriptor, w)
      | Some raw \<Rightarrow>
          (case parseRecord raw of
             None \<Rightarrow> (Inr False, w)
           | Some current \<Rightarrow>
               if \<not> sameClaimOwner current (cn_record handle) then (Inr False, w)
               else (case terminalizeExisting env (cn_namespace handle) current outcome details w of
                       (Inl e, w') \<Rightarrow> (Inl e, w')
                     | (Inr _, w') \<Rightarrow> (Inr True, clearLockedFileContents env (cn_descriptor handle) w'))))"

definition claim_owned :: "lock_content \<Rightarrow> claim_record \<Rightarrow> bool" where
  "claim_owned raw mine = (case parseRecord raw of None \<Rightarrow> False | Some current \<Rightarrow> sameClaimOwner current mine)"

definition releaseWorkerRecoveryClaim :: "lock_env \<Rightarrow> claim_handle \<Rightarrow> lock_world \<Rightarrow> (lock_error + bool) \<times> lock_world" where
  "releaseWorkerRecoveryClaim env handle w =
     (case readLockedFileContents (cn_descriptor handle) w of
        None \<Rightarrow> (Inl Bad_Descriptor, releaseHeldFileLock (cn_descriptor handle) w)
      | Some raw \<Rightarrow>
          if raw = Blank then (Inr True, releaseHeldFileLock (cn_descriptor handle) w)
          else if claim_owned raw (cn_record handle)
          then (Inr True, releaseHeldFileLock (cn_descriptor handle) (clearLockedFileContents env (cn_descriptor handle) w))
          else (Inr False, releaseHeldFileLock (cn_descriptor handle) w))"

section \<open>The claim record as an owner record\<close>

definition clean_text :: "string option \<Rightarrow> bool" where
  "clean_text v \<longleftrightarrow> (case v of None \<Rightarrow> True | Some s \<Rightarrow> s \<noteq> [] \<and> js_trim s = s)"

definition claim_wf :: "claim_record \<Rightarrow> bool" where
  "claim_wf r \<longleftrightarrow> cl_claimKey r \<noteq> [] \<and> cl_workspacePath r \<noteq> [] \<and> clean_text (cl_workerId r) \<and> clean_text (cl_workerGeneration r)
     \<and> ch_ticks (cl_holder r) \<noteq> [] \<and> ch_guid (cl_holder r) \<noteq> [] \<and> is_number (Some (cl_acquiredAtMs r))"

definition claim_key :: "claim_record \<Rightarrow> string \<times> int \<times> string" where
  "claim_key r = (ch_guid (cl_holder r), ch_pid (cl_holder r), ch_ticks (cl_holder r))"

lemma clean_option: "clean_text v \<Longrightarrow> trimmed_or_null (json_text_option (Some (opt_json v))) = v \<and> nullableString (Some (opt_json v))"
  by (cases v) (auto simp: clean_text_def trimmed_or_null_def opt_json_def nullableString_def)

lemma trimmed_clean [simp]: "clean_text (trimmed_or_null v)"
  by (auto simp: clean_text_def trimmed_or_null_def split: option.splits)

lemma parseRecord_claim: "claim_wf r \<Longrightarrow> parseRecord (Parsed (claim_json r)) = Some r"
  using clean_option [of "cl_workerId r"] clean_option [of "cl_workerGeneration r"]
  by (simp add: claim_json_def claim_fields_def claim_wf_def nonempty_text_def Let_def)

interpretation claim: owner_record claim_json claim_owned claim_wf claim_key
proof
  show "claim_wf r \<Longrightarrow> claim_owned (Parsed (claim_json r)) r" for r
    by (simp add: claim_owned_def parseRecord_claim sameClaimOwner_def del: parseRecord.simps)
  show "\<not> claim_owned Blank r" for r by (simp add: claim_owned_def)
  show "claim_owned (Parsed (claim_json r')) r \<Longrightarrow> claim_wf r' \<Longrightarrow> claim_key r' = claim_key r" for r r'
    by (simp add: claim_owned_def parseRecord_claim claim_key_def sameClaimOwner_def del: parseRecord.simps)
qed

section \<open>Effect on the locks\<close>

lemma write_exclusive_ok:
  assumes "lock_inv w" "writeExclusive env path v w = (r, w')"
  shows "lock_inv w' \<and> only_touches own w w' \<and> lw_held w' = lw_held w \<and> (\<forall>p. lw_files w p \<noteq> None \<longrightarrow> lw_files w' p = lw_files w p)"
  using assms by (fastforce simp: writeExclusive_def lock_inv_def only_touches_def split: if_splits)

lemma terminalize_ok:
  assumes "lock_inv w" "terminalizeExisting env namespace c outcome details w = (r, w')"
  shows "lock_inv w' \<and> only_touches own w w' \<and> lw_held w' = lw_held w \<and> (\<forall>p. lw_files w p \<noteq> None \<longrightarrow> lw_files w' p = lw_files w p)"
  using assms write_exclusive_ok [of w env] by (auto simp: terminalizeExisting_def split: sum.splits)

lemma settle_existing_ok:
  assumes "lock_inv w" "settle_existing env input raw w = (r, w')"
  shows "lock_inv w' \<and> only_touches own w w' \<and> lw_held w' = lw_held w"
  using assms terminalize_ok [OF assms(1), of env "cx_namespace input"]
  by (fastforce simp: settle_existing_def split: if_splits option.splits prod.splits sum.splits)

lemma acquire_claim_ok:
  assumes "flock_exclusive env" "lock_inv w" "acquireWorkerRecoveryClaim env pid input w = (r, w')"
  shows "lock_inv w' \<and> only_touches None w w'
    \<and> (case r of
         Claim_Acquired h \<Rightarrow> claim.holds w' (cn_descriptor h) (cn_record h) \<and> \<not> path_held w (cn_path h)
           \<and> lw_next w \<le> cn_descriptor h \<and> lw_held w' (cn_descriptor h) = Some \<lparr>hl_path = cn_path h, hl_pid = pid\<rparr>
           \<and> claimPath (cx_namespace input) (cx_claimKey input) = Inr (cn_path h)
           \<and> ch_pid (cl_holder (cn_record h)) = pid \<and> le_identity env pid = Some (ch_ticks (cl_holder (cn_record h)))
           \<and> ch_guid (cl_holder (cn_record h)) = le_uuid env
       | _ \<Rightarrow> lw_held w' = lw_held w)"
proof -
  note lock = acquire_ok [OF assms(1,2)] acquire_held [OF assms(2)]
  show ?thesis
  proof (cases "le_identity env pid")
    case None
    then show ?thesis using assms(2,3) by (auto simp: acquireWorkerRecoveryClaim_def)
  next
    case ticks: (Some ticks)
    show ?thesis
    proof (cases "safeKey (cx_claimKey input)")
      case (Inl e)
      then show ?thesis using assms(2,3) ticks by (auto simp: acquireWorkerRecoveryClaim_def)
    next
      case key: (Inr key)
      let ?path = "path_join [cx_namespace input, ''active'', key @ ''.json'']"
      obtain a w1 where a: "tryAcquireHeldFileLock env pid ?path w = (a, w1)" by fastforce
      note l = lock(1,2) [OF a] lock(4) [OF a]
      show ?thesis
      proof (cases a)
        case (Acquired d)
        note a' = a [unfolded Acquired]
        obtain raw where raw: "readLockedFileContents d w1 = Some raw" using acquired_read [OF assms(2) a'] by auto
        have held: "lw_held w1 d = Some \<lparr>hl_path = ?path, hl_pid = pid\<rparr>" "\<not> path_held w ?path" "lw_next w \<le> d"
          using lock(3) [OF a', of d] Acquired by auto
        obtain b w2 where b: "settle_existing env input raw w1 = (b, w2)" by fastforce
        note s = settle_existing_ok [OF l(1) b]
        have s': "lock_inv w2" "lw_held w2 = lw_held w1" "only_touches (Some d) w1 w2" using s by auto
        have rel: "lock_inv (releaseHeldFileLock d w2)" "only_touches None w (releaseHeldFileLock d w2)"
          "lw_held (releaseHeldFileLock d w2) = lw_held w"
          using release_ok [OF s'(1), of d]
            acquire_then [OF assms(1,2) a' only_touches_trans [OF s'(3) _ _ l(1), of "Some d"]]
            released_again [OF assms(2) a'] s'(2)
          by (auto simp: releaseHeldFileLock_def)
        have put: "lock_inv (replaceLockedFileContents env d v w2)" "only_touches None w (replaceLockedFileContents env d v w2)"
          "lw_held (replaceLockedFileContents env d v w2) d = Some \<lparr>hl_path = ?path, hl_pid = pid\<rparr>" for v
          using store_ok [OF s'(1), of env d] held s'(2)
            acquire_then [OF assms(1,2) a' only_touches_trans [OF s'(3) _ _ l(1), of "Some d"]]
          by (auto simp: replaceLockedFileContents_def)
        have own: "claim.holds (replaceLockedFileContents env d (claim_json c) w2) d c" for c
          using claim.holds_stored [of w2 d] s'(2) held(1) by simp
        show ?thesis
          using assms(3) ticks key a' raw b rel put own held
          by (auto simp: acquireWorkerRecoveryClaim_def Let_def new_claim_def claimPath_def split: sum.splits)
      qed (use assms(3) ticks key a l in \<open>auto simp: acquireWorkerRecoveryClaim_def Let_def\<close>)
    qed
  qed
qed

lemma finalize_claim_ok:
  assumes "lock_inv w" "finalizeWorkerRecoveryClaim env handle outcome details w = (r, w')"
  shows "lock_inv w' \<and> only_touches (Some (cn_descriptor handle)) w w' \<and> lw_held w' = lw_held w"
proof -
  let ?d = "cn_descriptor handle"
  have "lock_inv w' \<and> only_touches (Some ?d) w w' \<and> lw_held w' = lw_held w"
    if t: "terminalizeExisting env (cn_namespace handle) c outcome details w = (a, w1)"
      and w': "w' = w1 \<or> w' = clearLockedFileContents env ?d w1" for c a w1
  proof -
    note t' = terminalize_ok [OF assms(1) t, of "Some ?d"]
    note s = store_ok [of w1 env ?d Blank, OF t' [THEN conjunct1]]
    show ?thesis
      using t' s w' only_touches_trans [OF t' [THEN conjunct2, THEN conjunct1] s [THEN conjunct2] _ assms(1)]
      by (auto simp: clearLockedFileContents_def)
  qed
  then show ?thesis
    using assms by (fastforce simp: finalizeWorkerRecoveryClaim_def split: option.splits if_splits sum.splits prod.splits)
qed

lemma release_claim_ok:
  assumes "lock_inv w" "releaseWorkerRecoveryClaim env handle w = (r, w')"
  shows "lock_inv w' \<and> only_touches (Some (cn_descriptor handle)) w w' \<and> lw_held w' (cn_descriptor handle) = None"
proof -
  let ?d = "cn_descriptor handle"
  note s = store_ok [OF assms(1), of env ?d Blank]
  note t = release_ok [OF s [THEN conjunct1], of ?d]
  show ?thesis
    using assms s t release_ok [OF assms(1), of ?d] only_touches_trans [OF s [THEN conjunct2] t [THEN conjunct2] _ assms(1)]
    by (auto simp: releaseWorkerRecoveryClaim_def clearLockedFileContents_def releaseHeldFileLock_def split: if_splits option.splits)
qed

end
