(* ===== verification/Lock_Machine.thy ===== *)
theory Lock_Machine
  imports Recovery_Claim
begin

text \<open>
  The lease, the fence and the claim of several processes on one file system: every operation is a
  step, a process may end at any moment, and the properties speak of all worlds and runs that
  result. Each step has its own environment.
\<close>

section \<open>Steps\<close>

datatype lock_op =
    Lease_Acquire int string "json option"
  | Lease_Release lease_handle
  | Fence_Acquire int string "json option" "int option"
  | Fence_Reclaim int string "int option" "int option"
  | Fence_Release fence_handle
  | Claim_Acquire int claim_input
  | Claim_Finalize claim_handle string json
  | Claim_Release claim_handle
  | Process_Exit int

text \<open>The kernel closes the descriptors of a process that ends.\<close>

definition process_exit :: "int \<Rightarrow> lock_world \<Rightarrow> lock_world" where
  "process_exit pid w = w\<lparr>lw_held := (\<lambda>d. case lw_held w d of Some h \<Rightarrow> if hl_pid h = pid then None else Some h | None \<Rightarrow> None)\<rparr>"

fun lock_step :: "lock_env \<Rightarrow> lock_op \<Rightarrow> lock_world \<Rightarrow> lock_world" where
  "lock_step env (Lease_Acquire pid dir metadata) w = snd (acquireSingleInstanceLease env pid dir metadata w)"
| "lock_step env (Lease_Release h) w = snd (releaseSingleInstanceLease env h w)"
| "lock_step env (Fence_Acquire pid path metadata age) w = snd (acquireSideEffectFence env pid path metadata age w)"
| "lock_step env (Fence_Reclaim pid path nowMs age) w = snd (reclaimStaleSideEffectFence env pid path nowMs age w)"
| "lock_step env (Fence_Release h) w = snd (releaseSideEffectFence env h w)"
| "lock_step env (Claim_Acquire pid input) w = snd (acquireWorkerRecoveryClaim env pid input w)"
| "lock_step env (Claim_Finalize h outcome details) w = snd (finalizeWorkerRecoveryClaim env h outcome details w)"
| "lock_step env (Claim_Release h) w = snd (releaseWorkerRecoveryClaim env h w)"
| "lock_step env (Process_Exit pid) w = process_exit pid w"

fun op_descriptor :: "lock_op \<Rightarrow> nat option" where
  "op_descriptor (Lease_Release h) = Some (lh_descriptor h)"
| "op_descriptor (Fence_Release h) = Some (fh_descriptor h)"
| "op_descriptor (Claim_Finalize h _ _) = Some (cn_descriptor h)"
| "op_descriptor (Claim_Release h) = Some (cn_descriptor h)"
| "op_descriptor _ = None"

text \<open>A step of others: it is not given the descriptor, and its process lives on.\<close>

definition quiet :: "nat \<Rightarrow> int \<Rightarrow> lock_env \<times> lock_op \<Rightarrow> bool" where
  "quiet d pid s \<longleftrightarrow> flock_exclusive (fst s) \<and> op_descriptor (snd s) \<noteq> Some d \<and> snd s \<noteq> Process_Exit pid"

definition lock_run :: "(lock_env \<times> lock_op) list \<Rightarrow> lock_world \<Rightarrow> lock_world" where
  "lock_run steps w = foldl (\<lambda>w s. lock_step (fst s) (snd s) w) w steps"

inductive lock_reachable :: "lock_world \<Rightarrow> bool" where
  start: "lw_held w = (\<lambda>_. None) \<Longrightarrow> lock_reachable w"
| step: "lock_reachable w \<Longrightarrow> flock_exclusive env \<Longrightarrow> lock_reachable (lock_step env p w)"

section \<open>The invariant\<close>

lemma process_exit_ok:
  assumes "lock_inv w"
  shows "lock_inv (process_exit pid w)"
    and "lw_held w d = Some h \<Longrightarrow> hl_pid h \<noteq> pid \<Longrightarrow> lw_held (process_exit pid w) d = Some h"
    and "lw_files (process_exit pid w) = lw_files w" and "lw_next (process_exit pid w) = lw_next w"
    and "path_held (process_exit pid w) path \<longleftrightarrow> (\<exists>d h. lw_held w d = Some h \<and> hl_path h = path \<and> hl_pid h \<noteq> pid)"
  using assms by (auto simp: process_exit_def lock_inv_def path_held_def split: option.splits if_splits) (metis)+

lemma lock_step_ok:
  assumes "flock_exclusive env" "lock_inv w"
  shows "lock_inv (lock_step env p w) \<and> ((\<forall>pid. p \<noteq> Process_Exit pid) \<longrightarrow> only_touches (op_descriptor p) w (lock_step env p w))"
proof (cases p)
  case (Lease_Acquire pid dir metadata)
  then show ?thesis using acquire_lease_ok [OF assms prod.collapse [symmetric]] by auto
next
  case (Lease_Release h)
  then show ?thesis using release_lease_ok [OF assms(2) prod.collapse [symmetric]] by auto
next
  case (Fence_Acquire pid path metadata age)
  then show ?thesis using acquire_fence_ok [OF assms prod.collapse [symmetric]] by auto
next
  case (Fence_Reclaim pid path nowMs age)
  then show ?thesis using reclaim_fence_ok [OF assms prod.collapse [symmetric]] by auto
next
  case (Fence_Release h)
  then show ?thesis using release_fence_ok [OF assms(2) prod.collapse [symmetric]] by auto
next
  case (Claim_Acquire pid input)
  then show ?thesis using acquire_claim_ok [OF assms prod.collapse [symmetric]] by auto
next
  case (Claim_Finalize h outcome details)
  then show ?thesis using finalize_claim_ok [OF assms(2) prod.collapse [symmetric]] by auto
next
  case (Claim_Release h)
  then show ?thesis using release_claim_ok [OF assms(2) prod.collapse [symmetric]] by auto
next
  case (Process_Exit pid)
  then show ?thesis using process_exit_ok(1) [OF assms(2)] by simp
qed

lemma lock_reachable_inv: "lock_reachable w \<Longrightarrow> lock_inv w"
proof (induction rule: lock_reachable.induct)
  case (start w)
  then show ?case by (simp add: lock_inv_def)
qed (simp add: lock_step_ok)

lemma lock_run_Cons [simp]: "lock_run (s # steps) w = lock_run steps (lock_step (fst s) (snd s) w)"
  by (simp add: lock_run_def)

lemma lock_run_Nil [simp]: "lock_run [] w = w"
  by (simp add: lock_run_def)

text \<open>What a quiet step leaves of one descriptor: its lock and the contents of its file.\<close>

lemma quiet_step:
  assumes "quiet d pid s" "lock_inv w" "lw_held w d = Some h" "hl_pid h = pid"
  shows "lock_inv (lock_step (fst s) (snd s) w) \<and> lw_held (lock_step (fst s) (snd s) w) d = Some h
    \<and> lw_files (lock_step (fst s) (snd s) w) (hl_path h) = lw_files w (hl_path h)"
proof -
  note q = assms(1) [unfolded quiet_def]
  note ok = lock_step_ok [OF q [THEN conjunct1] assms(2), of "snd s"]
  show ?thesis
  proof (cases "\<exists>pid'. snd s = Process_Exit pid'")
    case True
    then show ?thesis using process_exit_ok(1,2,3) [OF assms(2)] assms(3,4) q by auto
  next
    case False
    then show ?thesis using ok q assms(3) unfolding only_touches_def by metis
  qed
qed

lemma quiet_run:
  assumes "list_all (quiet d pid) steps" "lock_inv w" "lw_held w d = Some h" "hl_pid h = pid"
  shows "lock_inv (lock_run steps w) \<and> lw_held (lock_run steps w) d = Some h
    \<and> readLockedFileContents d (lock_run steps w) = readLockedFileContents d w"
proof -
  have "lock_inv (lock_run steps w) \<and> lw_held (lock_run steps w) d = Some h
    \<and> lw_files (lock_run steps w) (hl_path h) = lw_files w (hl_path h)"
    using assms
  proof (induction steps arbitrary: w)
    case (Cons s steps)
    then show ?case using quiet_step [of d pid s w h] by simp
  qed simp
  then show ?thesis using assms(3) by (simp add: readLockedFileContents_def locked_file_def)
qed

section \<open>Nobody else gets in\<close>

lemma held_not_acquired:
  assumes "flock_exclusive env" "lock_inv w" "path_held w path"
  shows "(case fst (acquireSideEffectFence env pid path metadata age w) of Fence_Acquired _ \<Rightarrow> False | _ \<Rightarrow> True)"
    and "path = ownerPath dir \<Longrightarrow> (case fst (acquireSingleInstanceLease env pid dir metadata w) of Inr _ \<Rightarrow> False | _ \<Rightarrow> True)"
    and "claimPath (cx_namespace input) (cx_claimKey input) = Inr path \<Longrightarrow>
      (case fst (acquireWorkerRecoveryClaim env pid input w) of Claim_Acquired _ \<Rightarrow> False | _ \<Rightarrow> True)"
  using acquire_fence_ok [OF assms(1,2) prod.collapse [symmetric]] acquire_lease_ok [OF assms(1,2) prod.collapse [symmetric]]
    acquire_claim_ok [OF assms(1,2) prod.collapse [symmetric]] assms(3)
  by (fastforce split: fence_result.splits sum.splits claim_result.splits)+

lemma release_frees:
  assumes "lock_inv w" "lw_held w d = Some h"
  shows "\<not> path_held (releaseHeldFileLock d w) (hl_path h)"
  using assms unfolding lock_inv_def path_held_def releaseHeldFileLock_def by (auto split: if_splits)

lemma cleared_file:
  "lw_held w d = Some h \<Longrightarrow> map_option lf_content (lw_files (releaseHeldFileLock d (clearLockedFileContents env d w)) (hl_path h)) = Some Blank"
  by (simp add: releaseHeldFileLock_def clearLockedFileContents_def store_content_def)

lemma clear_keeps_held: "lw_held (clearLockedFileContents env d w) = lw_held w"
  by (simp add: clearLockedFileContents_def)

lemma fence_handle_wf:
  assumes "acquireSideEffectFence env pid path metadata age w = (Fence_Acquired handle, w1)"
    "0 < pid \<and> le_uuid env \<noteq> [] \<and> le_identity env pid \<noteq> Some [] \<and> (metadata = None \<or> isRecord metadata)"
  shows "fence_wf (fh_owner handle)"
  using assms unfolding fence_wf_def acquireSideEffectFence_def
  by (auto simp: Let_def split: prod.splits held_result.splits sum.splits disposition.splits option.splits)


section \<open>Properties\<close>

text \<open>
  In every reachable world each lock file is held by at most one open description, whatever
  leases, fences and claims the processes take, release, reclaim and finalise, and however they end;
  the held file exists.
\<close>
theorem one_holder_per_file:
  assumes "lock_reachable w"
  shows "(lw_held w d = Some h \<and> lw_held w d' = Some h' \<and> hl_path h = hl_path h' \<longrightarrow> d = d')
    \<and> (lw_held w d = Some h \<longrightarrow> lw_files w (hl_path h) \<noteq> None)"
  using lock_reachable_inv [OF assms] unfolding lock_inv_def by blast

text \<open>
  C7: A fence is exclusive and is given back whole: from the moment a process acquires it, through any
  steps of others in any order, no lease, fence or claim is acquired on that file; when its owner
  then releases it, the release succeeds, the file is blank and no one holds it.
\<close>
theorem fence_exclusive_until_release:
  assumes "lock_reachable w" and "flock_exclusive env"
    and "acquireSideEffectFence env pid path metadata age w = (Fence_Acquired handle, w1)"
    and "0 < pid \<and> le_uuid env \<noteq> [] \<and> le_identity env pid \<noteq> Some [] \<and> (metadata = None \<or> isRecord metadata)"
    and "list_all (quiet (fh_descriptor handle) pid) steps" and "flock_exclusive env'"
  shows "let w2 = lock_run steps w1; (answer, w3) = releaseSideEffectFence env'' handle w2 in
      path_held w2 path
      \<and> (case fst (acquireSideEffectFence env' pid' path metadata' age' w2) of Fence_Acquired _ \<Rightarrow> False | _ \<Rightarrow> True)
      \<and> answer = Inr True \<and> \<not> path_held w3 path \<and> map_option lf_content (lw_files w3 path) = Some Blank"
proof -
  note inv = lock_reachable_inv [OF assms(1)]
  note a = acquire_fence_ok [OF assms(2) inv assms(3)]
  let ?d = "fh_descriptor handle" and ?w2 = "lock_run steps w1"
  let ?h = "\<lparr>hl_path = path, hl_pid = pid\<rparr>"
  have held: "lw_held w1 ?d = Some ?h" "fence.holds w1 ?d (fh_owner handle)" "lock_inv w1" using a by auto
  have r: "lock_inv ?w2" "lw_held ?w2 ?d = Some ?h" "readLockedFileContents ?d ?w2 = readLockedFileContents ?d w1"
    using quiet_run [OF assms(5) held(3,1)] by auto
  have p: "path_held ?w2 path" using r(2) unfolding path_held_def by force
  note wf = fence_handle_wf [OF assms(3,4)]
  from fence.holds_owned [OF held(2) wf] r(3)
  obtain c where c: "readLockedFileContents ?d ?w2 = Some c" "fence_owned c (fh_owner handle)" by auto
  have "releaseSideEffectFence env'' handle ?w2 = (Inr True, releaseHeldFileLock ?d (clearLockedFileContents env'' ?d ?w2))"
    using c by (simp add: releaseSideEffectFence_def)
  moreover have "\<not> path_held (releaseHeldFileLock ?d (clearLockedFileContents env'' ?d ?w2)) path"
    using release_frees [of "clearLockedFileContents env'' ?d ?w2" ?d ?h] store_ok [OF r(1), of env'' ?d Blank] r(2)
    by (simp add: clearLockedFileContents_def)
  ultimately show ?thesis
    using p held_not_acquired(1) [OF assms(6) r(1) p] cleared_file [OF r(2), of env''] by simp
qed

lemma lease_handle_wf:
  assumes "acquireSingleInstanceLease env pid dir metadata w = (Inr handle, w1)" "0 < pid \<and> le_uuid env \<noteq> [] \<and> le_identity env pid \<noteq> Some []"
  shows "lease_wf (lh_owner handle)"
  using assms unfolding lease_wf_def acquireSingleInstanceLease_def
  by (auto simp: Let_def split: prod.splits held_result.splits sum.splits option.splits)

text \<open>
  C28: One instance runs at a time: after a process acquires the lease, through any steps of others no
  other acquisition of it succeeds; one that finds the lock taken while the owner runs fails with
  \<open>single_instance_busy\<close> and the owner's process id; and the owner's own release succeeds, frees the
  lock and blanks the record.
\<close>
theorem lease_single_instance:
  assumes "lock_reachable w" and "flock_exclusive env"
    and "acquireSingleInstanceLease env pid dir metadata w = (Inr handle, w1)"
    and "0 < pid \<and> le_uuid env \<noteq> [] \<and> le_identity env pid \<noteq> Some []"
    and "list_all (quiet (lh_descriptor handle) pid) steps" and "flock_exclusive env'" and "le_identity env' pid' \<noteq> None"
  shows "let w2 = lock_run steps w1; (released, w3) = releaseSingleInstanceLease env'' handle w2 in
      (case fst (acquireSingleInstanceLease env' pid' dir metadata' w2) of
         Inr _ \<Rightarrow> False
       | Inl e \<Rightarrow> (if le_flock env' w2 (ownerPath dir) = Denied \<and> le_alive_strict env' pid = Some True \<and> le_identity env' pid = le_identity env pid
                   then e = Error_Text (''single_instance_busy:'' @ show_int pid) else True))
      \<and> released \<and> \<not> path_held w3 (ownerPath dir) \<and> map_option lf_content (lw_files w3 (ownerPath dir)) = Some Blank"
proof -
  note inv = lock_reachable_inv [OF assms(1)]
  note a = acquire_lease_ok [OF assms(2) inv assms(3)]
  let ?d = "lh_descriptor handle" and ?w2 = "lock_run steps w1" and ?p = "ownerPath dir"
  let ?h = "\<lparr>hl_path = ?p, hl_pid = pid\<rparr>" and ?o = "lh_owner handle"
  have held: "lw_held w1 ?d = Some ?h" "lease.holds w1 ?d ?o" "lock_inv w1" "lo_pid ?o = pid"
    "le_identity env pid = Some (lo_ticks ?o)" using a by auto
  have r: "lock_inv ?w2" "lw_held ?w2 ?d = Some ?h" "readLockedFileContents ?d ?w2 = readLockedFileContents ?d w1"
    using quiet_run [OF assms(5) held(3,1)] by auto
  have p: "path_held ?w2 ?p" using r(2) unfolding path_held_def by force
  note wf = lease_handle_wf [OF assms(3,4)]
  from lease.holds_owned [OF held(2) wf] r(3)
  obtain c where c: "readLockedFileContents ?d ?w2 = Some c" "lease_owned c ?o" by auto
  have rel: "releaseSingleInstanceLease env'' handle ?w2 = (True, releaseHeldFileLock ?d (clearLockedFileContents env'' ?d ?w2))"
    using c by (simp add: releaseSingleInstanceLease_def)
  have free: "\<not> path_held (releaseHeldFileLock ?d (clearLockedFileContents env'' ?d ?w2)) ?p"
    using release_frees [of "clearLockedFileContents env'' ?d ?w2" ?d ?h] store_ok [OF r(1), of env'' ?d Blank] r(2)
    by (simp add: clearLockedFileContents_def)
  obtain f where f: "lw_files ?w2 ?p = Some f" "lf_content f = Parsed (lease_json ?o)"
    using r(2,3) held(2) by (auto simp: lease.holds_def readLockedFileContents_def locked_file_def)
  have busy: "fst (acquireSingleInstanceLease env' pid' dir metadata' ?w2) = Inl (Error_Text (''single_instance_busy:'' @ show_int pid))"
    if n: "le_flock env' ?w2 ?p = Denied" "le_alive_strict env' pid = Some True" "le_identity env' pid = le_identity env pid"
  proof -
    have t: "tryAcquireHeldFileLock env' pid' ?p ?w2 = (Not_Acquired_Busy, ?w2)"
      using n(1) f(1) by (simp add: tryAcquireHeldFileLock_def touch_def)
    have pid: "json_field (lease_json ?o) ''pid'' = Some (JInt pid)" "json_field (lease_json ?o) ''startTicks'' = Some (JStr (lo_ticks ?o))"
      using held(4) by (simp_all add: lease_json_def)
    have "readLiveSingleInstanceLease env' dir ?w2 = Inr (Some (lease_json ?o))"
      using f n(2,3) held(5) pid parseOwner_lease [OF wf] by (simp add: readLiveSingleInstanceLease_def liveOwner_def)
    then show ?thesis
      using t assms(7) pid by (auto simp: acquireSingleInstanceLease_def busy_error_def)
  qed
  show ?thesis
    using rel free busy held_not_acquired(2) [OF assms(6) r(1) p, of dir pid' metadata'] cleared_file [OF r(2), of env'']
    by (auto split: sum.splits)
qed

lemma claim_handle_wf:
  assumes "acquireWorkerRecoveryClaim env pid input w = (Claim_Acquired handle, w1)"
    "cx_workspacePath input \<noteq> [] \<and> le_uuid env \<noteq> [] \<and> le_identity env pid \<noteq> Some []"
  shows "claim_wf (cn_record handle) \<and> cn_namespace handle = cx_namespace input"
proof -
  have "safeKey k = Inr s \<Longrightarrow> s \<noteq> []" for k s by (auto simp: safeKey_def Let_def split: if_splits)
  then show ?thesis
    using assms unfolding claim_wf_def acquireWorkerRecoveryClaim_def
    by (auto simp: Let_def new_claim_def split: prod.splits held_result.splits sum.splits option.splits)
qed

text \<open>
  C16: A recovery claim is settled once, by its holder: through any steps of others the claim stays
  the holder's; finalising it then writes one new terminal record with the claim, the outcome and
  the details, blanks the active file and keeps it locked; finalising again does nothing; the
  release succeeds and frees the file.
\<close>
theorem claim_finalized_once:
  assumes "lock_reachable w" and "flock_exclusive env"
    and "acquireWorkerRecoveryClaim env pid input w = (Claim_Acquired handle, w1)"
    and "cx_workspacePath input \<noteq> [] \<and> le_uuid env \<noteq> [] \<and> le_identity env pid \<noteq> Some []"
    and "list_all (quiet (cn_descriptor handle) pid) steps"
    and "terminalPath env' (cx_namespace input) (cl_claimKey (cn_record handle)) outcome = Inr final"
    and "lw_files (lock_run steps w1) final = None" and "le_create env' final"
  shows "let w2 = lock_run steps w1;
           (answer, w3) = finalizeWorkerRecoveryClaim env' handle outcome details w2;
           (again, w4) = finalizeWorkerRecoveryClaim env'' handle outcome' details' w3;
           (released, w5) = releaseWorkerRecoveryClaim env'' handle w3
      in answer = Inr True
        \<and> map_option lf_content (lw_files w3 final) = Some (Parsed (terminal_json env' (cn_record handle) outcome details))
        \<and> map_option lf_content (lw_files w3 (cn_path handle)) = Some Blank \<and> path_held w3 (cn_path handle)
        \<and> again = Inr False \<and> w4 = w3 \<and> released = Inr True \<and> \<not> path_held w5 (cn_path handle)"
proof -
  note inv = lock_reachable_inv [OF assms(1)]
  note a = acquire_claim_ok [OF assms(2) inv assms(3)]
  let ?d = "cn_descriptor handle" and ?w2 = "lock_run steps w1" and ?p = "cn_path handle" and ?r = "cn_record handle"
  let ?h = "\<lparr>hl_path = ?p, hl_pid = pid\<rparr>"
  have held: "lw_held w1 ?d = Some ?h" "claim.holds w1 ?d ?r" "lock_inv w1" using a by auto
  have r: "lock_inv ?w2" "lw_held ?w2 ?d = Some ?h" "readLockedFileContents ?d ?w2 = readLockedFileContents ?d w1"
    using quiet_run [OF assms(5) held(3,1)] by auto
  have wf: "claim_wf ?r" "cn_namespace handle = cx_namespace input" using claim_handle_wf [OF assms(3,4)] by auto
  have read: "readLockedFileContents ?d ?w2 = Some (Parsed (claim_json ?r))" using r(3) held(2) by (simp add: claim.holds_def)
  have ne: "?p \<noteq> final" using r(1,2) assms(7) unfolding lock_inv_def by force
  let ?w' = "?w2\<lparr>lw_files := (lw_files ?w2)(final \<mapsto> \<lparr>lf_content = Parsed (terminal_json env' ?r outcome details), lf_mtime = le_now env'\<rparr>)\<rparr>"
  let ?w3 = "clearLockedFileContents env' ?d ?w'"
  have fin: "finalizeWorkerRecoveryClaim env' handle outcome details ?w2 = (Inr True, ?w3)"
    using read wf assms(6-8) parseRecord_claim [OF wf(1)]
    by (simp add: finalizeWorkerRecoveryClaim_def terminalizeExisting_def writeExclusive_def sameClaimOwner_def del: parseRecord.simps)
  have w3: "lw_held ?w3 = lw_held ?w2" "map_option lf_content (lw_files ?w3 ?p) = Some Blank"
    "map_option lf_content (lw_files ?w3 final) = Some (Parsed (terminal_json env' ?r outcome details))"
    using r(2) ne by (auto simp: clearLockedFileContents_def store_content_def)
  have read3: "readLockedFileContents ?d ?w3 = Some Blank" using w3(1,2) r(2) by (simp add: readLockedFileContents_def locked_file_def)
  have "lock_inv ?w3" using finalize_claim_ok [OF r(1) fin] by simp
  then have "\<not> path_held (releaseHeldFileLock ?d ?w3) ?p" using release_frees [of ?w3 ?d ?h] w3(1) r(2) by simp
  moreover have "path_held ?w3 ?p" using w3(1) r(2) unfolding path_held_def by force
  ultimately show ?thesis
    using fin w3 read3 by (simp add: finalizeWorkerRecoveryClaim_def [of env''] releaseWorkerRecoveryClaim_def)
qed


lemma thrown_fence_held:
  assumes "lock_inv w" "flock_exclusive env" "acquireSideEffectFence env pid path metadata age w = (Fence_Threw e, w1)"
  shows "tryAcquireHeldFileLock env pid path w = (Acquired (lw_next w), w1)"
proof -
  let ?age = "case age of None \<Rightarrow> ownerless_default | Some n \<Rightarrow> n"
  obtain b x where b: "tryAcquireHeldFileLock env pid path w = (b, x)" by (cases "tryAcquireHeldFileLock env pid path w")
  note u = assms(3) [unfolded acquireSideEffectFence_def b prod.case]
  have "\<exists>d. b = Acquired d \<and> x = w1"
  proof (cases b)
    case (Acquired d)
    note v = u [unfolded Acquired held_result.case]
    show ?thesis
    proof (cases "existingFenceDisposition env d ?age (le_now env) x")
      case (Inl e')
      then show ?thesis using v Acquired by simp
    next
      case (Inr disp)
      then show ?thesis using v Acquired by (cases disp; cases "le_identity env pid") (simp_all add: Let_def)
    qed
  qed (use u in simp_all)
  then obtain d where d: "tryAcquireHeldFileLock env pid path w = (Acquired d, w1)" using b by blast
  have "d = lw_next w"
    using d [unfolded tryAcquireHeldFileLock_def] by (cases "le_flock env w path") (simp_all add: Let_def touch_files(2))
  then show ?thesis using d by simp
qed

text \<open>
  C39: When acquiring a fence throws, as it does for an owner whose process exists but has no readable
  identity, the lock just taken is not given back: no descriptor for it was returned, and through
  any steps of others the fence, lease or claim on that file is acquired by no one until the
  process ends.
\<close>
theorem thrown_fence_stays_locked:
  assumes "lock_reachable w" and "flock_exclusive env"
    and "acquireSideEffectFence env pid path metadata age w = (Fence_Threw e, w1)" and "flock_exclusive env'"
  shows "\<not> path_held w path
    \<and> (list_all (quiet (lw_next w) pid) steps \<longrightarrow>
        path_held (lock_run steps w1) path
        \<and> (case fst (acquireSideEffectFence env' pid' path metadata' age' (lock_run steps w1)) of
             Fence_Acquired _ \<Rightarrow> False
           | _ \<Rightarrow> True))"
proof -
  note inv = lock_reachable_inv [OF assms(1)]
  let ?h = "\<lparr>hl_path = path, hl_pid = pid\<rparr>"
  have inv1: "lock_inv w1" using acquire_fence_ok [OF assms(2) inv assms(3)] by simp
  note d = thrown_fence_held [OF inv assms(2,3)]
  have h: "lw_held w1 (lw_next w) = Some ?h" "\<not> path_held w path"
    using acquire_ok(3) [OF assms(2) inv d, of "lw_next w"] by auto
  have "path_held (lock_run steps w1) path
        \<and> (case fst (acquireSideEffectFence env' pid' path metadata' age' (lock_run steps w1)) of
             Fence_Acquired _ \<Rightarrow> False
           | _ \<Rightarrow> True)" if q: "list_all (quiet (lw_next w) pid) steps"
  proof -
    have r: "lock_inv (lock_run steps w1)" "lw_held (lock_run steps w1) (lw_next w) = Some ?h"
      using quiet_run [OF q inv1 h(1)] by auto
    have p: "path_held (lock_run steps w1) path" using r(2) unfolding path_held_def by force
    show ?thesis using p held_not_acquired(1) [OF assms(4) r(1) p] by simp
  qed
  then show ?thesis using h(2) by simp
qed

end
