(* ===== verification/Lock_Samples.thy ===== *)
theory Lock_Samples
  imports Lock_Machine
begin

text \<open>Runs of the lease, the fence and the claim on concrete worlds: witnesses of the lock properties.\<close>

definition kernel_flock :: "lock_world \<Rightarrow> string \<Rightarrow> flock_answer" where
  "kernel_flock w path = (if path_held w path then Denied else Granted)"

text \<open>Process 1 exists and has no readable identity; every other process has start ticks 77.\<close>

definition sample_lock_env :: lock_env where
  "sample_lock_env = \<lparr>le_flock = kernel_flock, le_identity = (\<lambda>p. if p = 1 then None else Some ''77''), le_alive = (\<lambda>_. True),
     le_alive_strict = (\<lambda>_. Some True), le_now = 1000, le_iso_now = ''2026'', le_uuid = ''u1'', le_host = ''h'', le_create = (\<lambda>_. True)\<rparr>"

definition later_lock_env :: lock_env where
  "later_lock_env = sample_lock_env\<lparr>le_alive := (\<lambda>p. p \<noteq> 10), le_uuid := ''u2'', le_now := 2000\<rparr>"

definition empty_world :: lock_world where
  "empty_world = \<lparr>lw_files = (\<lambda>_. None), lw_held = (\<lambda>_. None), lw_next = 0\<rparr>"

definition orphan_world :: lock_world where
  "orphan_world = empty_world\<lparr>lw_files := (\<lambda>_. None)(''/f'' \<mapsto> \<lparr>lf_content = Parsed (fence_json
     \<lparr>fo_pid = 1, fo_ticks = ''5'', fo_nonce = ''n'', fo_started = JInt 0, fo_metadata = JObj []\<rparr>), lf_mtime = 0\<rparr>)\<rparr>"

lemma sample_sel [simp]:
  "le_flock sample_lock_env = kernel_flock" "le_identity sample_lock_env q = (if q = 1 then None else Some ''77'')"
  "le_alive sample_lock_env q" "le_alive_strict sample_lock_env q = Some True" "le_now sample_lock_env = 1000"
  "le_iso_now sample_lock_env = ''2026''" "le_uuid sample_lock_env = ''u1''" "le_host sample_lock_env = ''h''"
  "le_create sample_lock_env path"
  by (simp_all add: sample_lock_env_def)

lemma later_sel [simp]:
  "le_flock later_lock_env = kernel_flock" "le_identity later_lock_env q = (if q = 1 then None else Some ''77'')"
  "le_alive later_lock_env q = (q \<noteq> 10)" "le_uuid later_lock_env = ''u2''"
  by (simp_all add: later_lock_env_def)

lemma sample_flock [simp]: "flock_exclusive sample_lock_env" "flock_exclusive later_lock_env"
  by (simp_all add: flock_exclusive_def kernel_flock_def)

lemma sample_reachable [simp]: "lock_reachable empty_world" "lock_reachable orphan_world"
  by (rule lock_reachable.start, simp add: empty_world_def orphan_world_def)+

lemma sample_free [simp]: "\<not> path_held empty_world p" "\<not> path_held orphan_world p"
  by (simp_all add: path_held_def empty_world_def orphan_world_def)

lemma sample_granted:
  "tryAcquireHeldFileLock sample_lock_env pid p empty_world =
     (Acquired 0, empty_world\<lparr>lw_files := (\<lambda>_. None)(p \<mapsto> \<lparr>lf_content = Blank, lf_mtime = 1000\<rparr>),
        lw_held := (\<lambda>_. None)(0 \<mapsto> \<lparr>hl_path = p, hl_pid = pid\<rparr>), lw_next := 1\<rparr>)"
  using sample_free(1) [of p]
  by (simp add: tryAcquireHeldFileLock_def kernel_flock_def touch_def Let_def) (simp add: empty_world_def)

definition sample_fence :: fence_handle where
  "sample_fence = \<lparr>fh_path = ''/f'', fh_owner = \<lparr>fo_pid = 10, fo_ticks = ''77'', fo_nonce = ''u1'', fo_started = JInt 1000,
     fo_metadata = JObj []\<rparr>, fh_descriptor = 0\<rparr>"

lemma sample_fence_acquired:
  "\<exists>w. acquireSideEffectFence sample_lock_env 10 ''/f'' None None empty_world = (Fence_Acquired sample_fence, w)"
  by (simp add: acquireSideEffectFence_def sample_granted existingFenceDisposition_def locked_file_def sample_fence_def Let_def)

definition sample_lease :: lease_handle where
  "sample_lease = \<lparr>lh_dir = ''/l'', lh_owner = \<lparr>lo_pid = 10, lo_ticks = ''77'', lo_generation = ''u1'', lo_acquired = ''2026'',
     lo_metadata = JObj []\<rparr>, lh_descriptor = 0\<rparr>"

lemma sample_lease_acquired:
  "\<exists>w. acquireSingleInstanceLease sample_lock_env 10 ''/l'' None empty_world = (Inr sample_lease, w)"
  by (simp add: acquireSingleInstanceLease_def sample_granted readLockedFileContents_def locked_file_def previous_lease_def sample_lease_def Let_def)

definition sample_claim_input :: claim_input where
  "sample_claim_input = \<lparr>cx_namespace = ''/ns'', cx_claimKey = '' a b '', cx_workspacePath = ''/ws'', cx_workerId = None,
     cx_workerGeneration = Some '' 3 '', cx_surface = None, cx_staleMs = None\<rparr>"

definition sample_claim :: claim_handle where
  "sample_claim = \<lparr>cn_path = ''/ns/active/a_b.json'', cn_namespace = ''/ns'',
     cn_record = \<lparr>cl_claimKey = ''a_b'', cl_workspacePath = ''/ws'', cl_workerId = None, cl_workerGeneration = Some ''3'',
       cl_holder = \<lparr>ch_pid = 10, ch_ticks = ''77'', ch_guid = ''u1'', ch_host = ''h'', ch_surface = ''worker-recovery''\<rparr>,
       cl_acquiredAtMs = JInt 1000\<rparr>, cn_descriptor = 0\<rparr>"

lemma sample_key: "safeKey '' a b '' = Inr ''a_b''" "path_join [''/ns'', ''active'', ''a_b.json''] = ''/ns/active/a_b.json''"
  "trimmed_or_null (Some '' 3 '') = Some ''3''" "trimmed_or_null None = None"
  "terminalPath sample_lock_env ''/ns'' ''a_b'' ''done'' = Inr ''/ns/terminal/a_b-done-u1.json''"
proof -
  show "terminalPath sample_lock_env ''/ns'' ''a_b'' ''done'' = Inr ''/ns/terminal/a_b-done-u1.json''"
    unfolding terminalPath_def sample_sel by code_simp
qed (code_simp+)

lemma sample_claim_acquired:
  "\<exists>w. acquireWorkerRecoveryClaim sample_lock_env 10 sample_claim_input empty_world = (Claim_Acquired sample_claim, w)
    \<and> lw_files w ''/ns/terminal/a_b-done-u1.json'' = None"
proof -
  let ?w = "empty_world\<lparr>lw_files := (\<lambda>_. None)(''/ns/active/a_b.json'' \<mapsto> \<lparr>lf_content = Blank, lf_mtime = 1000\<rparr>),
        lw_held := (\<lambda>_. None)(0 \<mapsto> \<lparr>hl_path = ''/ns/active/a_b.json'', hl_pid = 10\<rparr>), lw_next := 1\<rparr>"
  have i: "cx_claimKey sample_claim_input = '' a b ''" "cx_namespace sample_claim_input = ''/ns''"
    by (simp_all add: sample_claim_input_def)
  have read: "readLockedFileContents 0 ?w = Some Blank" by (simp add: readLockedFileContents_def locked_file_def)
  have files: "lw_files (replaceLockedFileContents sample_lock_env 0 v ?w) ''/ns/terminal/a_b-done-u1.json'' = None" for v
    by (simp add: replaceLockedFileContents_def store_content_def)
  have r: "new_claim sample_lock_env 10 ''77'' ''a_b'' sample_claim_input = cn_record sample_claim"
    by (simp add: new_claim_def sample_claim_def sample_claim_input_def sample_key)
  have "acquireWorkerRecoveryClaim sample_lock_env 10 sample_claim_input empty_world
      = (Claim_Acquired sample_claim, replaceLockedFileContents sample_lock_env 0 (claim_json (cn_record sample_claim)) ?w)"
    by (simp add: acquireWorkerRecoveryClaim_def i sample_key sample_granted read settle_existing_def r Let_def del: fun_upd_apply One_nat_def)
      (simp add: sample_claim_def)
  then show ?thesis using files by blast
qed

section \<open>Witnesses\<close>

lemma one_holder_per_file_witness:
  "\<not> (lw_held empty_world 0 = Some \<lparr>hl_path = ''/f'', hl_pid = 10\<rparr> \<and> lw_files empty_world ''/f'' = None)"
  using one_holder_per_file [OF sample_reachable(1), of 0 "\<lparr>hl_path = ''/f'', hl_pid = 10\<rparr>"] by auto

lemma fence_exclusive_until_release_witness:
  "\<exists>w w3. acquireSideEffectFence sample_lock_env 10 ''/f'' None None empty_world = (Fence_Acquired sample_fence, w)
    \<and> releaseSideEffectFence later_lock_env sample_fence (lock_run [(later_lock_env, Fence_Reclaim 11 ''/f'' None None)] w) = (Inr True, w3)"
proof -
  obtain w where w: "acquireSideEffectFence sample_lock_env 10 ''/f'' None None empty_world = (Fence_Acquired sample_fence, w)"
    using sample_fence_acquired by blast
  have q: "list_all (quiet (fh_descriptor sample_fence) 10) [(later_lock_env, Fence_Reclaim 11 ''/f'' None None)]"
    by (simp add: quiet_def)
  have h: "0 < (10 :: int) \<and> le_uuid sample_lock_env \<noteq> [] \<and> le_identity sample_lock_env 10 \<noteq> Some [] \<and> (None = None \<or> isRecord (None :: json option))"
    by simp
  from fence_exclusive_until_release [OF sample_reachable(1) sample_flock(1) w h q sample_flock(2), where env'' = later_lock_env and pid' = 11
      and metadata' = None and age' = None]
  show ?thesis using w unfolding Let_def by (force split: prod.splits)
qed

lemma lease_single_instance_witness:
  "\<exists>w. acquireSingleInstanceLease sample_lock_env 10 ''/l'' None empty_world = (Inr sample_lease, w)
    \<and> fst (releaseSingleInstanceLease later_lock_env sample_lease (lock_run [(later_lock_env, Lease_Acquire 11 ''/l'' None)] w))"
proof -
  obtain w where w: "acquireSingleInstanceLease sample_lock_env 10 ''/l'' None empty_world = (Inr sample_lease, w)"
    using sample_lease_acquired by blast
  have q: "list_all (quiet (lh_descriptor sample_lease) 10) [(later_lock_env, Lease_Acquire 11 ''/l'' None)]"
    by (simp add: quiet_def)
  have h: "0 < (10 :: int) \<and> le_uuid sample_lock_env \<noteq> [] \<and> le_identity sample_lock_env 10 \<noteq> Some []"
    "le_identity later_lock_env 11 \<noteq> None"
    by simp_all
  from lease_single_instance [OF sample_reachable(1) sample_flock(1) w h(1) q sample_flock(2) h(2), where env'' = later_lock_env
      and metadata' = None]
  show ?thesis using w unfolding Let_def by (force split: prod.splits)
qed

lemma claim_finalized_once_witness:
  "\<exists>w. acquireWorkerRecoveryClaim sample_lock_env 10 sample_claim_input empty_world = (Claim_Acquired sample_claim, w)
    \<and> fst (finalizeWorkerRecoveryClaim sample_lock_env sample_claim ''done'' (JObj []) w) = Inr True"
proof -
  obtain w where w: "acquireWorkerRecoveryClaim sample_lock_env 10 sample_claim_input empty_world = (Claim_Acquired sample_claim, w)"
    and files: "lw_files w ''/ns/terminal/a_b-done-u1.json'' = None" using sample_claim_acquired by blast
  have free: "lw_files (lock_run [] w) ''/ns/terminal/a_b-done-u1.json'' = None" using files by simp
  have h: "cx_workspacePath sample_claim_input \<noteq> [] \<and> le_uuid sample_lock_env \<noteq> [] \<and> le_identity sample_lock_env 10 \<noteq> Some []"
    "list_all (quiet (cn_descriptor sample_claim) 10) []"
    "terminalPath sample_lock_env (cx_namespace sample_claim_input) (cl_claimKey (cn_record sample_claim)) ''done'' = Inr ''/ns/terminal/a_b-done-u1.json''"
    "le_create sample_lock_env ''/ns/terminal/a_b-done-u1.json''"
    using sample_key by (simp_all add: sample_claim_input_def sample_claim_def)
  obtain answer w3 where f: "finalizeWorkerRecoveryClaim sample_lock_env sample_claim ''done'' (JObj []) w = (answer, w3)" by fastforce
  from claim_finalized_once [OF sample_reachable(1) sample_flock(1) w h(1,2,3) free h(4), of "JObj []" later_lock_env "[]" JNull]
  have "answer = Inr True" unfolding Let_def lock_run_Nil f by (simp split: prod.splits)
  then show ?thesis using w f by simp
qed


lemma thrown_fence_stays_locked_witness:
  "\<exists>w. acquireSideEffectFence sample_lock_env 10 ''/f'' None None orphan_world = (Fence_Threw Identity_Unreadable, w) \<and> path_held w ''/f''"
proof -
  have t: "tryAcquireHeldFileLock sample_lock_env 10 ''/f'' orphan_world =
     (Acquired 0, orphan_world\<lparr>lw_held := (\<lambda>_. None)(0 \<mapsto> \<lparr>hl_path = ''/f'', hl_pid = 10\<rparr>), lw_next := 1\<rparr>)"
    using sample_free(2) [of "''/f''"]
    by (simp add: tryAcquireHeldFileLock_def kernel_flock_def touch_def Let_def) (simp add: orphan_world_def empty_world_def)
  have "\<exists>w. acquireSideEffectFence sample_lock_env 10 ''/f'' None None orphan_world = (Fence_Threw Identity_Unreadable, w)"
    by (simp add: acquireSideEffectFence_def t existingFenceDisposition_def locked_file_def)
      (simp add: orphan_world_def fence_json_def nonempty_text_def exactOwnerProcessAlive_def exact_process_alive_def)
  then obtain w where w: "acquireSideEffectFence sample_lock_env 10 ''/f'' None None orphan_world = (Fence_Threw Identity_Unreadable, w)" by blast
  from thrown_fence_stays_locked [OF sample_reachable(2) sample_flock(1) w sample_flock(1), of "[]"]
  show ?thesis using w by simp
qed

end
