(* ===== verification/Direct_Review.thy ===== *)
theory Direct_Review
  imports Review_Validate Js_Number
begin

text \<open>
  Direct reviews on GitHub, \<open>scripts/lib/github-review-reconciliation.ts\<close>: which review of a pull
  request counts as evidence, and what the evidence says about the current head. The ancestry test
  is a parameter, \<open>None\<close> when it throws.
\<close>

section \<open>Evidence\<close>

record github_review =
  gr_id :: json
  gr_state :: string
  gr_userLogin :: string
  gr_submittedAt :: string
  gr_body :: string
  gr_commitId :: string
  gr_url :: string

datatype direct_verdict = Clean_Verdict | Findings_Verdict

record direct_evidence =
  de_reviewId :: json
  de_headSha :: string
  de_verdict :: direct_verdict
  de_blocking :: bool
  de_userLogin :: string
  de_submittedAt :: string
  de_body :: string
  de_url :: string

definition normalizedDirectReviewSha :: "string \<Rightarrow> string" where
  "normalizedDirectReviewSha v = (if is_sha (sha_of v) then sha_of v else [])"

text \<open>One occurrence of the marker at the start of a text, with the text after it.\<close>

fun after_one :: "(string \<times> 'a) list \<Rightarrow> string \<Rightarrow> ('a \<times> string) option" where
  "after_one [] s = None"
| "after_one ((w, v) # rest) s = (if js_starts_with w s then Some (v, drop (length w) s) else after_one rest s)"

definition marker_at :: "string \<Rightarrow> ((string \<times> direct_verdict \<times> bool) \<times> string) option" where
  "marker_at s =
     Option.bind (after_one [(''<!-- opk-pack-review:v1 head='', ())] s) (\<lambda>(_, s1).
     let sha = take 40 s1 in
     if \<not> is_sha sha then None
     else Option.bind (after_one [('' verdict=clean'', Clean_Verdict), ('' verdict=findings'', Findings_Verdict)] (drop 40 s1)) (\<lambda>(verdict, s2).
          Option.bind (after_one [('' blocking=true'', True), ('' blocking=false'', False)] s2) (\<lambda>(blocking, s3).
          Option.bind (after_one [('' -->'', ())] s3) (\<lambda>(_, s4). Some ((sha, verdict, blocking), s4)))))"

lemma after_one_shorter: "after_one ws s = Some (v, s') \<Longrightarrow> list_all (\<lambda>w. fst w \<noteq> []) ws \<Longrightarrow> length s' < length s"
  by (induction ws s rule: after_one.induct) (auto simp: js_starts_with_def neq_Nil_conv split: if_splits, case_tac s, auto)

lemma marker_at_shorter:
  assumes "marker_at s = Some (m, s')"
  shows "length s' < length s"
proof -
  obtain u1 s1 v2 s2 v3 s3 v4 where
    "after_one [(''<!-- opk-pack-review:v1 head='', ())] s = Some (u1, s1)"
    "after_one [('' verdict=clean'', Clean_Verdict), ('' verdict=findings'', Findings_Verdict)] (drop 40 s1) = Some (v2, s2)"
    "after_one [('' blocking=true'', True), ('' blocking=false'', False)] s2 = Some (v3, s3)"
    "after_one [('' -->'', ())] s3 = Some (v4, s')"
    using assms by (auto simp: marker_at_def bind_eq_Some_conv Let_def simp del: after_one.simps split: if_splits)
  from this [THEN after_one_shorter] show ?thesis by (auto simp del: after_one.simps)
qed

function marker_matches :: "string \<Rightarrow> (string \<times> direct_verdict \<times> bool) list" where
  "marker_matches s =
     (case marker_at s of
        Some (m, rest) \<Rightarrow> m # marker_matches rest
      | None \<Rightarrow> (case s of [] \<Rightarrow> [] | c # cs \<Rightarrow> marker_matches cs))"
  by pat_completeness auto
termination
  by (relation "measure length") (auto dest: marker_at_shorter)

declare marker_matches.simps [simp del]

definition parseDirectPackReviewEvidence :: "github_review \<Rightarrow> string \<Rightarrow> direct_evidence option" where
  "parseDirectPackReviewEvidence review repositoryOwnerLogin =
     (let owner = js_lower (js_trim repositoryOwnerLogin); commitId = normalizedDirectReviewSha (gr_commitId review) in
      if owner = [] \<or> js_lower (gr_userLogin review) \<noteq> owner \<or> gr_state review \<noteq> ''COMMENTED'' \<or> commitId = [] then None
      else case marker_matches (gr_body review) of
        [(sha, verdict, blocking)] \<Rightarrow>
          let headSha = normalizedDirectReviewSha sha in
          if headSha = [] \<or> headSha \<noteq> commitId \<or> verdict = Clean_Verdict \<and> blocking then None
          else Some \<lparr>de_reviewId = gr_id review, de_headSha = headSha, de_verdict = verdict, de_blocking = blocking,
                     de_userLogin = gr_userLogin review, de_submittedAt = gr_submittedAt review,
                     de_body = gr_body review, de_url = gr_url review\<rparr>
      | _ \<Rightarrow> None)"

definition listCanonicalDirectPackReviews :: "github_review list \<Rightarrow> string \<Rightarrow> direct_evidence list" where
  "listCanonicalDirectPackReviews reviews owner =
     map the (filter (\<lambda>e. e \<noteq> None) (map (\<lambda>r. parseDirectPackReviewEvidence r owner) reviews))"

section \<open>Projection\<close>

datatype direct_state = missing_review | direct_blocked | direct_clear

record direct_projection =
  dp_hasLegitimateReview :: bool
  dp_legitimateReviewCount :: nat
  dp_unresolved :: "json list"
  dp_unresolvedCurrentHead :: "json list"
  dp_unresolvedAncestor :: "json list"
  dp_state :: direct_state

record projection_lists =
  pl_relevant :: "direct_evidence list"
  pl_unresolved :: "json list"
  pl_current :: "json list"
  pl_ancestor :: "json list"

definition project_review ::
  "(string \<Rightarrow> string \<Rightarrow> bool option) \<Rightarrow> string \<Rightarrow> projection_lists \<Rightarrow> direct_evidence \<Rightarrow> projection_lists" where
  "project_review isAncestor currentHeadSha acc review =
     (let blocked = (\<lambda>a. a\<lparr>pl_unresolved := pl_unresolved a @ [de_reviewId review]\<rparr>);
          relevant = acc\<lparr>pl_relevant := pl_relevant acc @ [review]\<rparr>
      in
      if de_headSha review = currentHeadSha
      then (if de_blocking review
            then (blocked relevant)\<lparr>pl_current := pl_current acc @ [de_reviewId review]\<rparr>
            else relevant)
      else case isAncestor (de_headSha review) currentHeadSha of
        None \<Rightarrow> if de_blocking review then blocked acc else acc
      | Some ancestor \<Rightarrow>
          if \<not> ancestor then (if de_blocking review then blocked acc else acc)
          else if \<not> de_blocking review then acc
          else if packReviewFindingsSatisfiedByStrictDescendant (de_headSha review) currentHeadSha True = Inr True then relevant
          else (blocked relevant)\<lparr>pl_ancestor := pl_ancestor acc @ [de_reviewId review]\<rparr>)"

definition projectDirectPackReviewState ::
  "github_review list \<Rightarrow> string \<Rightarrow> string \<Rightarrow> (string \<Rightarrow> string \<Rightarrow> bool option) \<Rightarrow> direct_projection" where
  "projectDirectPackReviewState reviews repositoryOwnerLogin currentHead isAncestor =
     (let currentHeadSha = normalizedDirectReviewSha currentHead;
          canonical = listCanonicalDirectPackReviews reviews repositoryOwnerLogin
      in
      if currentHeadSha = [] \<or> canonical = []
      then \<lparr>dp_hasLegitimateReview = False, dp_legitimateReviewCount = 0, dp_unresolved = [], dp_unresolvedCurrentHead = [],
            dp_unresolvedAncestor = [], dp_state = missing_review\<rparr>
      else
        let acc = foldl (project_review isAncestor currentHeadSha)
              \<lparr>pl_relevant = [], pl_unresolved = [], pl_current = [], pl_ancestor = []\<rparr> canonical
        in \<lparr>dp_hasLegitimateReview = (pl_relevant acc \<noteq> []), dp_legitimateReviewCount = length (pl_relevant acc),
            dp_unresolved = pl_unresolved acc, dp_unresolvedCurrentHead = pl_current acc, dp_unresolvedAncestor = pl_ancestor acc,
            dp_state = (if pl_unresolved acc \<noteq> [] then direct_blocked
                        else if pl_relevant acc = [] then missing_review else direct_clear)\<rparr>)"

definition directPackReviewPublicationHeadIsStable :: "string \<Rightarrow> string \<Rightarrow> string \<Rightarrow> bool" where
  "directPackReviewPublicationHeadIsStable reviewHeadSha before after =
     (let reviewHead = normalizedDirectReviewSha reviewHeadSha in
      reviewHead \<noteq> [] \<and> reviewHead = normalizedDirectReviewSha before \<and> reviewHead = normalizedDirectReviewSha after)"

section \<open>Which evidence decides\<close>

definition on_ancestor :: "(string \<Rightarrow> string \<Rightarrow> bool option) \<Rightarrow> string \<Rightarrow> direct_evidence \<Rightarrow> bool" where
  "on_ancestor isAncestor current e \<longleftrightarrow> de_headSha e \<noteq> current \<and> isAncestor (de_headSha e) current = Some True"

definition counts_for :: "(string \<Rightarrow> string \<Rightarrow> bool option) \<Rightarrow> string \<Rightarrow> direct_evidence \<Rightarrow> bool" where
  "counts_for isAncestor current e \<longleftrightarrow> de_headSha e = current \<or> on_ancestor isAncestor current e \<and> de_blocking e"

definition blocks :: "(string \<Rightarrow> string \<Rightarrow> bool option) \<Rightarrow> string \<Rightarrow> direct_evidence \<Rightarrow> bool" where
  "blocks isAncestor current e \<longleftrightarrow> de_blocking e \<and> \<not> on_ancestor isAncestor current e"

lemma normalized_sha: "normalizedDirectReviewSha v \<noteq> [] \<Longrightarrow> is_sha (normalizedDirectReviewSha v)"
  by (simp add: normalizedDirectReviewSha_def split: if_splits)

lemma evidence_sha: "parseDirectPackReviewEvidence r owner = Some e \<Longrightarrow> is_sha (de_headSha e)"
  using normalized_sha by (auto simp: parseDirectPackReviewEvidence_def Let_def split: if_splits list.splits)

lemma canonical_sha: "e \<in> set (listCanonicalDirectPackReviews reviews owner) \<Longrightarrow> is_sha (de_headSha e)"
  using evidence_sha by (auto simp: listCanonicalDirectPackReviews_def)

lemma strict_descendant:
  "is_sha a \<Longrightarrow> is_sha b \<Longrightarrow> a \<noteq> b \<Longrightarrow> packReviewFindingsSatisfiedByStrictDescendant a b True = Inr True"
  by (simp add: packReviewFindingsSatisfiedByStrictDescendant_def normalizeSha_def sha_of_fixed)

lemma project_fold:
  assumes "is_sha current" "\<forall>e \<in> set es. is_sha (de_headSha e)"
  shows "foldl (project_review isAncestor current) acc es =
    \<lparr>pl_relevant = pl_relevant acc @ filter (counts_for isAncestor current) es,
     pl_unresolved = pl_unresolved acc @ map de_reviewId (filter (blocks isAncestor current) es),
     pl_current = pl_current acc @ map de_reviewId (filter (\<lambda>e. de_headSha e = current \<and> de_blocking e) es),
     pl_ancestor = pl_ancestor acc\<rparr>"
  using assms(2)
proof (induction es arbitrary: acc)
  case (Cons e es)
  have "project_review isAncestor current acc e =
    \<lparr>pl_relevant = pl_relevant acc @ filter (counts_for isAncestor current) [e],
     pl_unresolved = pl_unresolved acc @ map de_reviewId (filter (blocks isAncestor current) [e]),
     pl_current = pl_current acc @ map de_reviewId (filter (\<lambda>e. de_headSha e = current \<and> de_blocking e) [e]),
     pl_ancestor = pl_ancestor acc\<rparr>"
    using Cons.prems assms(1) strict_descendant [of "de_headSha e" current]
    by (cases "isAncestor (de_headSha e) current") (auto simp: project_review_def counts_for_def blocks_def on_ancestor_def Let_def)
  then show ?case using Cons by simp
qed simp

text \<open>
  C13: The state of a head is decided by the canonical evidence alone: it is blocked exactly when a
  blocking review was made on that head or on a head that is not proved to be its ancestor, clear
  exactly when none blocks and some review was made on that head or found blocking on an ancestor,
  and missing otherwise; the blocking reviews are listed in order, those on ancestors never.
  A review that is not canonical evidence, by its author, commit or marker, changes nothing.
\<close>
theorem direct_state_iff:
  "let current = normalizedDirectReviewSha head; evidence = listCanonicalDirectPackReviews reviews owner;
       p = projectDirectPackReviewState reviews owner head isAncestor
   in (current \<noteq> [] \<longrightarrow>
        (dp_state p = direct_blocked) = list_ex (blocks isAncestor current) evidence
        \<and> (dp_state p = direct_clear) = (list_ex (counts_for isAncestor current) evidence \<and> \<not> list_ex (blocks isAncestor current) evidence)
        \<and> dp_unresolved p = map de_reviewId (filter (blocks isAncestor current) evidence)
        \<and> dp_unresolvedAncestor p = [])
    \<and> (current = [] \<longrightarrow> dp_state p = missing_review)
    \<and> (parseDirectPackReviewEvidence forged owner = None \<longrightarrow>
        projectDirectPackReviewState (reviews @ forged # others) owner head isAncestor
          = projectDirectPackReviewState (reviews @ others) owner head isAncestor)"
proof -
  let ?c = "normalizedDirectReviewSha head" and ?e = "listCanonicalDirectPackReviews reviews owner"
  let ?a = "\<lparr>pl_relevant = [], pl_unresolved = [], pl_current = [], pl_ancestor = []\<rparr>"
  have fold: "foldl (project_review isAncestor ?c) ?a ?e =
    \<lparr>pl_relevant = filter (counts_for isAncestor ?c) ?e, pl_unresolved = map de_reviewId (filter (blocks isAncestor ?c) ?e),
     pl_current = map de_reviewId (filter (\<lambda>e. de_headSha e = ?c \<and> de_blocking e) ?e), pl_ancestor = []\<rparr>" if "?c \<noteq> []"
    using project_fold [OF normalized_sha [OF that], of ?e] canonical_sha by simp
  have ex: "list_ex P xs \<longleftrightarrow> filter P xs \<noteq> []" for P and xs :: "direct_evidence list"
    by (induction xs) auto
  have drop: "listCanonicalDirectPackReviews (reviews @ forged # others) owner = listCanonicalDirectPackReviews (reviews @ others) owner"
    if "parseDirectPackReviewEvidence forged owner = None"
    using that by (simp add: listCanonicalDirectPackReviews_def)
  show ?thesis
    unfolding Let_def ex using fold drop by (auto simp: projectDirectPackReviewState_def Let_def)
qed

section \<open>The marker\<close>

definition marker_text :: "string \<Rightarrow> direct_verdict \<Rightarrow> bool \<Rightarrow> string" where
  "marker_text sha verdict blocking =
     ''<!-- opk-pack-review:v1 head='' @ sha @ (case verdict of Clean_Verdict \<Rightarrow> '' verdict=clean'' | Findings_Verdict \<Rightarrow> '' verdict=findings'')
       @ (if blocking then '' blocking=true'' else '' blocking=false'') @ '' -->''"

lemma after_one_hit: "after_one ((w, v) # rest) (w @ s) = Some (v, s)"
  by (simp add: js_starts_with_def)

lemma after_one_miss: "\<not> js_starts_with w s \<Longrightarrow> after_one ((w, v) # rest) s = after_one rest s"
  by simp

lemma marker_at_text:
  assumes "is_sha sha"
  shows "marker_at (marker_text sha verdict blocking @ s) = Some ((sha, verdict, blocking), s)"
proof -
  have sha: "take 40 (sha @ t) = sha" "drop 40 (sha @ t) = t" for t using assms by (simp_all add: is_sha_def)
  have miss: "\<not> js_starts_with '' verdict=clean'' ('' verdict=findings'' @ t)" "\<not> js_starts_with '' blocking=true'' ('' blocking=false'' @ t)" for t
    by (simp_all add: js_starts_with_def)
  show ?thesis
    unfolding marker_at_def marker_text_def append_assoc after_one_hit Option.bind.simps prod.case sha Let_def
    using assms
    by (cases verdict; cases blocking)
      (simp_all only: direct_verdict.case if_True if_False after_one_hit after_one_miss [OF miss(1)] after_one_miss [OF miss(2)]
        Option.bind.simps prod.case simp_thms)
qed

lemma marker_at_start: "marker_at s = Some (m, r) \<Longrightarrow> hd s = CHR ''<''"
  by (cases s) (auto simp: marker_at_def bind_eq_Some_conv js_starts_with_def split: if_splits)

lemma matches_skip: "CHR ''<'' \<notin> set u \<Longrightarrow> marker_matches (u @ s) = marker_matches s"
proof (induction u)
  case (Cons c u)
  have "marker_at (c # u @ s) = None"
    using marker_at_start [of "c # u @ s"] Cons.prems by (cases "marker_at (c # u @ s)") auto
  then show ?case using Cons by (subst marker_matches.simps) simp
qed simp

lemma matches_none: "CHR ''<'' \<notin> set u \<Longrightarrow> marker_matches u = []"
proof -
  have "marker_matches [] = []" by (subst marker_matches.simps) (simp add: marker_at_def js_starts_with_def)
  then show "CHR ''<'' \<notin> set u \<Longrightarrow> marker_matches u = []" using matches_skip [of u "[]"] by simp
qed

lemma matches_marker:
  "is_sha sha \<Longrightarrow> marker_matches (marker_text sha verdict blocking @ s) = (sha, verdict, blocking) # marker_matches s"
  by (subst marker_matches.simps) (simp add: marker_at_text)

text \<open>
  A canonical review is read as it was published: a comment of the owner on a full commit, whose
  body holds one marker for that commit between texts without the marker's first character, is
  evidence with exactly the verdict and the blocking flag of the marker, unless it claims to be clean
  and blocking at once; a second marker in the body makes it no evidence.
\<close>
theorem published_evidence_read:
  assumes "is_sha sha" and "CHR ''<'' \<notin> set before" and "CHR ''<'' \<notin> set after" and "CHR ''<'' \<notin> set between"
    and "js_lower login = js_lower (js_trim owner)" and "js_trim owner \<noteq> []" and "verdict = Findings_Verdict \<or> \<not> blocking"
  shows "let review = (\<lambda>body. \<lparr>gr_id = i, gr_state = ''COMMENTED'', gr_userLogin = login, gr_submittedAt = at, gr_body = body,
           gr_commitId = sha, gr_url = url\<rparr>);
         body = before @ marker_text sha verdict blocking @ after
    in parseDirectPackReviewEvidence (review body) owner = Some
         \<lparr>de_reviewId = i, de_headSha = sha, de_verdict = verdict, de_blocking = blocking, de_userLogin = login,
          de_submittedAt = at, de_body = body, de_url = url\<rparr>
      \<and> (is_sha sha' \<longrightarrow>
         parseDirectPackReviewEvidence (review (before @ marker_text sha verdict blocking @ between @ marker_text sha' verdict' blocking' @ after)) owner = None)"
proof -
  have sha: "normalizedDirectReviewSha sha = sha" "sha \<noteq> []"
    using assms(1) sha_of_fixed by (auto simp: normalizedDirectReviewSha_def is_sha_def)
  have one: "marker_matches (before @ marker_text sha verdict blocking @ after) = [(sha, verdict, blocking)]"
    using assms(1-3) by (simp add: matches_skip matches_marker matches_none)
  have two: "marker_matches (before @ marker_text sha verdict blocking @ between @ marker_text sha' verdict' blocking' @ after)
      = [(sha, verdict, blocking), (sha', verdict', blocking')]" if "is_sha sha'"
    using assms(1-4) that by (simp add: matches_skip matches_marker matches_none)
  have low: "js_lower (js_trim owner) \<noteq> []" using assms(6) by (simp add: js_lower_def)
  show ?thesis
    using assms(5,7) sha one two low by (auto simp: parseDirectPackReviewEvidence_def Let_def)
qed

definition sample_sha :: string where
  "sample_sha = replicate 40 CHR ''a''"

definition sample_review :: "direct_verdict \<Rightarrow> bool \<Rightarrow> github_review" where
  "sample_review verdict blocking = \<lparr>gr_id = JInt 1, gr_state = ''COMMENTED'', gr_userLogin = ''Owner'', gr_submittedAt = ''t'',
     gr_body = ''Result: '' @ marker_text sample_sha verdict blocking @ '' thanks'', gr_commitId = sample_sha, gr_url = ''u''\<rparr>"

lemma published_evidence_read_witness:
  "parseDirectPackReviewEvidence (sample_review Findings_Verdict True) '' OWNER '' \<noteq> None"
proof -
  have h: "is_sha sample_sha" "CHR ''<'' \<notin> set ''Result: ''" "CHR ''<'' \<notin> set '' thanks''" "CHR ''<'' \<notin> set []"
    "js_lower ''Owner'' = js_lower (js_trim '' OWNER '')" "js_trim '' OWNER '' \<noteq> []"
    "Findings_Verdict = Findings_Verdict \<or> \<not> True" by code_simp+
  from published_evidence_read [OF h, where i = "JInt 1" and at = "''t''" and url = "''u''"]
  show ?thesis by (simp add: sample_review_def Let_def)
qed

lemma direct_state_iff_witness:
  "normalizedDirectReviewSha sample_sha \<noteq> []
    \<and> dp_unresolvedAncestor (projectDirectPackReviewState [sample_review Findings_Verdict True] ''owner'' sample_sha (\<lambda>_ _. None)) = []"
proof -
  have "normalizedDirectReviewSha sample_sha \<noteq> []" by code_simp
  then show ?thesis
    using direct_state_iff [where head = sample_sha and reviews = "[sample_review Findings_Verdict True]" and owner = "''owner''"
        and isAncestor = "\<lambda>_ _. None" and others = "[]" and forged = "sample_review Clean_Verdict True"]
    by (simp add: Let_def)
qed

end
