(* ===== verification/Run_Fields.thy ===== *)
theory Run_Fields
  imports Review_Store Js_Number
begin

text \<open>
  Values of run records, \<open>scripts/lib/pack-review-run-store.ts\<close>: JavaScript objects as entry
  lists with the spread operator, the conversions and checks of single properties with the error
  each throws, and the deep equality of \<open>node:util\<close>. An error is the message it carries.
\<close>

section \<open>Objects\<close>

type_synonym js_object = "(string \<times> json) list"
type_synonym run_error = string

text \<open>\<open>{ ...o, k: v }\<close>, where \<open>None\<close> is the value \<open>undefined\<close>, and \<open>{ ...o, ...patch }\<close>.\<close>

definition js_set :: "js_object \<Rightarrow> string \<Rightarrow> json option \<Rightarrow> js_object" where
  "js_set obj key v =
     (case v of None \<Rightarrow> filter (\<lambda>e. fst e \<noteq> key) obj | Some x \<Rightarrow> (key, x) # filter (\<lambda>e. fst e \<noteq> key) obj)"

type_synonym js_patch = "(string \<times> json option) list"

definition js_spread :: "js_object \<Rightarrow> js_patch \<Rightarrow> js_object" where
  "js_spread obj patch = foldr (\<lambda>(k, v) acc. js_set acc k v) patch obj"

lemma map_of_filter_key: "map_of (filter (\<lambda>e. fst e \<noteq> key) obj) k = (if k = key then None else map_of obj k)"
  by (induction obj) auto

lemma map_of_js_set [simp]: "map_of (js_set obj key v) k = (if k = key then v else map_of obj k)"
  by (simp add: js_set_def map_of_filter_key split: option.splits)

lemma map_of_js_spread: "map_of (js_spread obj patch) k = (case map_of patch k of None \<Rightarrow> map_of obj k | Some v \<Rightarrow> v)"
  by (induction patch) (auto simp: js_spread_def)

definition without_keys :: "string list \<Rightarrow> js_object \<Rightarrow> js_object" where
  "without_keys keys obj = filter (\<lambda>e. fst e \<notin> set keys) obj"

lemma map_of_without_keys: "map_of (without_keys keys obj) k = (if k \<in> set keys then None else map_of obj k)"
  unfolding without_keys_def by (induction obj) auto

lemma without_keys_append [simp]: "without_keys keys (a @ b) = without_keys keys a @ without_keys keys b"
  by (simp add: without_keys_def)

lemma without_keys_idem [simp]: "without_keys keys (without_keys keys obj) = without_keys keys obj"
  by (simp add: without_keys_def)

lemma without_keys_set: "key \<in> set keys \<Longrightarrow> without_keys keys (js_set obj key v) = without_keys keys obj"
  by (induction obj) (auto simp: js_set_def without_keys_def split: option.splits)

lemma without_keys_spread:
  "set (map fst patch) \<subseteq> set keys \<Longrightarrow> without_keys keys (js_spread obj patch) = without_keys keys obj"
  by (induction patch) (auto simp: js_spread_def without_keys_set)

text \<open>\<open>isDeepStrictEqual\<close> on JSON values: the order of an object's properties does not count.\<close>

definition isDeepStrictEqual :: "json \<Rightarrow> json \<Rightarrow> bool" where
  "isDeepStrictEqual a b \<longleftrightarrow> sort_keys a = sort_keys b"

lemma isDeepStrictEqual_refl [simp]: "isDeepStrictEqual a a"
  by (simp add: isDeepStrictEqual_def)

section \<open>Conversions and checks\<close>

definition single_quoted :: "string \<Rightarrow> string" where
  "single_quoted s = [CHR 0x27] @ s @ [CHR 0x27]"

definition nullish :: "json option \<Rightarrow> bool" where
  "nullish v \<longleftrightarrow> v = None \<or> v = Some JNull"

text \<open>\<open>a ?? b\<close>, \<open>String(v ?? d)\<close> and \<open>String(v ?? '').trim()\<close>.\<close>

definition js_coalesce :: "json option \<Rightarrow> json option \<Rightarrow> json option" where
  "js_coalesce a b = (if nullish a then b else a)"

definition string_or :: "string \<Rightarrow> json option \<Rightarrow> string" where
  "string_or d v = (case v of None \<Rightarrow> d | Some JNull \<Rightarrow> d | Some x \<Rightarrow> json_to_string x)"

definition trimPackReviewValue :: "json option \<Rightarrow> string" where
  "trimPackReviewValue v = js_trim (string_or [] v)"

definition at_path :: "string \<Rightarrow> string" where
  "at_path path = (if path = [] then [] else '' at '' @ path)"

definition corrupt :: "string \<Rightarrow> string \<Rightarrow> run_error" where
  "corrupt path detail = ''corrupt pack review run record'' @ at_path path @ '': '' @ detail"

definition asObject :: "json option \<Rightarrow> run_error + js_object" where
  "asObject v = (case v of Some (JObj kvs) \<Rightarrow> Inr kvs | _ \<Rightarrow> Inl ''pack review run record must be a JSON object'')"

definition requiredString :: "json option \<Rightarrow> string \<Rightarrow> string \<Rightarrow> run_error + string" where
  "requiredString v name path =
     (let text = trimPackReviewValue v in
      if text = [] then Inl (corrupt path (''missing '' @ name)) else Inr text)"

definition requiredPositiveInteger :: "json option \<Rightarrow> string \<Rightarrow> string \<Rightarrow> run_error + int" where
  "requiredPositiveInteger v name path =
     (case number_integer v of
        Some n \<Rightarrow> if n \<le> 0 then Inl (corrupt path (''invalid '' @ name)) else Inr n
      | None \<Rightarrow> Inl (corrupt path (''invalid '' @ name)))"

definition requiredJsonString :: "json option \<Rightarrow> string \<Rightarrow> string \<Rightarrow> run_error + string" where
  "requiredJsonString v name path =
     (case v of
        Some (JStr s) \<Rightarrow> if js_trim s = [] then Inl (corrupt path (''missing '' @ name)) else Inr (js_trim s)
      | _ \<Rightarrow> Inl (corrupt path (''invalid '' @ name @ '' type'')))"

definition requiredJsonPositiveInteger :: "json option \<Rightarrow> string \<Rightarrow> string \<Rightarrow> run_error + int" where
  "requiredJsonPositiveInteger v name path =
     (case v of
        Some (JInt n) \<Rightarrow> if n \<le> 0 then Inl (corrupt path (''invalid '' @ name)) else Inr n
      | _ \<Rightarrow> Inl (corrupt path (''invalid '' @ name)))"

definition requiredJsonNonNegativeInteger :: "json option \<Rightarrow> string \<Rightarrow> string \<Rightarrow> run_error + int" where
  "requiredJsonNonNegativeInteger v name path =
     (case v of
        Some (JInt n) \<Rightarrow> if n < 0 then Inl (corrupt path (''invalid '' @ name)) else Inr n
      | _ \<Rightarrow> Inl (corrupt path (''invalid '' @ name)))"

text \<open>The message of a \<open>PackReviewAuthorityError\<close>.\<close>

definition authority_message :: "authority_error \<Rightarrow> run_error" where
  "authority_message e = fst e @ '': '' @ snd e"

text \<open>The number when \<open>Number.isInteger\<close> holds of a value.\<close>

fun json_integer :: "json option \<Rightarrow> int option" where
  "json_integer (Some (JInt i)) = Some i"
| "json_integer _ = None"

text \<open>\<open>raw.k === undefined ? undefined : check(raw.k)\<close>.\<close>

definition optional_check :: "(json option \<Rightarrow> run_error + 'a) \<Rightarrow> json option \<Rightarrow> run_error + 'a option" where
  "optional_check check v = (case v of None \<Rightarrow> Inr None | Some x \<Rightarrow> map_sum id Some (check (Some x)))"

subsection \<open>A checked value is accepted again\<close>

lemma nullish_simps [simp]:
  "nullish None" "nullish (Some JNull)" "\<not> nullish (Some (JStr s))" "\<not> nullish (Some (JInt i))"
  "\<not> nullish (Some (JObj kvs))" "\<not> nullish (Some (JArr xs))" "\<not> nullish (Some (JBool b))"
  by (simp_all add: nullish_def)

lemma string_or_JStr [simp]: "string_or d (Some (JStr s)) = s" "string_or d None = d" "string_or d (Some JNull) = d"
  by (simp_all add: string_or_def)

lemma trim_value_JStr [simp]: "trimPackReviewValue (Some (JStr s)) = js_trim s"
  by (simp add: trimPackReviewValue_def)

lemma requiredString_Inr: "requiredString v name path = Inr s \<longleftrightarrow> s = trimPackReviewValue v \<and> s \<noteq> []"
  by (auto simp: requiredString_def Let_def)

lemma requiredJsonString_Inr:
  "requiredJsonString v name path = Inr s \<longleftrightarrow> (\<exists>t. v = Some (JStr t) \<and> s = js_trim t \<and> s \<noteq> [])"
  by (auto simp: requiredJsonString_def split: option.splits json.splits)

lemma requiredJsonPositiveInteger_Inr:
  "requiredJsonPositiveInteger v name path = Inr n \<longleftrightarrow> v = Some (JInt n) \<and> 0 < n"
  by (auto simp: requiredJsonPositiveInteger_def split: option.splits json.splits if_splits)

lemma requiredJsonNonNegativeInteger_Inr:
  "requiredJsonNonNegativeInteger v name path = Inr n \<longleftrightarrow> v = Some (JInt n) \<and> 0 \<le> n"
  by (auto simp: requiredJsonNonNegativeInteger_def split: option.splits json.splits if_splits)

lemma requiredPositiveInteger_Inr: "requiredPositiveInteger v name path = Inr n \<longleftrightarrow> number_integer v = Some n \<and> 0 < n"
  by (auto simp: requiredPositiveInteger_def split: option.splits if_splits)

lemma asObject_Inr: "asObject v = Inr kvs \<longleftrightarrow> v = Some (JObj kvs)"
  by (auto simp: asObject_def split: option.splits json.splits)

lemma map_sum_Inr: "map_sum id f r = Inr y \<longleftrightarrow> (\<exists>x. r = Inr x \<and> y = f x)"
  by (cases r) auto

lemma optional_check_Inr:
  "optional_check check v = Inr w \<longleftrightarrow> (case v of None \<Rightarrow> w = None | Some x \<Rightarrow> \<exists>y. check (Some x) = Inr y \<and> w = Some y)"
  by (auto simp: optional_check_def map_sum_Inr split: option.splits)

lemmas check_Inr = requiredString_Inr requiredJsonString_Inr requiredJsonPositiveInteger_Inr
  requiredJsonNonNegativeInteger_Inr requiredPositiveInteger_Inr asObject_Inr optional_check_Inr

subsection \<open>What is accepted, whatever the error text\<close>

definition accepted :: "'e + 'a \<Rightarrow> 'a option" where
  "accepted r = (case r of Inl _ \<Rightarrow> None | Inr x \<Rightarrow> Some x)"

lemma accepted_Inr: "r = Inr x \<longleftrightarrow> accepted r = Some x"
  by (cases r) (auto simp: accepted_def)

named_theorems accepted_simps

lemma accepted_basic [accepted_simps]:
  "accepted (Inl e) = None" "accepted (Inr x) = Some x"
  "accepted (rbind r f) = Option.bind (accepted r) (\<lambda>x. accepted (f x))"
  "accepted (if b then r1 else r2) = (if b then accepted r1 else accepted r2)"
  "accepted (map_sum g h r) = map_option h (accepted r)"
  by (cases r; simp add: accepted_def)+

lemma accepted_cases [accepted_simps]:
  "accepted (case v of None \<Rightarrow> r1 | Some x \<Rightarrow> f x) = (case v of None \<Rightarrow> accepted r1 | Some x \<Rightarrow> accepted (f x))"
  "accepted (case j of JNull \<Rightarrow> a1 | JBool b \<Rightarrow> a2 b | JInt i \<Rightarrow> a3 i | JFrac s \<Rightarrow> a4 s | JStr t \<Rightarrow> a5 t | JArr xs \<Rightarrow> a6 xs | JObj kvs \<Rightarrow> a7 kvs)
   = (case j of JNull \<Rightarrow> accepted a1 | JBool b \<Rightarrow> accepted (a2 b) | JInt i \<Rightarrow> accepted (a3 i) | JFrac s \<Rightarrow> accepted (a4 s)
      | JStr t \<Rightarrow> accepted (a5 t) | JArr xs \<Rightarrow> accepted (a6 xs) | JObj kvs \<Rightarrow> accepted (a7 kvs))"
  by (simp_all split: option.splits json.splits)

lemma accepted_require [accepted_simps]: "accepted (require b e) = (if b then Some () else None)"
  by (simp add: require_def accepted_def)

lemma accepted_guards [accepted_simps]: "accepted (guards gs) = (if list_all (\<lambda>g. \<not> fst g) gs then Some () else None)"
  by (induction gs) (auto simp: accepted_def)

lemma accepted_rall [accepted_simps]:
  "accepted (rall f []) = Some []"
  "accepted (rall f (x # xs)) = Option.bind (accepted (f x)) (\<lambda>y. Option.bind (accepted (rall f xs)) (\<lambda>ys. Some (y # ys)))"
  by (simp_all add: accepted_basic)

text \<open>Rewriting inside the branches of a check.\<close>

lemmas branch_congs = option.case_cong json.case_cong if_cong

text \<open>The checks without their error texts.\<close>

definition string_value :: "json option \<Rightarrow> string option" where
  "string_value v = (case v of Some (JStr s) \<Rightarrow> if js_trim s = [] then None else Some (js_trim s) | _ \<Rightarrow> None)"

definition positive_value :: "json option \<Rightarrow> int option" where
  "positive_value v = (case json_integer v of Some n \<Rightarrow> if 0 < n then Some n else None | None \<Rightarrow> None)"

definition natural_value :: "json option \<Rightarrow> int option" where
  "natural_value v = (case json_integer v of Some n \<Rightarrow> if 0 \<le> n then Some n else None | None \<Rightarrow> None)"

definition text_value :: "json option \<Rightarrow> string option" where
  "text_value v = (if trimPackReviewValue v = [] then None else Some (trimPackReviewValue v))"

definition positive_number :: "json option \<Rightarrow> int option" where
  "positive_number v = (case number_integer v of Some n \<Rightarrow> if 0 < n then Some n else None | None \<Rightarrow> None)"

lemma accepted_checks [accepted_simps]:
  "accepted (requiredString v name path) = text_value v"
  "accepted (requiredJsonString v name path) = string_value v"
  "accepted (requiredPositiveInteger v name path) = positive_number v"
  "accepted (requiredJsonPositiveInteger v name path) = positive_value v"
  "accepted (requiredJsonNonNegativeInteger v name path) = natural_value v"
  "accepted (asObject v) = (case v of Some (JObj kvs) \<Rightarrow> Some kvs | _ \<Rightarrow> None)"
  by (auto simp: accepted_def requiredString_def text_value_def requiredJsonString_def string_value_def
      requiredPositiveInteger_def positive_number_def requiredJsonPositiveInteger_def positive_value_def
      requiredJsonNonNegativeInteger_def natural_value_def asObject_def Let_def split: option.splits json.splits)

lemma accepted_optional [accepted_simps]:
  "accepted (optional_check check v) = (case v of None \<Rightarrow> Some None | Some x \<Rightarrow> map_option Some (accepted (check (Some x))))"
  by (auto simp: optional_check_def accepted_basic split: option.splits)

text \<open>Reading an accepted chain of checks backwards, without splitting it into cases.\<close>

lemma accepted_chain:
  "Option.bind u f = Some x \<longleftrightarrow> (\<exists>y. u = Some y \<and> f y = Some x)"
  "(if b then None else r) = Some x \<longleftrightarrow> \<not> b \<and> r = Some x"
  "(if b then r else None) = Some x \<longleftrightarrow> b \<and> r = Some x"
  "(case v of None \<Rightarrow> None | Some z \<Rightarrow> k z) = Some x \<longleftrightarrow> (\<exists>z. v = Some z \<and> k z = Some x)"
  "(if b then Some None else r2) = Some (Some y2) \<longleftrightarrow> \<not> b \<and> r2 = Some (Some y2)"
  "(case w of None \<Rightarrow> q | Some z \<Rightarrow> None) = Some x \<longleftrightarrow> w = None \<and> q = Some x"
  "(case j of JObj kvs \<Rightarrow> g kvs | _ \<Rightarrow> None) = Some x \<longleftrightarrow> (\<exists>kvs. j = JObj kvs \<and> g kvs = Some x)"
  "(case j of JArr xs \<Rightarrow> h xs | _ \<Rightarrow> None) = Some x \<longleftrightarrow> (\<exists>xs. j = JArr xs \<and> h xs = Some x)"
  by (auto simp: bind_eq_Some_conv split: option.splits json.splits)

lemma result_chain:
  "(if b then Inl e else r) = Inr x \<longleftrightarrow> \<not> b \<and> r = Inr x"
  "(if b then r else Inl e) = Inr x \<longleftrightarrow> b \<and> r = Inr x"
  by auto

end
