(* ===== verification/Run_Round.thy ===== *)
theory Run_Round
  imports Run_Fields
begin

text \<open>
  The GPT round of a review run, \<open>scripts/lib/pack-review-run-store.ts\<close>: its source slots, the
  evidence a terminal slot must carry, and \<open>normalizePackReviewGptRoundRecord\<close>, which checks the
  shape of a round read from a file or given by a caller. Properties of a slot or round the check
  does not look at are kept in \<open>sl_rest\<close> and \<open>gr_rest\<close>.
\<close>

section \<open>Data\<close>

datatype slot_lifecycle = Slot_Planned | Slot_Invocation_Started | Slot_Terminal

record source_slot =
  sl_slotId :: string
  sl_ordinal :: int
  sl_lifecycle :: slot_lifecycle
  sl_invocationId :: "string option"
  sl_attemptOrdinal :: "int option"
  sl_admissionStartedAtUtc :: "string option"
  sl_launchProfileKey :: "string option"
  sl_launchCdpUrl :: "string option"
  sl_terminalClass :: "string option"
  sl_terminalResult :: "json option"
  sl_payload :: "json option"
  sl_rest :: js_object

record gpt_round =
  gr_tier :: review_tier
  gr_accountingVersion :: "string option"
  gr_roundOrdinal :: int
  gr_cardinality :: int
  gr_issueNumber :: int
  gr_boundDigest :: string
  gr_slots :: "source_slot list"
  gr_settled :: "int option"
  gr_rest :: js_object

definition slot_keys :: "string list" where
  "slot_keys = [''slotId'', ''ordinal'', ''lifecycle'', ''invocationId'', ''attemptOrdinal'', ''admissionStartedAtUtc'',
     ''launchProfileKey'', ''launchCdpUrl'', ''terminalClass'', ''terminalResult'', ''payload'']"

definition round_keys :: "string list" where
  "round_keys = [''schema'', ''reviewer'', ''tier'', ''accountingVersion'', ''roundOrdinal'', ''cardinality'',
     ''issueNumber'', ''boundIssueSnapshotDigest'', ''sourceSlots'', ''settledSourceCount'']"

fun lifecycle_text :: "slot_lifecycle \<Rightarrow> string" where
  "lifecycle_text Slot_Planned = ''planned''"
| "lifecycle_text Slot_Invocation_Started = ''invocation_started''"
| "lifecycle_text Slot_Terminal = ''terminal''"

definition lifecycle_of :: "string \<Rightarrow> slot_lifecycle option" where
  "lifecycle_of s =
     (if s = ''planned'' then Some Slot_Planned else if s = ''invocation_started'' then Some Slot_Invocation_Started
      else if s = ''terminal'' then Some Slot_Terminal else None)"

fun PACK_REVIEW_SOURCE_SLOT_LIFECYCLE_RANK :: "slot_lifecycle \<Rightarrow> nat" where
  "PACK_REVIEW_SOURCE_SLOT_LIFECYCLE_RANK Slot_Planned = 0"
| "PACK_REVIEW_SOURCE_SLOT_LIFECYCLE_RANK Slot_Invocation_Started = 1"
| "PACK_REVIEW_SOURCE_SLOT_LIFECYCLE_RANK Slot_Terminal = 2"

definition COMPLETE_GPT_TERMINAL_CLASSES :: "string list" where
  "COMPLETE_GPT_TERMINAL_CLASSES = [''complete_clean'', ''complete_findings'']"

definition HARVEST_GPT_TERMINAL_CLASSES :: "string list" where
  "HARVEST_GPT_TERMINAL_CLASSES = [''harvest_failed'', ''no_reply'', ''forbidden_verdict_envelope'']"

definition GPT_BROWSER_TURN_STATES :: "string list" where
  "GPT_BROWSER_TURN_STATES =
     [''ok'', ''input_invalid'', ''quota'', ''rate_limit'', ''challenge'', ''login'', ''stream_timeout'',
      ''send_failed'', ''no_reply'', ''chrome_not_running'', ''driver_error'', ''profile_mismatch'',
      ''recovery_required'', ''orphaned_fresh_turn'', ''ui_contract_mismatch'', ''foreign_activity'',
      ''observation_uncertain'', ''output_conflict'', ''conversation_busy'', ''profile_busy'', ''incompatible_record'']"

text \<open>Membership of an optional class: \<open>CLASSES.has(slot.terminalClass ?? '')\<close>.\<close>

definition complete_class :: "string option \<Rightarrow> bool" where
  "complete_class c \<longleftrightarrow> text_or_empty c \<in> set COMPLETE_GPT_TERMINAL_CLASSES"

definition complete_slot :: "source_slot \<Rightarrow> bool" where
  "complete_slot s \<longleftrightarrow> sl_lifecycle s = Slot_Terminal \<and> complete_class (sl_terminalClass s)"

section \<open>Evidence of a terminal slot\<close>

definition validateCompleteGptPayload :: "json option \<Rightarrow> string \<Rightarrow> string \<Rightarrow> run_error + unit" where
  "validateCompleteGptPayload payload terminalClass path =
     (case payload of
        Some (JObj raw) \<Rightarrow>
          let verdict = map_of raw ''verdict'' in
          if verdict \<noteq> Some (JStr ''clean'') \<and> verdict \<noteq> Some (JStr ''findings'')
          then Inl (corrupt path ''invalid complete-source payload verdict'')
          else rbind (requiredJsonNonNegativeInteger (map_of raw ''findingCount'') ''payload findingCount'' path) (\<lambda>findingCount.
            case map_of raw ''findings'' of
              Some (JArr findings) \<Rightarrow>
                guards
                  [(int (length findings) \<noteq> findingCount, corrupt path ''payload findingCount does not match findings length''),
                   (list_ex (\<lambda>f. \<not> isRecord (Some f)) findings, corrupt path ''invalid complete-source finding''),
                   (terminalClass = ''complete_clean'' \<and> (verdict \<noteq> Some (JStr ''clean'') \<or> findingCount \<noteq> 0),
                    corrupt path ''complete_clean payload is class-inconsistent''),
                   (terminalClass = ''complete_findings'' \<and> (verdict \<noteq> Some (JStr ''findings'') \<or> findingCount = 0),
                    corrupt path ''complete_findings payload is class-inconsistent'')]
            | _ \<Rightarrow> Inl (corrupt path ''invalid complete-source payload findings''))
      | _ \<Rightarrow> Inl (corrupt path (terminalClass @ '' requires a valid payload'')))"

definition isRetryableZeroSendCollisionTuple :: "string \<Rightarrow> string \<Rightarrow> int \<Rightarrow> bool" where
  "isRetryableZeroSendCollisionTuple state cause sendCount \<longleftrightarrow>
     sendCount = 0 \<and>
       (state = ''profile_busy'' \<and> cause = ''profile_busy''
        \<or> state = ''ui_contract_mismatch'' \<and> cause = ''composer_unavailable''
        \<or> state = ''driver_error'' \<and> cause = ''state_light_new_chat_send_slot_timeout'')"

definition evidence_paths :: "string list" where
  "evidence_paths = [''adapterPromptPath'', ''terminalReplyPath'', ''mappingErrorPath'', ''adapterStdoutPath'']"

definition validateGptHarvestEvidence ::
  "js_object \<Rightarrow> string \<Rightarrow> string \<Rightarrow> int \<Rightarrow> string \<Rightarrow> run_error + unit" where
  "validateGptHarvestEvidence result terminalClass state sendCount path =
     rbind (guards
       [(sendCount < 1, corrupt path (terminalClass @ '' requires a sent terminalResult'')),
        (map_of result ''review_harvest_class'' \<noteq> Some (JStr terminalClass),
         corrupt path ''harvest class is terminalResult-inconsistent''),
        (terminalClass = ''no_reply'' \<and> state \<noteq> ''ok'' \<and> state \<noteq> ''no_reply'',
         corrupt path ''no_reply requires an ok/no_reply sent terminalResult''),
        (terminalClass \<noteq> ''no_reply'' \<and> state \<noteq> ''ok'',
         corrupt path (terminalClass @ '' requires an ok sent terminalResult''))]) (\<lambda>_.
     (case map_of result ''review_evidence'' of
        Some (JObj evidence) \<Rightarrow>
          map_sum id (\<lambda>_. ()) (rall (\<lambda>field. requiredJsonString (map_of evidence field) (''review_evidence '' @ field) path)
            evidence_paths)
      | _ \<Rightarrow> Inl (corrupt path (terminalClass @ '' requires durable review_evidence''))))"

text \<open>The result of a browser turn, \<open>turn-result/v1\<close>.\<close>

definition validate_turn_result :: "source_slot \<Rightarrow> string \<Rightarrow> js_object \<Rightarrow> string \<Rightarrow> run_error + unit" where
  "validate_turn_result slot terminalClass result path =
     (let complete = terminalClass \<in> set COMPLETE_GPT_TERMINAL_CLASSES in
      rbind (requiredJsonString (map_of result ''state'') ''terminalResult state'' path) (\<lambda>state.
      if state \<notin> set GPT_BROWSER_TURN_STATES then Inl (corrupt path ''unsupported terminalResult state'')
      else
      rbind (requiredJsonString (map_of result ''scope'') ''terminalResult scope'' path) (\<lambda>_.
      rbind (requiredJsonString (map_of result ''cause'') ''terminalResult cause'' path) (\<lambda>cause.
      rbind (requiredJsonString (map_of result ''invocation_id'') ''terminalResult invocation_id'' path) (\<lambda>invocationId.
      rbind (requiredJsonNonNegativeInteger (map_of result ''send_count'') ''terminalResult send_count'' path) (\<lambda>sendCount.
      if sl_invocationId slot \<noteq> Some invocationId
      then Inl (corrupt path ''terminalResult invocation_id is not bound to slot'')
      else if complete
      then (if state \<noteq> ''ok'' \<or> sendCount < 1
            then Inl (corrupt path (terminalClass @ '' requires successful sent terminalResult''))
            else validateCompleteGptPayload (sl_payload slot) terminalClass path)
      else if sl_payload slot \<noteq> None
      then Inl (corrupt path ''non-complete terminal class cannot carry payload'')
      else if terminalClass \<in> set HARVEST_GPT_TERMINAL_CLASSES
      then validateGptHarvestEvidence result terminalClass state sendCount path
      else if terminalClass = ''reviewer_output_malformed''
      then require (state = ''ok'' \<and> 1 \<le> sendCount)
             (corrupt path ''reviewer_output_malformed requires a successful sent terminalResult'')
      else if terminalClass = ''possible_delivery''
      then require (\<not> ((sendCount < 1 \<and> map_of result ''send_attempted'' \<noteq> Some (JBool True)) \<or> state = ''ok''))
             (corrupt path ''possible_delivery requires a non-ok sent terminalResult (or a non-ok explicitly attempted zero-count terminalResult)'')
      else if terminalClass = ''explicit_refusal:zero_send_collision_exhausted''
      then require (\<not> ((case sl_attemptOrdinal slot of None \<Rightarrow> 0 | Some a \<Rightarrow> a) < 2
                        \<or> \<not> isRetryableZeroSendCollisionTuple state cause sendCount))
             (corrupt path ''exhausted collision class is terminalResult-inconsistent'')
      else if sendCount = 0 \<and> state \<noteq> ''ok''
      then guards
        [(isRetryableZeroSendCollisionTuple state cause sendCount,
          corrupt path ''retryable zero-send collision requires exhausted-attempt refusal evidence''),
         (terminalClass \<noteq> state @ '':'' @ cause, corrupt path ''zero-send terminal class is terminalResult-inconsistent'')]
      else Inl (corrupt path ''unsupported terminal class for turn-result/v1'')))))))"

text \<open>The marker of a slot whose process disappeared.\<close>

definition validate_stale_kind :: "source_slot \<Rightarrow> string \<Rightarrow> js_object \<Rightarrow> string \<Rightarrow> string \<Rightarrow> run_error + unit" where
  "validate_stale_kind slot terminalClass result kind path =
     (if sl_payload slot \<noteq> None then Inl (corrupt path ''non-complete terminal class cannot carry payload'')
      else
        let expectedKind = (if terminalClass = ''possible_delivery/missing_result'' then ''missing_terminal_result''
                            else if terminalClass = ''pre_launch_interrupted'' then ''stale_pre_launch_interruption'' else [])
        in require (expectedKind \<noteq> [] \<and> js_trim kind = expectedKind \<and> map_of result ''noResend'' = Some (JBool True))
             (corrupt path ''stale terminal evidence is class-inconsistent''))"

text \<open>The exit of a process.\<close>

definition validate_process_result :: "source_slot \<Rightarrow> string \<Rightarrow> js_object \<Rightarrow> string \<Rightarrow> run_error + unit" where
  "validate_process_result slot terminalClass result path =
     (let exitCode = map_of result ''exitCode''; stderr = map_of result ''stderr'' in
      guards
        [(exitCode = None \<and> stderr = None, corrupt path ''unsupported terminalResult evidence''),
         (exitCode \<noteq> None \<and> exitCode \<noteq> Some JNull \<and> json_integer exitCode = None,
          corrupt path ''invalid terminalResult exitCode''),
         (stderr \<noteq> None \<and> \<not> is_string stderr, corrupt path ''invalid terminalResult stderr''),
         (terminalClass \<in> set COMPLETE_GPT_TERMINAL_CLASSES, corrupt path (terminalClass @ '' requires turn-result/v1 evidence'')),
         (sl_payload slot \<noteq> None, corrupt path ''non-complete terminal class cannot carry payload''),
         (terminalClass \<noteq> ''reviewer_output_malformed'' \<and> terminalClass \<noteq> ''possible_delivery/missing_result'',
          corrupt path ''process terminal evidence is class-inconsistent'')])"

definition validateGptTerminalEvidence :: "source_slot \<Rightarrow> string \<Rightarrow> run_error + unit" where
  "validateGptTerminalEvidence slot path =
     (if sl_lifecycle slot \<noteq> Slot_Terminal
      then require (sl_terminalClass slot = None \<and> sl_terminalResult slot = None \<and> sl_payload slot = None)
             (corrupt path ''terminal evidence requires terminal lifecycle'')
      else
        let terminalClass = js_trim (text_or_empty (sl_terminalClass slot)) in
        if terminalClass = [] then Inl (corrupt path ''terminal source slot lacks terminal outcome'')
        else (case sl_terminalResult slot of
          Some (JObj result) \<Rightarrow>
            if map_of result ''schema'' = Some (JStr ''turn-result/v1'') then validate_turn_result slot terminalClass result path
            else (case map_of result ''kind'' of
              Some (JStr kind) \<Rightarrow>
                if js_trim kind \<noteq> [] then validate_stale_kind slot terminalClass result kind path
                else validate_process_result slot terminalClass result path
            | _ \<Rightarrow> validate_process_result slot terminalClass result path)
        | _ \<Rightarrow> Inl (corrupt path ''terminal source slot lacks valid terminalResult'')))"

section \<open>Normal form\<close>

text \<open>\<open>String(ordinal).padStart(2, '0')\<close>.\<close>

definition expected_slot_id :: "int \<Rightarrow> string" where
  "expected_slot_id ordinal =
     (let digits = show_int ordinal in ''source-'' @ (if length digits < 2 then replicate (2 - length digits) CHR ''0'' @ digits else digits))"

record slots_seen =
  ss_slotIds :: "string list"
  ss_ordinals :: "int list"
  ss_invocationIds :: "string list"

definition slot_path :: "string \<Rightarrow> nat \<Rightarrow> string" where
  "slot_path path index = at_index ((if path = [] then ''<record>'' else path) @ ''.reviewRound.sourceSlots'') index"

text \<open>One element of \<open>raw.sourceSlots.map\<close>, with the sets the callback closes over.\<close>

definition normalize_slot :: "int \<Rightarrow> string \<Rightarrow> slots_seen \<Rightarrow> json \<Rightarrow> run_error + source_slot \<times> slots_seen" where
  "normalize_slot cardinality slotPath seen v =
     (rbind (asObject (Some v)) (\<lambda>slot.
      rbind (requiredJsonString (map_of slot ''slotId'') ''slotId'' slotPath) (\<lambda>slotId.
      rbind (requiredJsonPositiveInteger (map_of slot ''ordinal'') ''ordinal'' slotPath) (\<lambda>ordinal.
      rbind (guards
        [(cardinality < ordinal, corrupt slotPath ''ordinal exceeds cardinality''),
         (slotId \<noteq> expected_slot_id ordinal,
          corrupt slotPath (''slotId '' @ single_quoted slotId @ '' is not bound to ordinal '' @ show_int ordinal)),
         (slotId \<in> set (ss_slotIds seen), corrupt slotPath (''duplicate slotId '' @ single_quoted (slotId))),
         (ordinal \<in> set (ss_ordinals seen), corrupt slotPath (''duplicate ordinal '' @ show_int ordinal))]) (\<lambda>_.
      rbind (requiredJsonString (map_of slot ''lifecycle'') ''lifecycle'' slotPath) (\<lambda>lifecycleText.
      (case lifecycle_of lifecycleText of
         None \<Rightarrow> Inl (corrupt slotPath (''invalid lifecycle '' @ single_quoted (lifecycleText)))
       | Some lifecycle \<Rightarrow>
      rbind (optional_check (\<lambda>x. requiredJsonString x ''invocationId'' slotPath) (map_of slot ''invocationId'')) (\<lambda>invocationId.
      if (case invocationId of None \<Rightarrow> False | Some i \<Rightarrow> i \<in> set (ss_invocationIds seen))
      then Inl (corrupt slotPath (''duplicate invocationId '' @ single_quoted (text_or_empty invocationId)))
      else
      rbind (optional_check (\<lambda>x. requiredJsonPositiveInteger x ''attemptOrdinal'' slotPath) (map_of slot ''attemptOrdinal'')) (\<lambda>attemptOrdinal.
      rbind (optional_check (\<lambda>x. requiredJsonString x ''admissionStartedAtUtc'' slotPath) (map_of slot ''admissionStartedAtUtc'')) (\<lambda>admissionStartedAtUtc.
      rbind (optional_check (\<lambda>x. requiredJsonString x ''launchProfileKey'' slotPath) (map_of slot ''launchProfileKey'')) (\<lambda>launchProfileKey.
      rbind (optional_check (\<lambda>x. requiredJsonString x ''launchCdpUrl'' slotPath) (map_of slot ''launchCdpUrl'')) (\<lambda>launchCdpUrl.
      rbind (optional_check (\<lambda>x. requiredJsonString x ''terminalClass'' slotPath) (map_of slot ''terminalClass'')) (\<lambda>terminalClass.
      let normalizedSlot = \<lparr>sl_slotId = slotId, sl_ordinal = ordinal, sl_lifecycle = lifecycle, sl_invocationId = invocationId,
            sl_attemptOrdinal = attemptOrdinal, sl_admissionStartedAtUtc = admissionStartedAtUtc,
            sl_launchProfileKey = launchProfileKey, sl_launchCdpUrl = launchCdpUrl, sl_terminalClass = terminalClass,
            sl_terminalResult = map_of slot ''terminalResult'', sl_payload = map_of slot ''payload'',
            sl_rest = without_keys slot_keys slot\<rparr>
      in rbind (validateGptTerminalEvidence normalizedSlot slotPath) (\<lambda>_.
        Inr (normalizedSlot,
          \<lparr>ss_slotIds = slotId # ss_slotIds seen, ss_ordinals = ordinal # ss_ordinals seen,
           ss_invocationIds = (case invocationId of None \<Rightarrow> [] | Some i \<Rightarrow> [i]) @ ss_invocationIds seen\<rparr>)))))))))))))))"

fun normalize_slots :: "int \<Rightarrow> string \<Rightarrow> slots_seen \<Rightarrow> nat \<Rightarrow> json list \<Rightarrow> run_error + source_slot list" where
  "normalize_slots cardinality path seen index [] = Inr []"
| "normalize_slots cardinality path seen index (v # vs) =
     rbind (normalize_slot cardinality (slot_path path index) seen v) (\<lambda>(slot, seen').
     rbind (normalize_slots cardinality path seen' (Suc index) vs) (\<lambda>slots. Inr (slot # slots)))"

definition no_slots_seen :: slots_seen where
  "no_slots_seen = \<lparr>ss_slotIds = [], ss_ordinals = [], ss_invocationIds = []\<rparr>"

subsection \<open>The versions of the accounting\<close>

definition accounting_of :: "string \<Rightarrow> accounting_version" where
  "accounting_of s =
     (if s = ''issue-2761-tiered-sources-1-2-3'' then Tiered_Sources
      else if s = ''issue-1826-logical-rounds-1-1-2'' then Logical_Accounting
      else if s = ''issue-1063-1-2-4'' then Cap_Accounting
      else if s = ''legacy-frozen'' then Legacy_Accounting else Unknown_Accounting s)"

definition known_accounting :: "string \<Rightarrow> bool" where
  "known_accounting s \<longleftrightarrow> s \<in> {''issue-1063-1-2-4'', ''issue-1826-logical-rounds-1-1-2'', ''issue-2761-tiered-sources-1-2-3'', ''legacy-frozen''}"

definition logical_source_version :: "string option \<Rightarrow> bool" where
  "logical_source_version v \<longleftrightarrow> v \<in> {Some ''issue-1826-logical-rounds-1-1-2'', Some ''issue-2761-tiered-sources-1-2-3''}"

definition tier_of :: "json option \<Rightarrow> review_tier option" where
  "tier_of v =
     (if v = Some (JStr ''T1'') then Some T1 else if v = Some (JStr ''T2'') then Some T2
      else if v = Some (JStr ''T3'') then Some T3 else None)"

definition settled_allowed :: "string \<Rightarrow> review_tier \<Rightarrow> int \<Rightarrow> int \<Rightarrow> bool" where
  "settled_allowed accountingVersion tier cardinality settled \<longleftrightarrow>
     settled = cardinality
     \<or> cardinality = 3 \<and> settled = 2
       \<and> (accounting_of accountingVersion = Logical_Accounting
          \<or> accounting_of accountingVersion = Tiered_Sources \<and> tier = T3
          \<or> accounting_of accountingVersion \<noteq> Tiered_Sources \<and> accounting_of accountingVersion \<noteq> Logical_Accounting)"

definition usable_count :: "source_slot list \<Rightarrow> int" where
  "usable_count slots = int (length (filter complete_slot slots))"

definition settled_count :: "string \<Rightarrow> review_tier \<Rightarrow> int \<Rightarrow> source_slot list \<Rightarrow> string \<Rightarrow> json option \<Rightarrow> run_error + int option" where
  "settled_count accountingVersion tier cardinality slots path v =
     (case v of
        None \<Rightarrow> Inr None
      | Some x \<Rightarrow>
          rbind (requiredJsonPositiveInteger (Some x) ''reviewRound settledSourceCount'' path) (\<lambda>settled.
          rbind (guards
            [(\<not> settled_allowed accountingVersion tier cardinality settled, corrupt path ''invalid reviewRound settledSourceCount''),
             (usable_count slots \<noteq> settled, corrupt path ''settledSourceCount does not match usable source census'')]) (\<lambda>_.
          Inr (Some settled))))"

definition first_missing :: "int list \<Rightarrow> int \<Rightarrow> int option" where
  "first_missing ordinals cardinality = List.find (\<lambda>n. n \<notin> set ordinals) [1..cardinality]"

definition normalizePackReviewGptRoundRecord :: "json option \<Rightarrow> string \<Rightarrow> run_error + gpt_round" where
  "normalizePackReviewGptRoundRecord v path =
     (rbind (asObject v) (\<lambda>raw.
      rbind (guards
        [(map_of raw ''schema'' \<noteq> Some (JStr ''pack-review-gpt-round/v1''), corrupt path ''invalid reviewRound schema''),
         (map_of raw ''reviewer'' \<noteq> Some (JStr ''gpt''), corrupt path ''invalid reviewRound reviewer'')]) (\<lambda>_.
      (case tier_of (map_of raw ''tier'') of
         None \<Rightarrow> Inl (corrupt path ''invalid reviewRound tier'')
       | Some tier \<Rightarrow>
      rbind (case map_of raw ''accountingVersion'' of
               None \<Rightarrow> Inr ''issue-1063-1-2-4''
             | Some x \<Rightarrow> requiredJsonString (Some x) ''reviewRound accountingVersion'' path) (\<lambda>accountingVersion.
      if \<not> known_accounting accountingVersion then Inl (corrupt path ''invalid reviewRound accountingVersion'')
      else
      rbind (requiredJsonPositiveInteger (map_of raw ''roundOrdinal'') ''reviewRound roundOrdinal'' path) (\<lambda>roundOrdinal.
      rbind (requiredJsonPositiveInteger (map_of raw ''cardinality'') ''reviewRound cardinality'' path) (\<lambda>cardinality.
      let tierCap = (if logical_source_version (Some accountingVersion) then PACK_REVIEW_LOGICAL_CAPS tier else PACK_REVIEW_CAPS tier) in
      if num_less tierCap (Some roundOrdinal) then Inl (corrupt path ''reviewRound ordinal exceeds tier cap'')
      else
      rbind (map_sum authority_message id (selectPackReviewGptSourceCardinality ''gpt'' tier roundOrdinal (Some (accounting_of accountingVersion)))) (\<lambda>expectedCardinality.
      if cardinality \<noteq> expectedCardinality then Inl (corrupt path ''reviewRound cardinality violates tier/round policy'')
      else
      rbind (requiredJsonPositiveInteger (map_of raw ''issueNumber'') ''reviewRound issueNumber'' path) (\<lambda>issueNumber.
      rbind (requiredJsonString (map_of raw ''boundIssueSnapshotDigest'') ''reviewRound boundIssueSnapshotDigest'' path) (\<lambda>digest.
      (case map_of raw ''sourceSlots'' of
         Some (JArr rawSlots) \<Rightarrow>
           if int (length rawSlots) \<noteq> cardinality then Inl (corrupt path ''reviewRound sourceSlots cardinality mismatch'')
           else
           rbind (normalize_slots cardinality path no_slots_seen 0 rawSlots) (\<lambda>slots.
           (case first_missing (map sl_ordinal slots) cardinality of
              Some n \<Rightarrow> Inl (corrupt path (''missing source slot ordinal '' @ show_int n))
            | None \<Rightarrow>
           rbind (settled_count accountingVersion tier cardinality slots path (map_of raw ''settledSourceCount'')) (\<lambda>settled.
           Inr \<lparr>gr_tier = tier,
                gr_accountingVersion = map_option (\<lambda>v. json_string (Some v)) (map_of raw ''accountingVersion''),
                gr_roundOrdinal = roundOrdinal, gr_cardinality = cardinality, gr_issueNumber = issueNumber,
                gr_boundDigest = digest, gr_slots = slots, gr_settled = settled,
                gr_rest = without_keys round_keys raw\<rparr>)))
       | _ \<Rightarrow> Inl (corrupt path ''missing reviewRound sourceSlots''))))))))))))"

section \<open>Writing\<close>

definition slot_json :: "source_slot \<Rightarrow> json" where
  "slot_json s = JObj (js_spread (sl_rest s)
     [(''slotId'', Some (JStr (sl_slotId s))), (''ordinal'', Some (JInt (sl_ordinal s))),
      (''lifecycle'', Some (JStr (lifecycle_text (sl_lifecycle s)))),
      (''invocationId'', map_option JStr (sl_invocationId s)),
      (''attemptOrdinal'', map_option JInt (sl_attemptOrdinal s)),
      (''admissionStartedAtUtc'', map_option JStr (sl_admissionStartedAtUtc s)),
      (''launchProfileKey'', map_option JStr (sl_launchProfileKey s)),
      (''launchCdpUrl'', map_option JStr (sl_launchCdpUrl s)),
      (''terminalClass'', map_option JStr (sl_terminalClass s)),
      (''terminalResult'', sl_terminalResult s), (''payload'', sl_payload s)])"

definition round_json :: "gpt_round \<Rightarrow> json" where
  "round_json r = JObj (js_spread (gr_rest r)
     [(''schema'', Some (JStr ''pack-review-gpt-round/v1'')), (''reviewer'', Some (JStr ''gpt'')),
      (''tier'', Some (JStr (tier_text (gr_tier r)))), (''accountingVersion'', map_option JStr (gr_accountingVersion r)),
      (''roundOrdinal'', Some (JInt (gr_roundOrdinal r))), (''cardinality'', Some (JInt (gr_cardinality r))),
      (''issueNumber'', Some (JInt (gr_issueNumber r))), (''boundIssueSnapshotDigest'', Some (JStr (gr_boundDigest r))),
      (''sourceSlots'', Some (JArr (map slot_json (gr_slots r)))), (''settledSourceCount'', map_option JInt (gr_settled r))])"

end
