(* ===== verification/Run_Round_Facts.thy ===== *)
theory Run_Round_Facts
  imports Run_Round
begin

text \<open>
  What the check of a GPT round guarantees: \<open>gpt_round_ok\<close> holds of every accepted round, and a
  round of which it holds is accepted unchanged when it is written and read again.
\<close>

section \<open>Well-formed slots\<close>

definition trimmed :: "string \<Rightarrow> bool" where
  "trimmed s \<longleftrightarrow> s \<noteq> [] \<and> js_trim s = s"

definition opt_all :: "('a \<Rightarrow> bool) \<Rightarrow> 'a option \<Rightarrow> bool" where
  "opt_all P v = (case v of None \<Rightarrow> True | Some x \<Rightarrow> P x)"

lemma opt_all_simps [simp]: "opt_all P None" "opt_all P (Some x) = P x"
  by (simp_all add: opt_all_def)

definition evidence_ok :: "source_slot \<Rightarrow> bool" where
  "evidence_ok s \<longleftrightarrow> validateGptTerminalEvidence s [] = Inr ()"

text \<open>The form of a slot, apart from its evidence.\<close>

definition slot_shape :: "source_slot \<Rightarrow> bool" where
  "slot_shape s \<longleftrightarrow>
     sl_slotId s = expected_slot_id (sl_ordinal s) \<and> trimmed (sl_slotId s) \<and> 0 < sl_ordinal s
     \<and> opt_all trimmed (sl_invocationId s) \<and> opt_all (\<lambda>n. 0 < n) (sl_attemptOrdinal s)
     \<and> opt_all trimmed (sl_admissionStartedAtUtc s) \<and> opt_all trimmed (sl_launchProfileKey s)
     \<and> opt_all trimmed (sl_launchCdpUrl s) \<and> opt_all trimmed (sl_terminalClass s)
     \<and> without_keys slot_keys (sl_rest s) = sl_rest s"

definition slot_ok :: "source_slot \<Rightarrow> bool" where
  "slot_ok s \<longleftrightarrow> slot_shape s \<and> evidence_ok s"

lemma trimmed_trim [simp]: "js_trim s \<noteq> [] \<Longrightarrow> trimmed (js_trim s)"
  by (simp add: trimmed_def)

lemma guards_path: "map fst gs = map fst hs \<Longrightarrow> guards gs = Inr u \<longleftrightarrow> guards hs = Inr v"
  by (induction gs arbitrary: hs) (auto split: if_splits)

subsection \<open>Acceptance does not depend on the path of the error text\<close>

lemma payload_path: "accepted (validateCompleteGptPayload v c p) = accepted (validateCompleteGptPayload v c q)"
  by (simp add: validateCompleteGptPayload_def Let_def accepted_simps cong: branch_congs)

lemma harvest_path: "accepted (validateGptHarvestEvidence r c s n p) = accepted (validateGptHarvestEvidence r c s n q)"
  by (simp add: validateGptHarvestEvidence_def evidence_paths_def accepted_simps cong: branch_congs)

lemma turn_path: "accepted (validate_turn_result s c r p) = accepted (validate_turn_result s c r q)"
  by (simp add: validate_turn_result_def Let_def accepted_simps payload_path [of _ _ p q] harvest_path [of _ _ _ _ p q] cong: branch_congs)

lemma process_path: "accepted (validate_process_result s c r p) = accepted (validate_process_result s c r q)"
  by (simp add: validate_process_result_def Let_def accepted_simps cong: branch_congs)

lemma evidence_path: "validateGptTerminalEvidence s p = Inr () \<longleftrightarrow> evidence_ok s"
  unfolding evidence_ok_def accepted_Inr
  by (simp add: validateGptTerminalEvidence_def validate_stale_kind_def Let_def accepted_simps turn_path [of _ _ _ p "[]"]
      process_path [of _ _ _ p "[]"] cong: branch_congs)

section \<open>Accepted slots\<close>

lemma string_value_Some: "string_value v = Some s \<longleftrightarrow> (\<exists>t. v = Some (JStr t) \<and> s = js_trim t \<and> s \<noteq> [])"
  by (auto simp: string_value_def split: option.splits json.splits)

lemma positive_value_Some: "positive_value v = Some n \<longleftrightarrow> v = Some (JInt n) \<and> 0 < n"
  by (cases v rule: json_integer.cases) (auto simp: positive_value_def)

lemma natural_value_Some: "natural_value v = Some n \<longleftrightarrow> v = Some (JInt n) \<and> 0 \<le> n"
  by (cases v rule: json_integer.cases) (auto simp: natural_value_def)

lemma value_trimmed [simp]: "trimmed s \<Longrightarrow> string_value (Some (JStr s)) = Some s"
  by (simp add: string_value_def trimmed_def)

lemma value_positive [simp]: "0 < n \<Longrightarrow> positive_value (Some (JInt n)) = Some n"
  by (simp add: positive_value_def)

lemma value_natural [simp]: "0 \<le> n \<Longrightarrow> natural_value (Some (JInt n)) = Some n"
  by (simp add: natural_value_def)

text \<open>An optional property read by a check that accepts what it returned.\<close>

lemma optional_trimmed: "(case v of None \<Rightarrow> Some None | Some x \<Rightarrow> map_option Some (string_value (Some (JStr x)))) = Some v" if "opt_all trimmed v" for v
  using that by (cases v) auto

lemma optional_positive: "(case v of None \<Rightarrow> Some None | Some x \<Rightarrow> map_option Some (positive_value (Some (JInt x)))) = Some v" if "opt_all (\<lambda>n. 0 < n) v" for v
  using that by (cases v) auto

lemma optional_string_ok:
  "(case v of None \<Rightarrow> Some None | Some x \<Rightarrow> map_option Some (string_value (Some x))) = Some w \<Longrightarrow> opt_all trimmed w"
  by (auto simp: string_value_def split: option.splits json.splits if_splits)

lemma optional_positive_ok:
  "(case v of None \<Rightarrow> Some None | Some x \<Rightarrow> map_option Some (positive_value (Some x))) = Some w \<Longrightarrow> opt_all (\<lambda>n. 0 < n) w"
  by (auto simp: positive_value_Some split: option.splits)

definition see_slot :: "source_slot \<Rightarrow> slots_seen \<Rightarrow> slots_seen" where
  "see_slot s seen = \<lparr>ss_slotIds = sl_slotId s # ss_slotIds seen, ss_ordinals = sl_ordinal s # ss_ordinals seen,
     ss_invocationIds = (case sl_invocationId s of None \<Rightarrow> [] | Some i \<Rightarrow> [i]) @ ss_invocationIds seen\<rparr>"

definition fresh_slot :: "int \<Rightarrow> slots_seen \<Rightarrow> source_slot \<Rightarrow> bool" where
  "fresh_slot cardinality seen s \<longleftrightarrow>
     sl_ordinal s \<le> cardinality \<and> sl_slotId s \<notin> set (ss_slotIds seen) \<and> sl_ordinal s \<notin> set (ss_ordinals seen)
     \<and> opt_all (\<lambda>i. i \<notin> set (ss_invocationIds seen)) (sl_invocationId s)"

lemma lifecycle_of_text [simp]: "lifecycle_of (lifecycle_text l) = Some l"
  by (cases l) (simp_all add: lifecycle_of_def)

lemma trimmed_lifecycle [simp]: "trimmed (lifecycle_text l)"
  by (cases l) (simp_all add: trimmed_def js_trim_def js_space_def)

lemmas accepted_evidence = evidence_path [unfolded accepted_Inr]

lemma normalize_slot_Inr:
  assumes "normalize_slot c p seen v = Inr (s, seen')"
  shows "slot_ok s \<and> fresh_slot c seen s \<and> seen' = see_slot s seen"
  using assms unfolding normalize_slot_def accepted_Inr
  apply (clarsimp simp: accepted_simps Let_def accepted_chain slot_ok_def slot_shape_def fresh_slot_def see_slot_def cong: branch_congs)
  apply (drule optional_string_ok optional_positive_ok)+
  apply (auto simp: accepted_evidence without_keys_idem string_value_Some positive_value_Some opt_all_def split: option.splits)
  done

text \<open>A slot of that form is read as it was written, if its evidence is accepted and it is no duplicate.\<close>

lemma normalize_slot_shape:
  assumes "slot_shape s"
  shows "accepted (normalize_slot c p seen (slot_json s)) = (if evidence_ok s \<and> fresh_slot c seen s then Some (s, see_slot s seen) else None)"
proof -
  obtain obj where obj: "slot_json s = JObj obj" by (simp add: slot_json_def)
  have get: "map_of obj ''slotId'' = Some (JStr (sl_slotId s))" "map_of obj ''ordinal'' = Some (JInt (sl_ordinal s))"
    "map_of obj ''lifecycle'' = Some (JStr (lifecycle_text (sl_lifecycle s)))"
    "map_of obj ''invocationId'' = map_option JStr (sl_invocationId s)"
    "map_of obj ''attemptOrdinal'' = map_option JInt (sl_attemptOrdinal s)"
    "map_of obj ''admissionStartedAtUtc'' = map_option JStr (sl_admissionStartedAtUtc s)"
    "map_of obj ''launchProfileKey'' = map_option JStr (sl_launchProfileKey s)"
    "map_of obj ''launchCdpUrl'' = map_option JStr (sl_launchCdpUrl s)"
    "map_of obj ''terminalClass'' = map_option JStr (sl_terminalClass s)"
    "map_of obj ''terminalResult'' = sl_terminalResult s" "map_of obj ''payload'' = sl_payload s"
    using obj by (auto simp: slot_json_def map_of_js_spread)
  have rest: "without_keys slot_keys obj = sl_rest s"
    using obj assms(1) by (auto simp: slot_json_def slot_keys_def without_keys_spread slot_shape_def)
  have ev: "accepted (validateGptTerminalEvidence s p) = (if evidence_ok s then Some () else None)"
    using accepted_evidence [of s p] by (cases "accepted (validateGptTerminalEvidence s p)") auto
  have ok: "expected_slot_id (sl_ordinal s) = sl_slotId s" "trimmed (sl_slotId s)" "0 < sl_ordinal s"
    using assms unfolding slot_shape_def by metis+
  have opts: "opt_all trimmed (sl_invocationId s)" "opt_all (\<lambda>n. 0 < n) (sl_attemptOrdinal s)"
    "opt_all trimmed (sl_admissionStartedAtUtc s)" "opt_all trimmed (sl_launchProfileKey s)"
    "opt_all trimmed (sl_launchCdpUrl s)" "opt_all trimmed (sl_terminalClass s)"
    using assms by (simp_all add: slot_shape_def)
  have eta: "\<lparr>sl_slotId = sl_slotId s, sl_ordinal = sl_ordinal s, sl_lifecycle = sl_lifecycle s, sl_invocationId = sl_invocationId s,
      sl_attemptOrdinal = sl_attemptOrdinal s, sl_admissionStartedAtUtc = sl_admissionStartedAtUtc s,
      sl_launchProfileKey = sl_launchProfileKey s, sl_launchCdpUrl = sl_launchCdpUrl s, sl_terminalClass = sl_terminalClass s,
      sl_terminalResult = sl_terminalResult s, sl_payload = sl_payload s, sl_rest = sl_rest s\<rparr> = s" by simp
  have dup: "(case sl_invocationId s of None \<Rightarrow> False | Some i \<Rightarrow> i \<in> set (ss_invocationIds seen))
      \<longleftrightarrow> \<not> opt_all (\<lambda>i. i \<notin> set (ss_invocationIds seen)) (sl_invocationId s)"
    by (simp add: opt_all_def split: option.splits)
  show ?thesis
    unfolding normalize_slot_def obj
    by (simp add: accepted_simps get rest ok optional_trimmed opts optional_positive eta ev dup Let_def fresh_slot_def see_slot_def
        cong: branch_congs)
qed

lemma normalize_slot_json: "slot_ok s \<Longrightarrow> fresh_slot c seen s \<Longrightarrow> normalize_slot c p seen (slot_json s) = Inr (s, see_slot s seen)"
  by (simp add: accepted_Inr normalize_slot_shape slot_ok_def)

fun fresh_slots :: "int \<Rightarrow> slots_seen \<Rightarrow> source_slot list \<Rightarrow> bool" where
  "fresh_slots c seen [] \<longleftrightarrow> True"
| "fresh_slots c seen (s # ss) \<longleftrightarrow> slot_ok s \<and> fresh_slot c seen s \<and> fresh_slots c (see_slot s seen) ss"

lemma normalize_slots_Inr: "normalize_slots c path seen i vs = Inr ss \<Longrightarrow> fresh_slots c seen ss \<and> length ss = length vs"
proof (induction c path seen i vs arbitrary: ss rule: normalize_slots.induct)
  case (2 c path seen i v vs)
  then obtain s seen' ss' where "normalize_slot c (slot_path path i) seen v = Inr (s, seen')"
    "normalize_slots c path seen' (Suc i) vs = Inr ss'" "ss = s # ss'"
    by (auto simp: rbind_Inr)
  with 2 normalize_slot_Inr [of c "slot_path path i" seen v s seen'] show ?case by auto
qed simp

lemma normalize_slots_json: "fresh_slots c seen ss \<Longrightarrow> normalize_slots c path seen i (map slot_json ss) = Inr ss"
  by (induction ss arbitrary: seen i) (simp_all add: normalize_slot_json)

lemma normalize_slots_shape:
  "list_all slot_shape ss \<Longrightarrow> accepted (normalize_slots c path seen i (map slot_json ss)) = (if fresh_slots c seen ss then Some ss else None)"
  by (induction ss arbitrary: seen i) (auto simp: accepted_simps normalize_slot_shape slot_ok_def)

text \<open>What the sets the callback closes over amount to.\<close>

lemma fresh_slots_iff:
  "fresh_slots c seen ss \<longleftrightarrow>
     list_all (\<lambda>s. slot_ok s \<and> fresh_slot c seen s) ss \<and> distinct (map sl_slotId ss) \<and> distinct (map sl_ordinal ss)
     \<and> distinct (List.map_filter sl_invocationId ss)"
proof (induction ss arbitrary: seen)
  case (Cons s ss)
  have "list_all (\<lambda>t. slot_ok t \<and> fresh_slot c (see_slot s seen) t) ss \<longleftrightarrow>
      list_all (\<lambda>t. slot_ok t \<and> fresh_slot c seen t) ss \<and> sl_slotId s \<notin> sl_slotId ` set ss \<and> sl_ordinal s \<notin> sl_ordinal ` set ss
      \<and> opt_all (\<lambda>i. i \<notin> set (List.map_filter sl_invocationId ss)) (sl_invocationId s)"
    by (induction ss) (auto simp: fresh_slot_def see_slot_def opt_all_def List.map_filter_def split: option.splits)
  with Cons.IH [of "see_slot s seen"] show ?case
    by (auto simp: List.map_filter_def opt_all_def split: option.splits)
qed simp

section \<open>Accepted rounds\<close>

definition round_version :: "gpt_round \<Rightarrow> string" where
  "round_version r = (case gr_accountingVersion r of None \<Rightarrow> ''issue-1063-1-2-4'' | Some a \<Rightarrow> js_trim a)"

definition round_cap :: "gpt_round \<Rightarrow> int option" where
  "round_cap r = (if logical_source_version (Some (round_version r)) then PACK_REVIEW_LOGICAL_CAPS (gr_tier r)
                  else PACK_REVIEW_CAPS (gr_tier r))"

definition slots_ok :: "gpt_round \<Rightarrow> bool" where
  "slots_ok r \<longleftrightarrow> int (length (gr_slots r)) = gr_cardinality r
     \<and> list_all (\<lambda>s. slot_ok s \<and> sl_ordinal s \<le> gr_cardinality r) (gr_slots r)
     \<and> distinct (map sl_ordinal (gr_slots r)) \<and> distinct (map sl_slotId (gr_slots r))
     \<and> distinct (List.map_filter sl_invocationId (gr_slots r))
     \<and> first_missing (map sl_ordinal (gr_slots r)) (gr_cardinality r) = None"

definition settled_ok :: "gpt_round \<Rightarrow> bool" where
  "settled_ok r \<longleftrightarrow> opt_all (\<lambda>n. 0 < n \<and> settled_allowed (round_version r) (gr_tier r) (gr_cardinality r) n
                                \<and> usable_count (gr_slots r) = n) (gr_settled r)"

definition gpt_round_ok :: "gpt_round \<Rightarrow> bool" where
  "gpt_round_ok r \<longleftrightarrow>
     gr_tier r \<in> {T1, T2, T3} \<and> known_accounting (round_version r)
     \<and> 0 < gr_roundOrdinal r \<and> \<not> num_less (round_cap r) (Some (gr_roundOrdinal r))
     \<and> selectPackReviewGptSourceCardinality ''gpt'' (gr_tier r) (gr_roundOrdinal r) (Some (accounting_of (round_version r)))
         = Inr (gr_cardinality r)
     \<and> 0 < gr_cardinality r \<and> 0 < gr_issueNumber r \<and> trimmed (gr_boundDigest r)
     \<and> slots_ok r \<and> settled_ok r \<and> without_keys round_keys (gr_rest r) = gr_rest r"

lemma fresh_slots_unseen:
  "fresh_slots c no_slots_seen ss \<longleftrightarrow>
     list_all (\<lambda>s. slot_ok s \<and> sl_ordinal s \<le> c) ss \<and> distinct (map sl_slotId ss) \<and> distinct (map sl_ordinal ss)
     \<and> distinct (List.map_filter sl_invocationId ss)"
  by (simp add: fresh_slots_iff fresh_slot_def no_slots_seen_def opt_all_def option.case_eq_if)

lemma tier_of_Some: "tier_of v = Some t \<longleftrightarrow> v = Some (JStr (tier_text t)) \<and> t \<in> {T1, T2, T3}"
  by (cases t) (auto simp: tier_of_def)

lemma version_read:
  "(case v of None \<Rightarrow> Some d | Some x \<Rightarrow> string_value (Some x)) = Some a \<Longrightarrow>
     a = (case map_option (\<lambda>v. json_string (Some v)) v of None \<Rightarrow> d | Some a \<Rightarrow> js_trim a)"
  by (auto simp: string_value_Some split: option.splits)

lemma settled_count_Some:
  "accepted (settled_count a t c slots path v) = Some n \<longleftrightarrow>
     (case v of None \<Rightarrow> n = None
      | Some x \<Rightarrow> \<exists>k. x = JInt k \<and> n = Some k \<and> 0 < k \<and> settled_allowed a t c k \<and> usable_count slots = k)"
  by (auto simp: settled_count_def accepted_simps accepted_chain positive_value_Some split: option.splits)

lemma normalize_round_ok:
  assumes "normalizePackReviewGptRoundRecord v path = Inr r"
  shows "gpt_round_ok r"
  using assms unfolding normalizePackReviewGptRoundRecord_def accepted_Inr
  apply (clarsimp simp: accepted_simps Let_def accepted_chain cong: branch_congs)
  apply (drule version_read)
  apply (drule normalize_slots_Inr [unfolded accepted_Inr])
  apply (simp add: gpt_round_ok_def round_version_def round_cap_def slots_ok_def settled_ok_def tier_of_Some positive_value_Some
      string_value_Some settled_count_Some fresh_slots_unseen comp_def del: if_split_asm)
  apply (auto simp: accepted_Inr opt_all_def split: option.splits)
  done

definition round_shape :: "gpt_round \<Rightarrow> bool" where
  "round_shape r \<longleftrightarrow> gr_tier r \<in> {T1, T2, T3} \<and> trimmed (gr_boundDigest r) \<and> list_all slot_shape (gr_slots r)
     \<and> without_keys round_keys (gr_rest r) = gr_rest r"

lemma round_ok_shape: "gpt_round_ok r \<Longrightarrow> round_shape r"
  by (auto simp: gpt_round_ok_def round_shape_def slots_ok_def slot_ok_def list_all_iff)

lemma round_json_get:
  assumes "round_json r = JObj obj"
  shows "map_of obj ''schema'' = Some (JStr ''pack-review-gpt-round/v1'')" "map_of obj ''reviewer'' = Some (JStr ''gpt'')"
    "map_of obj ''tier'' = Some (JStr (tier_text (gr_tier r)))"
    "map_of obj ''accountingVersion'' = map_option JStr (gr_accountingVersion r)"
    "map_of obj ''roundOrdinal'' = Some (JInt (gr_roundOrdinal r))"
    "map_of obj ''cardinality'' = Some (JInt (gr_cardinality r))"
    "map_of obj ''issueNumber'' = Some (JInt (gr_issueNumber r))"
    "map_of obj ''boundIssueSnapshotDigest'' = Some (JStr (gr_boundDigest r))"
    "map_of obj ''sourceSlots'' = Some (JArr (map slot_json (gr_slots r)))"
    "map_of obj ''settledSourceCount'' = map_option JInt (gr_settled r)"
    "round_shape r \<Longrightarrow> without_keys round_keys obj = gr_rest r"
  using assms by (auto simp: round_json_def map_of_js_spread round_keys_def without_keys_spread round_shape_def)

lemma read_version: "map_option (\<lambda>v. json_string (Some v)) (map_option JStr v) = v"
  by (cases v) simp_all

text \<open>A round of that form is read as it was written, when it is accepted at all.\<close>

lemma tier_text_inj: "t \<in> {T1, T2, T3} \<Longrightarrow> tier_of (Some (JStr (tier_text t))) = Some t"
  by (auto simp: tier_of_def)

lemma read_settled: "accepted (settled_count a t c slots path (map_option JInt v)) = Some w \<Longrightarrow> w = v"
  by (auto simp: settled_count_Some split: option.splits)

lemma normalize_round_shape:
  assumes "round_shape r" "normalizePackReviewGptRoundRecord (Some (round_json r)) path = Inr r'"
  shows "r' = r"
proof -
  obtain obj where obj: "round_json r = JObj obj" by (simp add: round_json_def)
  note get = round_json_get [OF obj]
  have shape: "tier_of (Some (JStr (tier_text (gr_tier r)))) = Some (gr_tier r)" "trimmed (gr_boundDigest r)" "list_all slot_shape (gr_slots r)"
    using assms(1) by (simp_all add: round_shape_def tier_text_inj)
  have eta: "\<lparr>gr_tier = gr_tier r, gr_accountingVersion = gr_accountingVersion r, gr_roundOrdinal = gr_roundOrdinal r,
      gr_cardinality = gr_cardinality r, gr_issueNumber = gr_issueNumber r, gr_boundDigest = gr_boundDigest r,
      gr_slots = gr_slots r, gr_settled = gr_settled r, gr_rest = gr_rest r\<rparr> = r" by simp
  show ?thesis
    using assms(2) unfolding normalizePackReviewGptRoundRecord_def accepted_Inr obj
    by (clarsimp simp: accepted_simps accepted_chain get(1-10) get(11) [OF assms(1)] shape read_version normalize_slots_shape
        positive_value_Some Let_def eta cong: branch_congs dest!: read_settled)
qed

lemma normalize_round_json:
  assumes "gpt_round_ok r"
  shows "normalizePackReviewGptRoundRecord (Some (round_json r)) path = Inr r"
proof -
  obtain obj where obj: "round_json r = JObj obj" by (simp add: round_json_def)
  note get = round_json_get(1-10) [OF obj] and rest = round_json_get(11) [OF obj round_ok_shape [OF assms]]
  have version: "(case gr_accountingVersion r of None \<Rightarrow> Some ''issue-1063-1-2-4'' | Some x \<Rightarrow> string_value (Some (JStr x)))
      = Some (round_version r)"
    using assms by (cases "gr_accountingVersion r")
      (auto simp: round_version_def gpt_round_ok_def known_accounting_def string_value_def)
  have slots: "accepted (normalize_slots (gr_cardinality r) path no_slots_seen 0 (map slot_json (gr_slots r))) = Some (gr_slots r)"
    using assms normalize_slots_json [of "gr_cardinality r" no_slots_seen "gr_slots r" path 0]
    by (simp add: gpt_round_ok_def slots_ok_def fresh_slots_unseen accepted_Inr)
  have settled: "accepted (settled_count (round_version r) (gr_tier r) (gr_cardinality r) (gr_slots r) path (map_option JInt (gr_settled r)))
      = Some (gr_settled r)"
    using assms by (auto simp: settled_count_Some gpt_round_ok_def settled_ok_def opt_all_def split: option.splits)
  have card: "accepted (selectPackReviewGptSourceCardinality ''gpt'' (gr_tier r) (gr_roundOrdinal r) (Some (accounting_of (round_version r))))
      = Some (gr_cardinality r)"
    using assms by (simp add: gpt_round_ok_def accepted_Inr)
  have ok: "known_accounting (round_version r)" "0 < gr_roundOrdinal r" "0 < gr_cardinality r" "0 < gr_issueNumber r" "trimmed (gr_boundDigest r)"
    "int (length (gr_slots r)) = gr_cardinality r" "first_missing (map sl_ordinal (gr_slots r)) (gr_cardinality r) = None"
    "\<not> num_less (if logical_source_version (Some (round_version r)) then PACK_REVIEW_LOGICAL_CAPS (gr_tier r)
        else PACK_REVIEW_CAPS (gr_tier r)) (Some (gr_roundOrdinal r))" "tier_of (Some (JStr (tier_text (gr_tier r)))) = Some (gr_tier r)"
    using assms by (simp_all add: gpt_round_ok_def slots_ok_def round_cap_def tier_of_Some)
  have raw: "map_option (\<lambda>v. json_string (Some v)) (map_option JStr (gr_accountingVersion r)) = gr_accountingVersion r"
    by (cases "gr_accountingVersion r") simp_all
  show ?thesis
    unfolding normalizePackReviewGptRoundRecord_def accepted_Inr obj
    by (simp add: accepted_simps get rest version slots settled card ok raw Let_def cong: branch_congs)
qed

end
