(* ===== verification/Run_Merge.thy ===== *)
theory Run_Merge
  imports Run_Round_Facts
begin

text \<open>
  Updates of a frozen GPT round, \<open>scripts/lib/pack-review-run-store.ts\<close>: which source slots may
  change, how two versions of a slot are merged, and the verdict a terminal census determines.
\<close>

section \<open>Identity\<close>

definition slot_with_ordinal :: "source_slot list \<Rightarrow> int \<Rightarrow> source_slot option" where
  "slot_with_ordinal slots n = List.find (\<lambda>s. sl_ordinal s = n) slots"

definition assertFrozenGptRoundIdentity :: "gpt_round \<Rightarrow> gpt_round \<Rightarrow> string \<Rightarrow> run_error + unit" where
  "assertFrozenGptRoundIdentity existing incoming path =
     (let frozen = (\<lambda>field. corrupt path (''frozen reviewRound '' @ field @ '' cannot change'')) in
      guards
        ([(gr_tier existing \<noteq> gr_tier incoming, frozen ''tier''),
          (gr_accountingVersion existing \<noteq> gr_accountingVersion incoming, frozen ''accountingVersion''),
          (gr_roundOrdinal existing \<noteq> gr_roundOrdinal incoming, frozen ''roundOrdinal''),
          (gr_cardinality existing \<noteq> gr_cardinality incoming, frozen ''cardinality''),
          (gr_issueNumber existing \<noteq> gr_issueNumber incoming, frozen ''issueNumber''),
          (gr_boundDigest existing \<noteq> gr_boundDigest incoming, frozen ''boundIssueSnapshotDigest''),
          (length (gr_slots existing) \<noteq> length (gr_slots incoming),
           corrupt path ''frozen reviewRound source census cannot change'')]
         @ map (\<lambda>s. (case slot_with_ordinal (gr_slots incoming) (sl_ordinal s) of
                       None \<Rightarrow> True | Some t \<Rightarrow> sl_slotId t \<noteq> sl_slotId s,
                     corrupt path (''frozen reviewRound source slot '' @ sl_slotId s @ '' cannot change'')))
             (gr_slots existing)))"

section \<open>Merging one slot\<close>

definition isCredentialedGptSourceRecovery :: "source_slot \<Rightarrow> source_slot \<Rightarrow> bool" where
  "isCredentialedGptSourceRecovery existing incoming \<longleftrightarrow>
     sl_lifecycle existing = Slot_Terminal \<and> sl_lifecycle incoming = Slot_Terminal
     \<and> \<not> complete_class (sl_terminalClass existing) \<and> complete_class (sl_terminalClass incoming)
     \<and> (case sl_terminalResult incoming of
          Some (JObj raw) \<Rightarrow>
            map_of raw ''schema'' = Some (JStr ''turn-result/v1'')
            \<and> map_of raw ''source_comment_authority'' = Some (JStr ''credentialed_github'')
            \<and> isRecord (map_of raw ''source_comment_receipt'')
        | _ \<Rightarrow> False)"

definition num_or_zero :: "int option \<Rightarrow> int" where
  "num_or_zero v = (case v of None \<Rightarrow> 0 | Some n \<Rightarrow> n)"

text \<open>The marker of a slot that was never launched, replaced by its first invocation.\<close>

definition firstPreLaunchAttempt :: "source_slot \<Rightarrow> source_slot \<Rightarrow> bool" where
  "firstPreLaunchAttempt existing incoming \<longleftrightarrow>
     sl_lifecycle existing = Slot_Terminal \<and> sl_terminalClass existing = Some ''pre_launch_interrupted''
     \<and> (case sl_terminalResult existing of
          Some (JObj raw) \<Rightarrow>
            map_of raw ''kind'' = Some (JStr ''stale_pre_launch_interruption'')
            \<and> map_of raw ''noResend'' = Some (JBool True) \<and> length (remdups (map fst raw)) = 2
        | _ \<Rightarrow> False)
     \<and> sl_invocationId existing = None \<and> sl_attemptOrdinal existing = None
     \<and> sl_lifecycle incoming = Slot_Invocation_Started \<and> sl_attemptOrdinal incoming = Some 1
     \<and> sl_terminalClass incoming = None \<and> sl_terminalResult incoming = None \<and> sl_payload incoming = None"

definition legalAttemptIdentityRotation :: "source_slot \<Rightarrow> source_slot \<Rightarrow> bool" where
  "legalAttemptIdentityRotation existing incoming \<longleftrightarrow>
     \<not> complete_slot existing \<and> sl_attemptOrdinal incoming \<noteq> None
     \<and> num_or_zero (sl_attemptOrdinal existing) < num_or_zero (sl_attemptOrdinal incoming)
     \<and> (sl_invocationId existing \<noteq> None \<or> firstPreLaunchAttempt existing incoming)
     \<and> sl_invocationId incoming \<noteq> None \<and> sl_invocationId existing \<noteq> sl_invocationId incoming"

text \<open>A string bound to an attempt: the newer attempt's value wins, \<open>d\<close> is the value when they do not differ.\<close>

definition attempt_bound :: "source_slot \<Rightarrow> source_slot \<Rightarrow> run_error \<Rightarrow> string option \<Rightarrow> string option \<Rightarrow> string option \<Rightarrow> run_error + string option" where
  "attempt_bound existing incoming err d existingValue incomingValue =
     (let e = num_or_zero (sl_attemptOrdinal existing); i = num_or_zero (sl_attemptOrdinal incoming) in
      if existingValue \<noteq> None \<and> incomingValue \<noteq> None \<and> existingValue \<noteq> incomingValue
      then (if e < i then Inr incomingValue else if i < e then Inr existingValue else Inl err)
      else Inr d)"

definition or_else :: "'a option \<Rightarrow> 'a option \<Rightarrow> 'a option" where
  "or_else a b = (case a of None \<Rightarrow> b | Some x \<Rightarrow> Some x)"

text \<open>\<open>mergeEvidence\<close>, on a value that is undefined or JSON.\<close>

definition merge_evidence :: "source_slot \<Rightarrow> source_slot \<Rightarrow> string \<Rightarrow> string \<Rightarrow> json option \<Rightarrow> json option \<Rightarrow> run_error + json option" where
  "merge_evidence existing incoming path name existingValue incomingValue =
     (if legalAttemptIdentityRotation existing incoming then Inr incomingValue
      else (case (existingValue, incomingValue) of
        (Some a, Some b) \<Rightarrow>
          if \<not> isDeepStrictEqual a b then Inl (corrupt path (name @ '' cannot change''))
          else Inr (js_coalesce existingValue incomingValue)
      | _ \<Rightarrow> Inr (js_coalesce existingValue incomingValue)))"

definition merged_attempt :: "int option \<Rightarrow> int option \<Rightarrow> int option" where
  "merged_attempt existingAttempt incomingAttempt =
     (case existingAttempt of
        None \<Rightarrow> incomingAttempt
      | Some e \<Rightarrow> (case incomingAttempt of None \<Rightarrow> Some e | Some i \<Rightarrow> Some (max e i)))"

definition merged_lifecycle :: "source_slot \<Rightarrow> source_slot \<Rightarrow> slot_lifecycle" where
  "merged_lifecycle existing incoming =
     (if legalAttemptIdentityRotation existing incoming then sl_lifecycle incoming
      else if PACK_REVIEW_SOURCE_SLOT_LIFECYCLE_RANK (sl_lifecycle incoming)
                \<le> PACK_REVIEW_SOURCE_SLOT_LIFECYCLE_RANK (sl_lifecycle existing)
      then sl_lifecycle existing else sl_lifecycle incoming)"

text \<open>\<open>value?.trim() || undefined\<close>.\<close>

definition trim_or_none :: "string option \<Rightarrow> string option" where
  "trim_or_none v = (case v of None \<Rightarrow> None | Some s \<Rightarrow> if js_trim s = [] then None else Some (js_trim s))"

definition spread_rest :: "js_object \<Rightarrow> js_object \<Rightarrow> js_object" where
  "spread_rest a b = js_spread a (map (\<lambda>(k, v). (k, Some v)) b)"

definition mergeFrozenGptSlot :: "source_slot \<Rightarrow> source_slot \<Rightarrow> string \<Rightarrow> run_error + source_slot" where
  "mergeFrozenGptSlot existing incoming path =
     (if complete_slot existing then Inr existing
      else
        let rotation = legalAttemptIdentityRotation existing incoming;
            invocationId = (if rotation then sl_invocationId incoming else or_else (sl_invocationId existing) (sl_invocationId incoming));
            recovery = isCredentialedGptSourceRecovery existing incoming
        in
        if sl_invocationId existing \<noteq> None \<and> sl_invocationId incoming \<noteq> None
           \<and> sl_invocationId existing \<noteq> sl_invocationId incoming \<and> \<not> rotation
        then Inl (corrupt path ''invocationId cannot change without a newer unresolved-source attempt'')
        else
        rbind (attempt_bound existing incoming (corrupt path ''admissionStartedAtUtc changed without a new attempt'')
                 (or_else (sl_admissionStartedAtUtc existing) (sl_admissionStartedAtUtc incoming))
                 (sl_admissionStartedAtUtc existing) (sl_admissionStartedAtUtc incoming)) (\<lambda>admission.
        rbind (attempt_bound existing incoming (corrupt path ''launchProfileKey changed without a new attempt'')
                 (or_else (sl_launchProfileKey incoming) (sl_launchProfileKey existing))
                 (sl_launchProfileKey existing) (sl_launchProfileKey incoming)) (\<lambda>profile.
        rbind (attempt_bound existing incoming (corrupt path ''launchCdpUrl changed without a new attempt'')
                 (or_else (sl_launchCdpUrl incoming) (sl_launchCdpUrl existing))
                 (sl_launchCdpUrl existing) (sl_launchCdpUrl incoming)) (\<lambda>cdp.
        rbind (if recovery then Inr (map_option JStr (sl_terminalClass incoming))
               else merge_evidence existing incoming path ''terminalClass''
                 (map_option JStr (sl_terminalClass existing)) (map_option JStr (sl_terminalClass incoming))) (\<lambda>terminalClass.
        rbind (if recovery then Inr (sl_terminalResult incoming)
               else merge_evidence existing incoming path ''terminalResult'' (sl_terminalResult existing) (sl_terminalResult incoming)) (\<lambda>terminalResult.
        rbind (if recovery then Inr (sl_payload incoming)
               else merge_evidence existing incoming path ''payload'' (sl_payload existing) (sl_payload incoming)) (\<lambda>payload.
        Inr \<lparr>sl_slotId = sl_slotId existing, sl_ordinal = sl_ordinal existing,
             sl_lifecycle = merged_lifecycle existing incoming, sl_invocationId = trim_or_none invocationId,
             sl_attemptOrdinal = merged_attempt (sl_attemptOrdinal existing) (sl_attemptOrdinal incoming),
             sl_admissionStartedAtUtc = admission, sl_launchProfileKey = profile, sl_launchCdpUrl = cdp,
             sl_terminalClass = map_option (\<lambda>v. json_string (Some v)) terminalClass,
             sl_terminalResult = terminalResult, sl_payload = payload,
             sl_rest = spread_rest (sl_rest existing) (sl_rest incoming)\<rparr>)))))))"

section \<open>Merging the round\<close>

definition slot_merge_path :: "string \<Rightarrow> source_slot \<Rightarrow> string" where
  "slot_merge_path path s = path @ ''.reviewRound.sourceSlots['' @ show_int (sl_ordinal s - 1) @ '']''"

definition mergeFrozenGptRound :: "gpt_round \<Rightarrow> gpt_round \<Rightarrow> string \<Rightarrow> bool \<Rightarrow> run_error + gpt_round" where
  "mergeFrozenGptRound existing incoming path aggregateCommitted =
     rbind (assertFrozenGptRoundIdentity existing incoming path) (\<lambda>_.
     if aggregateCommitted then Inr existing
     else
       rbind (rall (\<lambda>s. mergeFrozenGptSlot s (case slot_with_ordinal (gr_slots incoming) (sl_ordinal s) of Some t \<Rightarrow> t | None \<Rightarrow> s)
                           (slot_merge_path path s)) (gr_slots existing)) (\<lambda>slots.
       let staged = gr_settled existing \<noteq> None \<or> gr_settled incoming \<noteq> None in
       Inr (existing\<lparr>gr_settled := (if staged then Some (usable_count slots) else None), gr_slots := slots\<rparr>)))"

section \<open>The verdict of a census\<close>

definition assertCompleteGptRound :: "gpt_round \<Rightarrow> string \<Rightarrow> run_error + unit" where
  "assertCompleteGptRound round path =
     rbind (rall (\<lambda>s.
         if sl_lifecycle s \<noteq> Slot_Terminal
         then require (gr_settled round \<noteq> None) (corrupt path (''mandatory source slot '' @ sl_slotId s @ '' is not terminal''))
         else validateGptTerminalEvidence s (slot_merge_path path s)) (gr_slots round)) (\<lambda>_.
     require (gr_settled round = None \<or> gr_settled round = Some (usable_count (gr_slots round)))
       (corrupt path ''settledSourceCount does not match usable source census''))"

record gpt_aggregate =
  ag_reviewVerdict :: string
  ag_findingCount :: nat
  ag_findings :: "json list"

definition payload_findings :: "json option \<Rightarrow> json list" where
  "payload_findings payload =
     (case payload of
        Some (JObj raw) \<Rightarrow> (case map_of raw ''findings'' of Some (JArr fs) \<Rightarrow> fs | _ \<Rightarrow> [])
      | _ \<Rightarrow> [])"

definition attributed :: "string \<Rightarrow> json \<Rightarrow> json" where
  "attributed slotId finding =
     JObj (js_set (case finding of JObj kvs \<Rightarrow> kvs | _ \<Rightarrow> []) ''sourceSlotId'' (Some (JStr slotId)))"

definition census_findings :: "source_slot list \<Rightarrow> json list" where
  "census_findings slots =
     concat (map (\<lambda>s. map (attributed (sl_slotId s)) (payload_findings (sl_payload s)))
       (filter (\<lambda>s. complete_class (sl_terminalClass s)) slots))"

definition deriveCompleteGptRoundAggregate :: "gpt_round \<Rightarrow> string \<Rightarrow> run_error + gpt_aggregate" where
  "deriveCompleteGptRoundAggregate round path =
     rbind (assertCompleteGptRound round path) (\<lambda>_.
       let findings = census_findings (gr_slots round) in
       Inr \<lparr>ag_reviewVerdict = (if findings \<noteq> [] then ''findings'' else ''clean''),
            ag_findingCount = length findings, ag_findings = findings\<rparr>)"

definition hasNonHarvestIncompleteGptSource :: "gpt_round \<Rightarrow> bool" where
  "hasNonHarvestIncompleteGptSource round \<longleftrightarrow>
     gr_settled round = None \<and>
     list_ex (\<lambda>s. sl_lifecycle s = Slot_Terminal \<and> \<not> complete_class (sl_terminalClass s)
                   \<and> text_or_empty (sl_terminalClass s) \<notin> set HARVEST_GPT_TERMINAL_CLASSES) (gr_slots round)"

definition assertGptRoundAggregate ::
  "gpt_round \<Rightarrow> json option \<Rightarrow> json option \<Rightarrow> json option \<Rightarrow> string \<Rightarrow> run_error + unit" where
  "assertGptRoundAggregate round reviewVerdict findingCount findings path =
     rbind (deriveCompleteGptRoundAggregate round path) (\<lambda>expected.
     if reviewVerdict \<noteq> Some (JStr (ag_reviewVerdict expected))
     then Inl (corrupt path ''reviewVerdict does not match terminal source census'')
     else
     rbind (requiredJsonNonNegativeInteger findingCount ''findingCount'' path) (\<lambda>count.
     if count \<noteq> int (ag_findingCount expected)
     then Inl (corrupt path ''findingCount does not match terminal source census'')
     else (case findings of
       Some (JArr fs) \<Rightarrow>
         require (isDeepStrictEqual (JArr fs) (JArr (ag_findings expected)))
           (corrupt path ''findings do not match terminal source census'')
     | _ \<Rightarrow> Inl (corrupt path ''invalid findings''))))"

definition hasRecordedGptRoundLifecycleOrEvidence :: "gpt_round option \<Rightarrow> bool" where
  "hasRecordedGptRoundLifecycleOrEvidence round =
     (case round of
        None \<Rightarrow> False
      | Some r \<Rightarrow> list_ex (\<lambda>s. sl_lifecycle s \<noteq> Slot_Planned \<or> sl_invocationId s \<noteq> None \<or> sl_attemptOrdinal s \<noteq> None
            \<or> sl_admissionStartedAtUtc s \<noteq> None \<or> sl_terminalClass s \<noteq> None \<or> sl_terminalResult s \<noteq> None
            \<or> sl_payload s \<noteq> None) (gr_slots r))"

section \<open>Coverage\<close>

datatype coverage_kind = Coverage_Complete | Coverage_Partial | Coverage_Empty

record incomplete_source =
  is_slotId :: string
  is_lifecycle :: slot_lifecycle
  is_terminalClass :: "string option"
  is_invocationId :: "string option"
  is_timedOut :: bool
  is_cancelled :: bool
  is_reason :: "string option"

record gpt_coverage =
  gc_kind :: coverage_kind
  gc_completed :: nat
  gc_cardinality :: int
  gc_completedIds :: "string list"
  gc_incomplete :: "incomplete_source list"

definition incomplete_of :: "source_slot \<Rightarrow> incomplete_source" where
  "incomplete_of slot =
     (let terminal = (case sl_terminalResult slot of Some (JObj kvs) \<Rightarrow> kvs | _ \<Rightarrow> []);
          present = (\<lambda>v. if text_or_empty v = [] then None else v);
          reason = trimPackReviewValue (js_coalesce (map_of terminal ''cause'')
             (js_coalesce (map_of terminal ''source_comment_reason'') (map_of terminal ''error'')))
      in \<lparr>is_slotId = sl_slotId slot, is_lifecycle = sl_lifecycle slot, is_terminalClass = present (sl_terminalClass slot),
          is_invocationId = present (sl_invocationId slot),
          is_timedOut = (map_of terminal ''process_timed_out'' = Some (JBool True)
                         \<or> map_of terminal ''process_exit_code'' = Some (JInt 124)),
          is_cancelled = (map_of terminal ''process_cancelled'' = Some (JBool True)),
          is_reason = (if reason = [] then None else Some (take 240 reason))\<rparr>)"

definition derivePackReviewGptCoverage :: "gpt_round option \<Rightarrow> gpt_coverage option" where
  "derivePackReviewGptCoverage round =
     (case round of
        None \<Rightarrow> None
      | Some r \<Rightarrow>
          let completed = filter complete_slot (gr_slots r); ids = map sl_slotId completed in
          Some \<lparr>gc_kind = (if completed = [] then Coverage_Empty
                          else if int (length completed) = gr_cardinality r then Coverage_Complete else Coverage_Partial),
                gc_completed = length completed, gc_cardinality = gr_cardinality r, gc_completedIds = ids,
                gc_incomplete = map incomplete_of (filter (\<lambda>s. sl_slotId s \<notin> set ids) (gr_slots r))\<rparr>)"

end
