(* ===== verification/Run_Merge_Facts.thy ===== *)
theory Run_Merge_Facts
  imports Run_Merge
begin

text \<open>
  How a source slot and a round may change: a slot only makes progress, a complete slot never
  changes, an outcome is replaced only by a newer attempt or by a credentialed recovery, and the
  identity of a round is frozen.
\<close>

section \<open>Progress of a slot\<close>

definition slot_rank :: "source_slot \<Rightarrow> nat" where
  "slot_rank s = PACK_REVIEW_SOURCE_SLOT_LIFECYCLE_RANK (sl_lifecycle s)"

definition slot_attempt :: "source_slot \<Rightarrow> int" where
  "slot_attempt s = num_or_zero (sl_attemptOrdinal s)"

text \<open>Later attempts first, then later phases of the same attempt; complete slots do not change.\<close>

definition slot_le :: "source_slot \<Rightarrow> source_slot \<Rightarrow> bool" where
  "slot_le s t \<longleftrightarrow>
     sl_slotId t = sl_slotId s \<and> sl_ordinal t = sl_ordinal s \<and> (complete_slot s \<longrightarrow> t = s)
     \<and> slot_attempt s \<le> slot_attempt t \<and> (slot_attempt s = slot_attempt t \<longrightarrow> slot_rank s \<le> slot_rank t)"

lemma slot_le_refl [simp]: "slot_le s s"
  by (simp add: slot_le_def)

lemma slot_le_trans: "slot_le s t \<Longrightarrow> slot_le t u \<Longrightarrow> slot_le s u"
  unfolding slot_le_def by auto

lemma merged_attempt_max:
  "opt_all (\<lambda>n. 0 < n) a \<Longrightarrow> opt_all (\<lambda>n. 0 < n) b \<Longrightarrow> num_or_zero (merged_attempt a b) = max (num_or_zero a) (num_or_zero b)"
  by (auto simp: merged_attempt_def num_or_zero_def opt_all_def split: option.splits)

lemma merge_complete: "complete_slot s \<Longrightarrow> mergeFrozenGptSlot s t path = Inr s"
  by (simp add: mergeFrozenGptSlot_def)

text \<open>What a successful merge of an incomplete slot computed, field by field.\<close>

definition merge_choice :: "source_slot \<Rightarrow> source_slot \<Rightarrow> string \<Rightarrow> string \<Rightarrow> json option \<Rightarrow> json option \<Rightarrow> run_error + json option" where
  "merge_choice s t path name a b =
     (if isCredentialedGptSourceRecovery s t then Inr b else merge_evidence s t path name a b)"

lemma merge_chain:
  assumes "mergeFrozenGptSlot s t path = Inr m" "\<not> complete_slot s"
  shows "\<exists>e1 e2 e3 cls.
      attempt_bound s t e1 (or_else (sl_admissionStartedAtUtc s) (sl_admissionStartedAtUtc t))
        (sl_admissionStartedAtUtc s) (sl_admissionStartedAtUtc t) = Inr (sl_admissionStartedAtUtc m)
      \<and> attempt_bound s t e2 (or_else (sl_launchProfileKey t) (sl_launchProfileKey s))
        (sl_launchProfileKey s) (sl_launchProfileKey t) = Inr (sl_launchProfileKey m)
      \<and> attempt_bound s t e3 (or_else (sl_launchCdpUrl t) (sl_launchCdpUrl s))
        (sl_launchCdpUrl s) (sl_launchCdpUrl t) = Inr (sl_launchCdpUrl m)
      \<and> merge_choice s t path ''terminalClass'' (map_option JStr (sl_terminalClass s)) (map_option JStr (sl_terminalClass t)) = Inr cls
      \<and> sl_terminalClass m = map_option (\<lambda>v. json_string (Some v)) cls
      \<and> merge_choice s t path ''terminalResult'' (sl_terminalResult s) (sl_terminalResult t) = Inr (sl_terminalResult m)
      \<and> merge_choice s t path ''payload'' (sl_payload s) (sl_payload t) = Inr (sl_payload m)
      \<and> (sl_invocationId s \<noteq> None \<and> sl_invocationId t \<noteq> None \<and> sl_invocationId s \<noteq> sl_invocationId t
          \<longrightarrow> legalAttemptIdentityRotation s t)
      \<and> sl_invocationId m = trim_or_none (if legalAttemptIdentityRotation s t then sl_invocationId t
                               else or_else (sl_invocationId s) (sl_invocationId t))
      \<and> sl_slotId m = sl_slotId s \<and> sl_ordinal m = sl_ordinal s \<and> sl_lifecycle m = merged_lifecycle s t
      \<and> sl_attemptOrdinal m = merged_attempt (sl_attemptOrdinal s) (sl_attemptOrdinal t)
      \<and> sl_rest m = spread_rest (sl_rest s) (sl_rest t)"
  using assms unfolding mergeFrozenGptSlot_def Let_def merge_choice_def [symmetric]
  by (simp only: if_False result_chain rbind_Inr) (elim exE conjE, force)

lemma merge_fields:
  assumes "mergeFrozenGptSlot s t path = Inr m" "\<not> complete_slot s"
  shows "sl_slotId m = sl_slotId s \<and> sl_ordinal m = sl_ordinal s \<and> sl_lifecycle m = merged_lifecycle s t
     \<and> sl_attemptOrdinal m = merged_attempt (sl_attemptOrdinal s) (sl_attemptOrdinal t)
     \<and> sl_rest m = spread_rest (sl_rest s) (sl_rest t)"
  using merge_chain [OF assms] by blast

lemma merge_progress:
  assumes "mergeFrozenGptSlot s t path = Inr m" "slot_ok s" "slot_ok t"
  shows "slot_le s m"
proof (cases "complete_slot s")
  case True
  with assms(1) show ?thesis by (simp add: merge_complete)
next
  case False
  note f = merge_fields [OF assms(1) False]
  have "slot_attempt m = max (slot_attempt s) (slot_attempt t)"
    using f assms(2,3) by (simp add: slot_attempt_def merged_attempt_max slot_ok_def slot_shape_def)
  moreover have "legalAttemptIdentityRotation s t \<Longrightarrow> slot_attempt s < slot_attempt t"
    by (simp add: legalAttemptIdentityRotation_def slot_attempt_def)
  ultimately show ?thesis using f False
    by (auto simp: slot_le_def slot_rank_def merged_lifecycle_def)
qed

section \<open>A merged slot has the form of a slot\<close>

lemma without_keys_iff: "without_keys keys obj = obj \<longleftrightarrow> (\<forall>e \<in> set obj. fst e \<notin> set keys)"
  by (simp add: without_keys_def filter_id_conv)

lemma set_js_spread: "set (js_spread obj patch) \<subseteq> set obj \<union> {(k, v). (k, Some v) \<in> set patch}"
proof (induction patch)
  case (Cons p patch)
  then show ?case by (cases p; cases "snd p") (auto simp: js_spread_def js_set_def)
qed (simp add: js_spread_def)

lemma spread_rest_clean:
  "without_keys keys a = a \<Longrightarrow> without_keys keys b = b \<Longrightarrow> without_keys keys (spread_rest a b) = spread_rest a b"
  using set_js_spread [of a "map (\<lambda>(k, v). (k, Some v)) b"] by (fastforce simp: without_keys_iff spread_rest_def)

lemma attempt_bound_cases: "attempt_bound s t e d x y = Inr w \<Longrightarrow> w = d \<or> w = x \<or> w = y"
  by (auto simp: attempt_bound_def Let_def split: if_splits)

lemma evidence_cases: "merge_evidence s t p n a b = Inr w \<Longrightarrow> w = a \<or> w = b"
  by (auto simp: merge_evidence_def js_coalesce_def split: if_splits option.splits)

lemma trim_or_none_ok: "opt_all trimmed (trim_or_none v)"
  by (cases v) (auto simp: trim_or_none_def)

lemma read_string: "map_option (\<lambda>v. json_string (Some v)) (map_option JStr v) = v"
  by (cases v) simp_all

lemma choice_cases: "merge_choice s t p n a b = Inr w \<Longrightarrow> w = a \<or> w = b"
  using evidence_cases by (auto simp: merge_choice_def split: if_splits)

lemma merge_shape:
  assumes "mergeFrozenGptSlot s t path = Inr m" "slot_shape s" "slot_shape t"
  shows "slot_shape m"
proof (cases "complete_slot s")
  case True
  with assms show ?thesis by (simp add: merge_complete)
next
  case False
  from merge_chain [OF assms(1) False] obtain e1 e2 e3 cls where
    a: "attempt_bound s t e1 (or_else (sl_admissionStartedAtUtc s) (sl_admissionStartedAtUtc t))
        (sl_admissionStartedAtUtc s) (sl_admissionStartedAtUtc t) = Inr (sl_admissionStartedAtUtc m)" and
    p: "attempt_bound s t e2 (or_else (sl_launchProfileKey t) (sl_launchProfileKey s))
        (sl_launchProfileKey s) (sl_launchProfileKey t) = Inr (sl_launchProfileKey m)" and
    c: "attempt_bound s t e3 (or_else (sl_launchCdpUrl t) (sl_launchCdpUrl s))
        (sl_launchCdpUrl s) (sl_launchCdpUrl t) = Inr (sl_launchCdpUrl m)" and
    cls: "merge_choice s t path ''terminalClass'' (map_option JStr (sl_terminalClass s)) (map_option JStr (sl_terminalClass t)) = Inr cls"
      "sl_terminalClass m = map_option (\<lambda>v. json_string (Some v)) cls" and
    ident: "sl_invocationId m = trim_or_none (if legalAttemptIdentityRotation s t then sl_invocationId t
                               else or_else (sl_invocationId s) (sl_invocationId t))"
    by blast
  have iv: "opt_all trimmed (sl_invocationId m)" unfolding ident by (rule trim_or_none_ok)
  have opt: "opt_all trimmed x \<Longrightarrow> opt_all trimmed y \<Longrightarrow> opt_all trimmed (or_else x y)" for x y
    by (auto simp: or_else_def split: option.splits)
  have sh: "opt_all trimmed (sl_admissionStartedAtUtc s)" "opt_all trimmed (sl_admissionStartedAtUtc t)"
    "opt_all trimmed (sl_launchProfileKey s)" "opt_all trimmed (sl_launchProfileKey t)"
    "opt_all trimmed (sl_launchCdpUrl s)" "opt_all trimmed (sl_launchCdpUrl t)"
    "opt_all trimmed (sl_terminalClass s)" "opt_all trimmed (sl_terminalClass t)"
    "opt_all (\<lambda>n. 0 < n) (sl_attemptOrdinal s)" "opt_all (\<lambda>n. 0 < n) (sl_attemptOrdinal t)"
    "without_keys slot_keys (sl_rest s) = sl_rest s" "without_keys slot_keys (sl_rest t) = sl_rest t"
    using assms(2,3) by (simp_all add: slot_shape_def)
  have "opt_all trimmed (sl_admissionStartedAtUtc m)" using attempt_bound_cases [OF a] sh(1,2) opt by metis
  moreover have "opt_all trimmed (sl_launchProfileKey m)" using attempt_bound_cases [OF p] sh(3,4) opt by metis
  moreover have "opt_all trimmed (sl_launchCdpUrl m)" using attempt_bound_cases [OF c] sh(5,6) opt by metis
  moreover have "opt_all trimmed (sl_terminalClass m)"
    using choice_cases [OF cls(1)] cls(2) sh(7,8) by (auto simp: read_string)
  moreover have "opt_all (\<lambda>n. 0 < n) (merged_attempt (sl_attemptOrdinal s) (sl_attemptOrdinal t))"
    using sh(9,10) by (auto simp: merged_attempt_def opt_all_def split: option.splits)
  moreover have "without_keys slot_keys (spread_rest (sl_rest s) (sl_rest t)) = spread_rest (sl_rest s) (sl_rest t)"
    using sh(11,12) by (rule spread_rest_clean)
  ultimately show ?thesis
    using assms(2) merge_fields [OF assms(1) False] iv unfolding slot_shape_def by metis
qed

section \<open>The outcome of a terminal slot\<close>

lemma evidence_ok_terminal:
  "evidence_ok s \<Longrightarrow> sl_lifecycle s = Slot_Terminal \<Longrightarrow>
     sl_terminalClass s \<noteq> None \<and> (\<exists>kvs. sl_terminalResult s = Some (JObj kvs))"
  by (cases "sl_terminalClass s")
    (auto simp: evidence_ok_def validateGptTerminalEvidence_def Let_def js_trim_def text_or_empty_def
      split: option.splits json.splits if_splits)

lemma choice_kept:
  "merge_choice s t path name (Some a) b = Inr w \<Longrightarrow> a \<noteq> JNull \<Longrightarrow> \<not> legalAttemptIdentityRotation s t
     \<Longrightarrow> \<not> isCredentialedGptSourceRecovery s t \<Longrightarrow> w = Some a"
  by (auto simp: merge_choice_def merge_evidence_def js_coalesce_def nullish_def split: option.splits if_splits)

text \<open>The same outcome, a newer attempt, or a recovery that completes the slot.\<close>

definition outcome_kept :: "source_slot \<Rightarrow> source_slot \<Rightarrow> bool" where
  "outcome_kept s m \<longleftrightarrow>
     (sl_lifecycle m = Slot_Terminal \<and> sl_terminalClass m = sl_terminalClass s \<and> sl_terminalResult m = sl_terminalResult s)
     \<or> slot_attempt s < slot_attempt m \<or> complete_slot m"

lemma merge_outcome:
  assumes "mergeFrozenGptSlot s t path = Inr m" "slot_ok s" "slot_ok t" "sl_lifecycle s = Slot_Terminal"
  shows "outcome_kept s m"
proof (cases "complete_slot s \<or> legalAttemptIdentityRotation s t")
  case True
  with assms show ?thesis
    using merge_complete [of s t path] merge_fields [OF assms(1)]
    by (auto simp: outcome_kept_def legalAttemptIdentityRotation_def slot_attempt_def merged_attempt_max slot_ok_def slot_shape_def)
next
  case False
  from merge_chain [OF assms(1)] False obtain cls where
    c: "merge_choice s t path ''terminalClass'' (map_option JStr (sl_terminalClass s)) (map_option JStr (sl_terminalClass t)) = Inr cls"
      "sl_terminalClass m = map_option (\<lambda>v. json_string (Some v)) cls" and
    r: "merge_choice s t path ''terminalResult'' (sl_terminalResult s) (sl_terminalResult t) = Inr (sl_terminalResult m)" and
    l: "sl_lifecycle m = merged_lifecycle s t"
    by blast
  have life: "sl_lifecycle m = Slot_Terminal"
    using l False assms(4) by (cases "sl_lifecycle t") (auto simp: merged_lifecycle_def)
  show ?thesis
  proof (cases "isCredentialedGptSourceRecovery s t")
    case True
    with c have "sl_terminalClass m = sl_terminalClass t" by (auto simp: merge_choice_def read_string)
    with True life show ?thesis by (simp add: outcome_kept_def complete_slot_def isCredentialedGptSourceRecovery_def)
  next
    case not_rec: False
    obtain a kvs where a: "sl_terminalClass s = Some a" "sl_terminalResult s = Some (JObj kvs)"
      using evidence_ok_terminal [of s] assms(2,4) by (auto simp: slot_ok_def)
    have "cls = Some (JStr a)" "sl_terminalResult m = Some (JObj kvs)"
      using choice_kept [OF c(1) [unfolded a option.map]] choice_kept [OF r [unfolded a]] False not_rec by simp_all
    with life a c(2) show ?thesis by (simp add: outcome_kept_def)
  qed
qed

section \<open>Progress of a round\<close>

lemma list_all2_right: "list_all2 P xs ys \<Longrightarrow> (\<And>x y. P x y \<Longrightarrow> Q y) \<Longrightarrow> list_all Q ys"
  by (induction rule: list_all2_induct) auto

definition same_round :: "gpt_round \<Rightarrow> gpt_round \<Rightarrow> bool" where
  "same_round r q \<longleftrightarrow> gr_tier q = gr_tier r \<and> gr_accountingVersion q = gr_accountingVersion r
     \<and> gr_roundOrdinal q = gr_roundOrdinal r \<and> gr_cardinality q = gr_cardinality r
     \<and> gr_issueNumber q = gr_issueNumber r \<and> gr_boundDigest q = gr_boundDigest r"

definition round_le :: "gpt_round \<Rightarrow> gpt_round \<Rightarrow> bool" where
  "round_le r q \<longleftrightarrow> same_round r q \<and> list_all2 slot_le (gr_slots r) (gr_slots q)"

lemma round_le_refl [simp]: "round_le r r"
  by (simp add: round_le_def same_round_def list_all2_refl)

lemma round_le_trans: "round_le r q \<Longrightarrow> round_le q p \<Longrightarrow> round_le r p"
  unfolding round_le_def same_round_def using list_all2_trans [of slot_le slot_le slot_le, OF slot_le_trans] by auto

lemma identity_slot:
  assumes "assertFrozenGptRoundIdentity r i path = Inr ()" "s \<in> set (gr_slots r)"
  shows "\<exists>t \<in> set (gr_slots i). slot_with_ordinal (gr_slots i) (sl_ordinal s) = Some t \<and> sl_slotId t = sl_slotId s \<and> sl_ordinal t = sl_ordinal s"
proof -
  let ?changed = "\<lambda>s. case slot_with_ordinal (gr_slots i) (sl_ordinal s) of None \<Rightarrow> True | Some t \<Rightarrow> sl_slotId t \<noteq> sl_slotId s"
  let ?error = "\<lambda>s. corrupt path (''frozen reviewRound source slot '' @ sl_slotId s @ '' cannot change'')"
  have "guards (map (\<lambda>s. (?changed s, ?error s)) (gr_slots r)) = Inr ()"
    using assms(1) unfolding assertFrozenGptRoundIdentity_def Let_def guards_append rbind_Inr by blast
  then have "\<not> ?changed s"
    using assms(2) unfolding guards_Inr list.pred_map by (simp add: list_all_iff)
  then show ?thesis
    by (auto simp: slot_with_ordinal_def find_Some_iff split: option.splits)
qed

lemma merge_round_slots:
  assumes "mergeFrozenGptRound r i path False = Inr m" "gpt_round_ok r" "gpt_round_ok i"
  shows "list_all2 (\<lambda>s u. \<exists>t \<in> set (gr_slots i). sl_ordinal t = sl_ordinal s \<and> slot_ok s \<and> slot_ok t
           \<and> mergeFrozenGptSlot s t (slot_merge_path path s) = Inr u) (gr_slots r) (gr_slots m)"
proof -
  let ?pick = "\<lambda>s. case slot_with_ordinal (gr_slots i) (sl_ordinal s) of Some t \<Rightarrow> t | None \<Rightarrow> s"
  have ident: "assertFrozenGptRoundIdentity r i path = Inr ()"
    and l: "list_all2 (\<lambda>s u. mergeFrozenGptSlot s (?pick s) (slot_merge_path path s) = Inr u) (gr_slots r) (gr_slots m)"
    using assms(1) by (auto simp: mergeFrozenGptRound_def rbind_Inr rall_Inr_iff Let_def)
  have ok: "s \<in> set (gr_slots r) \<Longrightarrow> slot_ok s" "t \<in> set (gr_slots i) \<Longrightarrow> slot_ok t" for s t
    using assms(2,3) by (auto simp: gpt_round_ok_def slots_ok_def list_all_iff)
  show ?thesis
    using l by (rule list.rel_mono_strong) (use identity_slot [OF ident] ok in fastforce)
qed

lemma merge_round_progress:
  assumes "mergeFrozenGptRound r i path committed = Inr m" "gpt_round_ok r" "gpt_round_ok i"
  shows "round_le r m \<and> round_shape m \<and> (committed \<longrightarrow> m = r)"
proof (cases committed)
  case True
  with assms show ?thesis by (auto simp: mergeFrozenGptRound_def rbind_Inr round_ok_shape)
next
  case False
  with assms(1) have "mergeFrozenGptRound r i path False = Inr m" by simp
  note sl = merge_round_slots [OF this assms(2,3)]
  have same: "same_round r m" "gr_rest m = gr_rest r"
    using assms(1) False by (auto simp: mergeFrozenGptRound_def rbind_Inr same_round_def Let_def)
  have le: "list_all2 slot_le (gr_slots r) (gr_slots m)"
    using sl by (rule list_all2_mono) (use merge_progress in blast)
  have "list_all slot_shape (gr_slots m)"
    using sl by (rule list_all2_right) (auto simp: slot_ok_def intro: merge_shape)
  with same le round_ok_shape [OF assms(2)] False show ?thesis
    by (simp add: round_le_def round_shape_def same_round_def)
qed

end
