(* ===== verification/Run_Record.thy ===== *)
theory Run_Record
  imports Run_Merge_Facts
begin

text \<open>
  The record of a review run, \<open>scripts/lib/pack-review-run-store.ts\<close>: \<open>parseRecord\<close>, which every
  read and every write goes through, the object a record is written as, and the tests on journal
  and delivery outcomes. Properties \<open>parseRecord\<close> passes through are in \<open>rr_rest\<close>. The process id
  of the runner is 0 when the file holds no integer: no process has either.
\<close>

section \<open>Data\<close>

datatype run_status =
    Queued | Preparing | Run_Running | Reviewing | Up_To_Date | Commented | Changes_Requested | Run_Failed | Timed_Out | Cancelled

fun status_text :: "run_status \<Rightarrow> string" where
  "status_text Queued = ''queued''" | "status_text Preparing = ''preparing''" | "status_text Run_Running = ''running''"
| "status_text Reviewing = ''reviewing''" | "status_text Up_To_Date = ''up_to_date''" | "status_text Commented = ''commented''"
| "status_text Changes_Requested = ''changes_requested''" | "status_text Run_Failed = ''failed''"
| "status_text Timed_Out = ''timed_out''" | "status_text Cancelled = ''cancelled''"

definition PACK_REVIEW_ACTIVE_STATUSES :: "run_status list" where
  "PACK_REVIEW_ACTIVE_STATUSES = [Queued, Preparing, Run_Running, Reviewing]"

definition PACK_REVIEW_TERMINAL_STATUSES :: "run_status list" where
  "PACK_REVIEW_TERMINAL_STATUSES = [Up_To_Date, Commented, Changes_Requested, Run_Failed, Timed_Out, Cancelled]"

definition PACK_REVIEW_VERDICT_TERMINAL_STATUSES :: "run_status list" where
  "PACK_REVIEW_VERDICT_TERMINAL_STATUSES = [Up_To_Date, Commented, Changes_Requested]"

definition status_of :: "string \<Rightarrow> run_status option" where
  "status_of s = List.find (\<lambda>x. status_text x = s) (PACK_REVIEW_ACTIVE_STATUSES @ PACK_REVIEW_TERMINAL_STATUSES)"

datatype run_verdict = Verdict_Clean | Verdict_Findings

fun run_verdict_text :: "run_verdict \<Rightarrow> string" where
  "run_verdict_text Verdict_Clean = ''clean''" | "run_verdict_text Verdict_Findings = ''findings''"

datatype run_disposition = Disp_Consume | Disp_Non_Consuming_Explicit

fun run_disposition_text :: "run_disposition \<Rightarrow> string" where
  "run_disposition_text Disp_Consume = ''consume''" | "run_disposition_text Disp_Non_Consuming_Explicit = ''non_consuming_explicit''"

record run_labels =
  rl_latestRunStatus :: string
  rl_linkedSessionId :: string
  rl_startReason :: string
  rl_surface :: string
  rl_trustedPackRoot :: string

record run_accounting =
  ra_disposition :: run_disposition
  ra_accountingVersion :: "string option"
  ra_reviewCycleId :: "string option"
  ra_logicalRoundOrdinal :: "int option"
  ra_logicalRoundCap :: "int option"

record native_attempt =
  na_reviewer :: string
  na_invocationOrdinal :: int
  na_startedAtUtc :: string
  na_effectiveBudgetMs :: int
  na_wrapperPid :: "int option"
  na_processGroupId :: "int option"
  na_childPid :: "int option"
  na_childProcessGroupId :: "int option"
  na_childStartedAtUtc :: "string option"

record run_reviewer =
  rv_resolved :: "string option"
  rv_resolvedSource :: "json option"
  rv_executed :: "json option"
  rv_executionRunId :: "string option"
  rv_invoked :: "bool option"
  rv_nativeAttempt :: "native_attempt option"

record run_record =
  rr_id :: string
  rr_runId :: string
  rr_projectId :: string
  rr_key :: string
  rr_prNumber :: int
  rr_targetSha :: string
  rr_headSha :: string
  rr_status :: run_status
  rr_labels :: run_labels
  rr_sourceRepoRoot :: string
  rr_accounting :: run_accounting
  rr_reviewer :: run_reviewer
  rr_reviewRound :: "gpt_round option"
  rr_boundDigest :: "string option"
  rr_runnerPid :: int
  rr_createdAt :: string
  rr_updatedAt :: string
  rr_heartbeatAtUtc :: string
  rr_sameKeyOrder :: "int option"
  rr_verdict :: "run_verdict option"
  rr_findingCount :: "int option"
  rr_findings :: "json list"
  rr_journal :: "js_object option"
  rr_delivery :: js_object
  rr_repository :: "string option"
  rr_rest :: js_object

definition run_keys :: "string list" where
  "run_keys = [''schemaVersion'', ''id'', ''runId'', ''projectId'', ''key'', ''prNumber'', ''targetSha'', ''headSha'', ''status'',
     ''latestRunStatus'', ''linkedSessionId'', ''startReason'', ''surface'', ''trustedPackRoot'', ''sourceRepoRoot'',
     ''automaticBudgetDisposition'', ''accountingVersion'', ''reviewCycleId'', ''logicalRoundOrdinal'', ''logicalRoundCap'',
     ''resolvedReviewer'', ''resolvedReviewerSource'', ''executedReviewer'', ''reviewerExecutionRunId'',
     ''reviewerInvokedForThisRun'', ''nativeAttempt'', ''reviewRound'', ''boundIssueSnapshotDigest'', ''runnerPid'',
     ''createdAt'', ''updatedAt'', ''heartbeatAtUtc'', ''sameKeyOrder'', ''reviewVerdict'', ''findingCount'', ''findings'',
     ''journalOutcome'', ''deliveryOutcomes'', ''canonicalRepository'']"

section \<open>Names\<close>

definition repository_slug :: "string \<Rightarrow> bool" where
  "repository_slug s \<longleftrightarrow>
     (case js_split CHR ''/'' s of [a, b] \<Rightarrow> a \<noteq> [] \<and> b \<noteq> [] | _ \<Rightarrow> False) \<and> list_all (\<lambda>c. \<not> js_space c) s"

definition normalizePackReviewCanonicalRepository :: "string \<Rightarrow> run_error + string" where
  "normalizePackReviewCanonicalRepository v =
     (if \<not> repository_slug (js_trim v) then Inl (''invalid pack review canonical repository '' @ single_quoted v)
      else Inr (js_trim v))"

definition packReviewRunKey :: "int \<Rightarrow> string \<Rightarrow> string" where
  "packReviewRunKey prNumber headSha = ''pr-'' @ show_int prNumber @ ''-'' @ headSha"

definition canonicalRepositoryFromRunKey :: "string \<Rightarrow> int \<Rightarrow> string \<Rightarrow> string option" where
  "canonicalRepositoryFromRunKey key prNumber headSha =
     (let suffix = ''-'' @ show_int prNumber @ ''-'' @ headSha; body = drop 3 key;
          middle = take (length body - length suffix) body
      in if js_starts_with ''pr-'' key \<and> js_ends_with suffix body \<and> repository_slug middle then Some middle else None)"

definition normalizePackReviewHeadSha :: "string \<Rightarrow> run_error + string" where
  "normalizePackReviewHeadSha v =
     (if \<not> is_sha (sha_of v) then Inl (''pack review run store requires a full 40-hex head SHA; got '' @ single_quoted v)
      else Inr (sha_of v))"

fun dash_runs :: "(char \<Rightarrow> bool) \<Rightarrow> bool \<Rightarrow> string \<Rightarrow> string" where
  "dash_runs keep inside [] = []"
| "dash_runs keep inside (c # cs) =
     (if keep c then c # dash_runs keep False cs
      else if inside then dash_runs keep True cs else CHR ''-'' # dash_runs keep True cs)"

definition normalizePackReviewProjectId :: "string \<Rightarrow> string" where
  "normalizePackReviewProjectId v =
     (let project = (if js_trim v = [] then ''orchestrator-pack'' else js_trim v);
          keep = (\<lambda>c. is_digit c \<or> (97 \<le> (of_char c :: nat) \<and> (of_char c :: nat) \<le> 122) \<or> c \<in> set ''._-'')
      in dash_runs keep False (js_lower project))"

definition run_id_ok :: "string \<Rightarrow> bool" where
  "run_id_ok s \<longleftrightarrow> js_starts_with ''prr-'' s \<and> 4 < length s
     \<and> list_all (\<lambda>c. is_ascii_letter c \<or> is_digit c \<or> c \<in> set ''._-'') (drop 4 s)"

section \<open>Outcomes\<close>

definition nonempty_string :: "json option \<Rightarrow> bool" where
  "nonempty_string v \<longleftrightarrow> is_string v \<and> json_string v \<noteq> []"

definition verdict_key :: "run_record \<Rightarrow> string" where
  "verdict_key r = ''verdict:'' @ rr_id r @ '':'' @ rr_targetSha r"

definition hasValidPackReviewJournalOutcome :: "run_record \<Rightarrow> bool" where
  "hasValidPackReviewJournalOutcome r \<longleftrightarrow>
     (case rr_journal r of
        None \<Rightarrow> False
      | Some journal \<Rightarrow>
          map_of journal ''state'' \<in> {Some (JStr ''persisted''), Some (JStr ''journal_write_failed'')}
          \<and> nonempty_string (map_of journal ''recordedAtUtc'') \<and> nonempty_string (map_of journal ''reason'')
          \<and> map_of journal ''idempotencyKey'' = Some (JStr (verdict_key r))
          \<and> positive_value (map_of journal ''attempts'') \<noteq> None)"

definition journal_persisted :: "js_object option \<Rightarrow> bool" where
  "journal_persisted j \<longleftrightarrow> (case j of None \<Rightarrow> False | Some o' \<Rightarrow> map_of o' ''state'' = Some (JStr ''persisted''))"

definition hasPersistedPackReviewVerdict :: "run_record \<Rightarrow> bool" where
  "hasPersistedPackReviewVerdict r \<longleftrightarrow>
     hasValidPackReviewJournalOutcome r \<and> journal_persisted (rr_journal r) \<and> rr_verdict r \<noteq> None
     \<and> (case rr_findingCount r of None \<Rightarrow> False | Some n \<Rightarrow> 0 \<le> n \<and> int (length (rr_findings r)) = n)"

definition hasValidPackReviewDeliveryOutcome :: "json option \<Rightarrow> string option \<Rightarrow> bool" where
  "hasValidPackReviewDeliveryOutcome outcome expectedIdempotencyKey \<longleftrightarrow>
     (case outcome of
        Some (JObj candidate) \<Rightarrow>
          map_of candidate ''state'' \<in> {Some (JStr ''succeeded''), Some (JStr ''delivered''), Some (JStr ''failed''), Some (JStr ''escalated'')}
          \<and> nonempty_string (map_of candidate ''recordedAtUtc'') \<and> nonempty_string (map_of candidate ''reason'')
          \<and> nonempty_string (map_of candidate ''idempotencyKey'')
          \<and> (case expectedIdempotencyKey of None \<Rightarrow> True
             | Some key \<Rightarrow> key = [] \<or> map_of candidate ''idempotencyKey'' = Some (JStr key))
      | _ \<Rightarrow> False)"

definition isPackReviewUnfinishedTerminalRun :: "run_record \<Rightarrow> bool" where
  "isPackReviewUnfinishedTerminalRun r \<longleftrightarrow>
     rr_status r \<in> {Run_Failed, Timed_Out, Cancelled} \<and> \<not> hasPersistedPackReviewVerdict r"

definition PACK_REVIEW_STALE_FAILURE_REASON :: string where
  "PACK_REVIEW_STALE_FAILURE_REASON = ''runner_disappeared_stale''"

definition isPackReviewStaleTerminalRun :: "run_record \<Rightarrow> bool" where
  "isPackReviewStaleTerminalRun r \<longleftrightarrow>
     rr_status r = Run_Failed \<and> map_of (rr_rest r) ''failureReason'' = Some (JStr PACK_REVIEW_STALE_FAILURE_REASON)"

text \<open>An unfinished GPT census is no charge of a logical round.\<close>

definition derivePackReviewNoJudgmentBudgetOutcome :: "run_record \<Rightarrow> int list \<Rightarrow> bool" where
  "derivePackReviewNoJudgmentBudgetOutcome r consumedRoundOrdinals \<longleftrightarrow>
     logical_source_version (ra_accountingVersion (rr_accounting r))
     \<and> ra_logicalRoundOrdinal (rr_accounting r) \<noteq> None
     \<and> rr_status r \<in> {Run_Failed, Timed_Out, Cancelled}
     \<and> ra_disposition (rr_accounting r) = Disp_Consume
     \<and> (case derivePackReviewGptCoverage (rr_reviewRound r) of None \<Rightarrow> False | Some c \<Rightarrow> gc_kind c = Coverage_Empty)
     \<and> \<not> hasPersistedPackReviewVerdict r \<and> rr_verdict r = None \<and> \<not> journal_persisted (rr_journal r)
     \<and> the (ra_logicalRoundOrdinal (rr_accounting r)) \<notin> set consumedRoundOrdinals"

section \<open>Reading\<close>

definition normalizeAutomaticBudgetDisposition :: "json option \<Rightarrow> string \<Rightarrow> run_error + run_disposition" where
  "normalizeAutomaticBudgetDisposition v path =
     (let disposition = (if nullish v \<or> v = Some (JStr []) then ''consume'' else string_or [] v) in
      if disposition = ''consume'' then Inr Disp_Consume
      else if disposition = ''non_consuming_explicit'' then Inr Disp_Non_Consuming_Explicit
      else Inl (corrupt path ''invalid automaticBudgetDisposition''))"

definition parse_accounting :: "js_object \<Rightarrow> string \<Rightarrow> run_error + run_accounting" where
  "parse_accounting raw path =
     rbind (normalizeAutomaticBudgetDisposition (map_of raw ''automaticBudgetDisposition'') path) (\<lambda>disposition.
     rbind (optional_check (\<lambda>x. requiredJsonString x ''accountingVersion'' path) (map_of raw ''accountingVersion'')) (\<lambda>accountingVersion.
     if (case accountingVersion of None \<Rightarrow> False | Some a \<Rightarrow> \<not> known_accounting a)
     then Inl (corrupt path ''invalid accountingVersion'')
     else
     rbind (optional_check (\<lambda>x. requiredJsonString x ''reviewCycleId'' path) (map_of raw ''reviewCycleId'')) (\<lambda>reviewCycleId.
     rbind (optional_check (\<lambda>x. requiredJsonPositiveInteger x ''logicalRoundOrdinal'' path) (map_of raw ''logicalRoundOrdinal'')) (\<lambda>ordinal.
     rbind (optional_check (\<lambda>x. requiredJsonPositiveInteger x ''logicalRoundCap'' path) (map_of raw ''logicalRoundCap'')) (\<lambda>cap.
     if num_less cap ordinal then Inl (corrupt path ''logicalRoundOrdinal exceeds logicalRoundCap'')
     else Inr \<lparr>ra_disposition = disposition, ra_accountingVersion = accountingVersion, ra_reviewCycleId = reviewCycleId,
               ra_logicalRoundOrdinal = ordinal, ra_logicalRoundCap = cap\<rparr>)))))"

definition normalizePackReviewNativeAttempt :: "json option \<Rightarrow> string \<Rightarrow> run_error + native_attempt option" where
  "normalizePackReviewNativeAttempt v path =
     (if nullish v then Inr None
      else
      rbind (asObject v) (\<lambda>raw.
      rbind (guards
        [(map_of raw ''schema'' \<noteq> Some (JStr ''pack-review-native-attempt/v1''), corrupt path ''invalid nativeAttempt schema''),
         (map_of raw ''reviewer'' \<notin> {Some (JStr ''codex''), Some (JStr ''claude'')}, corrupt path ''invalid nativeAttempt reviewer'')]) (\<lambda>_.
      rbind (requiredJsonPositiveInteger (map_of raw ''invocationOrdinal'') ''nativeAttempt invocationOrdinal'' path) (\<lambda>invocationOrdinal.
      rbind (requiredJsonString (map_of raw ''startedAtUtc'') ''nativeAttempt startedAtUtc'' path) (\<lambda>startedAtUtc.
      rbind (requiredJsonPositiveInteger (map_of raw ''effectiveBudgetMs'') ''nativeAttempt effectiveBudgetMs'' path) (\<lambda>budget.
      let optionalPid = (\<lambda>name. optional_check (\<lambda>x. requiredJsonPositiveInteger x (''nativeAttempt '' @ name) path) (map_of raw name)) in
      rbind (optionalPid ''wrapperPid'') (\<lambda>wrapperPid.
      rbind (optional_check (\<lambda>x. requiredJsonString x ''nativeAttempt childStartedAtUtc'' path) (map_of raw ''childStartedAtUtc'')) (\<lambda>childStartedAtUtc.
      rbind (optionalPid ''processGroupId'') (\<lambda>processGroupId.
      rbind (optionalPid ''childPid'') (\<lambda>childPid.
      rbind (optionalPid ''childProcessGroupId'') (\<lambda>childProcessGroupId.
      Inr (Some \<lparr>na_reviewer = json_string (map_of raw ''reviewer''), na_invocationOrdinal = invocationOrdinal,
             na_startedAtUtc = startedAtUtc, na_effectiveBudgetMs = budget, na_wrapperPid = wrapperPid,
             na_processGroupId = processGroupId, na_childPid = childPid, na_childProcessGroupId = childProcessGroupId,
             na_childStartedAtUtc = childStartedAtUtc\<rparr>))))))))))))"

definition reviewer_names :: "string list" where
  "reviewer_names = [''gpt'', ''codex'', ''claude'']"

definition reviewer_sources :: "string list" where
  "reviewer_sources = [''invocation-bound'', ''persistent-preference'', ''legacy-env'', ''none'']"

definition reviewer_guards :: "js_object \<Rightarrow> string \<Rightarrow> string \<Rightarrow> (bool \<times> run_error) list" where
  "reviewer_guards raw runId path =
     (let resolved = map_option json_to_string (map_of raw ''resolvedReviewer'');
          source = map_of raw ''resolvedReviewerSource'';
          executed = map_of raw ''executedReviewer'';
          execution = map_of raw ''reviewerExecutionRunId'';
          invoked = map_of raw ''reviewerInvokedForThisRun''
      in
        [(case resolved of None \<Rightarrow> False | Some s \<Rightarrow> s \<notin> set reviewer_names, corrupt path ''invalid resolvedReviewer''),
         (case source of None \<Rightarrow> False | Some j \<Rightarrow> json_to_string j \<notin> set reviewer_sources, corrupt path ''invalid resolvedReviewerSource''),
         (source \<noteq> None \<and> resolved = None, corrupt path ''reviewer source without selection''),
         (case executed of None \<Rightarrow> False | Some j \<Rightarrow> json_to_string j \<notin> set reviewer_names, corrupt path ''invalid executedReviewer''),
         (execution \<noteq> None \<and> (\<not> is_string execution \<or> js_trim (json_string execution) = []),
          corrupt path ''invalid reviewerExecutionRunId''),
         (invoked \<notin> {None, Some (JBool True), Some (JBool False)}, corrupt path ''invalid reviewerInvokedForThisRun''),
         (executed \<noteq> None \<and> execution = None \<or> invoked \<noteq> None \<and> execution = None \<or> execution \<noteq> None \<and> invoked = None,
          corrupt path ''incomplete reviewer execution provenance''),
         (invoked = Some (JBool True) \<and>
            (execution \<noteq> Some (JStr runId) \<or> executed = None \<or> executed \<noteq> map_option JStr resolved),
          corrupt path ''fresh reviewer execution provenance mismatch''),
         (invoked = Some (JBool False) \<and> execution = Some (JStr runId),
          corrupt path ''carried-over verdict cannot have a fresh execution run'')])"

definition parse_reviewer :: "js_object \<Rightarrow> string \<Rightarrow> string \<Rightarrow> run_error + run_reviewer" where
  "parse_reviewer raw runId path =
     (let resolved = map_option json_to_string (map_of raw ''resolvedReviewer'') in
      rbind (guards (reviewer_guards raw runId path)) (\<lambda>_.
      rbind (normalizePackReviewNativeAttempt (map_of raw ''nativeAttempt'') path) (\<lambda>nativeAttempt.
      if (case (nativeAttempt, resolved) of (Some a, Some r) \<Rightarrow> na_reviewer a \<noteq> r | _ \<Rightarrow> False)
      then Inl (corrupt path ''nativeAttempt reviewer mismatch'')
      else Inr \<lparr>rv_resolved = resolved, rv_resolvedSource = map_of raw ''resolvedReviewerSource'',
                rv_executed = map_of raw ''executedReviewer'',
                rv_executionRunId = map_option (\<lambda>v. json_string (Some v)) (map_of raw ''reviewerExecutionRunId''),
                rv_invoked = map_option (\<lambda>v. v = JBool True) (map_of raw ''reviewerInvokedForThisRun''),
                rv_nativeAttempt = nativeAttempt\<rparr>)))"

text \<open>The round, the bound digest, and the identity of a logical round.\<close>

definition round_identity_ok :: "run_accounting \<Rightarrow> run_reviewer \<Rightarrow> gpt_round \<Rightarrow> bool" where
  "round_identity_ok accounting reviewer round \<longleftrightarrow>
     (let supplemental = (ra_disposition accounting = Disp_Non_Consuming_Explicit
            \<and> ra_logicalRoundOrdinal accounting = None \<and> ra_logicalRoundCap accounting = None)
      in (logical_source_version (ra_accountingVersion accounting) \<or> logical_source_version (gr_accountingVersion round)) \<longrightarrow>
           ra_accountingVersion accounting = gr_accountingVersion round \<and> rv_resolved reviewer = Some ''gpt''
           \<and> (supplemental \<or> ra_reviewCycleId accounting \<noteq> None
              \<and> ra_logicalRoundOrdinal accounting = Some (gr_roundOrdinal round) \<and> ra_logicalRoundCap accounting \<noteq> None))"

definition parse_round :: "js_object \<Rightarrow> run_accounting \<Rightarrow> run_reviewer \<Rightarrow> string \<Rightarrow> run_error + gpt_round option \<times> string option" where
  "parse_round raw accounting reviewer path =
     rbind (if nullish (map_of raw ''reviewRound'') then Inr None
            else map_sum id Some (normalizePackReviewGptRoundRecord (map_of raw ''reviewRound'') path)) (\<lambda>reviewRound.
     rbind (optional_check (\<lambda>x. requiredJsonString x ''boundIssueSnapshotDigest'' path) (map_of raw ''boundIssueSnapshotDigest'')) (\<lambda>digest.
     (case reviewRound of
        None \<Rightarrow> Inr (None, digest)
      | Some round \<Rightarrow>
          rbind (guards
            [(digest \<noteq> None \<and> digest \<noteq> Some (gr_boundDigest round), corrupt path ''GPT/native bound Issue digest differs''),
             (\<not> round_identity_ok accounting reviewer round, corrupt path ''GPT logical source version/round identity mismatch'')]) (\<lambda>_.
          Inr (Some round, digest)))))"

text \<open>A finding that blocks: no object, or a severity that is not advisory.\<close>

definition blocking_finding :: "json \<Rightarrow> bool" where
  "blocking_finding finding =
     (case finding of
        JObj kvs \<Rightarrow> js_lower (trimPackReviewValue (map_of kvs ''severity'')) \<notin> {''warning'', ''info'', ''non-blocking''}
      | _ \<Rightarrow> True)"

definition json_array :: "json option \<Rightarrow> json list" where
  "json_array v = (case v of Some (JArr xs) \<Rightarrow> xs | _ \<Rightarrow> [])"

definition json_object :: "json option \<Rightarrow> js_object option" where
  "json_object v = (case v of Some (JObj kvs) \<Rightarrow> Some kvs | _ \<Rightarrow> None)"

definition verdict_of :: "json option \<Rightarrow> run_verdict option" where
  "verdict_of v = (if v = Some (JStr ''clean'') then Some Verdict_Clean
                   else if v = Some (JStr ''findings'') then Some Verdict_Findings else None)"

definition verify_census :: "js_object \<Rightarrow> gpt_round option \<Rightarrow> run_status \<Rightarrow> string \<Rightarrow> run_error + unit" where
  "verify_census raw reviewRound status path =
     (let where_at = (if path = [] then ''<record>'' else path) in
      case reviewRound of
        None \<Rightarrow> Inr ()
      | Some round \<Rightarrow>
          if status \<in> set PACK_REVIEW_VERDICT_TERMINAL_STATUSES \<or> verdict_of (map_of raw ''reviewVerdict'') \<noteq> None
             \<or> journal_persisted (json_object (map_of raw ''journalOutcome''))
          then if hasNonHarvestIncompleteGptSource round \<and> \<not> list_ex blocking_finding (json_array (map_of raw ''findings''))
               then Inl (corrupt where_at ''reviewVerdict does not match terminal source census'')
               else assertGptRoundAggregate round (map_of raw ''reviewVerdict'') (map_of raw ''findingCount'') (map_of raw ''findings'') where_at
          else Inr ())"

definition parseRunRecord :: "json option \<Rightarrow> string \<Rightarrow> run_error + run_record" where
  "parseRunRecord v path =
     rbind (asObject v) (\<lambda>raw.
     if number_integer (map_of raw ''schemaVersion'') \<noteq> Some 1
     then Inl (''unsupported pack review run schema'' @ at_path path @ '': ''
            @ (case map_of raw ''schemaVersion'' of None \<Rightarrow> ''undefined'' | Some x \<Rightarrow> json_to_string x))
     else
     rbind (requiredString (map_of raw ''id'') ''id'' path) (\<lambda>runIdentity.
     if \<not> run_id_ok runIdentity then Inl (corrupt path ''invalid id'')
     else
     rbind (requiredString (map_of raw ''projectId'') ''projectId'' path) (\<lambda>projectId.
     rbind (requiredPositiveInteger (map_of raw ''prNumber'') ''prNumber'' path) (\<lambda>prNumber.
     rbind (requiredString (map_of raw ''targetSha'') ''targetSha'' path) (\<lambda>targetText.
     rbind (normalizePackReviewHeadSha targetText) (\<lambda>targetSha.
     rbind (requiredString (map_of raw ''key'') ''key'' path) (\<lambda>key.
     rbind (case map_of raw ''canonicalRepository'' of
              None \<Rightarrow> Inr None
            | Some x \<Rightarrow> map_sum id Some (normalizePackReviewCanonicalRepository (json_to_string x))) (\<lambda>repository.
     let keyRepository = canonicalRepositoryFromRunKey key prNumber targetSha in
     if key \<noteq> packReviewRunKey prNumber targetSha \<and> \<not> (keyRepository \<noteq> None \<and> (repository = None \<or> repository = keyRepository))
     then Inl (corrupt path ''key does not match PR/head/repository'')
     else
     rbind (requiredString (map_of raw ''status'') ''status'' path) (\<lambda>statusText.
     (case status_of statusText of
        None \<Rightarrow> Inl (corrupt path (''unknown status '' @ single_quoted statusText))
      | Some status \<Rightarrow>
     rbind (requiredString (map_of raw ''createdAt'') ''createdAt'' path) (\<lambda>createdAt.
     rbind (requiredString (map_of raw ''updatedAt'') ''updatedAt'' path) (\<lambda>updatedAt.
     rbind (parse_accounting raw path) (\<lambda>accounting.
     rbind (parse_reviewer raw runIdentity path) (\<lambda>reviewer.
     rbind (parse_round raw accounting reviewer path) (\<lambda>(reviewRound, digest).
     rbind (verify_census raw reviewRound status path) (\<lambda>_.
     rbind (requiredString (js_coalesce (map_of raw ''runId'') (map_of raw ''id'')) ''runId'' path) (\<lambda>runId.
     rbind (requiredString (js_coalesce (map_of raw ''headSha'') (map_of raw ''targetSha'')) ''headSha'' path) (\<lambda>headText.
     rbind (normalizePackReviewHeadSha headText) (\<lambda>headSha.
     rbind (optional_check (\<lambda>x. requiredPositiveInteger x ''sameKeyOrder'' path) (map_of raw ''sameKeyOrder'')) (\<lambda>sameKeyOrder.
     Inr \<lparr>rr_id = runIdentity, rr_runId = runId, rr_projectId = projectId, rr_key = key, rr_prNumber = prNumber,
          rr_targetSha = targetSha, rr_headSha = headSha, rr_status = status,
          rr_labels = \<lparr>rl_latestRunStatus = string_or (status_text status) (map_of raw ''latestRunStatus''),
             rl_linkedSessionId = string_or [] (map_of raw ''linkedSessionId''), rl_startReason = string_or [] (map_of raw ''startReason''),
             rl_surface = string_or [] (map_of raw ''surface''), rl_trustedPackRoot = string_or [] (map_of raw ''trustedPackRoot'')\<rparr>,
          rr_sourceRepoRoot = string_or [] (map_of raw ''sourceRepoRoot''), rr_accounting = accounting, rr_reviewer = reviewer,
          rr_reviewRound = reviewRound, rr_boundDigest = digest,
          rr_runnerPid = num_or_zero (number_integer (map_of raw ''runnerPid'')),
          rr_createdAt = createdAt, rr_updatedAt = updatedAt,
          rr_heartbeatAtUtc = string_or updatedAt (map_of raw ''heartbeatAtUtc''), rr_sameKeyOrder = sameKeyOrder,
          rr_verdict = verdict_of (map_of raw ''reviewVerdict''), rr_findingCount = json_integer (map_of raw ''findingCount''),
          rr_findings = json_array (map_of raw ''findings''), rr_journal = json_object (map_of raw ''journalOutcome''),
          rr_delivery = (case json_object (map_of raw ''deliveryOutcomes'') of None \<Rightarrow> [] | Some o' \<Rightarrow> o'),
          rr_repository = repository, rr_rest = without_keys run_keys raw\<rparr>))))))))))))))))))))"

section \<open>Writing\<close>

definition native_json :: "native_attempt \<Rightarrow> json" where
  "native_json a = JObj (js_spread []
     [(''schema'', Some (JStr ''pack-review-native-attempt/v1'')), (''reviewer'', Some (JStr (na_reviewer a))),
      (''invocationOrdinal'', Some (JInt (na_invocationOrdinal a))), (''startedAtUtc'', Some (JStr (na_startedAtUtc a))),
      (''effectiveBudgetMs'', Some (JInt (na_effectiveBudgetMs a))), (''wrapperPid'', map_option JInt (na_wrapperPid a)),
      (''processGroupId'', map_option JInt (na_processGroupId a)), (''childPid'', map_option JInt (na_childPid a)),
      (''childProcessGroupId'', map_option JInt (na_childProcessGroupId a)),
      (''childStartedAtUtc'', map_option JStr (na_childStartedAtUtc a))])"

definition run_fields :: "run_record \<Rightarrow> js_patch" where
  "run_fields r =
     [(''schemaVersion'', Some (JInt 1)), (''id'', Some (JStr (rr_id r))), (''runId'', Some (JStr (rr_runId r))),
      (''projectId'', Some (JStr (rr_projectId r))), (''key'', Some (JStr (rr_key r))), (''prNumber'', Some (JInt (rr_prNumber r))),
      (''targetSha'', Some (JStr (rr_targetSha r))), (''headSha'', Some (JStr (rr_headSha r))),
      (''status'', Some (JStr (status_text (rr_status r)))),
      (''latestRunStatus'', Some (JStr (rl_latestRunStatus (rr_labels r)))),
      (''linkedSessionId'', Some (JStr (rl_linkedSessionId (rr_labels r)))),
      (''startReason'', Some (JStr (rl_startReason (rr_labels r)))), (''surface'', Some (JStr (rl_surface (rr_labels r)))),
      (''trustedPackRoot'', Some (JStr (rl_trustedPackRoot (rr_labels r)))),
      (''sourceRepoRoot'', Some (JStr (rr_sourceRepoRoot r))),
      (''automaticBudgetDisposition'', Some (JStr (run_disposition_text (ra_disposition (rr_accounting r))))),
      (''accountingVersion'', map_option JStr (ra_accountingVersion (rr_accounting r))),
      (''reviewCycleId'', map_option JStr (ra_reviewCycleId (rr_accounting r))),
      (''logicalRoundOrdinal'', map_option JInt (ra_logicalRoundOrdinal (rr_accounting r))),
      (''logicalRoundCap'', map_option JInt (ra_logicalRoundCap (rr_accounting r))),
      (''resolvedReviewer'', map_option JStr (rv_resolved (rr_reviewer r))),
      (''resolvedReviewerSource'', rv_resolvedSource (rr_reviewer r)),
      (''executedReviewer'', rv_executed (rr_reviewer r)),
      (''reviewerExecutionRunId'', map_option JStr (rv_executionRunId (rr_reviewer r))),
      (''reviewerInvokedForThisRun'', map_option JBool (rv_invoked (rr_reviewer r))),
      (''nativeAttempt'', map_option native_json (rv_nativeAttempt (rr_reviewer r))),
      (''reviewRound'', map_option round_json (rr_reviewRound r)),
      (''boundIssueSnapshotDigest'', map_option JStr (rr_boundDigest r)), (''runnerPid'', Some (JInt (rr_runnerPid r))),
      (''createdAt'', Some (JStr (rr_createdAt r))), (''updatedAt'', Some (JStr (rr_updatedAt r))),
      (''heartbeatAtUtc'', Some (JStr (rr_heartbeatAtUtc r))), (''sameKeyOrder'', map_option JInt (rr_sameKeyOrder r)),
      (''reviewVerdict'', map_option (\<lambda>v. JStr (run_verdict_text v)) (rr_verdict r)),
      (''findingCount'', map_option JInt (rr_findingCount r)), (''findings'', Some (JArr (rr_findings r))),
      (''journalOutcome'', map_option JObj (rr_journal r)), (''deliveryOutcomes'', Some (JObj (rr_delivery r))),
      (''canonicalRepository'', map_option JStr (rr_repository r))]"

definition run_object :: "run_record \<Rightarrow> js_object" where
  "run_object r = js_spread (rr_rest r) (run_fields r)"

end
