(* ===== verification/Run_Record_Facts.thy ===== *)
theory Run_Record_Facts
  imports Run_Record
begin

text \<open>
  What \<open>parseRecord\<close> guarantees: a record it returns is returned again when it is written and
  read, its fields are in normal form, and the verdict of a GPT run is the one its source slots
  determine.
\<close>

section \<open>The chain of checks\<close>

text \<open>Everything \<open>parseRecord\<close> requires, field by field; the path only enters error texts.\<close>

definition parsed_as :: "js_object \<Rightarrow> run_record \<Rightarrow> bool" where
  "parsed_as raw r \<longleftrightarrow>
     number_integer (map_of raw ''schemaVersion'') = Some 1
     \<and> text_value (map_of raw ''id'') = Some (rr_id r) \<and> run_id_ok (rr_id r)
     \<and> text_value (map_of raw ''projectId'') = Some (rr_projectId r)
     \<and> positive_number (map_of raw ''prNumber'') = Some (rr_prNumber r)
     \<and> (\<exists>t. text_value (map_of raw ''targetSha'') = Some t \<and> accepted (normalizePackReviewHeadSha t) = Some (rr_targetSha r))
     \<and> text_value (map_of raw ''key'') = Some (rr_key r)
     \<and> (case map_of raw ''canonicalRepository'' of
          None \<Rightarrow> Some None
        | Some x \<Rightarrow> map_option Some (accepted (normalizePackReviewCanonicalRepository (json_to_string x)))) = Some (rr_repository r)
     \<and> (rr_key r = packReviewRunKey (rr_prNumber r) (rr_targetSha r)
        \<or> canonicalRepositoryFromRunKey (rr_key r) (rr_prNumber r) (rr_targetSha r) \<noteq> None
          \<and> (rr_repository r = None \<or> rr_repository r = canonicalRepositoryFromRunKey (rr_key r) (rr_prNumber r) (rr_targetSha r)))
     \<and> Option.bind (text_value (map_of raw ''status'')) status_of = Some (rr_status r)
     \<and> text_value (map_of raw ''createdAt'') = Some (rr_createdAt r)
     \<and> text_value (map_of raw ''updatedAt'') = Some (rr_updatedAt r)
     \<and> accepted (parse_accounting raw []) = Some (rr_accounting r)
     \<and> accepted (parse_reviewer raw (rr_id r) []) = Some (rr_reviewer r)
     \<and> accepted (parse_round raw (rr_accounting r) (rr_reviewer r) []) = Some (rr_reviewRound r, rr_boundDigest r)
     \<and> accepted (verify_census raw (rr_reviewRound r) (rr_status r) []) = Some ()
     \<and> text_value (js_coalesce (map_of raw ''runId'') (map_of raw ''id'')) = Some (rr_runId r)
     \<and> (\<exists>t. text_value (js_coalesce (map_of raw ''headSha'') (map_of raw ''targetSha'')) = Some t
          \<and> accepted (normalizePackReviewHeadSha t) = Some (rr_headSha r))
     \<and> (case map_of raw ''sameKeyOrder'' of None \<Rightarrow> Some None | Some x \<Rightarrow> map_option Some (positive_number (Some x)))
         = Some (rr_sameKeyOrder r)
     \<and> rr_labels r = \<lparr>rl_latestRunStatus = string_or (status_text (rr_status r)) (map_of raw ''latestRunStatus''),
             rl_linkedSessionId = string_or [] (map_of raw ''linkedSessionId''), rl_startReason = string_or [] (map_of raw ''startReason''),
             rl_surface = string_or [] (map_of raw ''surface''), rl_trustedPackRoot = string_or [] (map_of raw ''trustedPackRoot'')\<rparr>
     \<and> rr_sourceRepoRoot r = string_or [] (map_of raw ''sourceRepoRoot'')
     \<and> rr_runnerPid r = num_or_zero (number_integer (map_of raw ''runnerPid''))
     \<and> rr_heartbeatAtUtc r = string_or (rr_updatedAt r) (map_of raw ''heartbeatAtUtc'')
     \<and> rr_verdict r = verdict_of (map_of raw ''reviewVerdict'') \<and> rr_findingCount r = json_integer (map_of raw ''findingCount'')
     \<and> rr_findings r = json_array (map_of raw ''findings'') \<and> rr_journal r = json_object (map_of raw ''journalOutcome'')
     \<and> rr_delivery r = (case json_object (map_of raw ''deliveryOutcomes'') of None \<Rightarrow> [] | Some o' \<Rightarrow> o')
     \<and> rr_rest r = without_keys run_keys raw"

subsection \<open>The path does not matter\<close>

lemma evidence_accept: "accepted (validateGptTerminalEvidence s p) = (if evidence_ok s then Some () else None)"
  using accepted_evidence [of s p] by (cases "accepted (validateGptTerminalEvidence s p)") auto

lemma slot_accept_path: "accepted (normalize_slot c p seen v) = accepted (normalize_slot c q seen v)"
  by (simp add: normalize_slot_def accepted_simps Let_def evidence_accept cong: branch_congs)

lemma slots_accept_path: "accepted (normalize_slots c p seen i vs) = accepted (normalize_slots c q seen i vs)"
proof (induction vs arbitrary: seen i)
  case (Cons v vs)
  show ?case
    using Cons slot_accept_path [of c "slot_path p i" seen v "slot_path q i"]
    by (simp add: accepted_simps case_prod_beta cong: branch_congs)
qed (simp add: accepted_simps)

lemma settled_accept_path: "accepted (settled_count a t c slots p v) = accepted (settled_count a t c slots q v)"
  by (simp add: settled_count_def accepted_simps cong: branch_congs)

lemma round_accept_path: "accepted (normalizePackReviewGptRoundRecord v p) = accepted (normalizePackReviewGptRoundRecord v q)"
  by (simp add: normalizePackReviewGptRoundRecord_def accepted_simps Let_def slots_accept_path [of _ p _ _ _ q]
      settled_accept_path [of _ _ _ _ p _ q] cong: branch_congs)

lemma accounting_path: "accepted (parse_accounting raw p) = accepted (parse_accounting raw q)"
  by (simp add: parse_accounting_def normalizeAutomaticBudgetDisposition_def accepted_simps Let_def cong: branch_congs)

lemma native_path: "accepted (normalizePackReviewNativeAttempt v p) = accepted (normalizePackReviewNativeAttempt v q)"
  by (simp add: normalizePackReviewNativeAttempt_def accepted_simps Let_def cong: branch_congs)

lemma reviewer_path: "accepted (parse_reviewer raw i p) = accepted (parse_reviewer raw i q)"
  by (simp add: parse_reviewer_def reviewer_guards_def accepted_simps Let_def native_path [of _ p q] cong: branch_congs)

lemma parse_round_path: "accepted (parse_round raw a v p) = accepted (parse_round raw a v q)"
  by (simp add: parse_round_def accepted_simps round_accept_path [of _ p q] cong: branch_congs)

lemma complete_path: "accepted (assertCompleteGptRound r p) = accepted (assertCompleteGptRound r q)"
proof -
  have "accepted (rall (\<lambda>s. if sl_lifecycle s \<noteq> Slot_Terminal
          then require (gr_settled r \<noteq> None) (corrupt p (''mandatory source slot '' @ sl_slotId s @ '' is not terminal''))
          else validateGptTerminalEvidence s (slot_merge_path p s)) slots)
      = accepted (rall (\<lambda>s. if sl_lifecycle s \<noteq> Slot_Terminal
          then require (gr_settled r \<noteq> None) (corrupt q (''mandatory source slot '' @ sl_slotId s @ '' is not terminal''))
          else validateGptTerminalEvidence s (slot_merge_path q s)) slots)" for slots
    by (induction slots) (simp_all add: accepted_simps evidence_accept cong: branch_congs)
  then show ?thesis by (simp add: assertCompleteGptRound_def accepted_simps cong: branch_congs)
qed

lemma aggregate_path: "accepted (assertGptRoundAggregate r v n fs p) = accepted (assertGptRoundAggregate r v n fs q)"
  by (simp add: assertGptRoundAggregate_def deriveCompleteGptRoundAggregate_def accepted_simps Let_def complete_path [of _ p q]
      cong: branch_congs)

lemma census_path: "accepted (verify_census raw r st p) = accepted (verify_census raw r st q)"
  by (cases r) (simp_all add: verify_census_def accepted_simps Let_def aggregate_path [of _ _ _ _ p "''p''"]
      aggregate_path [of _ _ _ _ q "''p''"] aggregate_path [of _ _ _ _ "''<record>''" "''p''"] cong: branch_congs)

lemma record_eq_iff:
  "r = (r' :: run_record) \<longleftrightarrow> rr_id r = rr_id r' \<and> rr_runId r = rr_runId r' \<and> rr_projectId r = rr_projectId r' \<and> rr_key r = rr_key r'
     \<and> rr_prNumber r = rr_prNumber r' \<and> rr_targetSha r = rr_targetSha r' \<and> rr_headSha r = rr_headSha r' \<and> rr_status r = rr_status r'
     \<and> rr_labels r = rr_labels r' \<and> rr_sourceRepoRoot r = rr_sourceRepoRoot r' \<and> rr_accounting r = rr_accounting r'
     \<and> rr_reviewer r = rr_reviewer r' \<and> rr_reviewRound r = rr_reviewRound r' \<and> rr_boundDigest r = rr_boundDigest r'
     \<and> rr_runnerPid r = rr_runnerPid r' \<and> rr_createdAt r = rr_createdAt r' \<and> rr_updatedAt r = rr_updatedAt r'
     \<and> rr_heartbeatAtUtc r = rr_heartbeatAtUtc r' \<and> rr_sameKeyOrder r = rr_sameKeyOrder r' \<and> rr_verdict r = rr_verdict r'
     \<and> rr_findingCount r = rr_findingCount r' \<and> rr_findings r = rr_findings r' \<and> rr_journal r = rr_journal r'
     \<and> rr_delivery r = rr_delivery r' \<and> rr_repository r = rr_repository r' \<and> rr_rest r = rr_rest r'"
  by (cases r; cases r') simp

lemma parseRunRecord_iff: "parseRunRecord (Some (JObj raw)) p = Inr r \<longleftrightarrow> parsed_as raw r"
proof -
  note paths = accounting_path [of raw p "[]"] reviewer_path [of raw _ p "[]"] parse_round_path [of raw _ _ p "[]"] census_path [of raw _ _ p "[]"]
  show ?thesis
    unfolding parseRunRecord_def accepted_Inr parsed_as_def
    apply (simp add: accepted_simps accepted_chain Let_def paths case_prod_beta record_eq_iff [of _ r] cong: branch_congs)
    apply (rule iffI; clarsimp)
    done
qed

section \<open>Reading what was written\<close>

lemma text_value_trimmed: "text_value v = Some s \<Longrightarrow> trimmed s"
  by (auto simp: text_value_def trimPackReviewValue_def split: if_splits)

lemma text_value_JStr [simp]: "trimmed s \<Longrightarrow> text_value (Some (JStr s)) = Some s"
  by (simp add: text_value_def trimmed_def)

lemma string_value_trimmed: "string_value v = Some s \<Longrightarrow> trimmed s"
  by (auto simp: string_value_Some)

lemma read_optional_string: "(case v of None \<Rightarrow> Some None | Some x \<Rightarrow> map_option Some (string_value (Some x))) = Some w
    \<Longrightarrow> (case w of None \<Rightarrow> Some None | Some x \<Rightarrow> map_option Some (string_value (Some (JStr x)))) = Some w"
  by (rule optional_trimmed) (rule optional_string_ok)

lemma read_optional_positive: "(case v of None \<Rightarrow> Some None | Some x \<Rightarrow> map_option Some (positive_value (Some x))) = Some w
    \<Longrightarrow> (case w of None \<Rightarrow> Some None | Some x \<Rightarrow> map_option Some (positive_value (Some (JInt x)))) = Some w"
  by (rule optional_positive) (rule optional_positive_ok)

lemma read_disposition:
  "accepted (normalizeAutomaticBudgetDisposition (Some (JStr (run_disposition_text d))) p) = Some d"
  by (cases d) (simp_all add: normalizeAutomaticBudgetDisposition_def accepted_simps)

lemma accounting_reread:
  assumes "accepted (parse_accounting raw p) = Some a"
    and "map_of raw' ''automaticBudgetDisposition'' = Some (JStr (run_disposition_text (ra_disposition a)))"
    and "map_of raw' ''accountingVersion'' = map_option JStr (ra_accountingVersion a)"
    and "map_of raw' ''reviewCycleId'' = map_option JStr (ra_reviewCycleId a)"
    and "map_of raw' ''logicalRoundOrdinal'' = map_option JInt (ra_logicalRoundOrdinal a)"
    and "map_of raw' ''logicalRoundCap'' = map_option JInt (ra_logicalRoundCap a)"
  shows "accepted (parse_accounting raw' q) = Some a"
  using assms(1) unfolding parse_accounting_def
  by (clarsimp simp: accepted_simps accepted_chain assms(2-6) read_disposition
      dest!: read_optional_string read_optional_positive cong: branch_congs)

lemma native_json_get:
  assumes "native_json a = JObj obj"
  shows "map_of obj ''schema'' = Some (JStr ''pack-review-native-attempt/v1'')" "map_of obj ''reviewer'' = Some (JStr (na_reviewer a))"
    "map_of obj ''invocationOrdinal'' = Some (JInt (na_invocationOrdinal a))"
    "map_of obj ''startedAtUtc'' = Some (JStr (na_startedAtUtc a))"
    "map_of obj ''effectiveBudgetMs'' = Some (JInt (na_effectiveBudgetMs a))"
    "map_of obj ''wrapperPid'' = map_option JInt (na_wrapperPid a)"
    "map_of obj ''processGroupId'' = map_option JInt (na_processGroupId a)"
    "map_of obj ''childPid'' = map_option JInt (na_childPid a)"
    "map_of obj ''childProcessGroupId'' = map_option JInt (na_childProcessGroupId a)"
    "map_of obj ''childStartedAtUtc'' = map_option JStr (na_childStartedAtUtc a)"
  using assms by (auto simp: native_json_def map_of_js_spread)

lemma native_reread:
  assumes "accepted (normalizePackReviewNativeAttempt v p) = Some w"
  shows "accepted (normalizePackReviewNativeAttempt (map_option native_json w) q) = Some w"
proof (cases w)
  case None
  then show ?thesis by (simp add: normalizePackReviewNativeAttempt_def accepted_simps)
next
  case (Some a)
  obtain obj where obj: "native_json a = JObj obj" by (simp add: native_json_def)
  note get = native_json_get [OF obj]
  show ?thesis
    using assms unfolding normalizePackReviewNativeAttempt_def Some option.map obj
    apply (clarsimp simp: accepted_simps accepted_chain Let_def get positive_value_Some
      dest!: read_optional_string read_optional_positive string_value_trimmed cong: branch_congs)
    apply auto
    done
qed

text \<open>The guards of the reviewer fields, on the fields themselves.\<close>

definition reviewer_bad :: "string \<Rightarrow> string option \<Rightarrow> json option \<Rightarrow> json option \<Rightarrow> string option \<Rightarrow> bool option \<Rightarrow> bool" where
  "reviewer_bad i resolved source executed execution invoked \<longleftrightarrow>
     (case resolved of None \<Rightarrow> False | Some s \<Rightarrow> s \<notin> set reviewer_names)
     \<or> (case source of None \<Rightarrow> False | Some j \<Rightarrow> json_to_string j \<notin> set reviewer_sources)
     \<or> source \<noteq> None \<and> resolved = None
     \<or> (case executed of None \<Rightarrow> False | Some j \<Rightarrow> json_to_string j \<notin> set reviewer_names)
     \<or> execution \<noteq> None \<and> js_trim (the execution) = []
     \<or> (executed \<noteq> None \<and> execution = None \<or> invoked \<noteq> None \<and> execution = None \<or> execution \<noteq> None \<and> invoked = None)
     \<or> invoked = Some True \<and> (execution \<noteq> Some i \<or> executed = None \<or> executed \<noteq> map_option JStr resolved)
     \<or> invoked = Some False \<and> execution = Some i"

lemma is_string_Some: "is_string v \<longleftrightarrow> (\<exists>s. v = Some (JStr s))"
  by (cases v rule: is_string.cases) auto

lemma reviewer_guards_iff:
  assumes "map_of raw ''reviewerExecutionRunId'' = map_option JStr e" "map_of raw ''reviewerInvokedForThisRun'' = map_option JBool b"
  shows "list_all (\<lambda>g. \<not> fst g) (reviewer_guards raw i p) \<longleftrightarrow>
    \<not> reviewer_bad i (map_option json_to_string (map_of raw ''resolvedReviewer'')) (map_of raw ''resolvedReviewerSource'')
        (map_of raw ''executedReviewer'') e b"
  unfolding reviewer_guards_def reviewer_bad_def Let_def assms list.pred_inject fst_conv
  by (cases e; cases b) (simp_all add: conj_ac)

lemma string_form: "v = None \<or> is_string v \<Longrightarrow> \<exists>e. v = map_option JStr e"
proof (elim disjE)
  assume "is_string v"
  then obtain s where "v = map_option JStr (Some s)" by (auto simp: is_string_Some)
  then show ?thesis by blast
qed (rule exI [of _ None], simp)

lemma guard_form: "\<not> (a \<noteq> None \<and> (\<not> b \<or> c)) \<Longrightarrow> a = None \<or> b"
  by blast

lemma reviewer_guards_forms:
  assumes "list_all (\<lambda>g. \<not> fst g) (reviewer_guards raw i p)"
  shows "(\<exists>e. map_of raw ''reviewerExecutionRunId'' = map_option JStr e) \<and> (\<exists>b. map_of raw ''reviewerInvokedForThisRun'' = map_option JBool b)"
proof -
  have "map_of raw ''reviewerExecutionRunId'' = None \<or> is_string (map_of raw ''reviewerExecutionRunId'')"
    and b: "map_of raw ''reviewerInvokedForThisRun'' \<in> {None, Some (JBool True), Some (JBool False)}"
    using assms unfolding reviewer_guards_def Let_def list.pred_inject fst_conv
    apply -
     apply (elim conjE, erule guard_form)
    apply (elim conjE, erule notnotD)
    done
  then have "\<exists>e. map_of raw ''reviewerExecutionRunId'' = map_option JStr e"
    by (intro string_form)
  moreover have "map_of raw ''reviewerInvokedForThisRun'' \<in> {map_option JBool None, map_option JBool (Some True), map_option JBool (Some False)}"
    using b by simp
  ultimately show ?thesis by blast
qed

lemma reviewer_reread:
  assumes "accepted (parse_reviewer raw i p) = Some w"
    and "map_of raw' ''resolvedReviewer'' = map_option JStr (rv_resolved w)"
    and "map_of raw' ''resolvedReviewerSource'' = rv_resolvedSource w" and "map_of raw' ''executedReviewer'' = rv_executed w"
    and "map_of raw' ''reviewerExecutionRunId'' = map_option JStr (rv_executionRunId w)"
    and "map_of raw' ''reviewerInvokedForThisRun'' = map_option JBool (rv_invoked w)"
    and "map_of raw' ''nativeAttempt'' = map_option native_json (rv_nativeAttempt w)"
  shows "accepted (parse_reviewer raw' i q) = Some w"
proof -
  have gs: "list_all (\<lambda>g. \<not> fst g) (reviewer_guards raw i p)"
    and na: "accepted (normalizePackReviewNativeAttempt (map_of raw ''nativeAttempt'') p) = Some (rv_nativeAttempt w)"
    and mm: "\<not> (case (rv_nativeAttempt w, rv_resolved w) of (Some a, Some r) \<Rightarrow> na_reviewer a \<noteq> r | _ \<Rightarrow> False)"
    and fs: "rv_resolved w = map_option json_to_string (map_of raw ''resolvedReviewer'')"
      "rv_resolvedSource w = map_of raw ''resolvedReviewerSource''" "rv_executed w = map_of raw ''executedReviewer''"
      "rv_executionRunId w = map_option (\<lambda>v. json_string (Some v)) (map_of raw ''reviewerExecutionRunId'')"
      "rv_invoked w = map_option (\<lambda>v. v = JBool True) (map_of raw ''reviewerInvokedForThisRun'')"
    using assms(1) by (clarsimp simp: parse_reviewer_def accepted_simps accepted_chain Let_def cong: branch_congs)+
  obtain e b where eb: "map_of raw ''reviewerExecutionRunId'' = map_option JStr e" "map_of raw ''reviewerInvokedForThisRun'' = map_option JBool b"
    using reviewer_guards_forms [OF gs] by blast
  have eb': "rv_executionRunId w = e" "rv_invoked w = b"
    using fs(4,5) eb by (cases e; cases b; simp)+
  have res: "map_option json_to_string (map_option JStr (rv_resolved w)) = rv_resolved w" by (cases "rv_resolved w") simp_all
  have "list_all (\<lambda>g. \<not> fst g) (reviewer_guards raw' i q)"
    unfolding reviewer_guards_iff [OF assms(5,6)] using gs [unfolded reviewer_guards_iff [OF eb]] fs(1-3) eb' res assms(2-4) by simp
  moreover have "map_option (\<lambda>v. v = JBool True) (map_option JBool (rv_invoked w)) = rv_invoked w" by (cases "rv_invoked w") simp_all
  ultimately show ?thesis
    using mm res native_reread [OF na, of q] by (simp add: parse_reviewer_def accepted_simps Let_def assms(2-7) read_version cong: branch_congs)
qed

lemma parse_round_Some:
  "accepted (parse_round raw a v p) = Some (rd, dg) \<longleftrightarrow>
     (if nullish (map_of raw ''reviewRound'') then rd = None
      else \<exists>r. rd = Some r \<and> normalizePackReviewGptRoundRecord (map_of raw ''reviewRound'') p = Inr r)
     \<and> (case map_of raw ''boundIssueSnapshotDigest'' of None \<Rightarrow> Some None | Some x \<Rightarrow> map_option Some (string_value (Some x))) = Some dg
     \<and> opt_all (\<lambda>r. (dg = None \<or> dg = Some (gr_boundDigest r)) \<and> round_identity_ok a v r) rd"
proof -
  let ?d = "case map_of raw ''boundIssueSnapshotDigest'' of None \<Rightarrow> Some None | Some x \<Rightarrow> map_option Some (string_value (Some x))"
  have d: "accepted (optional_check (\<lambda>x. requiredJsonString x ''boundIssueSnapshotDigest'' p) (map_of raw ''boundIssueSnapshotDigest'')) = ?d"
    by (simp add: accepted_simps cong: branch_congs)
  show ?thesis
  proof (cases "nullish (map_of raw ''reviewRound'')")
    case True
    then show ?thesis unfolding parse_round_def accepted_basic d by (cases ?d) (auto simp: accepted_simps)
  next
    case False
    show ?thesis
    proof (cases "accepted (normalizePackReviewGptRoundRecord (map_of raw ''reviewRound'') p)")
      case None
      with False show ?thesis unfolding parse_round_def accepted_basic accepted_Inr by auto
    next
      case (Some r)
      with False show ?thesis unfolding parse_round_def accepted_basic accepted_Inr d
        by (cases ?d) (auto simp: accepted_simps)
    qed
  qed
qed

lemma parse_round_reread:
  assumes "accepted (parse_round raw a v p) = Some (rd, dg)"
    and "map_of raw' ''reviewRound'' = map_option round_json rd" "map_of raw' ''boundIssueSnapshotDigest'' = map_option JStr dg"
  shows "accepted (parse_round raw' a v q) = Some (rd, dg)"
proof (cases rd)
  case None
  then show ?thesis using assms(1) read_optional_string [of "map_of raw ''boundIssueSnapshotDigest''" dg]
    unfolding parse_round_Some assms(2,3) by (cases dg) auto
next
  case (Some r)
  then have "gpt_round_ok r"
    using assms(1) unfolding parse_round_Some by (auto dest: normalize_round_ok split: if_splits)
  moreover have "\<not> nullish (Some (round_json r))" by (simp add: round_json_def)
  ultimately show ?thesis
    using assms(1) read_optional_string [of "map_of raw ''boundIssueSnapshotDigest''" dg]
    unfolding parse_round_Some assms(2,3) Some by (cases dg) (auto simp: normalize_round_json split: if_splits)
qed

lemma verdict_of_text: "verdict_of (map_option (\<lambda>v. JStr (run_verdict_text v)) v) = v"
  by (cases v; cases "the v") (auto simp: verdict_of_def)

lemma verdict_of_Some: "v = Some (JStr t) \<Longrightarrow> verdict_of v = Some w \<Longrightarrow> t = run_verdict_text w"
  by (auto simp: verdict_of_def split: if_splits)

lemma aggregate_Some:
  "accepted (assertGptRoundAggregate r v n fs p) = Some () \<longleftrightarrow>
     (\<exists>ag xs. accepted (deriveCompleteGptRoundAggregate r p) = Some ag \<and> v = Some (JStr (ag_reviewVerdict ag))
        \<and> n = Some (JInt (int (ag_findingCount ag))) \<and> fs = Some (JArr xs) \<and> isDeepStrictEqual (JArr xs) (JArr (ag_findings ag)))"
  unfolding assertGptRoundAggregate_def
  by (simp add: accepted_simps accepted_chain natural_value_Some cong: branch_congs) blast

lemma derived_verdict: "accepted (deriveCompleteGptRoundAggregate r p) = Some ag \<Longrightarrow>
    verdict_of (Some (JStr (ag_reviewVerdict ag))) = Some (if ag_findings ag = [] then Verdict_Clean else Verdict_Findings)
    \<and> ag_reviewVerdict ag = run_verdict_text (if ag_findings ag = [] then Verdict_Clean else Verdict_Findings)"
  by (auto simp: deriveCompleteGptRoundAggregate_def accepted_simps accepted_chain Let_def verdict_of_def)

text \<open>The fields of a record the census is checked against.\<close>

definition census_checked :: "gpt_round option \<Rightarrow> run_status \<Rightarrow> run_verdict option \<Rightarrow> int option \<Rightarrow> json list \<Rightarrow> js_object option \<Rightarrow> bool" where
  "census_checked rd st v n fs j \<longleftrightarrow>
     opt_all (\<lambda>r. (st \<in> set PACK_REVIEW_VERDICT_TERMINAL_STATUSES \<or> v \<noteq> None \<or> journal_persisted j) \<longrightarrow>
        (hasNonHarvestIncompleteGptSource r \<longrightarrow> list_ex blocking_finding fs)
        \<and> accepted (assertGptRoundAggregate r (map_option (\<lambda>v. JStr (run_verdict_text v)) v) (map_option JInt n) (Some (JArr fs)) []) = Some ()) rd"

lemma census_read:
  assumes "accepted (verify_census raw rd st p) = Some ()"
  shows "census_checked rd st (verdict_of (map_of raw ''reviewVerdict'')) (json_integer (map_of raw ''findingCount''))
    (json_array (map_of raw ''findings'')) (json_object (map_of raw ''journalOutcome''))"
proof (cases rd)
  case (Some r)
  let ?v = "map_of raw ''reviewVerdict''" and ?n = "map_of raw ''findingCount''" and ?fs = "map_of raw ''findings''"
  have keep: "accepted (assertGptRoundAggregate r (map_option (\<lambda>v. JStr (run_verdict_text v)) (verdict_of ?v)) (map_option JInt (json_integer ?n))
      (Some (JArr (json_array ?fs))) []) = Some ()"
    if a: "accepted (assertGptRoundAggregate r ?v ?n ?fs q) = Some ()" for q
  proof -
    from a aggregate_path [of r ?v ?n ?fs q "[]"] obtain ag xs where
      d: "accepted (deriveCompleteGptRoundAggregate r []) = Some ag" and
      e: "?v = Some (JStr (ag_reviewVerdict ag))" "?n = Some (JInt (int (ag_findingCount ag)))" "?fs = Some (JArr xs)"
        "isDeepStrictEqual (JArr xs) (JArr (ag_findings ag))"
      by (auto simp: aggregate_Some)
    show ?thesis using derived_verdict [OF d] d e by (auto simp: aggregate_Some json_array_def simp del: run_verdict_text.simps)
  qed
  then show ?thesis using assms Some
    by (auto simp: verify_census_def accepted_simps census_checked_def Let_def split: if_splits)
qed (simp add: census_checked_def)

lemma census_write:
  assumes "census_checked rd st v n fs j"
    and "map_of raw ''reviewVerdict'' = map_option (\<lambda>v. JStr (run_verdict_text v)) v" "map_of raw ''findingCount'' = map_option JInt n"
    and "map_of raw ''findings'' = Some (JArr fs)" "map_of raw ''journalOutcome'' = map_option JObj j"
  shows "accepted (verify_census raw rd st p) = Some ()"
proof (cases rd)
  case (Some r)
  have j: "json_object (map_option JObj j) = j" by (cases j) (simp_all add: json_object_def)
  have a: "accepted (assertGptRoundAggregate r x y z q) = accepted (assertGptRoundAggregate r x y z [])" for x y z q
    by (rule aggregate_path)
  define decided where "decided \<longleftrightarrow> st \<in> set PACK_REVIEW_VERDICT_TERMINAL_STATUSES \<or> v \<noteq> None \<or> journal_persisted j"
  have "accepted (verify_census raw rd st p) =
    (if decided then if hasNonHarvestIncompleteGptSource r \<and> \<not> list_ex blocking_finding fs then None
       else accepted (assertGptRoundAggregate r (map_option (\<lambda>v. JStr (run_verdict_text v)) v) (map_option JInt n) (Some (JArr fs)) (if p = [] then ''<record>'' else p))
     else Some ())"
    unfolding decided_def
    by (simp add: Some verify_census_def accepted_simps Let_def assms(2-5) j verdict_of_text json_array_def cong: branch_congs)
  then show ?thesis using assms(1) a [of _ _ _ "if p = [] then ''<record>'' else p"]
    unfolding census_checked_def Some opt_all_simps decided_def by (auto simp del: aggregate_Some)
qed (simp add: verify_census_def accepted_simps)

section \<open>The record\<close>

lemma run_object_get: "map_of (run_object r) k = (case map_of (run_fields r) k of None \<Rightarrow> map_of (rr_rest r) k | Some v \<Rightarrow> v)"
  by (simp add: run_object_def map_of_js_spread)

lemma run_object_rest: "without_keys run_keys (run_object r) = without_keys run_keys (rr_rest r)"
  unfolding run_object_def by (rule without_keys_spread) (simp add: run_fields_def run_keys_def)

text \<open>The properties of the object, one by one.\<close>

lemma run_object_props:
  "map_of (run_object r) ''schemaVersion'' = Some (JInt 1)" "map_of (run_object r) ''id'' = Some (JStr (rr_id r))"
  "map_of (run_object r) ''runId'' = Some (JStr (rr_runId r))" "map_of (run_object r) ''projectId'' = Some (JStr (rr_projectId r))"
  "map_of (run_object r) ''key'' = Some (JStr (rr_key r))" "map_of (run_object r) ''prNumber'' = Some (JInt (rr_prNumber r))"
  "map_of (run_object r) ''targetSha'' = Some (JStr (rr_targetSha r))" "map_of (run_object r) ''headSha'' = Some (JStr (rr_headSha r))"
  "map_of (run_object r) ''status'' = Some (JStr (status_text (rr_status r)))"
  "map_of (run_object r) ''createdAt'' = Some (JStr (rr_createdAt r))" "map_of (run_object r) ''updatedAt'' = Some (JStr (rr_updatedAt r))"
  "map_of (run_object r) ''sameKeyOrder'' = map_option JInt (rr_sameKeyOrder r)"
  "map_of (run_object r) ''runnerPid'' = Some (JInt (rr_runnerPid r))"
  "map_of (run_object r) ''heartbeatAtUtc'' = Some (JStr (rr_heartbeatAtUtc r))"
  "map_of (run_object r) ''sourceRepoRoot'' = Some (JStr (rr_sourceRepoRoot r))"
  "map_of (run_object r) ''canonicalRepository'' = map_option JStr (rr_repository r)"
  by (simp_all add: run_object_get run_fields_def)

lemma run_object_labels:
  "map_of (run_object r) ''latestRunStatus'' = Some (JStr (rl_latestRunStatus (rr_labels r)))"
  "map_of (run_object r) ''linkedSessionId'' = Some (JStr (rl_linkedSessionId (rr_labels r)))"
  "map_of (run_object r) ''startReason'' = Some (JStr (rl_startReason (rr_labels r)))"
  "map_of (run_object r) ''surface'' = Some (JStr (rl_surface (rr_labels r)))"
  "map_of (run_object r) ''trustedPackRoot'' = Some (JStr (rl_trustedPackRoot (rr_labels r)))"
  by (simp_all add: run_object_get run_fields_def)

lemma run_object_accounting:
  "map_of (run_object r) ''automaticBudgetDisposition'' = Some (JStr (run_disposition_text (ra_disposition (rr_accounting r))))"
  "map_of (run_object r) ''accountingVersion'' = map_option JStr (ra_accountingVersion (rr_accounting r))"
  "map_of (run_object r) ''reviewCycleId'' = map_option JStr (ra_reviewCycleId (rr_accounting r))"
  "map_of (run_object r) ''logicalRoundOrdinal'' = map_option JInt (ra_logicalRoundOrdinal (rr_accounting r))"
  "map_of (run_object r) ''logicalRoundCap'' = map_option JInt (ra_logicalRoundCap (rr_accounting r))"
  by (simp_all add: run_object_get run_fields_def)

lemma run_object_reviewer:
  "map_of (run_object r) ''resolvedReviewer'' = map_option JStr (rv_resolved (rr_reviewer r))"
  "map_of (run_object r) ''resolvedReviewerSource'' = rv_resolvedSource (rr_reviewer r)"
  "map_of (run_object r) ''executedReviewer'' = rv_executed (rr_reviewer r)"
  "map_of (run_object r) ''reviewerExecutionRunId'' = map_option JStr (rv_executionRunId (rr_reviewer r))"
  "map_of (run_object r) ''reviewerInvokedForThisRun'' = map_option JBool (rv_invoked (rr_reviewer r))"
  "map_of (run_object r) ''nativeAttempt'' = map_option native_json (rv_nativeAttempt (rr_reviewer r))"
  by (simp_all add: run_object_get run_fields_def)

lemma run_object_verdict:
  "map_of (run_object r) ''reviewRound'' = map_option round_json (rr_reviewRound r)"
  "map_of (run_object r) ''boundIssueSnapshotDigest'' = map_option JStr (rr_boundDigest r)"
  "map_of (run_object r) ''reviewVerdict'' = map_option (\<lambda>v. JStr (run_verdict_text v)) (rr_verdict r)"
  "map_of (run_object r) ''findingCount'' = map_option JInt (rr_findingCount r)"
  "map_of (run_object r) ''findings'' = Some (JArr (rr_findings r))"
  "map_of (run_object r) ''journalOutcome'' = map_option JObj (rr_journal r)"
  "map_of (run_object r) ''deliveryOutcomes'' = Some (JObj (rr_delivery r))"
  by (simp_all add: run_object_get run_fields_def)

lemmas run_object_all = run_object_props run_object_labels run_object_accounting run_object_reviewer run_object_verdict

subsection \<open>Normal forms\<close>

lemma sha_trimmed: "is_sha s \<Longrightarrow> trimmed s"
proof -
  assume s: "is_sha s"
  have no: "c \<in> set s \<Longrightarrow> \<not> js_space c" for c
    using s by (auto simp: is_sha_def list_all_iff is_lower_hex_def is_digit_def js_space_def)
  have "s \<noteq> []" using s by (auto simp: is_sha_def)
  then show ?thesis using js_trim_fixed [of s] no by (simp add: trimmed_def)
qed

lemma head_sha_Some: "accepted (normalizePackReviewHeadSha t) = Some s \<longleftrightarrow> s = sha_of t \<and> is_sha s"
  by (auto simp: normalizePackReviewHeadSha_def accepted_simps)

lemma repository_Some: "accepted (normalizePackReviewCanonicalRepository t) = Some s \<longleftrightarrow> s = js_trim t \<and> repository_slug s"
  by (auto simp: normalizePackReviewCanonicalRepository_def accepted_simps)

lemma status_of_text [simp]: "status_of (status_text st) = Some st"
  by (cases st) (simp_all add: status_of_def PACK_REVIEW_ACTIVE_STATUSES_def PACK_REVIEW_TERMINAL_STATUSES_def)

lemma status_trimmed [simp]: "trimmed (status_text st)"
  by (cases st) (simp_all add: trimmed_def js_trim_def js_space_def)

lemma positive_number_JInt: "positive_number (Some (JInt n)) = Some m \<longleftrightarrow> m = n \<and> 0 < n"
  by (auto simp: positive_number_def)

lemma positive_number_pos: "positive_number v = Some n \<Longrightarrow> 0 < n"
  by (auto simp: positive_number_def split: option.splits if_splits)

lemma reread_order: "(case v of None \<Rightarrow> Some None | Some x \<Rightarrow> map_option Some (positive_number (Some x))) = Some w \<Longrightarrow>
   (case map_option JInt w of None \<Rightarrow> Some None | Some x \<Rightarrow> map_option Some (positive_number (Some x))) = Some w"
  by (auto simp: positive_number_JInt dest: positive_number_pos split: option.splits)

lemma reread_repository:
  "(case v of None \<Rightarrow> Some None | Some x \<Rightarrow> map_option Some (accepted (normalizePackReviewCanonicalRepository (json_to_string x)))) = Some w \<Longrightarrow>
   (case map_option JStr w of None \<Rightarrow> Some None
    | Some x \<Rightarrow> map_option Some (accepted (normalizePackReviewCanonicalRepository (json_to_string x)))) = Some w"
  by (auto simp: repository_Some split: option.splits)

lemma json_integer_JInt: "json_integer (map_option JInt n) = n"
  by (cases n) simp_all

lemma json_object_JObj: "json_object (map_option JObj j) = j"
  by (cases j) (simp_all add: json_object_def)

lemma parsed_reread:
  assumes "parsed_as raw r"
  shows "parsed_as (run_object r) r"
proof -
  note d = assms [unfolded parsed_as_def]
  from d have tr: "trimmed (rr_id r)" "trimmed (rr_projectId r)" "trimmed (rr_key r)" "trimmed (rr_createdAt r)"
      "trimmed (rr_updatedAt r)" "trimmed (rr_runId r)"
    by (auto dest: text_value_trimmed)
  from d have sha: "is_sha (rr_targetSha r)" "is_sha (rr_headSha r)" by (auto simp: head_sha_Some)
  from d have acc: "accepted (parse_accounting (run_object r) []) = Some (rr_accounting r)"
    using accounting_reread [of raw "[]" "rr_accounting r" "run_object r" "[]"] by (simp add: run_object_accounting)
  from d have rev: "accepted (parse_reviewer (run_object r) (rr_id r) []) = Some (rr_reviewer r)"
    using reviewer_reread [of raw "rr_id r" "[]" "rr_reviewer r" "run_object r" "[]"] by (simp add: run_object_reviewer)
  from d have rnd: "accepted (parse_round (run_object r) (rr_accounting r) (rr_reviewer r) []) = Some (rr_reviewRound r, rr_boundDigest r)"
    using parse_round_reread [of raw _ _ "[]" "rr_reviewRound r" "rr_boundDigest r" "run_object r" "[]"] by (simp add: run_object_verdict)
  from d have cen: "accepted (verify_census (run_object r) (rr_reviewRound r) (rr_status r) []) = Some ()"
    using census_read [of raw "rr_reviewRound r" "rr_status r" "[]"]
    by (intro census_write) (simp_all add: run_object_verdict)
  from d have ord: "(case map_option JInt (rr_sameKeyOrder r) of None \<Rightarrow> Some None | Some x \<Rightarrow> map_option Some (positive_number (Some x)))
      = Some (rr_sameKeyOrder r)" by (intro reread_order) blast
  from d have rep: "(case map_option JStr (rr_repository r) of None \<Rightarrow> Some None
      | Some x \<Rightarrow> map_option Some (accepted (normalizePackReviewCanonicalRepository (json_to_string x)))) = Some (rr_repository r)"
    by (intro reread_repository) blast
  from d have pr: "0 < rr_prNumber r" by (auto dest: positive_number_pos)
  have del: "(case json_object (Some (JObj (rr_delivery r))) of None \<Rightarrow> [] | Some o' \<Rightarrow> o') = rr_delivery r" by (simp add: json_object_def)
  show ?thesis
    unfolding parsed_as_def run_object_props run_object_labels run_object_verdict run_object_rest
    using d acc rev rnd cen ord rep pr del sha sha_trimmed [OF sha(1)] sha_trimmed [OF sha(2)] tr
    by (auto simp: positive_number_JInt head_sha_Some sha_of_fixed js_coalesce_def verdict_of_text json_integer_JInt json_object_JObj
        json_array_def num_or_zero_def)
qed

end
