(* ===== verification/Run_Order.thy ===== *)
theory Run_Order
  imports Run_Record_Facts Node_Path
begin

text \<open>
  Which runs are runs of the same target and which of them is the newest,
  \<open>scripts/lib/pack-review-run-store.ts\<close>: identity, staleness, and the order of the runs of one
  pull request head. The clock, \<open>Date.parse\<close>, the process table and the environment variables are
  the fields of \<open>run_env\<close>.
\<close>

section \<open>The environment\<close>

datatype rename_result = Renamed | Rename_Failed string string

record run_env =
  re_clock :: int
  re_now :: "int option"
  re_isoText :: "int \<Rightarrow> string"
  re_dateParse :: "string \<Rightarrow> int option"
  re_cwd :: string
  re_pid :: int
  re_uuid :: string
  re_staleSetting :: "string option"
  re_kill :: "int \<Rightarrow> kill_result"
  re_probe :: "nat \<Rightarrow> lock_probe"
  re_rename :: "nat \<Rightarrow> rename_result"

text \<open>\<open>options.now ?? new Date()\<close>.\<close>

definition now_ms :: "run_env \<Rightarrow> int" where
  "now_ms env = (case re_now env of None \<Rightarrow> re_clock env | Some n \<Rightarrow> n)"

section \<open>Identity\<close>

definition record_repository :: "run_record \<Rightarrow> string option" where
  "record_repository r = or_else (rr_repository r) (canonicalRepositoryFromRunKey (rr_key r) (rr_prNumber r) (rr_targetSha r))"

definition samePackReviewRunIdentity :: "string \<Rightarrow> run_record \<Rightarrow> run_record \<Rightarrow> bool" where
  "samePackReviewRunIdentity cwd left right \<longleftrightarrow>
     rr_projectId left = rr_projectId right \<and> rr_prNumber left = rr_prNumber right \<and> rr_targetSha left = rr_targetSha right
     \<and> (case (record_repository left, record_repository right) of
          (Some a, Some b) \<Rightarrow> a = b
        | _ \<Rightarrow> rr_sourceRepoRoot left \<noteq> [] \<and> rr_sourceRepoRoot right \<noteq> []
               \<and> path_resolve cwd (rr_sourceRepoRoot left) = path_resolve cwd (rr_sourceRepoRoot right))"

definition matchesPackReviewRunInput ::
  "string \<Rightarrow> run_record \<Rightarrow> string \<Rightarrow> int \<Rightarrow> string \<Rightarrow> string option \<Rightarrow> string \<Rightarrow> string option \<Rightarrow> int option \<Rightarrow> bool" where
  "matchesPackReviewRunInput cwd r projectId prNumber headSha canonicalRepository sourceRepoRoot reviewCycleId logicalRoundOrdinal \<longleftrightarrow>
     rr_projectId r = projectId \<and> rr_prNumber r = prNumber \<and> rr_targetSha r = headSha
     \<and> (reviewCycleId \<noteq> None \<longrightarrow> ra_reviewCycleId (rr_accounting r) = reviewCycleId)
     \<and> (logicalRoundOrdinal \<noteq> None \<longrightarrow> ra_logicalRoundOrdinal (rr_accounting r) = logicalRoundOrdinal)
     \<and> (case (canonicalRepository, record_repository r) of
          (Some a, Some b) \<Rightarrow> a = b
        | _ \<Rightarrow> sourceRepoRoot \<noteq> [] \<and> rr_sourceRepoRoot r \<noteq> []
               \<and> path_resolve cwd sourceRepoRoot = path_resolve cwd (rr_sourceRepoRoot r))"

section \<open>Staleness\<close>

text \<open>\<open>Math.floor(Number(s))\<close> of a decimal literal with a fraction.\<close>

definition decimal_floor :: "string \<Rightarrow> int option" where
  "decimal_floor s =
     (let (sign, body) = split_sign s;
          mantissa = takeWhile (\<lambda>c. \<not> exponent_char c) body;
          rest = drop (length mantissa) body;
          whole = takeWhile (\<lambda>c. c \<noteq> CHR ''.'') mantissa;
          fraction = drop (Suc (length whole)) mantissa;
          (esign, edigits) = split_sign (drop 1 rest);
          shift = (if rest = [] then 0 else esign * digits_int edigits) - int (length fraction)
      in if \<not> list_all is_digit (whole @ fraction) \<or> whole @ fraction = []
            \<or> rest \<noteq> [] \<and> (edigits = [] \<or> \<not> list_all is_digit edigits)
         then None
         else if 0 \<le> shift then Some (sign * digits_int (whole @ fraction) * 10 ^ nat shift)
         else Some ((sign * digits_int (whole @ fraction)) div (10 ^ nat (- shift))))"

definition number_floor :: "string \<Rightarrow> int option" where
  "number_floor s = (case string_integer s of Some n \<Rightarrow> Some n | None \<Rightarrow> decimal_floor (js_trim s))"

definition packReviewRunStaleMinutes :: "string option \<Rightarrow> int" where
  "packReviewRunStaleMinutes setting =
     (case setting of
        None \<Rightarrow> 10
      | Some s \<Rightarrow> (case number_floor s of None \<Rightarrow> 10 | Some n \<Rightarrow> max 2 n))"

definition packReviewRunGraceElapsed :: "run_env \<Rightarrow> run_record \<Rightarrow> int \<Rightarrow> bool" where
  "packReviewRunGraceElapsed env r now =
     (case re_dateParse env (if rr_heartbeatAtUtc r = [] then rr_updatedAt r else rr_heartbeatAtUtc r) of
        None \<Rightarrow> True
      | Some heartbeat \<Rightarrow> packReviewRunStaleMinutes (re_staleSetting env) * 60000 \<le> now - heartbeat)"

definition isPackReviewRunStale :: "run_env \<Rightarrow> run_record \<Rightarrow> int \<Rightarrow> bool" where
  "isPackReviewRunStale env r now \<longleftrightarrow>
     rr_status r \<in> set PACK_REVIEW_ACTIVE_STATUSES \<and> packReviewRunGraceElapsed env r now
     \<and> \<not> processAlive (re_kill env) (rr_runnerPid r)"

text \<open>The row a reader sees of a stale run.\<close>

definition consumerRow :: "run_env \<Rightarrow> run_record \<Rightarrow> int \<Rightarrow> run_record" where
  "consumerRow env r now =
     (if \<not> isPackReviewRunStale env r now then r
      else r\<lparr>rr_status := Run_Failed, rr_labels := (rr_labels r)\<lparr>rl_latestRunStatus := ''failed''\<rparr>,
             rr_rest := js_spread (rr_rest r)
               [(''failureReason'', Some (JStr PACK_REVIEW_STALE_FAILURE_REASON)), (''stale'', Some (JBool True))]\<rparr>)"

section \<open>The order of the runs of one head\<close>

text \<open>\<open>Some n\<close> is the sign of the comparison, \<open>None\<close> that it cannot be decided.\<close>

definition compareSameKeyRuns :: "(string \<Rightarrow> int option) \<Rightarrow> run_record \<Rightarrow> run_record \<Rightarrow> int option" where
  "compareSameKeyRuns date left right =
     (case (rr_sameKeyOrder left, rr_sameKeyOrder right) of
        (Some a, Some b) \<Rightarrow>
          if a = b
          then (case (ra_logicalRoundOrdinal (rr_accounting left), ra_logicalRoundOrdinal (rr_accounting right)) of
                  (Some i, Some j) \<Rightarrow>
                    if ra_reviewCycleId (rr_accounting left) \<noteq> None
                       \<and> ra_reviewCycleId (rr_accounting left) = ra_reviewCycleId (rr_accounting right)
                       \<and> 0 < i \<and> 0 < j \<and> i \<noteq> j
                    then Some (if j < i then 1 else -1) else None
                | _ \<Rightarrow> None)
          else Some (if b < a then 1 else -1)
      | (Some a, None) \<Rightarrow> Some 1
      | (None, Some b) \<Rightarrow> Some (-1)
      | (None, None) \<Rightarrow>
          (case (date (rr_createdAt left), date (rr_createdAt right)) of
             (Some x, Some y) \<Rightarrow> if x = y then None else Some (if y < x then 1 else -1)
           | _ \<Rightarrow> None))"

text \<open>Two equal finite times; the time of an unreadable date is \<open>NaN\<close>, equal to nothing.\<close>

fun equal_dates :: "(string \<Rightarrow> int option) \<Rightarrow> run_record list \<Rightarrow> bool" where
  "equal_dates date [] \<longleftrightarrow> False"
| "equal_dates date (r # rs) \<longleftrightarrow>
     (date (rr_createdAt r) \<noteq> None \<and> list_ex (\<lambda>s. date (rr_createdAt s) = date (rr_createdAt r)) rs) \<or> equal_dates date rs"

definition hasLegacyOrderAmbiguity :: "run_env \<Rightarrow> run_record list \<Rightarrow> run_record \<Rightarrow> bool" where
  "hasLegacyOrderAmbiguity env records run \<longleftrightarrow>
     (let sameKey = filter (\<lambda>r. samePackReviewRunIdentity (re_cwd env) r run) records in
      \<not> list_ex (\<lambda>r. rr_sameKeyOrder r \<noteq> None) sameKey
      \<and> equal_dates (re_dateParse env) (filter (\<lambda>r. rr_sameKeyOrder r = None) sameKey))"

datatype run_order = Order_Newer run_record | Order_None | Order_Ambiguous

fun newest_after :: "run_env \<Rightarrow> run_record \<Rightarrow> run_record option \<Rightarrow> run_record list \<Rightarrow> run_order" where
  "newest_after env run newer [] = (case newer of None \<Rightarrow> Order_None | Some n \<Rightarrow> Order_Newer n)"
| "newest_after env run newer (c # cs) =
     (if \<not> samePackReviewRunIdentity (re_cwd env) c run \<or> rr_id c = rr_id run then newest_after env run newer cs
      else (case compareSameKeyRuns (re_dateParse env) c run of
        None \<Rightarrow> Order_Ambiguous
      | Some comparison \<Rightarrow>
          if comparison \<le> 0 then newest_after env run newer cs
          else (case newer of
            None \<Rightarrow> newest_after env run (Some c) cs
          | Some n \<Rightarrow> (case compareSameKeyRuns (re_dateParse env) c n of
              None \<Rightarrow> Order_Ambiguous
            | Some latest \<Rightarrow> newest_after env run (Some (if 0 < latest then c else n)) cs))))"

definition resolvePackReviewRunOrder :: "run_env \<Rightarrow> run_record list \<Rightarrow> run_record \<Rightarrow> run_order" where
  "resolvePackReviewRunOrder env records run =
     (if hasLegacyOrderAmbiguity env records run then Order_Ambiguous else newest_after env run None records)"

definition order_error :: "string \<Rightarrow> run_error" where
  "order_error key = ''ambiguous pack review run order for '' @ key @ '': legacy_order_ambiguous''"

fun latest_of :: "run_env \<Rightarrow> (run_record \<Rightarrow> string) \<Rightarrow> run_record \<Rightarrow> run_record list \<Rightarrow> run_error + run_record" where
  "latest_of env key latest [] = Inr latest"
| "latest_of env key latest (c # cs) =
     (case compareSameKeyRuns (re_dateParse env) c latest of
        None \<Rightarrow> Inl (order_error (key latest))
      | Some comparison \<Rightarrow> latest_of env key (if 0 < comparison then c else latest) cs)"

definition selectLatestSameKeyRun :: "run_env \<Rightarrow> run_record list \<Rightarrow> run_record list \<Rightarrow> run_error + run_record option" where
  "selectLatestSameKeyRun env records candidates =
     (case candidates of
        [] \<Rightarrow> Inr None
      | reference # others \<Rightarrow>
          (case filter (\<lambda>c. rr_sameKeyOrder c \<noteq> None) candidates of
             first # cs \<Rightarrow> map_sum id Some (latest_of env rr_key first cs)
           | [] \<Rightarrow>
               if hasLegacyOrderAmbiguity env records reference then Inl (order_error (rr_key reference))
               else map_sum id Some (latest_of env (\<lambda>_. rr_key reference) reference others)))"

definition advisory_run :: "run_record \<Rightarrow> bool" where
  "advisory_run r \<longleftrightarrow> ra_disposition (rr_accounting r) = Disp_Non_Consuming_Explicit"

definition resolvePackReviewRequiredRunOrder :: "run_env \<Rightarrow> run_record list \<Rightarrow> run_record \<Rightarrow> run_order" where
  "resolvePackReviewRequiredRunOrder env records run =
     (if advisory_run run then Order_None
      else resolvePackReviewRunOrder env (filter (\<lambda>c. \<not> advisory_run c) records) run)"

definition hasNewerPackReviewRunForKey :: "run_env \<Rightarrow> run_record list \<Rightarrow> run_record \<Rightarrow> bool" where
  "hasNewerPackReviewRunForKey env records run \<longleftrightarrow>
     (case resolvePackReviewRunOrder env records run of Order_Newer n \<Rightarrow> True | _ \<Rightarrow> False)"

end
