(* ===== verification/Run_Store.thy ===== *)
theory Run_Store
  imports Run_Order
begin

text \<open>
  The store of review runs, \<open>scripts/lib/pack-review-run-store.ts\<close>: its lock, the files it reads
  and writes, and the update of one run. A store is the content of the \<open>runs\<close> directory with the
  review authority kept under the same root. The lock is a directory taken and released within one
  synchronous call, so a call sees and leaves the store as a whole; the probes of the environment
  say what each attempt to take it meets.
\<close>

section \<open>The root and the lock\<close>

record root_options =
  ro_projectId :: "string option"
  ro_storeRoot :: "string option"
  ro_envStoreRoot :: "string option"
  ro_envStateRoot :: "string option"
  ro_home :: string

definition resolvePackReviewRunStoreRoot :: "string \<Rightarrow> root_options \<Rightarrow> string" where
  "resolvePackReviewRunStoreRoot cwd o' =
     (case ro_storeRoot o' of
        Some (c # cs) \<Rightarrow> path_resolve cwd (c # cs)
      | _ \<Rightarrow>
          let explicit = (case ro_envStoreRoot o' of None \<Rightarrow> [] | Some s \<Rightarrow> js_trim s);
              state = (case ro_envStateRoot o' of None \<Rightarrow> [] | Some s \<Rightarrow> js_trim s)
          in if explicit \<noteq> [] then path_resolve cwd explicit
             else path_join [if state \<noteq> [] then state else path_join [ro_home o', ''.orchestrator-pack''], ''review-runs'',
                    normalizePackReviewProjectId (case ro_projectId o' of None \<Rightarrow> ''orchestrator-pack'' | Some p \<Rightarrow> p)])"

definition lockIsAbandoned :: "(int \<Rightarrow> kill_result) \<Rightarrow> int option \<Rightarrow> int option \<Rightarrow> bool" where
  "lockIsAbandoned kill owner_pid age_ms =
     (if (case owner_pid of None \<Rightarrow> False | Some pid \<Rightarrow> 0 < pid) then \<not> processAlive kill (the owner_pid)
      else (case age_ms of None \<Rightarrow> False | Some age \<Rightarrow> 30000 \<le> age))"

text \<open>What the loop does at each attempt that finds the lock held, and how it ends.\<close>

datatype lock_action = Lock_Removed | Lock_Waited

fun acquire_from ::
  "(nat \<Rightarrow> lock_probe) \<Rightarrow> (int \<Rightarrow> kill_result) \<Rightarrow> nat \<Rightarrow> nat \<Rightarrow> lock_action list \<times> (run_error + unit)" where
  "acquire_from probe kill attempt 0 = ([], Inl ''pack review run store unavailable: store_lock_timeout'')"
| "acquire_from probe kill attempt (Suc left) =
     (case probe attempt of
        Lock_Free \<Rightarrow> ([], Inr ())
      | Lock_Held message owner age \<Rightarrow>
          let (actions, outcome) = acquire_from probe kill (Suc attempt) left
          in ((if lockIsAbandoned kill owner age then Lock_Removed else Lock_Waited) # actions, outcome))"

definition acquireStoreLock :: "run_env \<Rightarrow> lock_action list \<times> (run_error + unit)" where
  "acquireStoreLock env = acquire_from (re_probe env) (re_kill env) 0 400"

definition withStoreLock :: "run_env \<Rightarrow> (run_error + 'a) \<Rightarrow> run_error + 'a" where
  "withStoreLock env action = rbind (snd (acquireStoreLock env)) (\<lambda>_. action)"

section \<open>Files\<close>

datatype run_file = Run_Broken string | Run_Json json

record run_store =
  st_root :: string
  st_files :: "(string \<times> run_file) list"
  st_authority :: review_store

definition recordsDir :: "string \<Rightarrow> string" where
  "recordsDir root = path_join [root, ''runs'']"

definition run_file_name :: "string \<Rightarrow> string" where
  "run_file_name runId = runId @ ''.json''"

definition recordPath :: "string \<Rightarrow> string \<Rightarrow> run_error + string" where
  "recordPath root runId =
     (if \<not> run_id_ok runId then Inl (''invalid pack review run id '' @ single_quoted runId)
      else Inr (path_join [recordsDir root, run_file_name runId]))"

definition put_file :: "string \<Rightarrow> run_file \<Rightarrow> (string \<times> run_file) list \<Rightarrow> (string \<times> run_file) list" where
  "put_file name f files =
     (if map_of files name = None then files @ [(name, f)] else map (\<lambda>e. if fst e = name then (name, f) else e) files)"

text \<open>\<open>renameSync\<close>, tried four times while the error is transient.\<close>

definition TRANSIENT_RENAME_ERROR_CODES :: "string list" where
  "TRANSIENT_RENAME_ERROR_CODES = [''EACCES'', ''EBUSY'', ''EPERM'']"

fun rename_from :: "(nat \<Rightarrow> rename_result) \<Rightarrow> string \<Rightarrow> nat \<Rightarrow> nat \<Rightarrow> run_error + unit" where
  "rename_from outcome path attempt 0 = Inr ()"
| "rename_from outcome path attempt (Suc left) =
     (case outcome attempt of
        Renamed \<Rightarrow> Inr ()
      | Rename_Failed code message \<Rightarrow>
          if code \<notin> set TRANSIENT_RENAME_ERROR_CODES then Inl message
          else if left = 0
          then Inl (''pack review run store atomic replace failed: rename_retry_exhausted code='' @ code
                 @ '' attempts=4 destination='' @ path)
          else rename_from outcome path (Suc attempt) left)"

definition renameRecordWithRetry :: "run_env \<Rightarrow> string \<Rightarrow> run_error + unit" where
  "renameRecordWithRetry env path = rename_from (re_rename env) path 1 4"

section \<open>Reading\<close>

fun read_files :: "string \<Rightarrow> string list \<Rightarrow> (string \<times> run_file) list \<Rightarrow> run_error + run_record list" where
  "read_files root ids [] = Inr []"
| "read_files root ids ((name, f) # rest) =
     (if \<not> js_ends_with ''.json'' name then read_files root ids rest
      else
        let path = path_join [recordsDir root, name] in
        (case f of
           Run_Broken message \<Rightarrow> Inl (''corrupt pack review run record at '' @ path @ '': '' @ message)
         | Run_Json parsed \<Rightarrow>
             rbind (parseRunRecord (Some parsed) path) (\<lambda>r.
             if take (length name - 5) name \<noteq> rr_id r
             then Inl (''corrupt pack review run record at '' @ path @ '': filename/id mismatch'')
             else if rr_id r \<in> set ids
             then Inl (''ambiguous pack review run store: duplicate run id '' @ single_quoted (rr_id r))
             else rbind (read_files root (rr_id r # ids) rest) (\<lambda>rs. Inr (r # rs)))))"

definition multiple_active :: "string \<Rightarrow> run_error" where
  "multiple_active key = ''ambiguous pack review run store: multiple active records for '' @ key"

definition live_run :: "run_env \<Rightarrow> run_record \<Rightarrow> bool" where
  "live_run env r \<longleftrightarrow> rr_status r \<in> set PACK_REVIEW_ACTIVE_STATUSES \<and> \<not> isPackReviewRunStale env r (re_clock env)"

fun single_active :: "run_env \<Rightarrow> run_record list \<Rightarrow> run_record list \<Rightarrow> run_error + unit" where
  "single_active env seen [] = Inr ()"
| "single_active env seen (r # rs) =
     (if \<not> live_run env r then single_active env seen rs
      else if list_ex (\<lambda>c. samePackReviewRunIdentity (re_cwd env) c r) seen then Inl (multiple_active (rr_key r))
      else single_active env (seen @ [r]) rs)"

definition readRecordsUnlocked :: "run_env \<Rightarrow> run_store \<Rightarrow> run_error + run_record list" where
  "readRecordsUnlocked env st =
     rbind (read_files (st_root st) [] (st_files st)) (\<lambda>records.
     rbind (single_active env [] records) (\<lambda>_. Inr records))"

definition of_project :: "string option \<Rightarrow> run_record \<Rightarrow> bool" where
  "of_project projectId r \<longleftrightarrow> (case projectId of None \<Rightarrow> True | Some p \<Rightarrow> p = [] \<or> rr_projectId r = p)"

definition listPackReviewRunRecordsRaw :: "run_env \<Rightarrow> run_store \<Rightarrow> string option \<Rightarrow> run_error + run_record list" where
  "listPackReviewRunRecordsRaw env st projectId =
     withStoreLock env (map_sum id (filter (of_project projectId)) (readRecordsUnlocked env st))"

definition listPackReviewRunRecordsReadonly :: "run_env \<Rightarrow> run_store \<Rightarrow> string option \<Rightarrow> run_error + run_record list" where
  "listPackReviewRunRecordsReadonly env st projectId =
     map_sum id (filter (of_project projectId)) (readRecordsUnlocked env st)"

text \<open>One record: \<open>None\<close> when there is no such file.\<close>

definition read_run :: "run_store \<Rightarrow> string \<Rightarrow> run_error + run_record option" where
  "read_run st runId =
     rbind (recordPath (st_root st) runId) (\<lambda>path.
     (case map_of (st_files st) (run_file_name runId) of
        None \<Rightarrow> Inr None
      | Some (Run_Broken message) \<Rightarrow> Inl message
      | Some (Run_Json j) \<Rightarrow> map_sum id Some (parseRunRecord (Some j) path)))"

definition not_found :: "string \<Rightarrow> run_error" where
  "not_found runId = ''pack review run not found: '' @ runId"

definition existing_run :: "run_store \<Rightarrow> string \<Rightarrow> run_error + run_record" where
  "existing_run st runId = rbind (read_run st runId) (\<lambda>r. case r of None \<Rightarrow> Inl (not_found runId) | Some x \<Rightarrow> Inr x)"

definition getPackReviewRun :: "run_env \<Rightarrow> run_store \<Rightarrow> string \<Rightarrow> run_error + run_record option" where
  "getPackReviewRun env st runId = withStoreLock env (read_run st runId)"

definition validatePersistedPackReviewGptAggregate ::
  "run_env \<Rightarrow> run_store \<Rightarrow> string \<Rightarrow> json option \<Rightarrow> json option \<Rightarrow> json option \<Rightarrow> run_error + gpt_aggregate" where
  "validatePersistedPackReviewGptAggregate env st runId reviewVerdict findingCount findings =
     withStoreLock env
       (rbind (recordPath (st_root st) runId) (\<lambda>path.
        rbind (existing_run st runId) (\<lambda>r.
        (case rr_reviewRound r of
           None \<Rightarrow> Inl (''pack review run '' @ runId @ '' has no persisted GPT round'')
         | Some round \<Rightarrow>
             rbind (assertGptRoundAggregate round reviewVerdict findingCount findings path) (\<lambda>_.
             deriveCompleteGptRoundAggregate round path)))))"

section \<open>Writing\<close>

definition writeRecordUnlocked :: "run_env \<Rightarrow> run_store \<Rightarrow> string \<Rightarrow> js_object \<Rightarrow> bool \<Rightarrow> run_error + run_store" where
  "writeRecordUnlocked env st runId obj createOnly =
     rbind (recordPath (st_root st) runId) (\<lambda>path.
     if createOnly \<and> map_of (st_files st) (run_file_name runId) \<noteq> None
     then Inl (''pack review run already exists: '' @ runId)
     else
     rbind (parseRunRecord (Some (JObj obj)) path) (\<lambda>validated.
     rbind (renameRecordWithRetry env path) (\<lambda>_.
     Inr (st\<lparr>st_files := put_file (run_file_name runId) (Run_Json (JObj (run_object validated))) (st_files st)\<rparr>))))"

end
