(* ===== verification/Run_Update.thy ===== *)
theory Run_Update
  imports Run_Store
begin

text \<open>
  The update of a run, \<open>buildUpdatedPackReviewRun\<close> and its callers in
  \<open>scripts/lib/pack-review-run-store.ts\<close>: the changes are spread over the stored record,
  and what is frozen is put back over them before the result is checked and written.
\<close>

text \<open>\<open>fields.k\<close>: a key of the patch may be present with the value \<open>undefined\<close>.\<close>

definition patch_value :: "js_patch \<Rightarrow> string \<Rightarrow> json option" where
  "patch_value changes k = (case map_of changes k of None \<Rightarrow> None | Some v \<Rightarrow> v)"

text \<open>\<open>value?.k\<close>, \<open>a === b\<close> and \<open>Boolean(value)\<close>; two objects read from different places are never the same one.\<close>

definition js_prop :: "json option \<Rightarrow> string \<Rightarrow> json option" where
  "js_prop v k = (case v of None \<Rightarrow> None | Some j \<Rightarrow> json_field j k)"

definition js_same :: "json option \<Rightarrow> json option \<Rightarrow> bool" where
  "js_same a b \<longleftrightarrow> a = b \<and> (case a of Some (JObj _) \<Rightarrow> False | Some (JArr _) \<Rightarrow> False | _ \<Rightarrow> True)"

definition truthy :: "json option \<Rightarrow> bool" where
  "truthy v \<longleftrightarrow> v \<notin> {None, Some JNull, Some (JBool False), Some (JInt 0), Some (JStr [])}"

definition date_of :: "run_env \<Rightarrow> json option \<Rightarrow> int option" where
  "date_of env v = (case v of None \<Rightarrow> None | Some j \<Rightarrow> re_dateParse env (json_to_string j))"

section \<open>Delivery outcomes\<close>

text \<open>Whether the stored outcome of a channel is kept against an incoming one.\<close>

definition keeps_delivery :: "run_env \<Rightarrow> run_record \<Rightarrow> string \<Rightarrow> json \<Rightarrow> bool" where
  "keeps_delivery env existing channel incoming =
     (let current = map_of (rr_delivery existing) channel;
          present = truthy current;
          sameKey = js_same (js_prop current ''idempotencyKey'') (json_field incoming ''idempotencyKey'');
          olderSnapshot = (present \<and> sameKey \<and>
            (case (date_of env (js_prop current ''recordedAtUtc''), date_of env (json_field incoming ''recordedAtUtc'')) of
               (Some currentAt, Some incomingAt) \<Rightarrow> incomingAt < currentAt | _ \<Rightarrow> False));
          submittedDowngrade = (present \<and> sameKey
            \<and> js_prop current ''state'' \<in> {Some (JStr ''succeeded''), Some (JStr ''delivered'')}
            \<and> json_field incoming ''state'' = Some (JStr ''escalated''));
          obsoleteVerdictStatus = (channel = ''requiredStatus'' \<and> present \<and> hasPersistedPackReviewVerdict existing
            \<and> js_prop current ''idempotencyKey''
                = Some (JStr (''required-status:orchestrator-pack/pack-review:'' @ rr_targetSha existing))
            \<and> \<not> sameKey)
      in olderSnapshot \<or> submittedDowngrade \<or> obsoleteVerdictStatus)"

definition merge_delivery_channel :: "run_env \<Rightarrow> run_record \<Rightarrow> js_object \<Rightarrow> js_object \<Rightarrow> string \<Rightarrow> js_object" where
  "merge_delivery_channel env existing incoming merged channel =
     (case map_of incoming channel of
        None \<Rightarrow> merged
      | Some outcome \<Rightarrow>
          if \<not> truthy (Some outcome) \<or> keeps_delivery env existing channel outcome then merged
          else js_set merged channel (Some outcome))"

definition merge_delivery :: "run_env \<Rightarrow> run_record \<Rightarrow> js_patch \<Rightarrow> js_object" where
  "merge_delivery env existing changes =
     (let incoming = (case json_object (patch_value changes ''deliveryOutcomes'') of None \<Rightarrow> [] | Some o' \<Rightarrow> o')
      in foldl (merge_delivery_channel env existing incoming) (rr_delivery existing) (remdups (map fst incoming)))"

section \<open>The updated record\<close>

definition staleNoJudgmentTerminal :: "run_record \<Rightarrow> js_patch \<Rightarrow> bool" where
  "staleNoJudgmentTerminal existing changes \<longleftrightarrow>
     is_string (patch_value changes ''failureReason'')
     \<and> js_starts_with ''gpt_source_non_complete:'' (json_string (patch_value changes ''failureReason''))
     \<and> hasPersistedPackReviewVerdict existing"

definition aggregate_committed :: "run_store \<Rightarrow> run_record \<Rightarrow> run_error + bool" where
  "aggregate_committed st existing =
     map_sum authority_message
       (\<lambda>d. case d of None \<Rightarrow> False
            | Some doc \<Rightarrow> (case ad_terminal doc of None \<Rightarrow> False | Some t \<Rightarrow> at_run_id t = rr_id existing))
       (readAuthorityUnlocked (st_authority st) (rr_prNumber existing))"

definition allowPreAggregateSeverityUpdate :: "run_record \<Rightarrow> js_patch \<Rightarrow> bool \<Rightarrow> bool" where
  "allowPreAggregateSeverityUpdate existing changes aggregateCommitted \<longleftrightarrow>
     hasPersistedPackReviewVerdict existing \<and> \<not> aggregateCommitted \<and> rr_reviewRound existing = None
     \<and> patch_value changes ''findings'' \<noteq> None \<and> patch_value changes ''reviewVerdict'' = None
     \<and> patch_value changes ''findingCount'' = None \<and> patch_value changes ''journalOutcome'' = None"

definition stored_fields :: "run_record \<Rightarrow> string list \<Rightarrow> js_patch" where
  "stored_fields existing keys = map (\<lambda>k. (k, map_of (run_object existing) k)) keys"

definition update_overrides :: "run_env \<Rightarrow> run_record \<Rightarrow> js_patch \<Rightarrow> bool \<Rightarrow> js_patch" where
  "update_overrides env existing changes aggregateCommitted =
     (let updatedAt = JStr (re_isoText env (now_ms env));
          kept_or_set = (\<lambda>k. (k, js_coalesce (map_of (run_object existing) k) (patch_value changes k)))
      in
      [(''heartbeatAtUtc'',
        if string_or (status_text (rr_status existing)) (patch_value changes ''status'') \<in> set (map status_text PACK_REVIEW_ACTIVE_STATUSES)
        then Some updatedAt
        else Some (JStr (string_or (rr_heartbeatAtUtc existing) (patch_value changes ''heartbeatAtUtc'')))),
       (''updatedAt'', Some updatedAt), (''schemaVersion'', Some (JInt 1))]
      @ map kept_or_set [''canonicalRepository'', ''accountingVersion'', ''reviewCycleId'', ''logicalRoundOrdinal'',
          ''logicalRoundCap'', ''boundIssueSnapshotDigest'']
      @ stored_fields existing [''automaticBudgetDisposition'', ''sameKeyOrder'', ''id'', ''runId'', ''key'', ''prNumber'',
          ''targetSha'', ''headSha'']
      @ [(''deliveryOutcomes'', Some (JObj (merge_delivery env existing changes)))]
      @ (if staleNoJudgmentTerminal existing changes
         then stored_fields existing [''status'', ''latestRunStatus'', ''failureReason'', ''completedAtUtc'', ''exitCode''] else [])
      @ (if hasPersistedPackReviewVerdict existing
         then stored_fields existing [''reviewVerdict'', ''findingCount'', ''journalOutcome'']
              @ [(''findings'', if allowPreAggregateSeverityUpdate existing changes aggregateCommitted
                               then patch_value changes ''findings'' else Some (JArr (rr_findings existing)))]
         else []))"

definition update_candidate :: "run_env \<Rightarrow> run_record \<Rightarrow> js_patch \<Rightarrow> bool \<Rightarrow> js_object" where
  "update_candidate env existing changes aggregateCommitted =
     js_spread (run_object existing) (update_overrides env existing changes aggregateCommitted @ changes)"

definition updated_round :: "run_record \<Rightarrow> json option \<Rightarrow> string \<Rightarrow> bool \<Rightarrow> run_error + json option" where
  "updated_round existing candidate path aggregateCommitted =
     (case rr_reviewRound existing of
        Some round \<Rightarrow>
          if nullish candidate then Inl (''corrupt pack review run record at '' @ path @ '': frozen reviewRound cannot be removed'')
          else
          rbind (normalizePackReviewGptRoundRecord candidate path) (\<lambda>incoming.
          rbind (mergeFrozenGptRound round incoming path aggregateCommitted) (\<lambda>merged.
          Inr (Some (round_json merged))))
      | None \<Rightarrow>
          if nullish candidate then Inr candidate
          else rbind (normalizePackReviewGptRoundRecord candidate path) (\<lambda>incoming. Inr (Some (round_json incoming))))"

definition buildUpdatedPackReviewRun ::
  "run_env \<Rightarrow> run_store \<Rightarrow> run_record \<Rightarrow> js_patch \<Rightarrow> string \<Rightarrow> run_error + run_record" where
  "buildUpdatedPackReviewRun env st existing changes path =
     rbind (aggregate_committed st existing) (\<lambda>aggregateCommitted.
     let candidate = update_candidate env existing changes aggregateCommitted in
     rbind (updated_round existing (map_of candidate ''reviewRound'') path aggregateCommitted) (\<lambda>round.
     parseRunRecord (Some (JObj (js_set candidate ''reviewRound'' round))) path))"

definition update_locked :: "run_env \<Rightarrow> run_store \<Rightarrow> string \<Rightarrow> (run_record \<Rightarrow> js_patch) \<Rightarrow> run_error + run_record \<times> run_store" where
  "update_locked env st runId changes =
     rbind (recordPath (st_root st) runId) (\<lambda>path.
     rbind (existing_run st runId) (\<lambda>existing.
     rbind (buildUpdatedPackReviewRun env st existing (changes existing) path) (\<lambda>nxt.
     rbind (writeRecordUnlocked env st (rr_id nxt) (run_object nxt) False) (\<lambda>st'.
     Inr (nxt, st')))))"

section \<open>Operations\<close>

definition updatePackReviewRun :: "run_env \<Rightarrow> run_store \<Rightarrow> string \<Rightarrow> js_patch \<Rightarrow> run_error + run_record \<times> run_store" where
  "updatePackReviewRun env st runId changes = withStoreLock env (update_locked env st runId (\<lambda>_. changes))"

definition updatePackReviewRunIf ::
  "run_env \<Rightarrow> run_store \<Rightarrow> string \<Rightarrow> (run_record list \<Rightarrow> bool) \<Rightarrow> (run_record \<Rightarrow> js_patch)
     \<Rightarrow> run_error + run_record option \<times> run_store" where
  "updatePackReviewRunIf env st runId predicate changes =
     withStoreLock env
       (rbind (readRecordsUnlocked env st) (\<lambda>records.
        if \<not> predicate records then Inr (None, st)
        else map_sum id (\<lambda>(r, st'). (Some r, st')) (update_locked env st runId changes)))"

definition heartbeatPackReviewRun :: "run_env \<Rightarrow> run_store \<Rightarrow> string \<Rightarrow> run_error + run_record \<times> run_store" where
  "heartbeatPackReviewRun env st runId = updatePackReviewRun env st runId [(''runnerPid'', Some (JInt (re_pid env)))]"

definition terminal_patch :: "run_env \<Rightarrow> run_status \<Rightarrow> js_patch \<Rightarrow> js_patch" where
  "terminal_patch env status changes =
     [(''completedAtUtc'', Some (JStr (re_isoText env (now_ms env)))), (''latestRunStatus'', Some (JStr (status_text status))),
      (''status'', Some (JStr (status_text status)))]
     @ (if status \<in> set PACK_REVIEW_VERDICT_TERMINAL_STATUSES then [(''failureReason'', None), (''stale'', None)] else [])
     @ changes"

definition setPackReviewRunTerminal ::
  "run_env \<Rightarrow> run_store \<Rightarrow> string \<Rightarrow> run_status \<Rightarrow> js_patch \<Rightarrow> run_error + run_record \<times> run_store" where
  "setPackReviewRunTerminal env st runId status changes =
     (if status \<notin> set PACK_REVIEW_TERMINAL_STATUSES
      then Inl (''invalid terminal review status '' @ single_quoted (status_text status))
      else updatePackReviewRun env st runId (terminal_patch env status changes))"

text \<open>A stale run: its open slots are closed as possibly delivered or never launched, then it fails.\<close>

definition interrupted_slot :: "source_slot \<Rightarrow> source_slot" where
  "interrupted_slot slot =
     (let close = (\<lambda>c kind. slot\<lparr>sl_lifecycle := Slot_Terminal, sl_terminalClass := Some c,
            sl_terminalResult := Some (JObj [(''kind'', JStr kind), (''noResend'', JBool True)])\<rparr>)
      in case sl_lifecycle slot of
        Slot_Terminal \<Rightarrow> slot
      | Slot_Invocation_Started \<Rightarrow> close ''possible_delivery/missing_result'' ''missing_terminal_result''
      | Slot_Planned \<Rightarrow> close ''pre_launch_interrupted'' ''stale_pre_launch_interruption'')"

definition interrupted_round :: "gpt_round \<Rightarrow> gpt_round" where
  "interrupted_round round = round\<lparr>gr_slots := map interrupted_slot (gr_slots round)\<rparr>"

definition stale_patch :: "gpt_round option \<Rightarrow> js_patch" where
  "stale_patch recovered =
     (case recovered of None \<Rightarrow> [] | Some round \<Rightarrow> [(''reviewRound'', Some (round_json round))])
     @ [(''exitCode'', Some (JInt 1)), (''stale'', Some (JBool True)),
        (''failureReason'', Some (JStr PACK_REVIEW_STALE_FAILURE_REASON))]"

definition fail_stale_run :: "run_env \<Rightarrow> run_store \<Rightarrow> string \<Rightarrow> gpt_round option \<Rightarrow> (run_error + bool \<times> run_record) \<times> run_store" where
  "fail_stale_run env st runId recovered =
     (case setPackReviewRunTerminal env st runId Run_Failed (stale_patch recovered) of
        Inl e \<Rightarrow> (Inl e, st)
      | Inr (r, st') \<Rightarrow> (Inr (True, r), st'))"

text \<open>Two locked writes: when the second fails, the first has been made.\<close>

definition terminalizePackReviewStaleRun ::
  "run_env \<Rightarrow> run_store \<Rightarrow> string \<Rightarrow> (run_error + bool \<times> run_record) \<times> run_store" where
  "terminalizePackReviewStaleRun env st runId =
     (case existing_run st runId of
        Inl e \<Rightarrow> (Inl e, st)
      | Inr existing \<Rightarrow>
          if isPackReviewStaleTerminalRun existing \<or> \<not> isPackReviewRunStale env existing (now_ms env)
          then (Inr (False, existing), st)
          else (case rr_reviewRound existing of
             None \<Rightarrow> fail_stale_run env st runId None
           | Some round \<Rightarrow>
               if list_ex (\<lambda>slot. sl_lifecycle slot \<noteq> Slot_Terminal) (gr_slots round)
               then (case updatePackReviewRun env st runId [(''reviewRound'', Some (round_json (interrupted_round round)))] of
                       Inl e \<Rightarrow> (Inl e, st)
                     | Inr (r, st') \<Rightarrow> fail_stale_run env st' runId (rr_reviewRound r))
               else fail_stale_run env st runId (Some round)))"

end
