(* ===== verification/Run_Create.thy ===== *)
theory Run_Create
  imports Run_Store
begin

text \<open>
  The creation of a run, \<open>createPackReviewRun\<close> of \<open>scripts/lib/pack-review-run-store.ts\<close>: under the
  lock, an active run, a persisted verdict or unsettled evidence of the same input is reused; only
  otherwise is a new record written, with the next order of its head.
\<close>

record create_input =
  ci_projectId :: "string option"
  ci_prNumber :: int
  ci_headSha :: string
  ci_linkedSessionId :: "string option"
  ci_startReason :: "string option"
  ci_surface :: "string option"
  ci_trustedPackRoot :: string
  ci_sourceRepoRoot :: string
  ci_canonicalRepository :: "string option"
  ci_legacyRepositories :: "(string \<times> string) list"
  ci_reviewRound :: "js_object option"
  ci_boundDigest :: "string option"
  ci_accountingVersion :: "string option"
  ci_reviewCycleId :: "string option"
  ci_logicalRoundOrdinal :: "int option"
  ci_logicalRoundCap :: "int option"
  ci_resolvedReviewer :: "string option"
  ci_resolvedReviewerSource :: "string option"
  ci_disposition :: "json option"
  ci_allowExplicitSupplementalStart :: bool
  ci_allowCompletedSameHeadReplay :: bool
  ci_allowSameRoundReplacement :: bool

definition normalizeNewAutomaticBudgetDisposition :: "create_input \<Rightarrow> run_error + run_disposition" where
  "normalizeNewAutomaticBudgetDisposition input =
     rbind (normalizeAutomaticBudgetDisposition (ci_disposition input) []) (\<lambda>disposition.
     if disposition = Disp_Non_Consuming_Explicit
        \<and> \<not> (ci_allowExplicitSupplementalStart input \<and> ci_surface input = Some ''pack-gpt-review''
             \<and> ci_startReason input = Some ''manual-browser-gpt'' \<and> ci_resolvedReviewerSource input = Some ''invocation-bound''
             \<and> ci_resolvedReviewer input \<noteq> None \<and> ci_logicalRoundOrdinal input = None \<and> ci_logicalRoundCap input = None
             \<and> (case ci_reviewCycleId input of None \<Rightarrow> False | Some c \<Rightarrow> c \<noteq> []))
     then Inl (''non_consuming_explicit is only producible by an explicit post-cap supplemental review; ''
            @ ''cannot be produced by an ordinary start'')
     else Inr disposition)"

definition legacyReplayOnly :: "create_input \<Rightarrow> bool" where
  "legacyReplayOnly input \<longleftrightarrow>
     ci_disposition input = Some (JStr ''non_consuming_explicit'') \<and> ci_allowCompletedSameHeadReplay input
     \<and> \<not> ci_allowExplicitSupplementalStart input \<and> ci_resolvedReviewer input = None"

definition trim_or :: "string \<Rightarrow> string option \<Rightarrow> string" where
  "trim_or d v = (case v of None \<Rightarrow> d | Some s \<Rightarrow> if js_trim s = [] then d else js_trim s)"

text \<open>A value of the input that is not empty, the only kind copied into the record.\<close>

definition filled :: "string option \<Rightarrow> string option" where
  "filled v = (case v of Some [] \<Rightarrow> None | _ \<Rightarrow> v)"

definition filled_int :: "int option \<Rightarrow> int option" where
  "filled_int v = (if v = Some 0 then None else v)"

definition legacy_bindings :: "string \<Rightarrow> (string \<times> string) list \<Rightarrow> run_error + (string \<times> string) list" where
  "legacy_bindings cwd entries =
     rall (\<lambda>(root, repository). map_sum id (Pair (path_resolve cwd root)) (normalizePackReviewCanonicalRepository repository)) entries"

definition bind_repository :: "string \<Rightarrow> (string \<times> string) list \<Rightarrow> run_record \<Rightarrow> run_record" where
  "bind_repository cwd bindings r =
     (if rr_repository r \<noteq> None then r
      else (case or_else (canonicalRepositoryFromRunKey (rr_key r) (rr_prNumber r) (rr_targetSha r))
                   (map_of (rev bindings) (path_resolve cwd (rr_sourceRepoRoot r))) of
              None \<Rightarrow> r | Some repository \<Rightarrow> r\<lparr>rr_repository := Some repository\<rparr>))"

definition matches_target :: "run_env \<Rightarrow> create_input \<Rightarrow> string \<Rightarrow> string \<Rightarrow> string option \<Rightarrow> run_record \<Rightarrow> bool" where
  "matches_target env input projectId headSha repository r =
     matchesPackReviewRunInput (re_cwd env) r projectId (ci_prNumber input) headSha repository (ci_sourceRepoRoot input) None None"

definition digest_matches :: "create_input \<Rightarrow> run_record \<Rightarrow> bool" where
  "digest_matches input r \<longleftrightarrow>
     filled (ci_boundDigest input) = None \<or> rr_boundDigest r = ci_boundDigest input
     \<or> ci_allowSameRoundReplacement input \<and> rr_boundDigest r = None \<and> rr_reviewRound r = None \<and> ci_reviewRound input = None
       \<and> ci_reviewCycleId input \<noteq> None \<and> ra_reviewCycleId (rr_accounting r) = ci_reviewCycleId input
       \<and> ci_logicalRoundOrdinal input \<noteq> None \<and> ra_logicalRoundOrdinal (rr_accounting r) = ci_logicalRoundOrdinal input"

definition matches_input ::
  "run_env \<Rightarrow> create_input \<Rightarrow> run_disposition \<Rightarrow> string \<Rightarrow> string \<Rightarrow> string option \<Rightarrow> run_record \<Rightarrow> bool" where
  "matches_input env input disposition projectId headSha repository r \<longleftrightarrow>
     matchesPackReviewRunInput (re_cwd env) r projectId (ci_prNumber input) headSha repository (ci_sourceRepoRoot input)
       (ci_reviewCycleId input) (ci_logicalRoundOrdinal input)
     \<and> ra_disposition (rr_accounting r) = disposition
     \<and> \<not> (map_of (rr_rest r) ''failureReason'' = Some (JStr ''explicit_reviewer_superseded_proven_dead_original'')
          \<and> ci_resolvedReviewer input \<noteq> None \<and> rv_resolved (rr_reviewer r) \<noteq> ci_resolvedReviewer input)
     \<and> (disposition = Disp_Non_Consuming_Explicit \<longrightarrow> rv_resolved (rr_reviewer r) = ci_resolvedReviewer input)
     \<and> digest_matches input r"

text \<open>The object a new record is written from. \<open>None\<close> stands for a property that is left out.\<close>

definition created_round :: "create_input \<Rightarrow> json option" where
  "created_round input =
     map_option (\<lambda>round. JObj (if map_of round ''accountingVersion'' = None \<and> filled (ci_accountingVersion input) \<noteq> None
                               then js_set round ''accountingVersion'' (map_option JStr (ci_accountingVersion input)) else round))
       (ci_reviewRound input)"

definition new_run_id :: "string \<Rightarrow> string" where
  "new_run_id uuid = ''prr-'' @ filter (\<lambda>c. c \<noteq> CHR ''-'') uuid"

definition new_run_object ::
  "run_env \<Rightarrow> create_input \<Rightarrow> run_disposition \<Rightarrow> string \<Rightarrow> string \<Rightarrow> string option \<Rightarrow> int \<Rightarrow> js_object" where
  "new_run_object env input disposition projectId headSha repository sameKeyOrder =
     js_spread []
       [(''schemaVersion'', Some (JInt 1)), (''id'', Some (JStr (new_run_id (re_uuid env)))),
        (''runId'', Some (JStr (new_run_id (re_uuid env)))), (''projectId'', Some (JStr projectId)),
        (''key'', Some (JStr (packReviewRunKey (ci_prNumber input) headSha))), (''prNumber'', Some (JInt (ci_prNumber input))),
        (''targetSha'', Some (JStr headSha)), (''headSha'', Some (JStr headSha)), (''status'', Some (JStr ''queued'')),
        (''latestRunStatus'', Some (JStr ''queued'')), (''linkedSessionId'', Some (JStr (trim_or [] (ci_linkedSessionId input)))),
        (''startReason'', Some (JStr (trim_or [] (ci_startReason input)))),
        (''surface'', Some (JStr (trim_or ''pack-review-runner'' (ci_surface input)))),
        (''trustedPackRoot'', Some (JStr (path_resolve (re_cwd env) (ci_trustedPackRoot input)))),
        (''sourceRepoRoot'', Some (JStr (path_resolve (re_cwd env) (ci_sourceRepoRoot input)))),
        (''automaticBudgetDisposition'', Some (JStr (run_disposition_text disposition))),
        (''canonicalRepository'', map_option JStr repository),
        (''accountingVersion'', map_option JStr (filled (ci_accountingVersion input))),
        (''reviewCycleId'', map_option JStr (filled (ci_reviewCycleId input))),
        (''logicalRoundOrdinal'', map_option JInt (filled_int (ci_logicalRoundOrdinal input))),
        (''logicalRoundCap'', map_option JInt (filled_int (ci_logicalRoundCap input))),
        (''resolvedReviewer'', map_option JStr (filled (ci_resolvedReviewer input))),
        (''resolvedReviewerSource'', map_option JStr (filled (ci_resolvedReviewerSource input))),
        (''reviewRound'', created_round input),
        (''boundIssueSnapshotDigest'', map_option JStr (filled (ci_boundDigest input))),
        (''runnerPid'', Some (JInt (re_pid env))), (''createdAt'', Some (JStr (re_isoText env (now_ms env)))),
        (''updatedAt'', Some (JStr (re_isoText env (now_ms env)))), (''heartbeatAtUtc'', Some (JStr (re_isoText env (now_ms env)))),
        (''sameKeyOrder'', Some (JInt sameKeyOrder)), (''findings'', Some (JArr [])), (''deliveryOutcomes'', Some (JObj []))]"

definition next_order :: "int list \<Rightarrow> int" where
  "next_order orders = (case orders of [] \<Rightarrow> 0 | x # xs \<Rightarrow> fold max xs x) + 1"

datatype create_outcome = Run_Reused string run_record | Run_Created js_object

text \<open>What is reused, if anything is: the run and the reason.\<close>

definition uncertain_delivery :: "run_record \<Rightarrow> bool" where
  "uncertain_delivery r \<longleftrightarrow>
     (case rr_reviewRound r of None \<Rightarrow> False
      | Some round \<Rightarrow> list_ex (\<lambda>s. sl_terminalClass s = Some ''possible_delivery/missing_result'') (gr_slots round))"

definition reusable_run ::
  "run_env \<Rightarrow> create_input \<Rightarrow> run_disposition \<Rightarrow> string \<Rightarrow> string \<Rightarrow> string option \<Rightarrow> run_record list
     \<Rightarrow> run_error + (string \<times> run_record) option" where
  "reusable_run env input disposition projectId headSha repository bound =
     (let matching = matches_input env input disposition projectId headSha repository;
          active = filter (\<lambda>r. matches_target env input projectId headSha repository r \<and> live_run env r) bound;
          replaceable = (\<lambda>r. ci_allowSameRoundReplacement input \<and> matching r \<and> ci_resolvedReviewer input \<noteq> None
                            \<and> rv_resolved (rr_reviewer r) = ci_resolvedReviewer input);
          blocking = filter (\<lambda>r. \<not> replaceable r) active
      in
      if 1 < length (filter replaceable active) \<or> 1 < length blocking
      then Inl (multiple_active (packReviewRunKey (ci_prNumber input) headSha))
      else (case blocking of
        r # _ \<Rightarrow> Inr (Some (''active_run_exists'', r))
      | [] \<Rightarrow>
          rbind (selectLatestSameKeyRun env bound
            (filter (\<lambda>r. matching r \<and> rr_status r \<in> set PACK_REVIEW_VERDICT_TERMINAL_STATUSES \<and> hasPersistedPackReviewVerdict r) bound))
            (\<lambda>completed.
          (case completed of
             Some r \<Rightarrow> Inr (Some (''terminal_run_exists'', r))
           | None \<Rightarrow>
          rbind (selectLatestSameKeyRun env bound (filter (\<lambda>r. matching r \<and> uncertain_delivery r) bound)) (\<lambda>uncertain.
          (case if ci_allowSameRoundReplacement input then None else uncertain of
             Some r \<Rightarrow> Inr (Some (''possible_delivery_requires_settlement'', r))
           | None \<Rightarrow>
          rbind (selectLatestSameKeyRun env bound
            (filter (\<lambda>r. matching r \<and> hasRecordedGptRoundLifecycleOrEvidence (rr_reviewRound r)) bound)) (\<lambda>persisted.
          (case if ci_allowSameRoundReplacement input then None else persisted of
             Some r \<Rightarrow> Inr (Some (''gpt_round_requires_settlement'', r))
           | None \<Rightarrow> Inr None))))))))"

definition create_locked ::
  "run_env \<Rightarrow> run_store \<Rightarrow> create_input \<Rightarrow> run_disposition \<Rightarrow> string \<Rightarrow> string \<Rightarrow> run_error + create_outcome \<times> run_store" where
  "create_locked env st input disposition projectId headSha =
     rbind (readRecordsUnlocked env st) (\<lambda>records.
     rbind (legacy_bindings (re_cwd env) (ci_legacyRepositories input)) (\<lambda>bindings.
     rbind (case filled (ci_canonicalRepository input) of
              None \<Rightarrow> Inr None | Some x \<Rightarrow> map_sum id Some (normalizePackReviewCanonicalRepository x)) (\<lambda>repository.
     let bound = map (bind_repository (re_cwd env) bindings) records in
     rbind (reusable_run env input disposition projectId headSha repository bound) (\<lambda>reused.
     (case reused of
        Some (reason, r) \<Rightarrow> Inr (Run_Reused reason (consumerRow env r (re_clock env)), st)
      | None \<Rightarrow>
          rbind (if legacyReplayOnly input then map_sum id (\<lambda>_. ()) (normalizeNewAutomaticBudgetDisposition input) else Inr ()) (\<lambda>_.
          let orders = List.map_filter rr_sameKeyOrder (filter (matches_target env input projectId headSha repository) bound);
              obj = new_run_object env input disposition projectId headSha repository (next_order orders)
          in rbind (writeRecordUnlocked env st (new_run_id (re_uuid env)) obj True) (\<lambda>st'.
             Inr (Run_Created obj, st'))))))))"

definition createPackReviewRun :: "run_env \<Rightarrow> run_store \<Rightarrow> create_input \<Rightarrow> run_error + create_outcome \<times> run_store" where
  "createPackReviewRun env st input =
     (if ci_prNumber input \<le> 0 then Inl ''pack review runner requires a positive PR number''
      else
      rbind (normalizePackReviewHeadSha (ci_headSha input)) (\<lambda>headSha.
      rbind (if legacyReplayOnly input then Inr Disp_Consume else normalizeNewAutomaticBudgetDisposition input) (\<lambda>disposition.
      withStoreLock env
        (create_locked env st input disposition (trim_or ''orchestrator-pack'' (ci_projectId input)) headSha))))"

end
