(* ===== verification/Run_Update_Facts.thy ===== *)
theory Run_Update_Facts
  imports Run_Update Run_Create
begin

text \<open>
  Facts on one update: what the candidate object holds at each key, how the updated record relates
  to the stored one, and what a call leaves in the store.
\<close>

section \<open>Files\<close>

lemma map_of_put_file: "map_of (put_file name f files) k = (if k = name then Some f else map_of files k)"
proof (cases "map_of files name")
  case None
  then show ?thesis by (auto simp: put_file_def map_add_def split: option.splits)
next
  case (Some g)
  have "map_of (map (\<lambda>e. if fst e = name then (name, f) else e) files) k
      = (if k = name then map_option (\<lambda>_. f) (map_of files name) else map_of files k)"
    by (induction files) auto
  with Some show ?thesis by (simp add: put_file_def)
qed

lemma run_file_name_inj [simp]: "run_file_name a = run_file_name b \<longleftrightarrow> a = b"
  by (simp add: run_file_name_def)

definition run_at :: "run_store \<Rightarrow> string \<Rightarrow> run_record \<Rightarrow> bool" where
  "run_at st runId r \<longleftrightarrow> run_id_ok runId \<and>
     (\<exists>raw. map_of (st_files st) (run_file_name runId) = Some (Run_Json (JObj raw)) \<and> parsed_as raw r)"

lemma parse_Some_Inr: "parseRunRecord (Some j) p = Inr r \<longleftrightarrow> (\<exists>raw. j = JObj raw \<and> parsed_as raw r)"
proof (cases j)
  case (JObj raw)
  then show ?thesis by (simp add: parseRunRecord_iff)
qed (auto simp: parseRunRecord_def asObject_def)

lemma existing_run_Inr: "existing_run st runId = Inr r \<longleftrightarrow> run_at st runId r"
  by (auto simp: existing_run_def read_run_def recordPath_def run_at_def rbind_Inr map_sum_Inr parse_Some_Inr
      split: option.splits run_file.splits if_splits)

lemma run_at_unique: "run_at st i r \<Longrightarrow> run_at st i r' \<Longrightarrow> r = r'"
  by (metis existing_run_Inr sum.inject(2))

lemma withStoreLock_Inr: "withStoreLock env action = Inr x \<longleftrightarrow> snd (acquireStoreLock env) = Inr () \<and> action = Inr x"
  by (cases "snd (acquireStoreLock env)") (simp_all add: withStoreLock_def)

lemma writeRecord_Inr:
  "writeRecordUnlocked env st i obj createOnly = Inr st' \<longleftrightarrow>
     run_id_ok i \<and> (createOnly \<longrightarrow> map_of (st_files st) (run_file_name i) = None)
     \<and> (\<exists>path v. recordPath (st_root st) i = Inr path \<and> parsed_as obj v \<and> renameRecordWithRetry env path = Inr ()
         \<and> st' = st\<lparr>st_files := put_file (run_file_name i) (Run_Json (JObj (run_object v))) (st_files st)\<rparr>)"
  by (auto simp: writeRecordUnlocked_def recordPath_def rbind_Inr parseRunRecord_iff split: if_splits)

lemma parsed_as_unique: "parsed_as raw r \<Longrightarrow> parsed_as raw r' \<Longrightarrow> r = r'"
  by (metis parseRunRecord_iff sum.inject(2))

lemma parsed_id: "parsed_as raw r \<Longrightarrow> run_id_ok (rr_id r)"
  by (simp add: parsed_as_def)

section \<open>The candidate of an update\<close>

lemma map_of_if_append:
  "map_of (a @ b) k = (case map_of a k of None \<Rightarrow> map_of b k | Some x \<Rightarrow> Some x)"
  by (simp add: map_add_def)

lemma map_of_if: "map_of (if b then xs else ys) k = (if b then map_of xs k else map_of ys k)"
  by simp

lemmas candidate_defs = update_candidate_def update_overrides_def stored_fields_def map_of_js_spread map_of_if_append Let_def

lemma candidate_identity:
  "map_of (update_candidate env r p c) ''id'' = Some (JStr (rr_id r))"
  "map_of (update_candidate env r p c) ''runId'' = Some (JStr (rr_runId r))"
  "map_of (update_candidate env r p c) ''key'' = Some (JStr (rr_key r))"
  "map_of (update_candidate env r p c) ''prNumber'' = Some (JInt (rr_prNumber r))"
  "map_of (update_candidate env r p c) ''targetSha'' = Some (JStr (rr_targetSha r))"
  "map_of (update_candidate env r p c) ''headSha'' = Some (JStr (rr_headSha r))"
  "map_of (update_candidate env r p c) ''sameKeyOrder'' = map_option JInt (rr_sameKeyOrder r)"
  "map_of (update_candidate env r p c) ''automaticBudgetDisposition'' = Some (JStr (run_disposition_text (ra_disposition (rr_accounting r))))"
  by (simp_all add: candidate_defs run_object_all)

lemma candidate_kept:
  "map_of (update_candidate env r p c) ''canonicalRepository'' = js_coalesce (map_option JStr (rr_repository r)) (patch_value p ''canonicalRepository'')"
  "map_of (update_candidate env r p c) ''accountingVersion''
     = js_coalesce (map_option JStr (ra_accountingVersion (rr_accounting r))) (patch_value p ''accountingVersion'')"
  "map_of (update_candidate env r p c) ''reviewCycleId''
     = js_coalesce (map_option JStr (ra_reviewCycleId (rr_accounting r))) (patch_value p ''reviewCycleId'')"
  "map_of (update_candidate env r p c) ''logicalRoundOrdinal''
     = js_coalesce (map_option JInt (ra_logicalRoundOrdinal (rr_accounting r))) (patch_value p ''logicalRoundOrdinal'')"
  "map_of (update_candidate env r p c) ''logicalRoundCap''
     = js_coalesce (map_option JInt (ra_logicalRoundCap (rr_accounting r))) (patch_value p ''logicalRoundCap'')"
  "map_of (update_candidate env r p c) ''boundIssueSnapshotDigest''
     = js_coalesce (map_option JStr (rr_boundDigest r)) (patch_value p ''boundIssueSnapshotDigest'')"
  by (simp_all add: candidate_defs run_object_all)

lemma candidate_verdict:
  assumes "hasPersistedPackReviewVerdict r"
  shows "map_of (update_candidate env r p c) ''reviewVerdict'' = map_option (\<lambda>v. JStr (run_verdict_text v)) (rr_verdict r)"
    "map_of (update_candidate env r p c) ''findingCount'' = map_option JInt (rr_findingCount r)"
    "map_of (update_candidate env r p c) ''journalOutcome'' = map_option JObj (rr_journal r)"
    "map_of (update_candidate env r p c) ''findings''
       = (if allowPreAggregateSeverityUpdate r p c then patch_value p ''findings'' else Some (JArr (rr_findings r)))"
  using assms by (simp_all add: candidate_defs run_object_all)

lemma candidate_delivery:
  "map_of (update_candidate env r p c) ''deliveryOutcomes'' = Some (JObj (merge_delivery env r p))"
  by (simp add: candidate_defs)

lemma candidate_status:
  "staleNoJudgmentTerminal r p \<Longrightarrow> map_of (update_candidate env r p c) ''status'' = Some (JStr (status_text (rr_status r)))"
  "staleNoJudgmentTerminal r p \<Longrightarrow> map_of (update_candidate env r p c) ''latestRunStatus'' = Some (JStr (rl_latestRunStatus (rr_labels r)))"
  by (simp_all add: candidate_defs run_object_all)

lemma candidate_round: "map_of (update_candidate env r p c) ''reviewRound''
    = (case map_of p ''reviewRound'' of None \<Rightarrow> map_option round_json (rr_reviewRound r) | Some v \<Rightarrow> v)"
  by (simp add: candidate_defs run_object_all cong: option.case_cong)

lemma candidate_open_status:
  assumes "\<not> staleNoJudgmentTerminal r p"
  shows "map_of (update_candidate env r p c) ''status''
      = (case map_of p ''status'' of None \<Rightarrow> Some (JStr (status_text (rr_status r))) | Some v \<Rightarrow> v)"
    "map_of (update_candidate env r p c) ''failureReason''
      = (case map_of p ''failureReason'' of None \<Rightarrow> map_of (run_object r) ''failureReason'' | Some v \<Rightarrow> v)"
  using assms by (simp_all add: candidate_defs run_object_all cong: option.case_cong)

section \<open>How a run may change\<close>

definition set_once :: "'a option \<Rightarrow> 'a option \<Rightarrow> bool" where
  "set_once a b \<longleftrightarrow> a = None \<or> b = a"

lemma set_once_refl [simp]: "set_once a a"
  by (simp add: set_once_def)

lemma set_once_trans: "set_once a b \<Longrightarrow> set_once b c \<Longrightarrow> set_once a c"
  by (auto simp: set_once_def)

definition same_target :: "run_record \<Rightarrow> run_record \<Rightarrow> bool" where
  "same_target r q \<longleftrightarrow> rr_id q = rr_id r \<and> rr_runId q = rr_runId r \<and> rr_key q = rr_key r \<and> rr_prNumber q = rr_prNumber r
     \<and> rr_targetSha q = rr_targetSha r \<and> rr_headSha q = rr_headSha r \<and> rr_sameKeyOrder q = rr_sameKeyOrder r
     \<and> ra_disposition (rr_accounting q) = ra_disposition (rr_accounting r)"

definition same_accounting :: "run_record \<Rightarrow> run_record \<Rightarrow> bool" where
  "same_accounting r q \<longleftrightarrow>
     set_once (rr_repository r) (rr_repository q) \<and> set_once (rr_boundDigest r) (rr_boundDigest q)
     \<and> set_once (ra_accountingVersion (rr_accounting r)) (ra_accountingVersion (rr_accounting q))
     \<and> set_once (ra_reviewCycleId (rr_accounting r)) (ra_reviewCycleId (rr_accounting q))
     \<and> set_once (ra_logicalRoundOrdinal (rr_accounting r)) (ra_logicalRoundOrdinal (rr_accounting q))
     \<and> set_once (ra_logicalRoundCap (rr_accounting r)) (ra_logicalRoundCap (rr_accounting q))"

definition round_evolves :: "gpt_round option \<Rightarrow> gpt_round option \<Rightarrow> bool" where
  "round_evolves a b \<longleftrightarrow> (case a of None \<Rightarrow> True | Some r \<Rightarrow> (case b of None \<Rightarrow> False | Some q \<Rightarrow> round_le r q))"

definition same_verdict :: "run_record \<Rightarrow> run_record \<Rightarrow> bool" where
  "same_verdict r q \<longleftrightarrow> rr_verdict q = rr_verdict r \<and> rr_findingCount q = rr_findingCount r \<and> rr_journal q = rr_journal r"

definition run_evolves :: "run_record \<Rightarrow> run_record \<Rightarrow> bool" where
  "run_evolves r q \<longleftrightarrow> same_target r q \<and> same_accounting r q \<and> round_evolves (rr_reviewRound r) (rr_reviewRound q)
     \<and> (hasPersistedPackReviewVerdict r \<and> rr_reviewRound r \<noteq> None \<longrightarrow> same_verdict r q \<and> rr_findings q = rr_findings r)"

lemma run_evolves_refl [simp]: "run_evolves r r"
  by (simp add: run_evolves_def same_target_def same_accounting_def round_evolves_def same_verdict_def split: option.splits)

lemma verdict_kept_persisted:
  "same_target r q \<Longrightarrow> same_verdict r q \<Longrightarrow> length (rr_findings q) = length (rr_findings r)
     \<Longrightarrow> hasPersistedPackReviewVerdict q = hasPersistedPackReviewVerdict r"
  by (simp add: hasPersistedPackReviewVerdict_def hasValidPackReviewJournalOutcome_def verdict_key_def same_target_def same_verdict_def
      cong: option.case_cong)

lemma round_evolves_trans: "round_evolves a b \<Longrightarrow> round_evolves b c \<Longrightarrow> round_evolves a c"
  by (auto simp: round_evolves_def intro: round_le_trans split: option.splits)

lemma round_evolves_Some: "round_evolves a b \<Longrightarrow> a \<noteq> None \<Longrightarrow> b \<noteq> None"
  by (auto simp: round_evolves_def split: option.splits)

lemma run_evolves_trans:
  assumes "run_evolves r q" "run_evolves q p"
  shows "run_evolves r p"
proof -
  have "same_target r p" using assms by (simp add: run_evolves_def same_target_def)
  moreover have "same_accounting r p"
    using assms by (auto simp: run_evolves_def same_accounting_def intro: set_once_trans)
  moreover have "round_evolves (rr_reviewRound r) (rr_reviewRound p)"
    using assms by (auto simp: run_evolves_def intro: round_evolves_trans)
  moreover have "same_verdict r p \<and> rr_findings p = rr_findings r"
    if "hasPersistedPackReviewVerdict r" "rr_reviewRound r \<noteq> None"
  proof -
    from that assms(1) have rq: "same_target r q" "same_verdict r q" "rr_findings q = rr_findings r" "rr_reviewRound q \<noteq> None"
      by (auto simp: run_evolves_def dest: round_evolves_Some)
    with that have "hasPersistedPackReviewVerdict q" by (simp add: verdict_kept_persisted)
    with rq assms(2) show ?thesis by (simp add: run_evolves_def same_verdict_def)
  qed
  ultimately show ?thesis by (simp add: run_evolves_def)
qed

section \<open>What an update does\<close>

lemma accounting_fields:
  assumes "accepted (parse_accounting raw p) = Some a"
  shows "accepted (normalizeAutomaticBudgetDisposition (map_of raw ''automaticBudgetDisposition'') p) = Some (ra_disposition a)
    \<and> (case map_of raw ''accountingVersion'' of None \<Rightarrow> Some None | Some x \<Rightarrow> map_option Some (string_value (Some x))) = Some (ra_accountingVersion a)
    \<and> (case map_of raw ''reviewCycleId'' of None \<Rightarrow> Some None | Some x \<Rightarrow> map_option Some (string_value (Some x))) = Some (ra_reviewCycleId a)
    \<and> (case map_of raw ''logicalRoundOrdinal'' of None \<Rightarrow> Some None | Some x \<Rightarrow> map_option Some (positive_value (Some x))) = Some (ra_logicalRoundOrdinal a)
    \<and> (case map_of raw ''logicalRoundCap'' of None \<Rightarrow> Some None | Some x \<Rightarrow> map_option Some (positive_value (Some x))) = Some (ra_logicalRoundCap a)"
  using assms unfolding parse_accounting_def
  by (clarsimp simp: accepted_simps accepted_chain cong: branch_congs)

lemma kept_string:
  assumes "(case js_coalesce (map_option JStr v) u of None \<Rightarrow> Some None | Some x \<Rightarrow> map_option Some (string_value (Some x))) = Some w"
    and "opt_all trimmed v"
  shows "set_once v w"
  using assms by (cases v) (auto simp: js_coalesce_def set_once_def)

lemma kept_positive:
  assumes "(case js_coalesce (map_option JInt v) u of None \<Rightarrow> Some None | Some x \<Rightarrow> map_option Some (positive_value (Some x))) = Some w"
  shows "set_once v w"
  using assms by (cases v) (auto simp: js_coalesce_def set_once_def positive_value_Some)

lemma kept_repository:
  assumes "(case js_coalesce (map_option JStr v) u of None \<Rightarrow> Some None
      | Some x \<Rightarrow> map_option Some (accepted (normalizePackReviewCanonicalRepository (json_to_string x)))) = Some w"
    and "opt_all trimmed v"
  shows "set_once v w"
  using assms by (cases v) (auto simp: js_coalesce_def set_once_def repository_Some trimmed_def)

lemma accounting_trimmed:
  assumes "accepted (parse_accounting raw p) = Some a"
  shows "opt_all trimmed (ra_accountingVersion a)" "opt_all trimmed (ra_reviewCycleId a)"
  using accounting_fields [OF assms] by (auto intro: optional_string_ok)

lemma build_Inr:
  assumes "buildUpdatedPackReviewRun env st r p path = Inr q"
  obtains c rd where "aggregate_committed st r = Inr c"
    "updated_round r (map_of (update_candidate env r p c) ''reviewRound'') path c = Inr rd"
    "parsed_as (js_set (update_candidate env r p c) ''reviewRound'' rd) q"
  using assms by (auto simp: buildUpdatedPackReviewRun_def rbind_Inr parseRunRecord_iff Let_def)

lemma parse_round_round:
  assumes "accepted (parse_round raw a v p) = Some (rd, dg)"
  shows "(if nullish (map_of raw ''reviewRound'') then rd = None
      else \<exists>r. rd = Some r \<and> normalizePackReviewGptRoundRecord (map_of raw ''reviewRound'') p = Inr r)"
    "(case map_of raw ''boundIssueSnapshotDigest'' of None \<Rightarrow> Some None | Some x \<Rightarrow> map_option Some (string_value (Some x))) = Some dg"
  using assms unfolding parse_round_Some by blast+

lemma parsed_accounting: "parsed_as raw r \<Longrightarrow> accepted (parse_accounting raw []) = Some (rr_accounting r)"
  by (simp add: parsed_as_def)

lemma parsed_round: "parsed_as raw r \<Longrightarrow> accepted (parse_round raw (rr_accounting r) (rr_reviewer r) []) = Some (rr_reviewRound r, rr_boundDigest r)"
  by (simp add: parsed_as_def)

lemma parsed_shas: "parsed_as raw r \<Longrightarrow>
     Option.bind (text_value (map_of raw ''targetSha'')) (\<lambda>t. accepted (normalizePackReviewHeadSha t)) = Some (rr_targetSha r)
     \<and> Option.bind (text_value (js_coalesce (map_of raw ''headSha'') (map_of raw ''targetSha''))) (\<lambda>t. accepted (normalizePackReviewHeadSha t))
         = Some (rr_headSha r)"
  by (auto simp: parsed_as_def)

lemma parsed_repository: "parsed_as raw r \<Longrightarrow> (case map_of raw ''canonicalRepository'' of None \<Rightarrow> Some None
     | Some x \<Rightarrow> map_option Some (accepted (normalizePackReviewCanonicalRepository (json_to_string x)))) = Some (rr_repository r)"
  by (simp add: parsed_as_def)

lemma parsed_verdict: "parsed_as raw r \<Longrightarrow> rr_verdict r = verdict_of (map_of raw ''reviewVerdict'')
    \<and> rr_findingCount r = json_integer (map_of raw ''findingCount'') \<and> rr_findings r = json_array (map_of raw ''findings'')
    \<and> rr_journal r = json_object (map_of raw ''journalOutcome'')"
  by (simp add: parsed_as_def)

text \<open>A stored record satisfies what its own object is checked for.\<close>

lemma parsed_round_ok: "parsed_as raw r \<Longrightarrow> opt_all gpt_round_ok (rr_reviewRound r)"
  unfolding parsed_as_def
  by (elim conjE, drule parse_round_round(1)) (auto intro: normalize_round_ok split: if_splits)

lemma updated_round_evolves:
  assumes "updated_round r cand path c = Inr rd" "opt_all gpt_round_ok (rr_reviewRound r)"
    and "if nullish rd then rd' = None else \<exists>q. rd' = Some q \<and> normalizePackReviewGptRoundRecord rd path' = Inr q"
  shows "round_evolves (rr_reviewRound r) rd' \<and> (c \<and> rr_reviewRound r \<noteq> None \<longrightarrow> rd' = rr_reviewRound r)"
proof (cases "rr_reviewRound r")
  case (Some round)
  with assms(1) obtain incoming merged where i: "normalizePackReviewGptRoundRecord cand path = Inr incoming"
    and m: "mergeFrozenGptRound round incoming path c = Inr merged" and rd: "rd = Some (round_json merged)"
    by (auto simp: updated_round_def rbind_Inr split: if_splits)
  have "gpt_round_ok round" using assms(2) Some by simp
  note progress = merge_round_progress [OF m this normalize_round_ok [OF i]]
  have "\<not> nullish rd" by (simp add: rd round_json_def)
  with assms(3) obtain q where q: "rd' = Some q" "normalizePackReviewGptRoundRecord (Some (round_json merged)) path' = Inr q"
    by (auto simp: rd)
  then have "q = merged" using normalize_round_shape progress by blast
  with progress q Some show ?thesis by (simp add: round_evolves_def)
qed (simp add: round_evolves_def)

lemma set_round_get: "k \<noteq> ''reviewRound'' \<Longrightarrow> map_of (js_set obj ''reviewRound'' v) k = map_of obj k"
  by simp

lemma build_same_target:
  assumes "parsed_as raw r" "parsed_as (js_set (update_candidate env r p c) ''reviewRound'' rd) q"
  shows "same_target r q"
proof -
  have n: "parsed_as (run_object r) r" using assms(1) by (rule parsed_reread)
  note dn = n [unfolded parsed_as_def run_object_all] and dq = assms(2) [unfolded parsed_as_def]
  have "accepted (normalizeAutomaticBudgetDisposition (Some (JStr (run_disposition_text (ra_disposition (rr_accounting r))))) [])
      = Some (ra_disposition (rr_accounting q))"
    using accounting_fields [OF parsed_accounting [OF assms(2)]] by (simp add: candidate_identity)
  then have d: "ra_disposition (rr_accounting q) = ra_disposition (rr_accounting r)" by (simp add: read_disposition)
  have "rr_targetSha q = rr_targetSha r" "rr_headSha q = rr_headSha r"
    using parsed_shas [OF n] parsed_shas [OF assms(2)] by (simp_all add: candidate_identity js_coalesce_def run_object_all)
  moreover have "rr_id q = rr_id r" "rr_runId q = rr_runId r" "rr_key q = rr_key r" "rr_prNumber q = rr_prNumber r"
    "rr_sameKeyOrder q = rr_sameKeyOrder r"
    using dn dq by (simp_all add: candidate_identity js_coalesce_def)
  ultimately show ?thesis using d by (simp add: same_target_def)
qed

lemma repository_trimmed: "parsed_as raw r \<Longrightarrow> opt_all trimmed (rr_repository r)"
proof -
  assume "parsed_as raw r"
  from parsed_repository [OF this] have "rr_repository r = None \<or> (\<exists>t s. rr_repository r = Some s \<and> s = js_trim t \<and> repository_slug s)"
    by (auto simp: repository_Some split: option.splits)
  moreover have "\<not> repository_slug []" by (simp add: repository_slug_def)
  ultimately show ?thesis by (auto simp: trimmed_def opt_all_def)
qed

lemma build_same_accounting:
  assumes "parsed_as raw r" "parsed_as (js_set (update_candidate env r p c) ''reviewRound'' rd) q"
  shows "same_accounting r q"
proof -
  note old = accounting_trimmed [OF parsed_accounting [OF assms(1)]]
  note new = accounting_fields [OF parsed_accounting [OF assms(2)], simplified map_of_js_set candidate_kept, simplified]
  have digest: "opt_all trimmed (rr_boundDigest r)"
    using parse_round_round(2) [OF parsed_round [OF assms(1)]] by (rule optional_string_ok)
  have digest': "(case js_coalesce (map_option JStr (rr_boundDigest r)) (patch_value p ''boundIssueSnapshotDigest'') of None \<Rightarrow> Some None
      | Some x \<Rightarrow> map_option Some (string_value (Some x))) = Some (rr_boundDigest q)"
    using parse_round_round(2) [OF parsed_round [OF assms(2)]] by (simp add: candidate_kept)
  have repository': "(case js_coalesce (map_option JStr (rr_repository r)) (patch_value p ''canonicalRepository'') of None \<Rightarrow> Some None
      | Some x \<Rightarrow> map_option Some (accepted (normalizePackReviewCanonicalRepository (json_to_string x)))) = Some (rr_repository q)"
    using parsed_repository [OF assms(2)] by (simp add: candidate_kept)
  show ?thesis
    unfolding same_accounting_def
    using kept_repository [OF repository' repository_trimmed [OF assms(1)]] kept_string [OF digest' digest]
      kept_string [OF conjunct1 [OF conjunct2 [OF new]] old(1)] kept_string [OF conjunct1 [OF conjunct2 [OF conjunct2 [OF new]]] old(2)]
      kept_positive [OF conjunct1 [OF conjunct2 [OF conjunct2 [OF conjunct2 [OF new]]]]]
      kept_positive [OF conjunct2 [OF conjunct2 [OF conjunct2 [OF conjunct2 [OF new]]]]]
    by blast
qed

lemma build_verdict:
  assumes "parsed_as (js_set (update_candidate env r p c) ''reviewRound'' rd) q" "hasPersistedPackReviewVerdict r"
  shows "same_verdict r q \<and> (\<not> allowPreAggregateSeverityUpdate r p c \<longrightarrow> rr_findings q = rr_findings r)"
  using parsed_verdict [OF assms(1)] candidate_verdict [OF assms(2), of env p c]
  by (simp add: same_verdict_def verdict_of_text json_integer_JInt json_object_JObj json_array_def)

lemma build_round:
  assumes "updated_round r cand path c = Inr rd" "parsed_as (js_set obj ''reviewRound'' rd) q" "parsed_as raw r"
  shows "round_evolves (rr_reviewRound r) (rr_reviewRound q) \<and> (c \<and> rr_reviewRound r \<noteq> None \<longrightarrow> rr_reviewRound q = rr_reviewRound r)"
  using updated_round_evolves [OF assms(1) parsed_round_ok [OF assms(3)]
      parse_round_round(1) [OF parsed_round [OF assms(2)], unfolded map_of_js_set if_True refl simp_thms]] .

lemma build_evolves:
  assumes "buildUpdatedPackReviewRun env st r p path = Inr q" "parsed_as raw r"
  shows "run_evolves r q"
proof -
  from assms(1) obtain c rd where u: "updated_round r (map_of (update_candidate env r p c) ''reviewRound'') path c = Inr rd"
    and q: "parsed_as (js_set (update_candidate env r p c) ''reviewRound'' rd) q" by (rule build_Inr)
  have "round_evolves (rr_reviewRound r) (rr_reviewRound q)" using build_round [OF u q assms(2)] by blast
  moreover have "rr_reviewRound r \<noteq> None \<Longrightarrow> \<not> allowPreAggregateSeverityUpdate r p c"
    by (simp add: allowPreAggregateSeverityUpdate_def)
  ultimately show ?thesis
    using build_same_target [OF assms(2) q] build_same_accounting [OF assms(2) q] build_verdict [OF q]
    by (auto simp: run_evolves_def)
qed

end
