(* ===== verification/Run_Order_Facts.thy ===== *)
theory Run_Order_Facts
  imports Run_Order
begin

text \<open>
  The order of the runs of one head is a strict order, undecided only between runs it cannot tell
  apart, and what the resolution finds is its greatest run.
\<close>

definition newer_run :: "run_env \<Rightarrow> run_record \<Rightarrow> run_record \<Rightarrow> bool" where
  "newer_run env a b \<longleftrightarrow> compareSameKeyRuns (re_dateParse env) a b = Some 1"

lemma compare_range: "compareSameKeyRuns d a b = Some c \<Longrightarrow> c = 1 \<or> c = -1"
  by (auto simp: compareSameKeyRuns_def split: option.splits if_splits)

lemma compare_swap: "compareSameKeyRuns d b a = map_option uminus (compareSameKeyRuns d a b)"
  by (auto simp: compareSameKeyRuns_def split: option.splits)


lemma compare_self: "compareSameKeyRuns d a a = None"
  by (auto simp: compareSameKeyRuns_def split: option.splits)

lemma compare_trans:
  "compareSameKeyRuns d a b = Some 1 \<Longrightarrow> compareSameKeyRuns d b c = Some 1 \<Longrightarrow> compareSameKeyRuns d a c = Some 1"
  by (auto simp: compareSameKeyRuns_def split: option.splits if_splits)

lemma newer_trans: "newer_run env a b \<Longrightarrow> newer_run env b c \<Longrightarrow> newer_run env a c"
  unfolding newer_run_def by (rule compare_trans)

lemma newer_irrefl: "\<not> newer_run env a a"
  by (simp add: newer_run_def compare_self)

lemma compare_cases:
  assumes "compareSameKeyRuns (re_dateParse env) a b = Some c"
  shows "0 < c \<and> newer_run env a b \<or> c \<le> 0 \<and> newer_run env b a"
  using compare_range [OF assms] assms compare_swap [of "re_dateParse env" b a]
  by (auto simp: newer_run_def)

section \<open>The newest run of a list\<close>

definition rival :: "run_env \<Rightarrow> run_record \<Rightarrow> run_record \<Rightarrow> bool" where
  "rival env run c \<longleftrightarrow> samePackReviewRunIdentity (re_cwd env) c run \<and> rr_id c \<noteq> rr_id run"

lemma newest_after_Newer:
  assumes "newest_after env run newer cs = Order_Newer n" and "\<forall>m. newer = Some m \<longrightarrow> newer_run env m run \<and> rival env run m"
  shows "(n \<in> set cs \<or> newer = Some n) \<and> rival env run n \<and> newer_run env n run
    \<and> (\<forall>c\<in>set cs. rival env run c \<longrightarrow> c = n \<or> newer_run env n c)
    \<and> (\<forall>m. newer = Some m \<longrightarrow> m = n \<or> newer_run env n m)"
  using assms
proof (induction env run newer cs rule: newest_after.induct)
  case (1 env run newer)
  then show ?case by (auto split: option.splits)
next
  case (2 env run newer c cs)
  show ?case
  proof (cases "rival env run c")
    case False
    then show ?thesis using 2 by (auto simp: rival_def)
  next
    case True
    then have cond: "\<not> (\<not> samePackReviewRunIdentity (re_cwd env) c run \<or> rr_id c = rr_id run)" by (simp add: rival_def)
    from 2(5) cond obtain k where k: "compareSameKeyRuns (re_dateParse env) c run = Some k" by (auto split: option.splits)
    show ?thesis
    proof (cases "k \<le> 0")
      case low: True
      with k have below: "newer_run env run c" using compare_cases [OF k] by auto
      have "newest_after env run newer cs = Order_Newer n" using 2(5) cond k low by auto
      from 2(2) [OF cond k low this 2(6)] below show ?thesis by (auto intro: newer_trans)
    next
      case high: False
      with k have over: "newer_run env c run" using compare_cases [OF k] by auto
      show ?thesis
      proof (cases newer)
        case None
        have "newest_after env run (Some c) cs = Order_Newer n" using 2(5) cond k high None by auto
        from 2(3) [OF cond k high None this] over True None show ?thesis by auto
      next
        case (Some m)
        with 2(5) cond k high obtain l where l: "compareSameKeyRuns (re_dateParse env) c m = Some l"
          by (auto split: option.splits)
        have next_run: "newest_after env run (Some (if 0 < l then c else m)) cs = Order_Newer n"
          using 2(5) cond k high Some l by auto
        have m: "newer_run env m run" "rival env run m" using 2(6) Some by auto
        have "\<forall>m'. Some (if 0 < l then c else m) = Some m' \<longrightarrow> newer_run env m' run \<and> rival env run m'"
          using over True m by auto
        from 2(4) [OF cond k high Some l next_run this] compare_cases [OF l] Some show ?thesis
          by (auto intro: newer_trans split: if_splits)
      qed
    qed
  qed
qed

lemma newest_after_None:
  "newest_after env run newer cs = Order_None \<Longrightarrow> newer = None \<and> (\<forall>c\<in>set cs. rival env run c \<longrightarrow> newer_run env run c)"
proof (induction env run newer cs rule: newest_after.induct)
  case (1 env run newer)
  then show ?case by (auto split: option.splits)
next
  case (2 env run newer c cs)
  show ?case
  proof (cases "rival env run c")
    case False
    then show ?thesis using 2 by (auto simp: rival_def)
  next
    case True
    then have cond: "\<not> (\<not> samePackReviewRunIdentity (re_cwd env) c run \<or> rr_id c = rr_id run)" by (simp add: rival_def)
    from 2(5) cond obtain k where k: "compareSameKeyRuns (re_dateParse env) c run = Some k" by (auto split: option.splits)
    show ?thesis
    proof (cases "k \<le> 0")
      case low: True
      have "newest_after env run newer cs = Order_None" using 2(5) cond k low by auto
      from 2(2) [OF cond k low this] compare_cases [OF k] low show ?thesis by auto
    next
      case high: False
      have False
      proof (cases newer)
        case None
        with 2(5) cond k high have "newest_after env run (Some c) cs = Order_None" by auto
        from 2(3) [OF cond k high None this] show False by simp
      next
        case (Some m)
        with 2(5) cond k high obtain l where l: "compareSameKeyRuns (re_dateParse env) c m = Some l"
          by (auto split: option.splits)
        have "newest_after env run (Some (if 0 < l then c else m)) cs = Order_None" using 2(5) cond k high Some l by auto
        from 2(4) [OF cond k high Some l this] show False by simp
      qed
      then show ?thesis ..
    qed
  qed
qed

lemma latest_of_Inr:
  "latest_of env key latest cs = Inr l \<Longrightarrow>
     l \<in> set (latest # cs) \<and> (\<forall>c\<in>set (latest # cs). c = l \<or> newer_run env l c)"
proof (induction env key latest cs rule: latest_of.induct)
  case (2 env key latest c cs)
  then obtain k where k: "compareSameKeyRuns (re_dateParse env) c latest = Some k" by (auto split: option.splits)
  with 2 have "l \<in> set ((if 0 < k then c else latest) # cs) \<and>
      (\<forall>x\<in>set ((if 0 < k then c else latest) # cs). x = l \<or> newer_run env l x)" by auto
  with compare_cases [OF k] show ?case by (auto intro: newer_trans split: if_splits)
qed simp

lemma filter_Cons_eq: "filter P xs = y # ys \<Longrightarrow> set (y # ys) = {x \<in> set xs. P x}"
  by (metis set_filter)

lemma newer_ordered: "rr_sameKeyOrder a \<noteq> None \<Longrightarrow> rr_sameKeyOrder b = None \<Longrightarrow> newer_run env a b"
  by (auto simp: newer_run_def compareSameKeyRuns_def)

text \<open>What is selected is one of the candidates, and newer than every other.\<close>

lemma select_latest_Some:
  assumes "selectLatestSameKeyRun env records candidates = Inr (Some l)"
  shows "l \<in> set candidates \<and> (\<forall>c\<in>set candidates. c = l \<or> newer_run env l c)"
proof -
  from assms obtain r os where c: "candidates = r # os" by (cases candidates) (auto simp: selectLatestSameKeyRun_def)
  show ?thesis
  proof (cases "filter (\<lambda>c. rr_sameKeyOrder c \<noteq> None) candidates")
    case Nil
    then have "latest_of env (\<lambda>_. rr_key r) r os = Inr l"
      using assms c by (auto simp: selectLatestSameKeyRun_def map_sum_Inr split: if_splits)
    from latest_of_Inr [OF this] c show ?thesis by auto
  next
    case (Cons f cs)
    have "latest_of env rr_key f cs = Inr l"
      using assms unfolding selectLatestSameKeyRun_def Cons by (simp add: c map_sum_Inr)
    from latest_of_Inr [OF this] have l: "l \<in> set (f # cs)" and best: "\<forall>c\<in>set (f # cs). c = l \<or> newer_run env l c" by auto
    note ordered = filter_Cons_eq [OF Cons]
    have "c = l \<or> newer_run env l c" if c: "c \<in> set candidates" for c
    proof (cases "rr_sameKeyOrder c = None")
      case True
      with l ordered show ?thesis by (intro disjI2 newer_ordered) auto
    next
      case False
      with c ordered best show ?thesis by blast
    qed
    with l ordered show ?thesis by blast
  qed
qed

lemma select_latest_None: "selectLatestSameKeyRun env records candidates = Inr None \<Longrightarrow> candidates = []"
  by (auto simp: selectLatestSameKeyRun_def map_sum_Inr split: list.splits if_splits)

lemma select_latest_Nil [simp]: "selectLatestSameKeyRun env records [] = Inr None"
  by (simp add: selectLatestSameKeyRun_def)

end
