(* ===== verification/Run_Create_Facts.thy ===== *)
theory Run_Create_Facts
  imports Run_Update_Facts Run_Order_Facts
begin

text \<open>
  What reading the whole store accepts, and what the creation of a run adds to it.
\<close>

section \<open>Reading all records\<close>

definition file_of_run :: "string \<times> run_file \<Rightarrow> run_record \<Rightarrow> bool" where
  "file_of_run e r \<longleftrightarrow> (\<exists>raw. snd e = Run_Json (JObj raw) \<and> parsed_as raw r \<and> fst e = run_file_name (rr_id r))"

lemma ends_with_json: "js_ends_with ''.json'' name \<Longrightarrow> take (length name - 5) name = s \<longleftrightarrow> name = run_file_name s"
proof -
  assume "js_ends_with ''.json'' name"
  then have "drop (length name - 5) name = ''.json''" by (simp add: js_ends_with_def eval_nat_numeral)
  then have "name = run_file_name (take (length name - 5) name)"
    using append_take_drop_id [of "length name - 5" name] by (simp add: run_file_name_def)
  then show ?thesis by (metis run_file_name_inj)
qed

lemma run_file_name_json [simp]: "js_ends_with ''.json'' (run_file_name s)"
  by (simp add: js_ends_with_def run_file_name_def)

lemma read_files_Inr:
  "read_files root ids files = Inr rs \<longleftrightarrow>
     list_all2 file_of_run (filter (\<lambda>e. js_ends_with ''.json'' (fst e)) files) rs
     \<and> distinct (map rr_id rs) \<and> (\<forall>r\<in>set rs. rr_id r \<notin> set ids)"
proof (induction files arbitrary: ids rs)
  case (Cons e files)
  obtain name f where e: "e = (name, f)" by (cases e)
  show ?case
  proof (cases "js_ends_with ''.json'' name")
    case False
    then show ?thesis using Cons by (simp add: e)
  next
    case True
    have step: "read_files root ids (e # files) = Inr rs \<longleftrightarrow>
        (\<exists>r rs'. rs = r # rs' \<and> file_of_run e r \<and> rr_id r \<notin> set ids \<and> read_files root (rr_id r # ids) files = Inr rs')"
      using True by (auto simp: e file_of_run_def rbind_Inr Let_def parse_Some_Inr ends_with_json split: run_file.splits if_splits)
    show ?thesis unfolding step Cons.IH using True by (auto simp: e list_all2_Cons1 image_iff) (metis+)?
  qed
qed auto

lemma single_active_Inr:
  "single_active env seen rs = Inr () \<longleftrightarrow>
     (\<forall>r\<in>set rs. \<forall>c\<in>set seen. live_run env r \<longrightarrow> \<not> samePackReviewRunIdentity (re_cwd env) c r)
     \<and> sorted_wrt (\<lambda>a b. live_run env a \<longrightarrow> live_run env b \<longrightarrow> \<not> samePackReviewRunIdentity (re_cwd env) a b) rs"
proof (induction rs arbitrary: seen)
  case (Cons r rs)
  show ?case
  proof (cases "live_run env r")
    case True
    have "single_active env seen (r # rs) = Inr () \<longleftrightarrow>
        (\<forall>c\<in>set seen. \<not> samePackReviewRunIdentity (re_cwd env) c r) \<and> single_active env (seen @ [r]) rs = Inr ()"
      using True by (simp add: list_ex_iff)
    with True show ?thesis unfolding Cons by auto
  qed (auto simp: Cons)
qed simp

definition readable :: "run_env \<Rightarrow> run_store \<Rightarrow> run_record list \<Rightarrow> bool" where
  "readable env st rs \<longleftrightarrow> readRecordsUnlocked env st = Inr rs"

lemma readable_iff:
  "readable env st rs \<longleftrightarrow>
     list_all2 file_of_run (filter (\<lambda>e. js_ends_with ''.json'' (fst e)) (st_files st)) rs \<and> distinct (map rr_id rs)
     \<and> sorted_wrt (\<lambda>a b. live_run env a \<longrightarrow> live_run env b \<longrightarrow> \<not> samePackReviewRunIdentity (re_cwd env) a b) rs"
  unfolding readable_def readRecordsUnlocked_def by (auto simp: rbind_Inr read_files_Inr single_active_Inr)

definition files_named :: "run_store \<Rightarrow> bool" where
  "files_named st \<longleftrightarrow> (\<forall>i r. run_at st i r \<longrightarrow> rr_id r = i)"

lemma list_all2_left: "list_all2 P xs ys \<Longrightarrow> x \<in> set xs \<Longrightarrow> \<exists>y\<in>set ys. P x y"
  by (induction rule: list_all2_induct) auto

lemma list_all2_right_ex: "list_all2 P xs ys \<Longrightarrow> y \<in> set ys \<Longrightarrow> \<exists>x\<in>set xs. P x y"
  by (induction rule: list_all2_induct) auto

lemma readable_run_at:
  assumes "readable env st rs" "run_at st i r"
  shows "r \<in> set rs \<and> rr_id r = i"
proof -
  from assms(2) obtain raw where f: "map_of (st_files st) (run_file_name i) = Some (Run_Json (JObj raw))" and p: "parsed_as raw r"
    by (auto simp: run_at_def)
  let ?e = "(run_file_name i, Run_Json (JObj raw))"
  have "?e \<in> set (filter (\<lambda>e. js_ends_with ''.json'' (fst e)) (st_files st))" using map_of_SomeD [OF f] by simp
  from list_all2_left [OF _ this] assms(1) obtain q where "q \<in> set rs" "file_of_run ?e q" unfolding readable_iff by blast
  moreover from this(2) p have "q = r" "rr_id q = i" by (auto simp: file_of_run_def dest: parsed_as_unique)
  ultimately show ?thesis by simp
qed

lemma readable_named: "readable env st rs \<Longrightarrow> files_named st"
  by (auto simp: files_named_def dest: readable_run_at)

section \<open>The new record\<close>

lemma run_id_trimmed: "run_id_ok s \<Longrightarrow> trimmed s"
proof -
  assume s: "run_id_ok s"
  then have split: "s = ''prr-'' @ drop 4 s"
    using append_take_drop_id [of 4 s] by (simp add: run_id_ok_def js_starts_with_def eval_nat_numeral)
  have "c \<in> set (drop 4 s) \<Longrightarrow> \<not> js_space c" for c
    using s by (auto simp: run_id_ok_def list_all_iff is_ascii_letter_def is_digit_def js_space_def)
  then have "c \<in> set (''prr-'' @ drop 4 s) \<Longrightarrow> \<not> js_space c" for c by (auto simp: js_space_def)
  then have "c \<in> set s \<Longrightarrow> \<not> js_space c" for c using split by metis
  moreover have "s \<noteq> []" using s by (auto simp: run_id_ok_def)
  ultimately show ?thesis using js_trim_fixed [of s] by (simp add: trimmed_def)
qed

lemma new_object_get:
  "map_of (new_run_object env input d projectId sha repo n) ''id'' = Some (JStr (new_run_id (re_uuid env)))"
  "map_of (new_run_object env input d projectId sha repo n) ''projectId'' = Some (JStr projectId)"
  "map_of (new_run_object env input d projectId sha repo n) ''prNumber'' = Some (JInt (ci_prNumber input))"
  "map_of (new_run_object env input d projectId sha repo n) ''targetSha'' = Some (JStr sha)"
  "map_of (new_run_object env input d projectId sha repo n) ''key'' = Some (JStr (packReviewRunKey (ci_prNumber input) sha))"
  "map_of (new_run_object env input d projectId sha repo n) ''status'' = Some (JStr ''queued'')"
  "map_of (new_run_object env input d projectId sha repo n) ''sameKeyOrder'' = Some (JInt n)"
  "map_of (new_run_object env input d projectId sha repo n) ''canonicalRepository'' = map_option JStr repo"
  "map_of (new_run_object env input d projectId sha repo n) ''sourceRepoRoot'' = Some (JStr (path_resolve (re_cwd env) (ci_sourceRepoRoot input)))"
  "map_of (new_run_object env input d projectId sha repo n) ''findings'' = Some (JArr [])"
  "map_of (new_run_object env input d projectId sha repo n) ''reviewVerdict'' = None"
  by (simp_all add: new_run_object_def map_of_js_spread)

lemma key_repository: "canonicalRepositoryFromRunKey (packReviewRunKey n sha) n sha = None"
  by (simp add: canonicalRepositoryFromRunKey_def packReviewRunKey_def Let_def js_ends_with_def)

lemma run_key_trimmed: "is_sha sha \<Longrightarrow> trimmed (packReviewRunKey n sha)"
proof -
  assume sha: "is_sha sha"
  then have ne: "sha \<noteq> []" by (auto simp: is_sha_def)
  then have "last sha \<in> set sha" by simp
  moreover note ne
  moreover have "c \<in> set sha \<Longrightarrow> \<not> js_space c" for c
    using sha by (auto simp: is_sha_def list_all_iff is_lower_hex_def is_digit_def js_space_def)
  ultimately show ?thesis
    using js_trim_fixed [of "packReviewRunKey n sha"] by (simp add: trimmed_def packReviewRunKey_def js_space_def)
qed

lemma new_record:
  assumes "parsed_as (new_run_object env input d projectId sha repo n) v" "trimmed projectId" "is_sha sha"
    "opt_all (\<lambda>s. trimmed s \<and> repository_slug s) repo" "run_id_ok (new_run_id (re_uuid env))"
  shows "rr_id v = new_run_id (re_uuid env)" "rr_projectId v = projectId" "rr_prNumber v = ci_prNumber input" "rr_targetSha v = sha"
    "record_repository v = repo" "rr_sourceRepoRoot v = path_resolve (re_cwd env) (ci_sourceRepoRoot input)"
    "rr_sameKeyOrder v = Some n" "rr_status v = Queued" "rr_findings v = []" "rr_verdict v = None"
proof -
  note p = assms(1) [unfolded parsed_as_def new_object_get]
  have sha: "sha_of sha = sha" using assms(3) by (rule sha_of_fixed)
  from p show t: "rr_id v = new_run_id (re_uuid env)" "rr_projectId v = projectId" "rr_prNumber v = ci_prNumber input"
    "rr_sourceRepoRoot v = path_resolve (re_cwd env) (ci_sourceRepoRoot input)" "rr_findings v = []" "rr_verdict v = None"
    using assms(2,5) by (simp_all add: run_id_trimmed positive_number_JInt json_array_def verdict_of_def)
  show target: "rr_targetSha v = sha"
    using parsed_shas [OF assms(1)] assms(3) sha by (auto simp: new_object_get head_sha_Some sha_trimmed)
  have key: "rr_key v = packReviewRunKey (ci_prNumber input) sha"
    using p run_key_trimmed [OF assms(3)] by simp
  have "rr_repository v = repo"
    using parsed_repository [OF assms(1)] assms(4) by (cases repo) (auto simp: new_object_get repository_Some trimmed_def)
  then show "record_repository v = repo"
    using target t(3) by (simp add: record_repository_def key key_repository or_else_def split: option.splits)
  show "rr_sameKeyOrder v = Some n" using p by (simp add: positive_number_JInt) 
  have "Some Queued = Some (rr_status v)" using p status_of_text [of Queued] status_trimmed [of Queued] by simp
  then show "rr_status v = Queued" by simp
qed

section \<open>What a creation does\<close>

lemma trim_or_trimmed: "trimmed d \<Longrightarrow> trimmed (trim_or d v)"
  by (auto simp: trim_or_def trimmed_def split: option.splits)

lemma not_Some_pair: "(\<forall>a b. x \<noteq> Some (a, b)) \<longleftrightarrow> x = None"
  by (cases x) auto

lemma create_Created:
  assumes "createPackReviewRun env st input = Inr (Run_Created obj, st')"
  obtains rs bindings repository d sha v where
    "readable env st rs" "legacy_bindings (re_cwd env) (ci_legacyRepositories input) = Inr bindings"
    "opt_all (\<lambda>s. trimmed s \<and> repository_slug s) repository" "is_sha sha" "sha = sha_of (ci_headSha input)" "0 < ci_prNumber input"
    "repository = None \<longleftrightarrow> filled (ci_canonicalRepository input) = None"
    "reusable_run env input d (trim_or ''orchestrator-pack'' (ci_projectId input)) sha repository
       (map (bind_repository (re_cwd env) bindings) rs) = Inr None"
    "obj = new_run_object env input d (trim_or ''orchestrator-pack'' (ci_projectId input)) sha repository
       (next_order (List.map_filter rr_sameKeyOrder
          (filter (matches_target env input (trim_or ''orchestrator-pack'' (ci_projectId input)) sha repository)
             (map (bind_repository (re_cwd env) bindings) rs))))"
    "parsed_as obj v" "map_of (st_files st) (run_file_name (new_run_id (re_uuid env))) = None"
    "run_id_ok (new_run_id (re_uuid env))"
    "st' = st\<lparr>st_files := put_file (run_file_name (new_run_id (re_uuid env))) (Run_Json (JObj (run_object v))) (st_files st)\<rparr>"
proof -
  from assms obtain d sha where pr: "0 < ci_prNumber input" and sha: "normalizePackReviewHeadSha (ci_headSha input) = Inr sha"
    and c: "create_locked env st input d (trim_or ''orchestrator-pack'' (ci_projectId input)) sha = Inr (Run_Created obj, st')"
    by (auto simp: createPackReviewRun_def rbind_Inr withStoreLock_Inr split: if_splits)
  let ?p = "trim_or ''orchestrator-pack'' (ci_projectId input)"
  from c obtain rs bindings repository where rs: "readRecordsUnlocked env st = Inr rs"
    and b: "legacy_bindings (re_cwd env) (ci_legacyRepositories input) = Inr bindings"
    and repo: "(case filled (ci_canonicalRepository input) of
              None \<Rightarrow> Inr None | Some x \<Rightarrow> map_sum id Some (normalizePackReviewCanonicalRepository x)) = Inr repository"
    and r: "reusable_run env input d ?p sha repository (map (bind_repository (re_cwd env) bindings) rs) = Inr None"
    and obj: "obj = new_run_object env input d ?p sha repository
       (next_order (List.map_filter rr_sameKeyOrder (filter (matches_target env input ?p sha repository) (map (bind_repository (re_cwd env) bindings) rs))))"
    and w: "writeRecordUnlocked env st (new_run_id (re_uuid env)) obj True = Inr st'"
    unfolding create_locked_def by (auto simp: rbind_Inr Let_def not_Some_pair split: option.splits)
  have "opt_all (\<lambda>s. trimmed s \<and> repository_slug s) repository" "repository = None \<longleftrightarrow> filled (ci_canonicalRepository input) = None"
    using repo by (auto simp: accepted_Inr accepted_simps repository_Some trimmed_def repository_slug_def split: option.splits)
  note repo' = this
  have sha': "is_sha sha" "sha = sha_of (ci_headSha input)"
    using sha unfolding accepted_Inr head_sha_Some by auto
  from w obtain v where v: "parsed_as obj v" "map_of (st_files st) (run_file_name (new_run_id (re_uuid env))) = None"
    "run_id_ok (new_run_id (re_uuid env))"
    "st' = st\<lparr>st_files := put_file (run_file_name (new_run_id (re_uuid env))) (Run_Json (JObj (run_object v))) (st_files st)\<rparr>"
    unfolding writeRecord_Inr by blast
  have "readable env st rs" using rs by (simp add: readable_def)
  from that [OF this b repo'(1) sha' pr repo'(2) r obj v] show thesis .
qed

lemma map_filter_Some: "x \<in> set (List.map_filter f xs) \<longleftrightarrow> (\<exists>y\<in>set xs. f y = Some x)"
  by (induction xs) (auto simp: List.map_filter_simps split: option.splits)

lemma next_order_above: "n \<in> set orders \<Longrightarrow> n < next_order orders"
proof -
  have "n \<le> fold max xs x" if "n \<in> set (x # xs)" for x xs
    using that Max_ge [OF _ that] unfolding Max.set_eq_fold [symmetric] by simp
  then show "n \<in> set orders \<Longrightarrow> n < next_order orders" by (cases orders) (auto simp: next_order_def)
qed

text \<open>What a binding may change: the repository of a record that has none.\<close>

lemma bound_repository: "record_repository r \<noteq> None \<or> b = [] \<Longrightarrow> record_repository (bind_repository cwd b r) = record_repository r"
  by (auto simp: bind_repository_def record_repository_def or_else_def split: option.splits)

lemma bound_same [simp]:
  "rr_projectId (bind_repository cwd b r) = rr_projectId r" "rr_prNumber (bind_repository cwd b r) = rr_prNumber r"
  "rr_targetSha (bind_repository cwd b r) = rr_targetSha r" "rr_sourceRepoRoot (bind_repository cwd b r) = rr_sourceRepoRoot r"
  "rr_sameKeyOrder (bind_repository cwd b r) = rr_sameKeyOrder r" "rr_status (bind_repository cwd b r) = rr_status r"
  "rr_runnerPid (bind_repository cwd b r) = rr_runnerPid r" "rr_heartbeatAtUtc (bind_repository cwd b r) = rr_heartbeatAtUtc r"
  "rr_updatedAt (bind_repository cwd b r) = rr_updatedAt r"
  by (auto simp: bind_repository_def split: option.splits)

lemma bound_live [simp]: "live_run env (bind_repository cwd b r) = live_run env r"
  by (simp add: live_run_def isPackReviewRunStale_def packReviewRunGraceElapsed_def)

lemma bound_round [simp]:
  "rr_reviewRound (bind_repository cwd b c) = rr_reviewRound c" "rr_reviewer (bind_repository cwd b c) = rr_reviewer c"
  "hasPersistedPackReviewVerdict (bind_repository cwd b c) = hasPersistedPackReviewVerdict c"
  "uncertain_delivery (bind_repository cwd b c) = uncertain_delivery c"
  by (auto simp: bind_repository_def hasPersistedPackReviewVerdict_def hasValidPackReviewJournalOutcome_def verdict_key_def
      uncertain_delivery_def split: option.splits)

text \<open>A record of the new run's target is one the creation looked at, unless a binding gave it another repository.\<close>

lemma same_identity_matches:
  assumes "samePackReviewRunIdentity (re_cwd env) c v" "rr_projectId v = p" "rr_prNumber v = ci_prNumber input" "rr_targetSha v = sha"
    "record_repository v = repository" "rr_sourceRepoRoot v = path_resolve (re_cwd env) (ci_sourceRepoRoot input)"
    "ci_sourceRepoRoot input \<noteq> []" "record_repository (bind_repository (re_cwd env) b c) = record_repository c"
  shows "matches_target env input p sha repository (bind_repository (re_cwd env) b c)"
  using assms unfolding samePackReviewRunIdentity_def matches_target_def matchesPackReviewRunInput_def bound_same
  by (auto simp: path_resolve_idem split: option.splits)

lemma reusable_None:
  assumes "reusable_run env input d p sha repository bound = Inr None" "r \<in> set bound"
  shows "matches_target env input p sha repository r \<Longrightarrow> live_run env r \<Longrightarrow>
      ci_allowSameRoundReplacement input \<and> matches_input env input d p sha repository r
      \<and> ci_resolvedReviewer input \<noteq> None \<and> rv_resolved (rr_reviewer r) = ci_resolvedReviewer input"
    "matches_input env input d p sha repository r \<Longrightarrow> \<not> (rr_status r \<in> set PACK_REVIEW_VERDICT_TERMINAL_STATUSES \<and> hasPersistedPackReviewVerdict r)"
    "matches_input env input d p sha repository r \<Longrightarrow> ci_allowSameRoundReplacement input
       \<or> \<not> uncertain_delivery r \<and> \<not> hasRecordedGptRoundLifecycleOrEvidence (rr_reviewRound r)"
  using assms unfolding reusable_run_def Let_def
  by (auto simp: rbind_Inr filter_empty_conv dest!: select_latest_None split: if_splits list.splits option.splits)

end
