(* ===== verification/Run_Machine.thy ===== *)
theory Run_Machine
  imports Run_Create_Facts
begin

text \<open>
  Histories of the run store: the calls of \<open>scripts/lib/pack-review-run-store.ts\<close> that write, and
  changes of the review authority kept under the same root, in any order and each in its own
  environment. The relation every history keeps between two versions of a run is \<open>run_evolves\<close>.
\<close>

section \<open>Stores whose entries only evolve\<close>

text \<open>
  The contract of a store under any history: steps keep it good, and what they make of an entry is
  related to it by a preorder.
\<close>

locale evolving_store =
  fixes entry :: "'st \<Rightarrow> 'k \<Rightarrow> 'e option"
    and good :: "'st \<Rightarrow> bool"
    and step :: "'st \<Rightarrow> 'st \<Rightarrow> bool"
    and le :: "'e \<Rightarrow> 'e \<Rightarrow> bool"
  assumes le_refl: "le e e"
    and le_trans: "le e e' \<Longrightarrow> le e' e'' \<Longrightarrow> le e e''"
    and step_good: "good s \<Longrightarrow> step s s' \<Longrightarrow> good s'"
    and step_le: "good s \<Longrightarrow> step s s' \<Longrightarrow> entry s k = Some e \<Longrightarrow> \<exists>e'. entry s' k = Some e' \<and> le e e'"
begin

lemma history_good: "step\<^sup>*\<^sup>* s s' \<Longrightarrow> good s \<Longrightarrow> good s'"
  by (induction rule: rtranclp_induct) (auto intro: step_good)

lemma history_le: "step\<^sup>*\<^sup>* s s' \<Longrightarrow> good s \<Longrightarrow> entry s k = Some e \<Longrightarrow> \<exists>e'. entry s' k = Some e' \<and> le e e'"
proof (induction rule: rtranclp_induct)
  case base
  then show ?case using le_refl by blast
next
  case (step s1 s2)
  then obtain e1 where "entry s1 k = Some e1" "le e e1" by blast
  with step_le [OF history_good [OF step.hyps(1) step.prems(1)] step.hyps(2)] show ?case by (blast intro: le_trans)
qed

end

section \<open>Calls\<close>

datatype run_call =
    Call_Create create_input
  | Call_Update string js_patch
  | Call_Update_If string "run_record list \<Rightarrow> bool" "run_record \<Rightarrow> js_patch"
  | Call_Heartbeat string
  | Call_Terminal string run_status js_patch
  | Call_Terminalize_Stale string
  | Authority_Changes review_store

definition store_after :: "run_store \<Rightarrow> 'e + 'a \<times> run_store \<Rightarrow> run_store" where
  "store_after st outcome = (case outcome of Inl e \<Rightarrow> st | Inr (x, st') \<Rightarrow> st')"

fun call_after :: "run_env \<Rightarrow> run_call \<Rightarrow> run_store \<Rightarrow> run_store" where
  "call_after env (Call_Create input) st = store_after st (createPackReviewRun env st input)"
| "call_after env (Call_Update runId changes) st = store_after st (updatePackReviewRun env st runId changes)"
| "call_after env (Call_Update_If runId predicate changes) st = store_after st (updatePackReviewRunIf env st runId predicate changes)"
| "call_after env (Call_Heartbeat runId) st = store_after st (heartbeatPackReviewRun env st runId)"
| "call_after env (Call_Terminal runId status changes) st = store_after st (setPackReviewRunTerminal env st runId status changes)"
| "call_after env (Call_Terminalize_Stale runId) st = snd (terminalizePackReviewStaleRun env st runId)"
| "call_after env (Authority_Changes authority) st = st\<lparr>st_authority := authority\<rparr>"

definition run_step :: "run_store \<Rightarrow> run_store \<Rightarrow> bool" where
  "run_step st st' \<longleftrightarrow> (\<exists>env c. st' = call_after env c st)"

text \<open>The run a name stands for, if its file holds one.\<close>

definition run_entry :: "run_store \<Rightarrow> string \<Rightarrow> run_record option" where
  "run_entry st runId = accepted (existing_run st runId)"

section \<open>What a call keeps\<close>

definition store_evolves :: "run_store \<Rightarrow> run_store \<Rightarrow> bool" where
  "store_evolves st st' \<longleftrightarrow> files_named st' \<and> (\<forall>i r. run_at st i r \<longrightarrow> (\<exists>q. run_at st' i q \<and> run_evolves r q))"

lemma store_evolves_refl: "files_named st \<Longrightarrow> store_evolves st st"
  by (auto simp: store_evolves_def intro: exI [of _ "r :: run_record" for r])

lemma store_evolves_trans: "store_evolves st st' \<Longrightarrow> store_evolves st' st'' \<Longrightarrow> store_evolves st st''"
  unfolding store_evolves_def by (meson run_evolves_trans)

lemma run_at_put:
  assumes "parsed_as raw q" "st' = st\<lparr>st_files := put_file (run_file_name j) (Run_Json (JObj (run_object q))) (st_files st)\<rparr>"
  shows "run_at st' i r \<longleftrightarrow> (if i = j then run_id_ok i \<and> r = q else run_at st i r)"
  using parsed_reread [OF assms(1)] assms(2) by (auto simp: run_at_def map_of_put_file dest: parsed_as_unique)

lemma update_locked_Inr:
  assumes "update_locked env st i f = Inr (q, st')"
  obtains r raw path where "run_at st i r" "buildUpdatedPackReviewRun env st r (f r) path = Inr q" "run_evolves r q" "parsed_as raw q"
    "rr_id q = rr_id r"
    "st' = st\<lparr>st_files := put_file (run_file_name (rr_id r)) (Run_Json (JObj (run_object q))) (st_files st)\<rparr>"
proof -
  from assms obtain path r where r: "run_at st i r" and q: "buildUpdatedPackReviewRun env st r (f r) path = Inr q"
    and w: "writeRecordUnlocked env st (rr_id q) (run_object q) False = Inr st'"
    by (auto simp: update_locked_def rbind_Inr existing_run_Inr)
  from r obtain raw where "parsed_as raw r" by (auto simp: run_at_def)
  from build_evolves [OF q this] have e: "run_evolves r q" .
  then have same: "rr_id q = rr_id r" by (simp add: run_evolves_def same_target_def)
  from q obtain raw' where p: "parsed_as raw' q" by (rule build_Inr)
  from w obtain v where "parsed_as (run_object q) v"
    "st' = st\<lparr>st_files := put_file (run_file_name (rr_id q)) (Run_Json (JObj (run_object v))) (st_files st)\<rparr>"
    by (auto simp: writeRecord_Inr)
  with parsed_as_unique [OF this(1) parsed_reread [OF p]]
  have "st' = st\<lparr>st_files := put_file (run_file_name (rr_id r)) (Run_Json (JObj (run_object q))) (st_files st)\<rparr>"
    by (simp add: same)
  from that [OF r q e p same this] show thesis .
qed

lemma put_evolves:
  assumes named: "files_named st" and p: "parsed_as raw q" and name: "rr_id q = j" and ok: "run_id_ok j"
    and st': "st' = st\<lparr>st_files := put_file (run_file_name j) (Run_Json (JObj (run_object q))) (st_files st)\<rparr>"
    and old: "\<And>r. run_at st j r \<Longrightarrow> run_evolves r q"
  shows "store_evolves st st'"
proof -
  note at = run_at_put [OF p st']
  have "files_named st'" using named name by (simp add: files_named_def at)
  moreover have "\<exists>x. run_at st' i x \<and> run_evolves r x" if r: "run_at st i r" for i r
  proof (cases "i = j")
    case True
    with r ok old show ?thesis by (intro exI [of _ q]) (simp add: at)
  next
    case False
    with r show ?thesis by (intro exI [of _ r]) (simp add: at)
  qed
  ultimately show ?thesis by (simp add: store_evolves_def)
qed

lemma update_evolves:
  assumes "update_locked env st i f = Inr (q, st')" "files_named st"
  shows "store_evolves st st'"
proof -
  from assms(1) obtain r raw where r: "run_at st i r" and e: "run_evolves r q" and p: "parsed_as raw q" and same: "rr_id q = rr_id r"
    and st': "st' = st\<lparr>st_files := put_file (run_file_name (rr_id r)) (Run_Json (JObj (run_object q))) (st_files st)\<rparr>"
    by (rule update_locked_Inr)
  have i: "rr_id r = i" using assms(2) r by (simp add: files_named_def)
  show ?thesis
  proof (rule put_evolves [OF assms(2) p same _ st'])
    show "run_id_ok (rr_id r)" using r i by (simp add: run_at_def)
    show "run_evolves r' q" if "run_at st (rr_id r) r'" for r' using run_at_unique [OF r] that i e by simp
  qed
qed

lemma create_reused: "createPackReviewRun env st input = Inr (Run_Reused reason r, st') \<Longrightarrow> st' = st"
  by (auto simp: createPackReviewRun_def create_locked_def rbind_Inr withStoreLock_Inr Let_def split: if_splits option.splits)

lemma default_project_trimmed: "trimmed (trim_or ''orchestrator-pack'' v)"
  by (rule trim_or_trimmed) (simp add: trimmed_def js_trim_def js_space_def)

lemma create_evolves:
  assumes "createPackReviewRun env st input = Inr (outcome, st')" "files_named st"
  shows "store_evolves st st'"
proof (cases outcome)
  case (Run_Reused reason r)
  with assms have "st' = st" by (auto dest: create_reused)
  with assms(2) show ?thesis by (simp add: store_evolves_refl)
next
  case (Run_Created obj)
  show ?thesis
  proof (rule create_Created [OF assms(1) [unfolded Run_Created]])
    fix rs bindings repository d sha v
    let ?id = "new_run_id (re_uuid env)"
    assume repo: "opt_all (\<lambda>s. trimmed s \<and> repository_slug s) repository" and sha: "is_sha sha"
      and obj: "obj = new_run_object env input d (trim_or ''orchestrator-pack'' (ci_projectId input)) sha repository
         (next_order (List.map_filter rr_sameKeyOrder
          (filter (matches_target env input (trim_or ''orchestrator-pack'' (ci_projectId input)) sha repository)
             (map (bind_repository (re_cwd env) bindings) rs))))"
      and v: "parsed_as obj v" and new: "map_of (st_files st) (run_file_name ?id) = None" and ok: "run_id_ok ?id"
      and st': "st' = st\<lparr>st_files := put_file (run_file_name ?id) (Run_Json (JObj (run_object v))) (st_files st)\<rparr>"
    note name = new_record(1) [OF v [unfolded obj] default_project_trimmed sha repo ok]
    have "\<not> run_at st ?id r" for r using new by (simp add: run_at_def)
    then show ?thesis by (intro put_evolves [OF assms(2) v name ok st']) blast
  qed
qed

lemma updatePackReviewRun_evolves:
  "updatePackReviewRun env st i p = Inr (q, st') \<Longrightarrow> files_named st \<Longrightarrow> store_evolves st st'"
  by (auto simp: updatePackReviewRun_def withStoreLock_Inr intro: update_evolves)

lemma setTerminal_evolves:
  "setPackReviewRunTerminal env st i s p = Inr (q, st') \<Longrightarrow> files_named st \<Longrightarrow> store_evolves st st'"
  by (auto simp: setPackReviewRunTerminal_def intro: updatePackReviewRun_evolves split: if_splits)

lemma fail_stale_evolves: "files_named st \<Longrightarrow> store_evolves st (snd (fail_stale_run env st i recovered))"
  by (auto simp: fail_stale_run_def store_evolves_refl intro: setTerminal_evolves split: sum.splits)

lemma evolves_named: "store_evolves st st' \<Longrightarrow> files_named st'"
  by (simp add: store_evolves_def)

lemma terminalize_evolves:
  assumes "files_named st"
  shows "store_evolves st (snd (terminalizePackReviewStaleRun env st i))"
proof (cases "existing_run st i")
  case (Inr r)
  show ?thesis
  proof (cases "updatePackReviewRun env st i [(''reviewRound'', Some (round_json (interrupted_round (the (rr_reviewRound r)))))]")
    case (Inr s)
    then obtain q st' where "updatePackReviewRun env st i [(''reviewRound'', Some (round_json (interrupted_round (the (rr_reviewRound r)))))] = Inr (q, st')"
      by (cases s) simp
    with assms have e: "store_evolves st st'" by (auto dest: updatePackReviewRun_evolves)
    from store_evolves_trans [OF e fail_stale_evolves [OF evolves_named [OF e]]]
    have "store_evolves st (snd (fail_stale_run env st' i (rr_reviewRound q)))" .
    with Inr \<open>_ = Inr (q, st')\<close> \<open>existing_run st i = Inr r\<close> assms show ?thesis
      by (auto simp: terminalizePackReviewStaleRun_def fail_stale_evolves store_evolves_refl split: option.splits)
  qed (use Inr assms in \<open>auto simp: terminalizePackReviewStaleRun_def fail_stale_evolves store_evolves_refl split: option.splits\<close>)
qed (use assms in \<open>simp add: terminalizePackReviewStaleRun_def store_evolves_refl\<close>)

lemma call_evolves:
  assumes "files_named st"
  shows "store_evolves st (call_after env c st)"
proof (cases c)
  case (Call_Create input)
  with assms show ?thesis by (auto simp: store_after_def store_evolves_refl intro: create_evolves split: sum.splits)
next
  case (Call_Update i p)
  with assms show ?thesis by (auto simp: store_after_def store_evolves_refl intro: updatePackReviewRun_evolves split: sum.splits)
next
  case (Call_Update_If i f p)
  with assms show ?thesis
    by (auto simp: store_after_def store_evolves_refl updatePackReviewRunIf_def withStoreLock_Inr rbind_Inr map_sum_Inr
        intro: update_evolves split: sum.splits if_splits)
next
  case (Call_Heartbeat i)
  with assms show ?thesis
    by (auto simp: store_after_def store_evolves_refl heartbeatPackReviewRun_def intro: updatePackReviewRun_evolves split: sum.splits)
next
  case (Call_Terminal i s p)
  with assms show ?thesis by (auto simp: store_after_def store_evolves_refl intro: setTerminal_evolves split: sum.splits)
next
  case (Call_Terminalize_Stale i)
  with assms show ?thesis by (simp add: terminalize_evolves)
next
  case (Authority_Changes a)
  have "run_at (st\<lparr>st_authority := a\<rparr>) i r = run_at st i r" for i r by (simp add: run_at_def)
  with Authority_Changes assms store_evolves_refl [OF assms] show ?thesis by (simp add: store_evolves_def files_named_def)
qed

lemma run_entry_Some: "run_entry st i = Some r \<longleftrightarrow> run_at st i r"
  unfolding run_entry_def accepted_Inr [symmetric] by (rule existing_run_Inr)

interpretation runs: evolving_store run_entry files_named run_step run_evolves
proof
  show "run_evolves r r" for r by (rule run_evolves_refl)
  show "run_evolves r p" if "run_evolves r q" "run_evolves q p" for r q p using that by (rule run_evolves_trans)
  show "files_named s'" if "files_named s" "run_step s s'" for s s'
    using that by (auto simp: run_step_def intro: evolves_named [OF call_evolves])
  show "\<exists>q. run_entry s' i = Some q \<and> run_evolves r q" if "files_named s" "run_step s s'" "run_entry s i = Some r" for s s' i r
    using that call_evolves unfolding run_entry_Some by (auto simp: run_step_def store_evolves_def)
qed

end
