(* ===== verification/Run_Samples.thy ===== *)
theory Run_Samples
  imports Run_Machine
begin

text \<open>
  Concrete records and stores of the run store, on which its properties are applied: a run of the
  GPT reviewer with one finding and a persisted verdict, a queued run, and a store holding each.
\<close>

definition run_head :: string where
  "run_head = replicate 40 CHR ''a''"

definition sample_finding :: json where
  "sample_finding = JObj [(''title'', JStr ''off by one'')]"

definition sample_slot :: source_slot where
  "sample_slot = \<lparr>sl_slotId = ''source-01'', sl_ordinal = 1, sl_lifecycle = Slot_Terminal, sl_invocationId = Some ''inv-1'',
     sl_attemptOrdinal = Some 1, sl_admissionStartedAtUtc = None, sl_launchProfileKey = None, sl_launchCdpUrl = None,
     sl_terminalClass = Some ''complete_findings'',
     sl_terminalResult = Some (JObj [(''schema'', JStr ''turn-result/v1''), (''state'', JStr ''ok''), (''scope'', JStr ''turn''),
        (''cause'', JStr ''none''), (''invocation_id'', JStr ''inv-1''), (''send_count'', JInt 1)]),
     sl_payload = Some (JObj [(''verdict'', JStr ''findings''), (''findingCount'', JInt 1), (''findings'', JArr [sample_finding])]),
     sl_rest = []\<rparr>"

definition sample_round :: gpt_round where
  "sample_round = \<lparr>gr_tier = T1, gr_accountingVersion = Some ''issue-2761-tiered-sources-1-2-3'', gr_roundOrdinal = 1,
     gr_cardinality = 1, gr_issueNumber = 5, gr_boundDigest = ''digest'', gr_slots = [sample_slot], gr_settled = None, gr_rest = []\<rparr>"

definition sample_journal :: js_object where
  "sample_journal = [(''state'', JStr ''persisted''), (''recordedAtUtc'', JStr ''t1''), (''reason'', JStr ''ok''),
     (''idempotencyKey'', JStr (''verdict:prr-1:'' @ run_head)), (''attempts'', JInt 1)]"

definition sample_run :: run_record where
  "sample_run = \<lparr>rr_id = ''prr-1'', rr_runId = ''prr-1'', rr_projectId = ''p'', rr_key = ''pr-7-'' @ run_head, rr_prNumber = 7,
     rr_targetSha = run_head, rr_headSha = run_head, rr_status = Changes_Requested,
     rr_labels = \<lparr>rl_latestRunStatus = ''changes_requested'', rl_linkedSessionId = [], rl_startReason = [], rl_surface = ''s'',
        rl_trustedPackRoot = ''/t''\<rparr>,
     rr_sourceRepoRoot = ''/r'',
     rr_accounting = \<lparr>ra_disposition = Disp_Consume, ra_accountingVersion = Some ''issue-2761-tiered-sources-1-2-3'',
        ra_reviewCycleId = Some ''c'', ra_logicalRoundOrdinal = Some 1, ra_logicalRoundCap = Some 1\<rparr>,
     rr_reviewer = \<lparr>rv_resolved = Some ''gpt'', rv_resolvedSource = None, rv_executed = None, rv_executionRunId = None,
        rv_invoked = None, rv_nativeAttempt = None\<rparr>,
     rr_reviewRound = Some sample_round, rr_boundDigest = Some ''digest'', rr_runnerPid = 9, rr_createdAt = ''t0'', rr_updatedAt = ''t1'',
     rr_heartbeatAtUtc = ''t1'', rr_sameKeyOrder = Some 1, rr_verdict = Some Verdict_Findings, rr_findingCount = Some 1,
     rr_findings = [attributed ''source-01'' sample_finding], rr_journal = Some sample_journal,
     rr_delivery = [(''requiredStatus'', JObj [(''state'', JStr ''succeeded''), (''recordedAtUtc'', JStr ''t1''), (''reason'', JStr ''r''),
        (''idempotencyKey'', JStr ''k'')])],
     rr_repository = None, rr_rest = []\<rparr>"

definition native_run :: run_record where
  "native_run = sample_run\<lparr>rr_id := ''prr-2'', rr_runId := ''prr-2'', rr_status := Queued,
     rr_labels := (rr_labels sample_run)\<lparr>rl_latestRunStatus := ''queued''\<rparr>,
     rr_accounting := \<lparr>ra_disposition = Disp_Consume, ra_accountingVersion = None, ra_reviewCycleId = None,
        ra_logicalRoundOrdinal = None, ra_logicalRoundCap = None\<rparr>,
     rr_reviewer := (rr_reviewer sample_run)\<lparr>rv_resolved := Some ''codex''\<rparr>, rr_reviewRound := None, rr_boundDigest := None,
     rr_verdict := None, rr_findingCount := None, rr_findings := [], rr_journal := None, rr_delivery := []\<rparr>"

definition run_env_sample :: run_env where
  "run_env_sample = \<lparr>re_clock = 0, re_now = None, re_isoText = (\<lambda>n. ''t'' @ show_int n), re_dateParse = (\<lambda>s. if s = ''t1'' then Some 1 else None),
     re_cwd = ''/w'', re_pid = 9, re_uuid = ''a-b'', re_staleSetting = None, re_kill = (\<lambda>pid. Kill_Ok), re_probe = (\<lambda>n. Lock_Free),
     re_rename = (\<lambda>n. Renamed)\<rparr>"

definition store_of :: "run_record list \<Rightarrow> run_store" where
  "store_of rs = \<lparr>st_root = ''/s'', st_files = map (\<lambda>r. (run_file_name (rr_id r), Run_Json (JObj (run_object r)))) rs,
     st_authority = \<lparr>rs_docs = (\<lambda>n. None), rs_immutable = []\<rparr>\<rparr>"

lemma sample_parsed: "parseRunRecord (Some (JObj (run_object sample_run))) [] = Inr sample_run"
  by code_simp

lemma native_parsed: "parseRunRecord (Some (JObj (run_object native_run))) [] = Inr native_run"
  by code_simp

lemma run_lock_free [simp]: "withStoreLock run_env_sample action = action"
  by (simp add: withStoreLock_def acquireStoreLock_def run_env_sample_def numeral_eq_Suc)

lemma sample_rename [simp]: "renameRecordWithRetry run_env_sample path = Inr ()"
  by code_simp

lemma sample_parsed_as: "parsed_as (run_object sample_run) sample_run" "parsed_as (run_object native_run) native_run"
  using sample_parsed native_parsed by (simp_all add: parseRunRecord_iff)

lemma store_of_run: "parsed_as (run_object r) r \<Longrightarrow> existing_run (store_of [r]) (rr_id r) = Inr r"
  using parsed_id by (auto simp: existing_run_Inr run_at_def store_of_def)

lemma store_of_reads: "parsed_as (run_object r) r \<Longrightarrow> readRecordsUnlocked env (store_of [r]) = Inr [r]"
  unfolding readable_def [symmetric] readable_iff by (simp add: store_of_def file_of_run_def)

lemmas sample_store = store_of_run [OF sample_parsed_as(1)] store_of_run [OF sample_parsed_as(2)]
  store_of_reads [OF sample_parsed_as(1)] store_of_reads [OF sample_parsed_as(2)]

lemma sample_ids [simp]: "rr_id sample_run = ''prr-1''" "rr_id native_run = ''prr-2''"
  by (simp_all add: sample_run_def native_run_def)

end
