(* ===== verification/Run_Update_Samples.thy ===== *)
theory Run_Update_Samples
  imports Run_Samples Review_Samples
begin

text \<open>
  Sample updates of the run store: a late writer that reports a failure, another verdict and an
  older delivery state for a run whose verdict is persisted, and the authority that names that run.
\<close>

definition sample_patch :: js_patch where
  "sample_patch = [(''status'', Some (JStr ''failed'')), (''failureReason'', Some (JStr ''gpt_source_non_complete:x'')),
     (''reviewVerdict'', Some (JStr ''clean'')), (''findings'', Some (JArr [])),
     (''deliveryOutcomes'', Some (JObj [(''requiredStatus'', JObj [(''state'', JStr ''escalated''), (''recordedAtUtc'', JStr ''t1''),
        (''reason'', JStr ''late''), (''idempotencyKey'', JStr ''k'')])]))]"

definition sample_updated :: run_record where
  "sample_updated = sample_run\<lparr>rr_updatedAt := ''t0''\<rparr>"

lemma sample_round_merged:
  "updated_round sample_run (Some (round_json sample_round)) ''/s/runs/prr-1.json'' False = Inr (Some (round_json sample_round))"
  by code_simp

lemma sample_round_kept:
  "updated_round sample_run (map_of (update_candidate run_env_sample sample_run sample_patch False) ''reviewRound'') ''/s/runs/prr-1.json'' False
     = Inr (Some (round_json sample_round))"
proof -
  have "map_of sample_patch ''reviewRound'' = None" "rr_reviewRound sample_run = Some sample_round"
    by (simp_all add: sample_patch_def sample_run_def)
  then show ?thesis by (simp add: candidate_round sample_round_merged)
qed

definition sample_object :: js_object where
  "sample_object =
     [(''reviewRound'', round_json sample_round), (''heartbeatAtUtc'', JStr ''t1''), (''updatedAt'', JStr ''t0''),
      (''schemaVersion'', JInt 1), (''accountingVersion'', JStr ''issue-2761-tiered-sources-1-2-3''), (''reviewCycleId'', JStr ''c''),
      (''logicalRoundOrdinal'', JInt 1), (''logicalRoundCap'', JInt 1), (''boundIssueSnapshotDigest'', JStr ''digest''),
      (''automaticBudgetDisposition'', JStr ''consume''), (''sameKeyOrder'', JInt 1), (''id'', JStr ''prr-1''),
      (''runId'', JStr ''prr-1''), (''key'', JStr (''pr-7-'' @ run_head)), (''prNumber'', JInt 7), (''targetSha'', JStr run_head),
      (''headSha'', JStr run_head), (''deliveryOutcomes'', JObj (rr_delivery sample_run)), (''status'', JStr ''changes_requested''),
      (''latestRunStatus'', JStr ''changes_requested''), (''reviewVerdict'', JStr ''findings''), (''findingCount'', JInt 1),
      (''journalOutcome'', JObj sample_journal), (''findings'', JArr [attributed ''source-01'' sample_finding]),
      (''projectId'', JStr ''p''), (''linkedSessionId'', JStr []), (''startReason'', JStr []), (''surface'', JStr ''s''),
      (''trustedPackRoot'', JStr ''/t''), (''sourceRepoRoot'', JStr ''/r''), (''resolvedReviewer'', JStr ''gpt''),
      (''runnerPid'', JInt 9), (''createdAt'', JStr ''t0'')]"

definition sample_overrides :: js_patch where
  "sample_overrides =
     [(''heartbeatAtUtc'', Some (JStr ''t1'')), (''updatedAt'', Some (JStr ''t0'')), (''schemaVersion'', Some (JInt 1)),
      (''canonicalRepository'', None), (''accountingVersion'', Some (JStr ''issue-2761-tiered-sources-1-2-3'')),
      (''reviewCycleId'', Some (JStr ''c'')), (''logicalRoundOrdinal'', Some (JInt 1)), (''logicalRoundCap'', Some (JInt 1)),
      (''boundIssueSnapshotDigest'', Some (JStr ''digest'')), (''automaticBudgetDisposition'', Some (JStr ''consume'')),
      (''sameKeyOrder'', Some (JInt 1)), (''id'', Some (JStr ''prr-1'')), (''runId'', Some (JStr ''prr-1'')),
      (''key'', Some (JStr (''pr-7-'' @ run_head))), (''prNumber'', Some (JInt 7)), (''targetSha'', Some (JStr run_head)),
      (''headSha'', Some (JStr run_head)), (''deliveryOutcomes'', Some (JObj (rr_delivery sample_run))),
      (''status'', Some (JStr ''changes_requested'')), (''latestRunStatus'', Some (JStr ''changes_requested'')),
      (''failureReason'', None), (''completedAtUtc'', None), (''exitCode'', None),
      (''reviewVerdict'', Some (JStr ''findings'')), (''findingCount'', Some (JInt 1)), (''journalOutcome'', Some (JObj sample_journal)),
      (''findings'', Some (JArr [attributed ''source-01'' sample_finding]))]"

lemma sample_persisted: "hasPersistedPackReviewVerdict sample_run"
  by code_simp

lemma sample_merged: "merge_delivery run_env_sample sample_run sample_patch = rr_delivery sample_run"
  by code_simp

lemma sample_stale: "staleNoJudgmentTerminal sample_run sample_patch"
  by code_simp

lemma sample_now: "now_ms run_env_sample = 0 \<and> re_isoText run_env_sample 0 = ''t0''"
  by code_simp

lemma sample_fields:
  "rr_id sample_run = ''prr-1''" "rr_runId sample_run = ''prr-1''" "rr_key sample_run = ''pr-7-'' @ run_head" "rr_prNumber sample_run = 7"
  "rr_targetSha sample_run = run_head" "rr_headSha sample_run = run_head" "rr_sameKeyOrder sample_run = Some 1"
  "rr_status sample_run = Changes_Requested" "rl_latestRunStatus (rr_labels sample_run) = ''changes_requested''"
  "rr_accounting sample_run = \<lparr>ra_disposition = Disp_Consume, ra_accountingVersion = Some ''issue-2761-tiered-sources-1-2-3'',
     ra_reviewCycleId = Some ''c'', ra_logicalRoundOrdinal = Some 1, ra_logicalRoundCap = Some 1\<rparr>"
  "rr_boundDigest sample_run = Some ''digest''" "rr_repository sample_run = None" "rr_verdict sample_run = Some Verdict_Findings"
  "rr_findingCount sample_run = Some 1" "rr_journal sample_run = Some sample_journal"
  "rr_findings sample_run = [attributed ''source-01'' sample_finding]" "rr_heartbeatAtUtc sample_run = ''t1''"
  "rr_reviewRound sample_run = Some sample_round"
  by (simp_all add: sample_run_def)

lemma sample_absent:
  "map_of (run_object sample_run) ''failureReason'' = None" "map_of (run_object sample_run) ''completedAtUtc'' = None"
  "map_of (run_object sample_run) ''exitCode'' = None" "map_of (run_object sample_run) ''canonicalRepository'' = None"
  by (simp_all add: run_object_get run_fields_def sample_run_def)

lemma sample_status:
  "string_or (status_text (rr_status sample_run)) (patch_value sample_patch ''status'') = ''failed''"
  "''failed'' \<notin> set (map status_text PACK_REVIEW_ACTIVE_STATUSES)"
  "patch_value sample_patch ''heartbeatAtUtc'' = None" "patch_value sample_patch ''canonicalRepository'' = None"
  by (simp_all add: patch_value_def sample_patch_def PACK_REVIEW_ACTIVE_STATUSES_def)

lemma sample_overridden: "update_overrides run_env_sample sample_run sample_patch False = sample_overrides"
proof -
  have "\<not> allowPreAggregateSeverityUpdate sample_run sample_patch False"
    by (simp add: allowPreAggregateSeverityUpdate_def sample_run_def)
  with sample_stale sample_persisted show ?thesis
    unfolding update_overrides_def stored_fields_def Let_def list.map append.simps run_object_all sample_absent sample_merged sample_status
      sample_now [THEN conjunct1] sample_now [THEN conjunct2]
    by (simp only: if_True if_False sample_status simp_thms append.simps sample_absent sample_fields option.map run_accounting.simps
        js_coalesce_def nullish_simps option.simps sample_overrides_def string_or_JStr run_disposition_text.simps status_text.simps
        run_verdict_text.simps)
qed

lemma sample_object:
  "js_set (update_candidate run_env_sample sample_run sample_patch False) ''reviewRound'' (Some (round_json sample_round)) = sample_object"
  unfolding update_candidate_def sample_overridden by code_simp

lemma sample_candidate: "parseRunRecord (Some (JObj sample_object)) ''/s/runs/prr-1.json'' = Inr sample_updated"
  by code_simp

lemma sample_path: "recordPath ''/s'' ''prr-1'' = Inr ''/s/runs/prr-1.json''"
  by code_simp

lemma uncommitted: "0 < rr_prNumber r \<Longrightarrow> aggregate_committed (store_of rs) r = Inr False"
  by (simp add: aggregate_committed_def store_of_def readAuthorityUnlocked_def positiveInteger_def)

lemma sample_built:
  "buildUpdatedPackReviewRun run_env_sample (store_of [sample_run]) sample_run sample_patch ''/s/runs/prr-1.json'' = Inr sample_updated"
proof -
  have "0 < rr_prNumber sample_run" by (simp add: sample_run_def)
  from uncommitted [OF this, of "[sample_run]"] show ?thesis
    by (simp add: buildUpdatedPackReviewRun_def sample_round_kept sample_object sample_candidate)
qed

lemma sample_updated_parsed: "parsed_as (run_object sample_updated) sample_updated"
  using sample_candidate by (intro parsed_reread) (simp add: parseRunRecord_iff)

lemma sample_updated_id [simp]: "rr_id sample_updated = ''prr-1''"
  by (simp add: sample_updated_def)

text \<open>An update whose result is known is written over the run's file.\<close>

lemma put_single: "put_file name f [(name, g)] = [(name, f)]"
  by (simp add: put_file_def)

lemma sample_written:
  assumes "existing_run st ''prr-1'' = Inr sample_run"
    and "buildUpdatedPackReviewRun run_env_sample st sample_run patch ''/s/runs/prr-1.json'' = Inr sample_updated"
    and "st_root st = ''/s''" "st_files st = st_files (store_of [sample_run])"
  shows "updatePackReviewRun run_env_sample st ''prr-1'' patch = Inr (sample_updated, st\<lparr>st_files := st_files (store_of [sample_updated])\<rparr>)"
  using assms sample_updated_parsed sample_path
  by (simp add: updatePackReviewRun_def update_locked_def writeRecordUnlocked_def parseRunRecord_iff [THEN iffD2] store_of_def put_single)

lemma store_of_files [simp]: "(store_of rs)\<lparr>st_files := st_files (store_of qs)\<rparr> = store_of qs" "st_root (store_of rs) = ''/s''"
  by (simp_all add: store_of_def)

lemma sample_update:
  "updatePackReviewRun run_env_sample (store_of [sample_run]) ''prr-1'' sample_patch = Inr (sample_updated, store_of [sample_updated])"
  using sample_written [OF _ sample_built] sample_store(1) by simp

section \<open>The authority names the run\<close>

definition committed_document :: authority_document where
  "committed_document = doc_1\<lparr>ad_terminal := map_option (\<lambda>t. t\<lparr>at_run_id := ''prr-1''\<rparr>) (ad_terminal doc_1)\<rparr>"

definition committed_store :: "run_record list \<Rightarrow> run_store" where
  "committed_store rs = (store_of rs)\<lparr>st_authority := put committed_document empty_store\<rparr>"

lemma committed_document_valid: "validateAuthority committed_document = Inr ()"
  by code_simp

lemma committed_document_terminal:
  "ad_pr_number committed_document = 7 \<and> map_option at_run_id (ad_terminal committed_document) = Some ''prr-1''"
  by code_simp

lemma sample_committed: "aggregate_committed (committed_store rs) sample_run = Inr True"
  using committed_document_valid committed_document_terminal
  by (auto simp: aggregate_committed_def committed_store_def readAuthorityUnlocked_def positiveInteger_def put_def sample_fields)

lemma candidate_committed: "rr_reviewRound r \<noteq> None \<Longrightarrow> update_candidate env r p c = update_candidate env r p False"
proof -
  assume "rr_reviewRound r \<noteq> None"
  then have "\<not> allowPreAggregateSeverityUpdate r p c" for c by (simp add: allowPreAggregateSeverityUpdate_def)
  then show ?thesis by (simp add: update_candidate_def update_overrides_def)
qed

lemma sample_round_sealed:
  "updated_round sample_run (Some (round_json sample_round)) ''/s/runs/prr-1.json'' True = Inr (Some (round_json sample_round))"
  by code_simp

lemma committed_update:
  "updatePackReviewRun run_env_sample (committed_store [sample_run]) ''prr-1'' sample_patch
     = Inr (sample_updated, committed_store [sample_updated])"
proof -
  have "map_of sample_patch ''reviewRound'' = None" by (simp add: sample_patch_def)
  then have "map_of (update_candidate run_env_sample sample_run sample_patch False) ''reviewRound'' = Some (round_json sample_round)"
    by (simp add: candidate_round sample_fields)
  moreover have "update_candidate run_env_sample sample_run sample_patch True = update_candidate run_env_sample sample_run sample_patch False"
    by (rule candidate_committed) (simp add: sample_fields)
  ultimately have b: "buildUpdatedPackReviewRun run_env_sample (committed_store [sample_run]) sample_run sample_patch ''/s/runs/prr-1.json'' = Inr sample_updated"
    by (simp add: buildUpdatedPackReviewRun_def sample_committed sample_round_sealed sample_object sample_candidate)
  have "existing_run (committed_store [sample_run]) ''prr-1'' = Inr sample_run"
    using sample_store(1) by (simp add: existing_run_Inr run_at_def committed_store_def)
  from sample_written [OF this b] show ?thesis by (simp add: committed_store_def store_of_def)
qed

lemma committed_run: "existing_run (committed_store [sample_run]) ''prr-1'' = Inr sample_run"
  using sample_store(1) by (simp add: existing_run_Inr run_at_def committed_store_def)

end
