(* ===== verification/Run_Properties.thy ===== *)
theory Run_Properties
  imports Run_Update_Samples
begin

text \<open>
  What the run store promises: records survive a rewrite, histories keep the frozen parts of a run,
  a verdict is the one its sources determine, one live run per target, and the order of runs.
\<close>

section \<open>Verdict and census\<close>

lemma rall_accepts: "accepted (rall f xs) = Some ys \<Longrightarrow> x \<in> set xs \<Longrightarrow> accepted (f x) \<noteq> None"
  by (induction xs arbitrary: ys) (auto simp: accepted_simps accepted_chain)

lemma derived_Some:
  assumes "accepted (deriveCompleteGptRoundAggregate round p) = Some ag"
  shows "ag_findings ag = census_findings (gr_slots round) \<and> ag_findingCount ag = length (census_findings (gr_slots round))
    \<and> (gr_settled round = None \<longrightarrow> list_all (\<lambda>s. sl_lifecycle s = Slot_Terminal) (gr_slots round))
    \<and> (gr_settled round = None \<or> gr_settled round = Some (usable_count (gr_slots round)))"
proof -
  have c: "accepted (assertCompleteGptRound round p) = Some ()" and ag: "ag_findings ag = census_findings (gr_slots round)"
    "ag_findingCount ag = length (census_findings (gr_slots round))"
    using assms by (auto simp: deriveCompleteGptRoundAggregate_def accepted_simps accepted_chain Let_def)
  have "sl_lifecycle s = Slot_Terminal" if "gr_settled round = None" "s \<in> set (gr_slots round)" for s
    using c rall_accepts [OF _ that(2)] that(1) unfolding assertCompleteGptRound_def
    by (fastforce simp: accepted_simps accepted_chain split: if_splits)
  with c ag show ?thesis
    unfolding assertCompleteGptRound_def by (auto simp: accepted_simps accepted_chain list_all_iff split: if_splits)
qed

lemma census_verdict:
  assumes "census_checked (Some round) st v n fs j" "st \<in> set PACK_REVIEW_VERDICT_TERMINAL_STATUSES \<or> v \<noteq> None"
  shows "(gr_settled round = None \<longrightarrow> list_all (\<lambda>s. sl_lifecycle s = Slot_Terminal) (gr_slots round))
    \<and> (gr_settled round = None \<or> gr_settled round = Some (usable_count (gr_slots round)))
    \<and> v = Some (if census_findings (gr_slots round) = [] then Verdict_Clean else Verdict_Findings)
    \<and> n = Some (int (length (census_findings (gr_slots round))))
    \<and> isDeepStrictEqual (JArr fs) (JArr (census_findings (gr_slots round)))"
proof -
  have "accepted (assertGptRoundAggregate round (map_option (\<lambda>v. JStr (run_verdict_text v)) v) (map_option JInt n) (Some (JArr fs)) []) = Some ()"
    using assms by (auto simp: census_checked_def)
  then obtain ag where ag: "accepted (deriveCompleteGptRoundAggregate round []) = Some ag"
    and v: "map_option (\<lambda>v. JStr (run_verdict_text v)) v = Some (JStr (ag_reviewVerdict ag))"
    and n: "map_option JInt n = Some (JInt (int (ag_findingCount ag)))" and fs: "isDeepStrictEqual (JArr fs) (JArr (ag_findings ag))"
    unfolding aggregate_Some by auto
  note d = derived_Some [OF ag] and w = derived_verdict [OF ag]
  have "v = Some (if ag_findings ag = [] then Verdict_Clean else Verdict_Findings)"
    using arg_cong [OF v, of verdict_of] w unfolding verdict_of_text by (simp add: verdict_of_def)
  moreover have "n = Some (int (ag_findingCount ag))" using n by auto
  ultimately show ?thesis using d fs by simp
qed

lemma parsed_census: "parsed_as raw r \<Longrightarrow> census_checked (rr_reviewRound r) (rr_status r) (rr_verdict r) (rr_findingCount r) (rr_findings r) (rr_journal r)"
  using census_read [of raw "rr_reviewRound r" "rr_status r" "[]"] by (simp add: parsed_as_def)

section \<open>Delivery\<close>

lemma merge_channel_get:
  "map_of (merge_delivery_channel env r inc acc ch) k =
     (case map_of inc k of
        None \<Rightarrow> map_of acc k
      | Some out \<Rightarrow> if k = ch \<and> truthy (Some out) \<and> \<not> keeps_delivery env r k out then Some out else map_of acc k)"
  by (auto simp: merge_delivery_channel_def split: option.splits)

lemma merge_channels_get:
  "map_of (foldl (merge_delivery_channel env r inc) acc chs) k =
     (case map_of inc k of
        None \<Rightarrow> map_of acc k
      | Some out \<Rightarrow> if k \<in> set chs \<and> truthy (Some out) \<and> \<not> keeps_delivery env r k out then Some out else map_of acc k)"
  by (induction chs arbitrary: acc) (auto simp: merge_channel_get split: option.splits)

lemma merge_delivery_get:
  "map_of (merge_delivery env r p) ch =
     (case Option.bind (json_object (patch_value p ''deliveryOutcomes'')) (\<lambda>inc. map_of inc ch) of
        None \<Rightarrow> map_of (rr_delivery r) ch
      | Some out \<Rightarrow> if truthy (Some out) \<and> \<not> keeps_delivery env r ch out then Some out else map_of (rr_delivery r) ch)"
proof -
  have dom: "map_of inc ch = Some out \<Longrightarrow> ch \<in> fst ` set inc" for inc out
    by (metis map_of_eq_None_iff option.distinct(1))
  show ?thesis
    by (auto simp: merge_delivery_def Let_def merge_channels_get dest: dom split: option.splits)
qed

lemma update_result:
  assumes "updatePackReviewRun env st i p = Inr (q, st')" "existing_run st i = Inr r"
  obtains c rd path where "aggregate_committed st r = Inr c"
    "updated_round r (map_of (update_candidate env r p c) ''reviewRound'') path c = Inr rd"
    "parsed_as (js_set (update_candidate env r p c) ''reviewRound'' rd) q"
proof -
  from assms(1) have "update_locked env st i (\<lambda>_. p) = Inr (q, st')" by (simp add: updatePackReviewRun_def withStoreLock_Inr)
  then obtain r' path where "run_at st i r'" "buildUpdatedPackReviewRun env st r' p path = Inr q" by (rule update_locked_Inr)
  moreover from this(1) assms(2) have "r' = r" by (simp add: existing_run_Inr [symmetric])
  ultimately show thesis by (auto elim!: build_Inr intro: that)
qed

lemma parsed_delivery: "parsed_as raw r \<Longrightarrow> rr_delivery r = (case json_object (map_of raw ''deliveryOutcomes'') of None \<Rightarrow> [] | Some o' \<Rightarrow> o')"
  by (simp add: parsed_as_def)

lemma update_delivery:
  assumes "updatePackReviewRun env st i p = Inr (q, st')" "existing_run st i = Inr r"
  shows "rr_delivery q = merge_delivery env r p"
proof -
  from assms obtain c rd path where "parsed_as (js_set (update_candidate env r p c) ''reviewRound'' rd) q" by (rule update_result)
  from parsed_delivery [OF this] show ?thesis by (simp add: candidate_delivery json_object_def)
qed

section \<open>Status\<close>

lemma parsed_status: "parsed_as raw r \<Longrightarrow> map_of raw ''status'' = Some (JStr (status_text st)) \<Longrightarrow> rr_status r = st"
  by (simp add: parsed_as_def)

lemma parsed_rest: "parsed_as raw r \<Longrightarrow> k \<notin> set run_keys \<Longrightarrow> map_of (rr_rest r) k = map_of raw k"
  by (simp add: parsed_as_def map_of_without_keys)

section \<open>Interrupted rounds\<close>

lemma interrupted_shape: "slot_shape s \<Longrightarrow> slot_shape (interrupted_slot s)"
proof -
  have "trimmed ''possible_delivery/missing_result''" "trimmed ''pre_launch_interrupted''"
    by (simp_all add: trimmed_def js_trim_def js_space_def)
  then show "slot_shape s \<Longrightarrow> slot_shape (interrupted_slot s)"
    by (cases "sl_lifecycle s") (auto simp: slot_shape_def interrupted_slot_def Let_def)
qed

lemma interrupted_terminal: "sl_lifecycle (interrupted_slot s) = Slot_Terminal"
  by (cases "sl_lifecycle s") (simp_all add: interrupted_slot_def Let_def)

lemma interrupted_round_shape: "gpt_round_ok r \<Longrightarrow> round_shape (interrupted_round r)"
  using round_ok_shape [of r]
  by (auto simp: round_shape_def interrupted_round_def list_all_iff intro: interrupted_shape)

definition all_terminal :: "gpt_round \<Rightarrow> bool" where
  "all_terminal r \<longleftrightarrow> list_all (\<lambda>s. sl_lifecycle s = Slot_Terminal) (gr_slots r)"

lemma interrupted_all_terminal: "all_terminal (interrupted_round r)"
  by (simp add: all_terminal_def interrupted_round_def list_all_iff interrupted_terminal)

lemma merge_slot_terminal:
  assumes "mergeFrozenGptSlot s t path = Inr u" "sl_lifecycle t = Slot_Terminal"
  shows "sl_lifecycle u = Slot_Terminal"
proof (cases "complete_slot s")
  case True
  with assms(1) show ?thesis by (simp add: mergeFrozenGptSlot_def complete_slot_def)
next
  case False
  with assms(1) have "sl_lifecycle u = merged_lifecycle s t"
    unfolding mergeFrozenGptSlot_def by (auto simp: rbind_Inr Let_def split: if_splits)
  with assms(2) show ?thesis by (cases "sl_lifecycle s") (simp_all add: merged_lifecycle_def)
qed

lemma merge_round_terminal:
  assumes "mergeFrozenGptRound r i path False = Inr m" "gpt_round_ok r" "gpt_round_ok i" "all_terminal i"
  shows "all_terminal m"
  unfolding all_terminal_def
proof (rule list_all2_right [OF merge_round_slots [OF assms(1-3)]])
  fix s u
  assume "\<exists>t\<in>set (gr_slots i). sl_ordinal t = sl_ordinal s \<and> slot_ok s \<and> slot_ok t \<and> mergeFrozenGptSlot s t (slot_merge_path path s) = Inr u"
  with assms(4) show "sl_lifecycle u = Slot_Terminal"
    by (auto simp: all_terminal_def list_all_iff intro: merge_slot_terminal)
qed

lemma parsed_round_shape: "parsed_as raw r \<Longrightarrow> rr_reviewRound r = Some rd \<Longrightarrow> gpt_round_ok rd"
  using parsed_round_ok [of raw r] by simp

lemma update_round_terminal:
  assumes "updatePackReviewRun env st i p = Inr (q, st')" "existing_run st i = Inr r" "rr_reviewRound r = Some rd"
    and "aggregate_committed st r = Inr False" "map_of p ''reviewRound'' = Some (Some (round_json new))"
    and "round_shape new" "all_terminal new"
  shows "\<exists>m. rr_reviewRound q = Some m \<and> all_terminal m"
proof -
  from assms(2) obtain raw where r: "parsed_as raw r" by (auto simp: existing_run_Inr run_at_def)
  note ok = parsed_round_shape [OF r assms(3)]
  from assms(1,2) obtain c j path where c: "aggregate_committed st r = Inr c"
    and u: "updated_round r (map_of (update_candidate env r p c) ''reviewRound'') path c = Inr j"
    and q: "parsed_as (js_set (update_candidate env r p c) ''reviewRound'' j) q" by (rule update_result)
  have "\<not> c" using c assms(4) by simp
  with u assms(3,5) obtain incoming merged where i: "normalizePackReviewGptRoundRecord (Some (round_json new)) path = Inr incoming"
    and m: "mergeFrozenGptRound rd incoming path False = Inr merged" and j: "j = Some (round_json merged)"
    by (auto simp: updated_round_def candidate_round rbind_Inr split: if_splits)
  have "incoming = new" using normalize_round_shape [OF assms(6) i] .
  with merge_round_terminal [OF m ok normalize_round_ok [OF i]] assms(7) have t: "all_terminal merged" by simp
  have "round_shape merged" using merge_round_progress [OF m ok normalize_round_ok [OF i]] by simp
  moreover have "\<not> nullish j" by (simp add: j round_json_def)
  ultimately have "rr_reviewRound q = Some merged"
    using parse_round_round(1) [OF parsed_round [OF q], unfolded map_of_js_set if_True refl simp_thms] normalize_round_shape
    by (auto simp: j)
  with t show ?thesis by blast
qed

text \<open>An incoming outcome that is taken against a submitted one of the same key.\<close>

lemma accepted_delivery:
  assumes "map_of (rr_delivery r) channel = Some (JObj current)" "map_of current ''idempotencyKey'' = Some (JStr key)"
    and "map_of current ''state'' \<in> {Some (JStr ''succeeded''), Some (JStr ''delivered'')}"
    and "map_of current ''recordedAtUtc'' = Some (JStr at)" "re_dateParse env at = Some t" "\<not> keeps_delivery env r channel out"
  shows "json_field out ''idempotencyKey'' = Some (JStr key) \<longrightarrow> json_field out ''state'' \<noteq> Some (JStr ''escalated'')
    \<and> (case date_of env (json_field out ''recordedAtUtc'') of None \<Rightarrow> True | Some t' \<Rightarrow> t \<le> t')"
proof
  assume key: "json_field out ''idempotencyKey'' = Some (JStr key)"
  have read_prop: "js_prop (Some (JObj current)) k = map_of current k" for k by (simp add: js_prop_def)
  have same: "js_same (map_of current ''idempotencyKey'') (json_field out ''idempotencyKey'')"
    by (simp add: assms(2) key js_same_def)
  have present: "truthy (Some (JObj current))" by (simp add: truthy_def)
  have date: "date_of env (map_of current ''recordedAtUtc'') = Some t" by (simp add: assms(4,5) date_of_def)
  show "json_field out ''state'' \<noteq> Some (JStr ''escalated'')
      \<and> (case date_of env (json_field out ''recordedAtUtc'') of None \<Rightarrow> True | Some t' \<Rightarrow> t \<le> t')"
    using assms(6) unfolding keeps_delivery_def Let_def assms(1) read_prop
    using same present date assms(3) by (cases "date_of env (json_field out ''recordedAtUtc'')") auto
qed

section \<open>Ending a stale run\<close>

lemma update_stored:
  assumes "updatePackReviewRun env st i p = Inr (q, st')" "files_named st" "existing_run st i = Inr r"
  shows "existing_run st' i = Inr q \<and> run_evolves r q \<and> files_named st' \<and> st_authority st' = st_authority st"
proof -
  have l: "update_locked env st i (\<lambda>_. p) = Inr (q, st')" using assms(1) by (simp add: updatePackReviewRun_def withStoreLock_Inr)
  then obtain x raw where x: "run_at st i x" "run_evolves x q" "parsed_as raw q"
    and st': "st' = st\<lparr>st_files := put_file (run_file_name (rr_id x)) (Run_Json (JObj (run_object q))) (st_files st)\<rparr>"
    by (rule update_locked_Inr)
  have same: "x = r" using x(1) assms(3) by (simp add: existing_run_Inr [symmetric])
  have i: "rr_id r = i" using assms(2) x(1) same by (simp add: files_named_def)
  have "run_id_ok i" using x(1) by (simp add: run_at_def)
  then have "run_at st' i q" using run_at_put [OF x(3) st'] i same by simp
  with x(2) same st' evolves_named [OF update_evolves [OF l assms(2)]] show ?thesis by (simp add: existing_run_Inr)
qed

lemma stale_patch_get:
  "map_of (terminal_patch env Run_Failed (stale_patch rd)) ''status'' = Some (Some (JStr ''failed''))"
  "map_of (terminal_patch env Run_Failed (stale_patch rd)) ''failureReason'' = Some (Some (JStr PACK_REVIEW_STALE_FAILURE_REASON))"
  "map_of (terminal_patch env Run_Failed (stale_patch rd)) ''reviewRound'' = map_option (\<lambda>r. Some (round_json r)) rd"
  by (cases rd; simp add: terminal_patch_def stale_patch_def PACK_REVIEW_VERDICT_TERMINAL_STATUSES_def)+

definition round_closed :: "bool \<Rightarrow> run_record \<Rightarrow> run_record \<Rightarrow> bool" where
  "round_closed committed r q \<longleftrightarrow>
     rr_reviewRound r = None
     \<or> (if committed then rr_reviewRound q = rr_reviewRound r
        else \<exists>round. rr_reviewRound q = Some round \<and> all_terminal round)"

lemma fail_stale_closed:
  assumes "fail_stale_run env st i (rr_reviewRound r) = (Inr (True, q), st')" "files_named st" "existing_run st i = Inr r"
    and "aggregate_committed st r = Inr c" "c \<or> opt_all all_terminal (rr_reviewRound r)"
  shows "existing_run st' i = Inr q \<and> isPackReviewStaleTerminalRun q \<and> run_evolves r q \<and> round_closed c r q"
proof -
  let ?patch = "terminal_patch env Run_Failed (stale_patch (rr_reviewRound r))"
  have update: "updatePackReviewRun env st i ?patch = Inr (q, st')"
    using assms(1) by (auto simp: fail_stale_run_def setPackReviewRunTerminal_def split: sum.splits if_splits)
  have open_status: "\<not> staleNoJudgmentTerminal r ?patch"
    by (simp add: staleNoJudgmentTerminal_def patch_value_def stale_patch_get PACK_REVIEW_STALE_FAILURE_REASON_def js_starts_with_def)
  from update assms(3) obtain c' rd path where c': "aggregate_committed st r = Inr c'"
    and u: "updated_round r (map_of (update_candidate env r ?patch c') ''reviewRound'') path c' = Inr rd"
    and q: "parsed_as (js_set (update_candidate env r ?patch c') ''reviewRound'' rd) q" by (rule update_result)
  have cc: "c' = c" using c' assms(4) by simp
  obtain raw where raw: "parsed_as raw r" using assms(3) by (auto simp: existing_run_Inr run_at_def)
  have "rr_status q = Run_Failed"
    using parsed_status [OF q, of Run_Failed] candidate_open_status(1) [OF open_status] by (simp add: stale_patch_get)
  moreover have "map_of (rr_rest q) ''failureReason'' = Some (JStr PACK_REVIEW_STALE_FAILURE_REASON)"
    using parsed_rest [OF q, of "''failureReason''"] candidate_open_status(2) [OF open_status]
    by (simp add: stale_patch_get run_keys_def)
  moreover have "round_closed c r q"
  proof (cases c)
    case True
    with build_round [OF u q raw] cc show ?thesis by (auto simp: round_closed_def)
  next
    case False
    have "\<exists>round. rr_reviewRound q = Some round \<and> all_terminal round" if "rr_reviewRound r = Some round" for round
    proof (rule update_round_terminal [OF update assms(3) that])
      show "aggregate_committed st r = Inr False" using assms(4) False by simp
      show "map_of ?patch ''reviewRound'' = Some (Some (round_json round))" using that by (simp add: stale_patch_get)
      show "round_shape round" using raw parsed_round_shape that round_ok_shape by blast
      show "all_terminal round" using assms(5) that False by simp
    qed
    with False show ?thesis by (cases "rr_reviewRound r") (auto simp: round_closed_def)
  qed
  ultimately show ?thesis
    using update_stored [OF update assms(2,3)] by (simp add: isPackReviewStaleTerminalRun_def)
qed

section \<open>Properties\<close>

lemma existing_parsed: "existing_run st i = Inr r \<Longrightarrow> \<exists>raw. parsed_as raw r"
  by (auto simp: existing_run_Inr run_at_def)

text \<open>
  C12: A record the store has read is read again, unchanged, from the object it is written as: what
  \<open>parseRecord\<close> accepts and completes is stable under any number of rewrites, wherever the file is.
\<close>
lemma run_record_reread:
  assumes "parseRunRecord (Some j) p = Inr r"
  shows "parseRunRecord (Some (JObj (run_object r))) q = Inr r"
  using assms by (auto simp: parse_Some_Inr parseRunRecord_iff intro: parsed_reread)

lemma run_record_reread_witness: "parseRunRecord (Some (JObj (run_object sample_run))) ''elsewhere'' = Inr sample_run"
  by (rule run_record_reread [OF sample_parsed])



text \<open>
  C4: A stored verdict is the one its sources determine: for a run with a GPT round whose status or
  verdict says it is decided, the verdict is findings exactly when the complete sources reported any,
  the count is their number and the findings are theirs; all sources are terminal unless the round is
  settled on a quorum, and then the quorum is what the usable sources are.
\<close>
lemma verdict_is_census:
  assumes "existing_run st i = Inr r" "rr_reviewRound r = Some round"
    and "rr_status r \<in> set PACK_REVIEW_VERDICT_TERMINAL_STATUSES \<or> rr_verdict r \<noteq> None"
  shows "(gr_settled round = None \<longrightarrow> list_all (\<lambda>s. sl_lifecycle s = Slot_Terminal) (gr_slots round))
    \<and> (gr_settled round = None \<or> gr_settled round = Some (usable_count (gr_slots round)))
    \<and> rr_verdict r = Some (if census_findings (gr_slots round) = [] then Verdict_Clean else Verdict_Findings)
    \<and> rr_findingCount r = Some (int (length (census_findings (gr_slots round))))
    \<and> isDeepStrictEqual (JArr (rr_findings r)) (JArr (census_findings (gr_slots round)))"
proof -
  from assms(1) obtain raw where "parsed_as raw r" using existing_parsed by blast
  from parsed_census [OF this] assms(2) have "census_checked (Some round) (rr_status r) (rr_verdict r) (rr_findingCount r) (rr_findings r) (rr_journal r)"
    by simp
  then show ?thesis using assms(3) by (rule census_verdict)
qed

lemma verdict_is_census_witness:
  "rr_verdict sample_run = Some (if census_findings (gr_slots sample_round) = [] then Verdict_Clean else Verdict_Findings)"
  using verdict_is_census [OF sample_store(1) sample_fields(18)] by (simp add: sample_fields PACK_REVIEW_VERDICT_TERMINAL_STATUSES_def)

text \<open>
  C10: When the review authority has committed a run, no update changes the round of the run if it has
  one, and once its verdict is persisted none changes its verdict, count, findings or journal either,
  whatever fields the update carries. Before that an update may still persist the verdict, and a
  committed run without a round may still receive one.
\<close>
lemma committed_run_sealed:
  assumes "updatePackReviewRun env st i patch = Inr (q, st')" and "existing_run st i = Inr r"
    and "aggregate_committed st r = Inr True"
  shows "(rr_reviewRound r = None \<or> rr_reviewRound q = rr_reviewRound r)
    \<and> (hasPersistedPackReviewVerdict r \<longrightarrow>
        rr_verdict q = rr_verdict r \<and> rr_findingCount q = rr_findingCount r \<and> rr_findings q = rr_findings r
        \<and> rr_journal q = rr_journal r)"
proof -
  from assms(1,2) obtain c rd path where c: "aggregate_committed st r = Inr c"
    and u: "updated_round r (map_of (update_candidate env r patch c) ''reviewRound'') path c = Inr rd"
    and q: "parsed_as (js_set (update_candidate env r patch c) ''reviewRound'' rd) q" by (rule update_result)
  from assms(2) obtain raw where r: "parsed_as raw r" using existing_parsed by blast
  have "c" using c assms(3) by simp
  moreover have "\<not> allowPreAggregateSeverityUpdate r patch True" by (simp add: allowPreAggregateSeverityUpdate_def)
  ultimately show ?thesis
    using build_verdict [OF q] build_round [OF u q r] by (auto simp: same_verdict_def)
qed

lemma committed_run_sealed_witness: "rr_verdict sample_updated = rr_verdict sample_run \<and> rr_findings sample_updated = rr_findings sample_run"
  using committed_run_sealed [OF committed_update committed_run sample_committed] sample_persisted by simp

text \<open>
  C20: A submitted delivery is never taken back by a late claim: when a channel has succeeded or been
  delivered under a key, no update leaves it escalated under that key, nor under that key with an
  earlier time, and a channel the update does not name keeps its outcome.
\<close>
lemma delivery_not_downgraded:
  assumes "updatePackReviewRun env st i patch = Inr (q, st')" and "existing_run st i = Inr r"
    and "map_of (rr_delivery r) channel = Some (JObj current)" and "map_of current ''idempotencyKey'' = Some (JStr key)"
    and "map_of current ''state'' \<in> {Some (JStr ''succeeded''), Some (JStr ''delivered'')}"
    and "map_of current ''recordedAtUtc'' = Some (JStr at)" and "re_dateParse env at = Some t"
  shows "\<exists>out. map_of (rr_delivery q) channel = Some out
    \<and> (json_field out ''idempotencyKey'' = Some (JStr key) \<longrightarrow>
        json_field out ''state'' \<noteq> Some (JStr ''escalated'')
        \<and> (case date_of env (json_field out ''recordedAtUtc'') of None \<Rightarrow> True | Some t' \<Rightarrow> t \<le> t'))
    \<and> (js_prop (patch_value patch ''deliveryOutcomes'') channel = None \<longrightarrow> out = JObj current)"
proof -
  let ?incoming = "Option.bind (json_object (patch_value patch ''deliveryOutcomes'')) (\<lambda>inc. map_of inc channel)"
  have d: "map_of (rr_delivery q) channel = (case ?incoming of None \<Rightarrow> Some (JObj current)
      | Some out \<Rightarrow> if truthy (Some out) \<and> \<not> keeps_delivery env r channel out then Some out else Some (JObj current))"
    unfolding update_delivery [OF assms(1,2)] merge_delivery_get assms(3) ..
  show ?thesis
  proof (cases "\<exists>out. ?incoming = Some out \<and> truthy (Some out) \<and> \<not> keeps_delivery env r channel out")
    case True
    then obtain out where out: "?incoming = Some out" "truthy (Some out)" "\<not> keeps_delivery env r channel out" by blast
    then have "js_prop (patch_value patch ''deliveryOutcomes'') channel \<noteq> None"
      by (auto simp: json_object_def js_prop_def bind_eq_Some_conv split: option.splits json.splits)
    with out d accepted_delivery [OF assms(3-7) out(3)] show ?thesis by auto
  next
    case False
    with d have "map_of (rr_delivery q) channel = Some (JObj current)" by (auto split: option.splits)
    with assms(5-7) show ?thesis by (auto simp: date_of_def)
  qed
qed

lemma delivery_not_downgraded_witness:
  "\<exists>out. map_of (rr_delivery sample_updated) ''requiredStatus'' = Some out \<and> json_field out ''state'' \<noteq> Some (JStr ''escalated'')"
proof -
  let ?current = "[(''state'', JStr ''succeeded''), (''recordedAtUtc'', JStr ''t1''), (''reason'', JStr ''r''), (''idempotencyKey'', JStr ''k'')]"
  have r: "map_of (rr_delivery sample_run) ''requiredStatus'' = Some (JObj ?current)"
    and q: "map_of (rr_delivery sample_updated) ''requiredStatus'' = Some (JObj ?current)"
    by (simp_all add: sample_updated_def sample_run_def)
  have t: "re_dateParse run_env_sample ''t1'' = Some 1" by (simp add: run_env_sample_def)
  from delivery_not_downgraded [OF sample_update sample_store(1) [unfolded sample_ids] r _ _ _ t, of "''k''"] q show ?thesis by auto
qed

text \<open>
  C23: A late writer cannot undo a verdict: when a run's verdict is persisted, an attempt to end it as
  failed, timed out or cancelled because a GPT source did not complete leaves its status, verdict,
  count, journal and identity as they are, and the findings too when the run has a round.
\<close>
lemma late_failure_ignored:
  assumes "setPackReviewRunTerminal env st i status patch = Inr (q, st')" and "existing_run st i = Inr r"
    and "hasPersistedPackReviewVerdict r" and "status \<in> {Run_Failed, Timed_Out, Cancelled}"
    and "patch_value patch ''failureReason'' = Some (JStr reason)" and "js_starts_with ''gpt_source_non_complete:'' reason"
  shows "rr_status q = rr_status r \<and> same_verdict r q \<and> same_target r q
    \<and> (rr_reviewRound r = None \<or> rr_findings q = rr_findings r)"
proof -
  let ?patch = "terminal_patch env status patch"
  have update: "updatePackReviewRun env st i ?patch = Inr (q, st')"
    using assms(1) by (auto simp: setPackReviewRunTerminal_def split: if_splits)
  have "map_of ?patch ''failureReason'' = map_of patch ''failureReason''"
    using assms(4) by (auto simp: terminal_patch_def PACK_REVIEW_VERDICT_TERMINAL_STATUSES_def)
  then have stale: "staleNoJudgmentTerminal r ?patch"
    using assms(3,5,6) by (simp add: staleNoJudgmentTerminal_def patch_value_def)
  from update assms(2) obtain c rd path where
    q: "parsed_as (js_set (update_candidate env r ?patch c) ''reviewRound'' rd) q" by (rule update_result)
  from assms(2) obtain raw where r: "parsed_as raw r" using existing_parsed by blast
  have "rr_status q = rr_status r" using parsed_status [OF q] candidate_status(1) [OF stale] by simp
  moreover have "rr_reviewRound r \<noteq> None \<Longrightarrow> \<not> allowPreAggregateSeverityUpdate r ?patch c"
    by (simp add: allowPreAggregateSeverityUpdate_def)
  ultimately show ?thesis
    using build_verdict [OF q assms(3)] build_same_target [OF r q] by blast
qed

text \<open>The two writes of a stale run with an open slot.\<close>

lemma interrupted_closed:
  assumes u: "updatePackReviewRun env st i [(''reviewRound'', Some (round_json (interrupted_round round)))] = Inr (r1, st1)"
    and f: "fail_stale_run env st1 i (rr_reviewRound r1) = (Inr (True, q), st')"
    and named: "files_named st" and r: "existing_run st i = Inr r" and round: "rr_reviewRound r = Some round"
  shows "\<exists>c. aggregate_committed st r = Inr c \<and> existing_run st' i = Inr q \<and> isPackReviewStaleTerminalRun q \<and> run_evolves r q
    \<and> round_closed c r q"
proof -
  let ?patch = "[(''reviewRound'', Some (round_json (interrupted_round round)))]"
  from u r obtain c rd path where c: "aggregate_committed st r = Inr c"
    and ur: "updated_round r (map_of (update_candidate env r ?patch c) ''reviewRound'') path c = Inr rd"
    and r1: "parsed_as (js_set (update_candidate env r ?patch c) ''reviewRound'' rd) r1" by (rule update_result)
  note stored = update_stored [OF u named r]
  obtain raw where raw: "parsed_as raw r" using existing_parsed [OF r] by blast
  have mid: "c \<and> rr_reviewRound r1 = rr_reviewRound r \<or> opt_all all_terminal (rr_reviewRound r1)"
  proof (cases c)
    case True
    with build_round [OF ur r1 raw] round show ?thesis by simp
  next
    case False
    note shape = interrupted_round_shape [OF parsed_round_shape [OF raw round]]
    from update_round_terminal [OF u r round _ _ shape interrupted_all_terminal] c False show ?thesis by auto
  qed
  have same: "rr_id r1 = rr_id r" "rr_prNumber r1 = rr_prNumber r" "st_authority st1 = st_authority st"
    using stored by (simp_all add: run_evolves_def same_target_def)
  have "aggregate_committed st1 r1 = Inr c"
    using c unfolding aggregate_committed_def same .
  from fail_stale_closed [OF f _ _ this] stored mid
  have "existing_run st' i = Inr q \<and> isPackReviewStaleTerminalRun q \<and> run_evolves r1 q \<and> round_closed c r1 q" by blast
  moreover have "rr_reviewRound r1 \<noteq> None"
    using stored round by (auto simp: run_evolves_def round_evolves_def split: option.splits)
  ultimately have "existing_run st' i = Inr q \<and> isPackReviewStaleTerminalRun q \<and> run_evolves r q \<and> round_closed c r q"
    using mid stored run_evolves_trans build_round [OF ur r1 raw] round by (auto simp: round_closed_def)
  with c show ?thesis by blast
qed

text \<open>
  C18: The termination of a stale run, whenever it returns. If it reports no change, nothing was
  written, and the run is not stale or was closed so before. If it reports a change, the stored run
  is failed with the stale reason and keeps its identity and recorded accounting; when it has a round,
  every source slot of it is terminal, so that none is taken for one still running, unless the review
  authority has committed the run, in which case its round is kept as it is.
\<close>
lemma stale_run_closed:
  assumes "terminalizePackReviewStaleRun env st i = (Inr (changed, q), st')" and "readRecordsUnlocked env st = Inr rs"
    and "existing_run st i = Inr r"
  shows "if changed
    then existing_run st' i = Inr q \<and> isPackReviewStaleTerminalRun q \<and> run_evolves r q
      \<and> (rr_reviewRound r = None
         \<or> (case aggregate_committed st r of
              Inl e \<Rightarrow> False
            | Inr committed \<Rightarrow>
                if committed then rr_reviewRound q = rr_reviewRound r
                else \<exists>round. rr_reviewRound q = Some round
                  \<and> list_all (\<lambda>slot. sl_lifecycle slot = Slot_Terminal) (gr_slots round)))
    else q = r \<and> st' = st \<and> (isPackReviewStaleTerminalRun r \<or> \<not> isPackReviewRunStale env r (now_ms env))"
proof (cases "isPackReviewStaleTerminalRun r \<or> \<not> isPackReviewRunStale env r (now_ms env)")
  case True
  with assms(1,3) show ?thesis by (simp add: terminalizePackReviewStaleRun_def)
next
  case stale: False
  have named: "files_named st" using assms(2) readable_named by (auto simp: readable_def)
  from assms(1,3) stale have run: "(case rr_reviewRound r of
      None \<Rightarrow> fail_stale_run env st i None
    | Some round \<Rightarrow>
        if list_ex (\<lambda>slot. sl_lifecycle slot \<noteq> Slot_Terminal) (gr_slots round)
        then (case updatePackReviewRun env st i [(''reviewRound'', Some (round_json (interrupted_round round)))] of
                Inl e \<Rightarrow> (Inl e, st)
              | Inr (r, st') \<Rightarrow> fail_stale_run env st' i (rr_reviewRound r))
        else fail_stale_run env st i (Some round)) = (Inr (changed, q), st')"
    by (auto simp: terminalizePackReviewStaleRun_def split: if_splits)
  have changed: "changed"
    using run by (auto simp: fail_stale_run_def split: option.splits sum.splits if_splits)
  have "\<exists>c. aggregate_committed st r = Inr c \<and> existing_run st' i = Inr q \<and> isPackReviewStaleTerminalRun q \<and> run_evolves r q
      \<and> round_closed c r q"
  proof (cases "\<exists>round. rr_reviewRound r = Some round \<and> \<not> all_terminal round")
    case False
    with run changed have f: "fail_stale_run env st i (rr_reviewRound r) = (Inr (True, q), st')"
      by (auto simp: all_terminal_def list_all_iff list_ex_iff split: option.splits if_splits)
    then obtain p where "updatePackReviewRun env st i p = Inr (q, st')"
      by (auto simp: fail_stale_run_def setPackReviewRunTerminal_def split: sum.splits if_splits)
    then obtain c where c: "aggregate_committed st r = Inr c" using assms(3) by (rule update_result)
    moreover have "opt_all all_terminal (rr_reviewRound r)" using False by (cases "rr_reviewRound r") auto
    ultimately show ?thesis using fail_stale_closed [OF f named assms(3) c] by blast
  next
    case True
    then obtain round where round: "rr_reviewRound r = Some round" "\<not> all_terminal round" by blast
    let ?patch = "[(''reviewRound'', Some (round_json (interrupted_round round)))]"
    from run round changed obtain r1 st1 where u: "updatePackReviewRun env st i ?patch = Inr (r1, st1)"
      and f: "fail_stale_run env st1 i (rr_reviewRound r1) = (Inr (True, q), st')"
      by (auto simp: all_terminal_def list_all_iff list_ex_iff split: if_splits sum.splits)
    from interrupted_closed [OF u f named assms(3) round(1)] show ?thesis .
  qed
  with changed show ?thesis by (auto simp: round_closed_def all_terminal_def)
qed

end
