(* ===== verification/Run_Targets.thy ===== *)
theory Run_Targets
  imports Run_Update_Samples
begin

text \<open>
  The runs of one target: at most one is live in a store that reads, a created run is the newest and
  leaves a live one only as its replacement, and the resolution of the order finds the newest run. The loop that takes the
  store lock.
\<close>

section \<open>Creation\<close>

lemma parsed_disposition:
  assumes "parsed_as (new_run_object env input d p sha repo n) v"
  shows "ra_disposition (rr_accounting v) = d"
proof -
  have "map_of (new_run_object env input d p sha repo n) ''automaticBudgetDisposition'' = Some (JStr (run_disposition_text d))"
    by (simp add: new_run_object_def map_of_js_spread)
  then show ?thesis using accounting_fields [OF parsed_accounting [OF assms]] by (simp add: read_disposition)
qed

lemma file_present: "map_of files name = None \<Longrightarrow> list_all2 file_of_run (filter P files) rs \<Longrightarrow> r \<in> set rs \<Longrightarrow> run_file_name (rr_id r) \<noteq> name"
proof
  assume absent: "map_of files name = None" and all: "list_all2 file_of_run (filter P files) rs" "r \<in> set rs" and eq: "run_file_name (rr_id r) = name"
  from list_all2_right_ex [OF all] obtain e where "e \<in> set files" "fst e = name" using eq by (auto simp: file_of_run_def)
  with absent show False by (auto simp: map_of_eq_None_iff)
qed

lemma readable_put:
  assumes "readable env st rs" "map_of (st_files st) (run_file_name (rr_id v)) = None" "parsed_as raw v"
    and "st' = st\<lparr>st_files := put_file (run_file_name (rr_id v)) (Run_Json (JObj (run_object v))) (st_files st)\<rparr>"
  shows "readable env st' (rs @ [v]) \<longleftrightarrow> \<not> live_run env v \<or> (\<forall>c\<in>set rs. live_run env c \<longrightarrow> \<not> samePackReviewRunIdentity (re_cwd env) c v)"
proof -
  have "rr_id c \<noteq> rr_id v" if "c \<in> set rs" for c
    using file_present [OF assms(2) _ that] assms(1) unfolding readable_iff by fastforce
  then have "rr_id v \<notin> rr_id ` set rs" by force
  moreover have "file_of_run (run_file_name (rr_id v), Run_Json (JObj (run_object v))) v"
    using parsed_reread [OF assms(3)] by (auto simp: file_of_run_def)
  ultimately show ?thesis
    using assms(1,2,4) unfolding readable_iff
    by (auto simp: put_file_def sorted_wrt_append intro!: list_all2_appendI)
qed

text \<open>What a creation that wrote a record found, with the repositories its request binds old records to.\<close>

lemma create_new:
  assumes "createPackReviewRun env st input = Inr (Run_Created obj, st')"
  shows "\<exists>rs bindings v. readable env st rs \<and> legacy_bindings (re_cwd env) (ci_legacyRepositories input) = Inr bindings
    \<and> parsed_as obj v \<and> rr_status v = Queued \<and> run_at st' (rr_id v) v
    \<and> (let target = (\<lambda>c. matches_target env input (rr_projectId v) (rr_targetSha v) (record_repository v) (bind_repository (re_cwd env) bindings c));
           matching = (\<lambda>c. matches_input env input (ra_disposition (rr_accounting v)) (rr_projectId v) (rr_targetSha v) (record_repository v)
             (bind_repository (re_cwd env) bindings c))
       in (\<forall>c\<in>set rs.
             (target c \<longrightarrow> newer_run env v c
               \<and> (\<not> live_run env c \<or> ci_allowSameRoundReplacement input \<and> matching c
                   \<and> ci_resolvedReviewer input \<noteq> None \<and> rv_resolved (rr_reviewer c) = ci_resolvedReviewer input))
             \<and> (matching c \<longrightarrow> \<not> (rr_status c \<in> set PACK_REVIEW_VERDICT_TERMINAL_STATUSES \<and> hasPersistedPackReviewVerdict c)
               \<and> (ci_allowSameRoundReplacement input
                   \<or> \<not> uncertain_delivery c \<and> \<not> hasRecordedGptRoundLifecycleOrEvidence (rr_reviewRound c)))
             \<and> (samePackReviewRunIdentity (re_cwd env) c v \<and> ci_sourceRepoRoot input \<noteq> []
                 \<and> record_repository (bind_repository (re_cwd env) bindings c) = record_repository c \<longrightarrow> target c))
          \<and> (readable env st' (rs @ [v]) \<longleftrightarrow>
               \<not> (live_run env v \<and> list_ex (\<lambda>c. live_run env c \<and> samePackReviewRunIdentity (re_cwd env) c v) rs)))"
proof (rule create_Created [OF assms])
  fix rs bindings repository d sha v
  let ?p = "trim_or ''orchestrator-pack'' (ci_projectId input)" and ?id = "new_run_id (re_uuid env)"
  let ?bound = "map (bind_repository (re_cwd env) bindings) rs"
  let ?orders = "List.map_filter rr_sameKeyOrder (filter (matches_target env input ?p sha repository) ?bound)"
  assume rs: "readable env st rs" and b: "legacy_bindings (re_cwd env) (ci_legacyRepositories input) = Inr bindings"
    and repo: "opt_all (\<lambda>s. trimmed s \<and> repository_slug s) repository" and sha: "is_sha sha"
    and reuse: "reusable_run env input d ?p sha repository ?bound = Inr None"
    and obj: "obj = new_run_object env input d ?p sha repository (next_order ?orders)"
    and v: "parsed_as obj v" and new: "map_of (st_files st) (run_file_name ?id) = None" and ok: "run_id_ok ?id"
    and st': "st' = st\<lparr>st_files := put_file (run_file_name ?id) (Run_Json (JObj (run_object v))) (st_files st)\<rparr>"
  note fields_v = new_record [OF v [unfolded obj] default_project_trimmed sha repo ok]
  note d = parsed_disposition [OF v [unfolded obj]]
  have newer: "newer_run env v c"
    if "c \<in> set rs" "matches_target env input ?p sha repository (bind_repository (re_cwd env) bindings c)" for c
  proof (cases "rr_sameKeyOrder c")
    case None
    with fields_v(7) show ?thesis by (intro newer_ordered) simp_all
  next
    case (Some k)
    have "k \<in> set ?orders" using that Some by (auto simp: map_filter_Some intro!: bexI [of _ c])
    from next_order_above [OF this] fields_v(7) Some show ?thesis by (simp add: newer_run_def compareSameKeyRuns_def)
  qed
  note reused = reusable_None [OF reuse, of "bind_repository (re_cwd env) bindings c" for c]
  note same = same_identity_matches [OF _ fields_v(2,3,4,5,6)]
  have "run_at st' ?id v" using run_at_put [OF v st'] ok by simp
  moreover have "readable env st' (rs @ [v]) \<longleftrightarrow>
      \<not> (live_run env v \<and> list_ex (\<lambda>c. live_run env c \<and> samePackReviewRunIdentity (re_cwd env) c v) rs)"
    using readable_put [OF rs _ v, of st'] new st' fields_v(1) by (auto simp: list_ex_iff)
  ultimately show ?thesis
    using rs b v fields_v newer d reused same by (intro exI [of _ rs] exI [of _ bindings] exI [of _ v]) (auto simp: Let_def)
qed

section \<open>An order that cannot be decided\<close>

text \<open>Two different runs of the target, one of them in the list, that the order cannot tell apart.\<close>

definition undecided :: "run_env \<Rightarrow> run_record list \<Rightarrow> run_record \<Rightarrow> bool" where
  "undecided env records run \<longleftrightarrow>
     (\<exists>a\<in>set records. \<exists>b\<in>insert run (set records). rr_id a \<noteq> rr_id b \<and> compareSameKeyRuns (re_dateParse env) a b = None
        \<and> samePackReviewRunIdentity (re_cwd env) a run \<and> (b = run \<or> samePackReviewRunIdentity (re_cwd env) b run))"

lemma undecided_mono: "undecided env cs run \<Longrightarrow> set cs \<subseteq> set ds \<Longrightarrow> undecided env ds run"
  by (auto simp: undecided_def)

lemma newest_after_Ambiguous:
  assumes "newest_after env run newer cs = Order_Ambiguous" "distinct (map rr_id cs)"
    and "\<forall>m. newer = Some m \<longrightarrow> rival env run m \<and> rr_id m \<notin> rr_id ` set cs"
  shows "undecided env (cs @ (case newer of None \<Rightarrow> [] | Some m \<Rightarrow> [m])) run"
  using assms
proof (induction env run newer cs rule: newest_after.induct)
  case (1 env run newer)
  then show ?case by (auto split: option.splits)
next
  case (2 env run newer c cs)
  let ?old = "case newer of None \<Rightarrow> [] | Some m \<Rightarrow> [m]"
  have keep: "undecided env (cs @ ?old) run \<Longrightarrow> ?case" by (erule undecided_mono) auto
  show ?case
  proof (cases "rival env run c")
    case False
    with 2 have "newest_after env run newer cs = Order_Ambiguous" by (auto simp: rival_def)
    with 2 False show ?thesis by (intro keep 2(1)) (auto simp: rival_def)
  next
    case True
    then have cond: "\<not> (\<not> samePackReviewRunIdentity (re_cwd env) c run \<or> rr_id c = rr_id run)" by (simp add: rival_def)
    show ?thesis
    proof (cases "compareSameKeyRuns (re_dateParse env) c run")
      case None
      with cond show ?thesis by (auto simp: undecided_def)
    next
      case k: (Some k)
      show ?thesis
      proof (cases "k \<le> 0")
        case low: True
        have "newest_after env run newer cs = Order_Ambiguous" using 2(5) cond k low by auto
        from 2(2) [OF cond k low this] 2(6,7) show ?thesis by (intro keep) auto
      next
        case high: False
        show ?thesis
        proof (cases newer)
          case None
          have "newest_after env run (Some c) cs = Order_Ambiguous" using 2(5) cond k high None by auto
          from 2(3) [OF cond k high None this] 2(6) True show ?thesis by (auto intro: undecided_mono)
        next
          case m: (Some m)
          show ?thesis
          proof (cases "compareSameKeyRuns (re_dateParse env) c m")
            case None
            with cond m 2(7) show ?thesis by (fastforce simp: undecided_def rival_def)
          next
            case l: (Some l)
            have "newest_after env run (Some (if 0 < l then c else m)) cs = Order_Ambiguous" using 2(5) cond k high m l by auto
            from 2(4) [OF cond k high m l this] 2(6,7) m True have "undecided env (cs @ [if 0 < l then c else m]) run" by auto
            then show ?thesis using m by (elim undecided_mono) auto
          qed
        qed
      qed
    qed
  qed
qed

lemma equal_dates_pair:
  "equal_dates d xs \<Longrightarrow> distinct (map rr_id xs) \<Longrightarrow>
     \<exists>a\<in>set xs. \<exists>b\<in>set xs. rr_id a \<noteq> rr_id b \<and> d (rr_createdAt a) \<noteq> None \<and> d (rr_createdAt a) = d (rr_createdAt b)"
proof (induction d xs rule: equal_dates.induct)
  case (2 d r rs)
  then show ?case by (fastforce simp: list_ex_iff image_iff)
qed simp

lemma distinct_ids_filter: "distinct (map rr_id xs) \<Longrightarrow> distinct (map rr_id (filter P xs))"
  by (simp add: distinct_map inj_on_def)

lemma legacy_undecided:
  assumes "hasLegacyOrderAmbiguity env records run" "distinct (map rr_id records)"
  shows "undecided env records run"
proof -
  let ?legacy = "filter (\<lambda>r. rr_sameKeyOrder r = None) (filter (\<lambda>r. samePackReviewRunIdentity (re_cwd env) r run) records)"
  have "equal_dates (re_dateParse env) ?legacy" using assms(1) by (simp add: hasLegacyOrderAmbiguity_def Let_def)
  from equal_dates_pair [OF this distinct_ids_filter [OF distinct_ids_filter [OF assms(2)]]]
  obtain a b where "a \<in> set ?legacy" "b \<in> set ?legacy" "rr_id a \<noteq> rr_id b"
    "re_dateParse env (rr_createdAt a) \<noteq> None" "re_dateParse env (rr_createdAt a) = re_dateParse env (rr_createdAt b)" by blast
  then show ?thesis
    unfolding undecided_def by (intro bexI [of _ a] bexI [of _ b]) (auto simp: compareSameKeyRuns_def)
qed

end
