(* ===== verification/Run_Terminal_Samples.thy ===== *)
theory Run_Terminal_Samples
  imports Run_Update_Samples
begin

text \<open>
  The late failure of a run with a persisted verdict, and the fields of a queued run under an
  environment in which its runner has disappeared.
\<close>

section \<open>A late failure\<close>

lemma sample_terminal_overridden:
  "update_overrides run_env_sample sample_run (terminal_patch run_env_sample Run_Failed sample_patch) False = sample_overrides"
proof -
  have get: "patch_value (terminal_patch run_env_sample Run_Failed sample_patch) ''heartbeatAtUtc'' = patch_value sample_patch ''heartbeatAtUtc''"
    "patch_value (terminal_patch run_env_sample Run_Failed sample_patch) ''canonicalRepository'' = patch_value sample_patch ''canonicalRepository''"
    "patch_value (terminal_patch run_env_sample Run_Failed sample_patch) ''accountingVersion'' = patch_value sample_patch ''accountingVersion''"
    "patch_value (terminal_patch run_env_sample Run_Failed sample_patch) ''reviewCycleId'' = patch_value sample_patch ''reviewCycleId''"
    "patch_value (terminal_patch run_env_sample Run_Failed sample_patch) ''logicalRoundOrdinal'' = patch_value sample_patch ''logicalRoundOrdinal''"
    "patch_value (terminal_patch run_env_sample Run_Failed sample_patch) ''logicalRoundCap'' = patch_value sample_patch ''logicalRoundCap''"
    "patch_value (terminal_patch run_env_sample Run_Failed sample_patch) ''boundIssueSnapshotDigest'' = patch_value sample_patch ''boundIssueSnapshotDigest''"
    "patch_value (terminal_patch run_env_sample Run_Failed sample_patch) ''deliveryOutcomes'' = patch_value sample_patch ''deliveryOutcomes''"
    "patch_value (terminal_patch run_env_sample Run_Failed sample_patch) ''failureReason'' = patch_value sample_patch ''failureReason''"
    "patch_value (terminal_patch run_env_sample Run_Failed sample_patch) ''findings'' = patch_value sample_patch ''findings''"
    "patch_value (terminal_patch run_env_sample Run_Failed sample_patch) ''reviewVerdict'' = patch_value sample_patch ''reviewVerdict''"
    "patch_value (terminal_patch run_env_sample Run_Failed sample_patch) ''findingCount'' = patch_value sample_patch ''findingCount''"
    "patch_value (terminal_patch run_env_sample Run_Failed sample_patch) ''journalOutcome'' = patch_value sample_patch ''journalOutcome''"
    "patch_value (terminal_patch run_env_sample Run_Failed sample_patch) ''status'' = patch_value sample_patch ''status''"
    by (simp_all add: patch_value_def terminal_patch_def sample_patch_def PACK_REVIEW_VERDICT_TERMINAL_STATUSES_def)
  have "update_overrides run_env_sample sample_run (terminal_patch run_env_sample Run_Failed sample_patch) False
      = update_overrides run_env_sample sample_run sample_patch False"
    unfolding update_overrides_def Let_def merge_delivery_def staleNoJudgmentTerminal_def allowPreAggregateSeverityUpdate_def list.map get ..
  then show ?thesis by (simp only: sample_overridden)
qed

lemma sample_terminal_object:
  "js_set (update_candidate run_env_sample sample_run (terminal_patch run_env_sample Run_Failed sample_patch) False) ''reviewRound''
     (Some (round_json sample_round)) = sample_object"
  unfolding update_candidate_def sample_terminal_overridden by code_simp

lemma sample_late_failure:
  "setPackReviewRunTerminal run_env_sample (store_of [sample_run]) ''prr-1'' Run_Failed sample_patch = Inr (sample_updated, store_of [sample_updated])"
proof -
  let ?patch = "terminal_patch run_env_sample Run_Failed sample_patch"
  have "map_of ?patch ''reviewRound'' = None" by (simp add: terminal_patch_def sample_patch_def PACK_REVIEW_VERDICT_TERMINAL_STATUSES_def)
  then have "map_of (update_candidate run_env_sample sample_run ?patch False) ''reviewRound'' = Some (round_json sample_round)"
    by (simp add: candidate_round sample_fields)
  moreover have "aggregate_committed (store_of [sample_run]) sample_run = Inr False" by (rule uncommitted) (simp add: sample_fields)
  ultimately have "buildUpdatedPackReviewRun run_env_sample (store_of [sample_run]) sample_run ?patch ''/s/runs/prr-1.json'' = Inr sample_updated"
    by (simp add: buildUpdatedPackReviewRun_def sample_round_merged sample_terminal_object sample_candidate)
  from sample_written [OF _ this] sample_store(1) show ?thesis
    by (simp add: setPackReviewRunTerminal_def PACK_REVIEW_TERMINAL_STATUSES_def)
qed

section \<open>A runner that disappeared\<close>

definition run_env_stale :: run_env where
  "run_env_stale = run_env_sample\<lparr>re_dateParse := (\<lambda>s. Some (- 1000000)), re_kill := (\<lambda>pid. Kill_Other)\<rparr>"

lemma native_fields:
  "rr_runId native_run = ''prr-2''" "rr_key native_run = ''pr-7-'' @ run_head" "rr_prNumber native_run = 7"
  "rr_targetSha native_run = run_head" "rr_headSha native_run = run_head" "rr_sameKeyOrder native_run = Some 1"
  "rr_status native_run = Queued" "rr_reviewRound native_run = None" "rr_delivery native_run = []"
  "rr_accounting native_run = \<lparr>ra_disposition = Disp_Consume, ra_accountingVersion = None,
     ra_reviewCycleId = None, ra_logicalRoundOrdinal = None, ra_logicalRoundCap = None\<rparr>"
  "rr_boundDigest native_run = None" "rr_repository native_run = None" "rr_heartbeatAtUtc native_run = ''t1''" "rr_journal native_run = None"
  by (simp_all add: native_run_def sample_run_def)

lemma native_clock: "now_ms run_env_stale = 0 \<and> re_isoText run_env_stale 0 = ''t0''"
  by code_simp

lemma native_unpersisted: "\<not> hasPersistedPackReviewVerdict native_run"
  by (simp add: hasPersistedPackReviewVerdict_def hasValidPackReviewJournalOutcome_def native_fields)

lemma native_open:
  "\<not> hasPersistedPackReviewVerdict native_run" "\<not> staleNoJudgmentTerminal native_run p" "\<not> allowPreAggregateSeverityUpdate native_run p c"
  by (simp_all only: staleNoJudgmentTerminal_def allowPreAggregateSeverityUpdate_def native_unpersisted simp_thms not_False_eq_True)

lemma native_absent: "map_of (run_object native_run) ''canonicalRepository'' = None"
  by (simp add: run_object_get run_fields_def native_run_def sample_run_def)

lemma stale_lock_free [simp]: "withStoreLock run_env_stale action = action"
  by (simp add: withStoreLock_def acquireStoreLock_def run_env_stale_def run_env_sample_def numeral_eq_Suc)

lemma stale_rename [simp]: "renameRecordWithRetry run_env_stale path = Inr ()"
  by code_simp

lemma native_record_path: "recordPath ''/s'' ''prr-2'' = Inr ''/s/runs/prr-2.json''"
  by code_simp

end
