(* ===== verification/Run_Stale_Samples.thy ===== *)
theory Run_Stale_Samples
  imports Run_Terminal_Samples
begin

text \<open>
  A stale run with an open source slot: its runner disappeared while the source was running. Its
  termination closes the slot as possibly delivered and then fails the run.
\<close>

definition open_round :: gpt_round where
  "open_round = sample_round\<lparr>gr_slots := [sample_slot\<lparr>sl_lifecycle := Slot_Invocation_Started, sl_terminalClass := None,
     sl_terminalResult := None, sl_payload := None\<rparr>]\<rparr>"

definition open_run :: run_record where
  "open_run = sample_run\<lparr>rr_status := Reviewing,
     rr_labels := (rr_labels sample_run)\<lparr>rl_latestRunStatus := ''reviewing''\<rparr>, rr_reviewRound := Some open_round,
     rr_verdict := None, rr_findingCount := None, rr_findings := [], rr_journal := None, rr_delivery := []\<rparr>"

lemma open_parsed: "parseRunRecord (Some (JObj (run_object open_run))) [] = Inr open_run"
  by code_simp

definition closed_round :: gpt_round where
  "closed_round = sample_round\<lparr>gr_slots := [sample_slot\<lparr>sl_lifecycle := Slot_Terminal,
     sl_terminalClass := Some ''possible_delivery/missing_result'',
     sl_terminalResult := Some (JObj [(''kind'', JStr ''missing_terminal_result''), (''noResend'', JBool True)]), sl_payload := None\<rparr>]\<rparr>"

lemma open_interrupted: "interrupted_round open_round = closed_round"
  by (simp add: interrupted_round_def open_round_def closed_round_def interrupted_slot_def)

definition closed_run :: run_record where
  "closed_run = open_run\<lparr>rr_reviewRound := Some closed_round, rr_updatedAt := ''t0'', rr_heartbeatAtUtc := ''t0''\<rparr>"

definition closing_patch :: js_patch where
  "closing_patch = [(''reviewRound'', Some (round_json closed_round))]"

definition ending_patch :: js_patch where
  "ending_patch = terminal_patch run_env_stale Run_Failed (stale_patch (Some closed_round))"

definition ended_run :: run_record where
  "ended_run = closed_run\<lparr>rr_status := Run_Failed, rr_labels := (rr_labels closed_run)\<lparr>rl_latestRunStatus := ''failed''\<rparr>,
     rr_rest := [(''completedAtUtc'', JStr ''t0''), (''exitCode'', JInt 1), (''stale'', JBool True),
        (''failureReason'', JStr ''runner_disappeared_stale'')]\<rparr>"

definition common_overrides :: js_patch where
  "common_overrides =
     [(''heartbeatAtUtc'', Some (JStr ''t0'')), (''updatedAt'', Some (JStr ''t0'')), (''schemaVersion'', Some (JInt 1)),
      (''canonicalRepository'', None), (''accountingVersion'', Some (JStr ''issue-2761-tiered-sources-1-2-3'')),
      (''reviewCycleId'', Some (JStr ''c'')), (''logicalRoundOrdinal'', Some (JInt 1)), (''logicalRoundCap'', Some (JInt 1)),
      (''boundIssueSnapshotDigest'', Some (JStr ''digest'')), (''automaticBudgetDisposition'', Some (JStr ''consume'')),
      (''sameKeyOrder'', Some (JInt 1)), (''id'', Some (JStr ''prr-1'')), (''runId'', Some (JStr ''prr-1'')),
      (''key'', Some (JStr (''pr-7-'' @ run_head))), (''prNumber'', Some (JInt 7)), (''targetSha'', Some (JStr run_head)),
      (''headSha'', Some (JStr run_head)), (''deliveryOutcomes'', Some (JObj []))]"

section \<open>What the two writes override\<close>

lemma target_overridden:
  assumes r: "rr_id r = ''prr-1''" "rr_runId r = ''prr-1''" "rr_key r = ''pr-7-'' @ run_head" "rr_prNumber r = 7"
      "rr_targetSha r = run_head" "rr_headSha r = run_head" "rr_sameKeyOrder r = Some 1"
      "rr_accounting r = rr_accounting sample_run" "rr_boundDigest r = Some ''digest''"
    and absent: "rr_repository r = None" "rr_delivery r = []" "rr_verdict r = None"
    and p: "patch_value p ''canonicalRepository'' = None" "patch_value p ''accountingVersion'' = None" "patch_value p ''reviewCycleId'' = None"
      "patch_value p ''logicalRoundOrdinal'' = None" "patch_value p ''logicalRoundCap'' = None"
      "patch_value p ''boundIssueSnapshotDigest'' = None" "patch_value p ''deliveryOutcomes'' = None"
    and heartbeat: "(if string_or (status_text (rr_status r)) (patch_value p ''status'') \<in> set (map status_text PACK_REVIEW_ACTIVE_STATUSES)
        then Some (JStr ''t0'') else Some (JStr (string_or (rr_heartbeatAtUtc r) (patch_value p ''heartbeatAtUtc'')))) = Some (JStr ''t0'')"
  shows "update_overrides run_env_stale r p c = common_overrides"
proof -
  have unpersisted: "\<not> hasPersistedPackReviewVerdict r" "\<not> staleNoJudgmentTerminal r p" "\<not> allowPreAggregateSeverityUpdate r p c"
    using absent(3) by (simp_all add: hasPersistedPackReviewVerdict_def staleNoJudgmentTerminal_def allowPreAggregateSeverityUpdate_def)
  have merged: "merge_delivery run_env_stale r p = []" using absent(2) p by (simp add: merge_delivery_def json_object_def)
  show ?thesis
    unfolding update_overrides_def stored_fields_def Let_def list.map append.simps run_object_all merged native_clock [THEN conjunct1]
      native_clock [THEN conjunct2] heartbeat
    by (simp only: if_True if_False unpersisted append.simps append_Nil2 r absent p option.map sample_fields run_accounting.simps js_coalesce_def
        nullish_simps option.simps common_overrides_def run_disposition_text.simps)
qed

lemma open_fields:
  "rr_id open_run = ''prr-1''" "rr_runId open_run = ''prr-1''" "rr_key open_run = ''pr-7-'' @ run_head" "rr_prNumber open_run = 7"
  "rr_targetSha open_run = run_head" "rr_headSha open_run = run_head" "rr_sameKeyOrder open_run = Some 1"
  "rr_accounting open_run = rr_accounting sample_run" "rr_boundDigest open_run = Some ''digest''"
  "rr_delivery open_run = []" "rr_repository open_run = None" "rr_verdict open_run = None" "rr_status open_run = Reviewing" "rr_reviewRound open_run = Some open_round"
  by (simp_all add: open_run_def sample_run_def)

lemma closed_fields:
  "rr_id closed_run = ''prr-1''" "rr_runId closed_run = ''prr-1''" "rr_key closed_run = ''pr-7-'' @ run_head" "rr_prNumber closed_run = 7"
  "rr_targetSha closed_run = run_head" "rr_headSha closed_run = run_head" "rr_sameKeyOrder closed_run = Some 1"
  "rr_accounting closed_run = rr_accounting sample_run" "rr_boundDigest closed_run = Some ''digest''"
  "rr_delivery closed_run = []" "rr_repository closed_run = None" "rr_verdict closed_run = None" "rr_status closed_run = Reviewing" "rr_reviewRound closed_run = Some closed_round"
  "rr_heartbeatAtUtc closed_run = ''t0''"
  by (simp_all add: closed_run_def open_fields)

lemma ending_patched:
  "ending_patch = [(''completedAtUtc'', Some (JStr ''t0'')), (''latestRunStatus'', Some (JStr ''failed'')),
     (''status'', Some (JStr ''failed'')), (''reviewRound'', Some (round_json closed_round)), (''exitCode'', Some (JInt 1)),
     (''stale'', Some (JBool True)), (''failureReason'', Some (JStr ''runner_disappeared_stale''))]"
  unfolding ending_patch_def terminal_patch_def stale_patch_def PACK_REVIEW_VERDICT_TERMINAL_STATUSES_def
    PACK_REVIEW_STALE_FAILURE_REASON_def native_clock [THEN conjunct1] native_clock [THEN conjunct2]
  by simp

lemma open_overridden: "update_overrides run_env_stale open_run closing_patch c = common_overrides"
  by (rule target_overridden) (simp_all add: open_fields closing_patch_def patch_value_def PACK_REVIEW_ACTIVE_STATUSES_def)

lemma closed_overridden: "update_overrides run_env_stale closed_run ending_patch c = common_overrides"
  by (rule target_overridden) (simp_all add: closed_fields ending_patched patch_value_def PACK_REVIEW_ACTIVE_STATUSES_def)

definition closed_object :: "js_object \<Rightarrow> js_object" where
  "closed_object ends =
     [(''reviewRound'', round_json closed_round), (''heartbeatAtUtc'', JStr ''t0''), (''updatedAt'', JStr ''t0''),
      (''schemaVersion'', JInt 1), (''accountingVersion'', JStr ''issue-2761-tiered-sources-1-2-3''), (''reviewCycleId'', JStr ''c''),
      (''logicalRoundOrdinal'', JInt 1), (''logicalRoundCap'', JInt 1), (''boundIssueSnapshotDigest'', JStr ''digest''),
      (''automaticBudgetDisposition'', JStr ''consume''), (''sameKeyOrder'', JInt 1), (''id'', JStr ''prr-1''),
      (''runId'', JStr ''prr-1''), (''key'', JStr (''pr-7-'' @ run_head)), (''prNumber'', JInt 7), (''targetSha'', JStr run_head),
      (''headSha'', JStr run_head), (''deliveryOutcomes'', JObj [])] @ ends @
     [(''linkedSessionId'', JStr []), (''startReason'', JStr []), (''surface'', JStr ''s''),
      (''trustedPackRoot'', JStr ''/t''), (''sourceRepoRoot'', JStr ''/r''), (''resolvedReviewer'', JStr ''gpt''),
      (''runnerPid'', JInt 9), (''createdAt'', JStr ''t0''), (''findings'', JArr [])]"

definition closing_object :: js_object where
  "closing_object = closed_object [(''projectId'', JStr ''p''), (''status'', JStr ''reviewing''), (''latestRunStatus'', JStr ''reviewing'')]"

definition ending_object :: js_object where
  "ending_object = closed_object [(''completedAtUtc'', JStr ''t0''), (''latestRunStatus'', JStr ''failed''), (''status'', JStr ''failed''),
      (''exitCode'', JInt 1), (''stale'', JBool True), (''failureReason'', JStr ''runner_disappeared_stale''), (''projectId'', JStr ''p'')]"

lemma closing_candidate:
  "js_set (update_candidate run_env_stale open_run closing_patch c) ''reviewRound'' (Some (round_json closed_round)) = closing_object"
  unfolding update_candidate_def open_overridden by code_simp

lemma ending_candidate:
  "js_set (update_candidate run_env_stale closed_run ending_patch c) ''reviewRound'' (Some (round_json closed_round)) = ending_object"
  unfolding update_candidate_def closed_overridden ending_patched by code_simp

lemma closing_parsed: "parseRunRecord (Some (JObj closing_object)) ''/s/runs/prr-1.json'' = Inr closed_run"
  by code_simp

lemma ending_parsed: "parseRunRecord (Some (JObj ending_object)) ''/s/runs/prr-1.json'' = Inr ended_run"
  by code_simp

lemma closing_round: "updated_round open_run (Some (round_json closed_round)) ''/s/runs/prr-1.json'' False = Inr (Some (round_json closed_round))"
  by code_simp

lemma ending_round: "updated_round closed_run (Some (round_json closed_round)) ''/s/runs/prr-1.json'' False = Inr (Some (round_json closed_round))"
  by code_simp

lemma open_stale: "isPackReviewRunStale run_env_stale open_run 0 \<and> \<not> isPackReviewStaleTerminalRun open_run"
  by code_simp

section \<open>The termination\<close>

lemma stale_written:
  assumes "buildUpdatedPackReviewRun run_env_stale (store_of [r]) r p ''/s/runs/prr-1.json'' = Inr q"
    and "existing_run (store_of [r]) ''prr-1'' = Inr r" "rr_id r = ''prr-1''" "rr_id q = ''prr-1''" "parsed_as (run_object q) q"
  shows "updatePackReviewRun run_env_stale (store_of [r]) ''prr-1'' p = Inr (q, store_of [q])"
  using assms sample_path
  by (simp add: updatePackReviewRun_def update_locked_def writeRecordUnlocked_def parseRunRecord_iff [THEN iffD2] store_of_def put_single)

lemma closed_parsed_as: "parsed_as (run_object open_run) open_run" "parsed_as (run_object closed_run) closed_run"
  "parsed_as (run_object ended_run) ended_run"
proof -
  show "parsed_as (run_object open_run) open_run" using open_parsed by (simp add: parseRunRecord_iff)
  show "parsed_as (run_object closed_run) closed_run" using closing_parsed by (intro parsed_reread) (simp add: parseRunRecord_iff)
  show "parsed_as (run_object ended_run) ended_run" using ending_parsed by (intro parsed_reread) (simp add: parseRunRecord_iff)
qed

lemma open_existing: "existing_run (store_of [open_run]) ''prr-1'' = Inr open_run" "existing_run (store_of [closed_run]) ''prr-1'' = Inr closed_run"
  using store_of_run [OF closed_parsed_as(1)] store_of_run [OF closed_parsed_as(2)] by (simp_all add: open_fields closed_fields)

lemma closing_update: "updatePackReviewRun run_env_stale (store_of [open_run]) ''prr-1'' closing_patch = Inr (closed_run, store_of [closed_run])"
proof (rule stale_written [OF _ open_existing(1)])
  have "map_of (update_candidate run_env_stale open_run closing_patch c) ''reviewRound'' = Some (round_json closed_round)" for c
    by (simp add: candidate_round closing_patch_def)
  then show "buildUpdatedPackReviewRun run_env_stale (store_of [open_run]) open_run closing_patch ''/s/runs/prr-1.json'' = Inr closed_run"
    using uncommitted [of open_run "[open_run]"]
    by (simp add: buildUpdatedPackReviewRun_def open_fields closing_round closing_candidate closing_parsed)
qed (simp_all add: open_fields closed_fields closed_parsed_as)

lemma ending_update: "updatePackReviewRun run_env_stale (store_of [closed_run]) ''prr-1'' ending_patch = Inr (ended_run, store_of [ended_run])"
proof (rule stale_written [OF _ open_existing(2)])
  have "map_of (update_candidate run_env_stale closed_run ending_patch c) ''reviewRound'' = Some (round_json closed_round)" for c
    by (simp add: candidate_round ending_patched)
  then show "buildUpdatedPackReviewRun run_env_stale (store_of [closed_run]) closed_run ending_patch ''/s/runs/prr-1.json'' = Inr ended_run"
    using uncommitted [of closed_run "[closed_run]"]
    by (simp add: buildUpdatedPackReviewRun_def closed_fields ending_round ending_candidate ending_parsed)
qed (simp_all add: closed_fields ended_run_def closed_parsed_as [unfolded ended_run_def])

lemma open_terminalized:
  "terminalizePackReviewStaleRun run_env_stale (store_of [open_run]) ''prr-1'' = (Inr (True, ended_run), store_of [ended_run])"
proof -
  have "setPackReviewRunTerminal run_env_stale (store_of [closed_run]) ''prr-1'' Run_Failed (stale_patch (Some closed_round))
      = Inr (ended_run, store_of [ended_run])"
    using ending_update by (simp add: setPackReviewRunTerminal_def PACK_REVIEW_TERMINAL_STATUSES_def ending_patch_def)
  moreover have "list_ex (\<lambda>slot. sl_lifecycle slot \<noteq> Slot_Terminal) (gr_slots open_round)" by (simp add: open_round_def)
  ultimately show ?thesis
    using open_stale native_clock open_existing(1) closing_update
    by (simp add: terminalizePackReviewStaleRun_def fail_stale_run_def open_fields closed_fields open_interrupted closing_patch_def)
qed

end
