(* ===== verification/Run_Create_Samples.thy ===== *)
theory Run_Create_Samples
  imports Run_Update_Samples Run_Create_Facts
begin

text \<open>
  Sample creations: a run of another review cycle beside a decided run of the same head, and the
  replacement of a run that is still live.
\<close>

definition sample_input :: create_input where
  "sample_input = \<lparr>ci_projectId = Some ''p'', ci_prNumber = 7, ci_headSha = run_head, ci_linkedSessionId = None, ci_startReason = None,
     ci_surface = None, ci_trustedPackRoot = ''/t'', ci_sourceRepoRoot = ''/r'', ci_canonicalRepository = None, ci_legacyRepositories = [],
     ci_reviewRound = None, ci_boundDigest = None, ci_accountingVersion = None, ci_reviewCycleId = Some ''d'', ci_logicalRoundOrdinal = None,
     ci_logicalRoundCap = None, ci_resolvedReviewer = Some ''codex'', ci_resolvedReviewerSource = None, ci_disposition = None,
     ci_allowExplicitSupplementalStart = False, ci_allowCompletedSameHeadReplay = False, ci_allowSameRoundReplacement = False\<rparr>"

definition replace_input :: create_input where
  "replace_input = sample_input\<lparr>ci_reviewCycleId := None, ci_allowSameRoundReplacement := True\<rparr>"

definition created_object :: "create_input \<Rightarrow> js_object" where
  "created_object input = new_run_object run_env_sample input Disp_Consume ''p'' run_head None 2"

lemma sample_input_checks:
  "normalizePackReviewHeadSha run_head = Inr run_head" "legacyReplayOnly sample_input = False" "legacyReplayOnly replace_input = False"
  "normalizeNewAutomaticBudgetDisposition sample_input = Inr Disp_Consume"
  "normalizeNewAutomaticBudgetDisposition replace_input = Inr Disp_Consume"
  "trim_or ''orchestrator-pack'' (Some ''p'') = ''p''"
  by code_simp+

lemma sample_bound:
  "bind_repository ''/w'' [] sample_run = sample_run" "bind_repository ''/w'' [] native_run = native_run"
  by code_simp+

lemma sample_not_reused: "reusable_run run_env_sample sample_input Disp_Consume ''p'' run_head None [sample_run] = Inr None"
  by code_simp

lemma native_not_reused: "reusable_run run_env_sample replace_input Disp_Consume ''p'' run_head None [native_run] = Inr None"
  by code_simp

lemma sample_target:
  "matches_target run_env_sample sample_input ''p'' run_head None sample_run"
  "matches_target run_env_sample replace_input ''p'' run_head None native_run"
  by code_simp+

definition replacement_run :: run_record where
  "replacement_run = native_run\<lparr>rr_id := ''prr-ab'', rr_runId := ''prr-ab'',
     rr_labels := (rr_labels native_run)\<lparr>rl_surface := ''pack-review-runner''\<rparr>,
     rr_createdAt := ''t0'', rr_updatedAt := ''t0'', rr_heartbeatAtUtc := ''t0'', rr_sameKeyOrder := Some 2\<rparr>"

lemma replacement_parsed: "parseRunRecord (Some (JObj (created_object replace_input))) ''/s/runs/prr-ab.json'' = Inr replacement_run"
  by code_simp

lemma created_reads:
  "\<not> isl (parseRunRecord (Some (JObj (created_object sample_input))) ''/s/runs/prr-ab.json'')"
  "\<not> isl (parseRunRecord (Some (JObj (created_object replace_input))) ''/s/runs/prr-ab.json'')"
  subgoal by code_simp
  subgoal by (simp add: replacement_parsed)
  done

lemma created_written:
  assumes "ci_projectId input = Some ''p''" "ci_prNumber input = 7" "ci_headSha input = run_head" "ci_sourceRepoRoot input = ''/r''"
    and "ci_canonicalRepository input = None" "ci_legacyRepositories input = []" "legacyReplayOnly input = False"
    and "normalizeNewAutomaticBudgetDisposition input = Inr Disp_Consume"
    and "parsed_as (run_object r) r" "bind_repository ''/w'' [] r = r" "rr_sameKeyOrder r = Some 1" "rr_id r \<noteq> ''prr-ab''"
    and "reusable_run run_env_sample input Disp_Consume ''p'' run_head None [r] = Inr None"
    and "matches_target run_env_sample input ''p'' run_head None r"
    and "\<not> isl (parseRunRecord (Some (JObj (created_object input))) ''/s/runs/prr-ab.json'')"
  shows "\<exists>st'. createPackReviewRun run_env_sample (store_of [r]) input = Inr (Run_Created (created_object input), st')"
proof -
  have p: "recordPath ''/s'' ''prr-ab'' = Inr ''/s/runs/prr-ab.json''" "new_run_id ''a-b'' = ''prr-ab''" by code_simp+
  have e: "re_cwd run_env_sample = ''/w''" "re_uuid run_env_sample = ''a-b''" by (simp_all add: run_env_sample_def)
  have o': "next_order [1] = 2" by (simp add: next_order_def)
  have f: "run_file_name (rr_id r) \<noteq> run_file_name ''prr-ab''" using assms(12) by (simp add: run_file_name_def)
  obtain v where v: "parseRunRecord (Some (JObj (created_object input))) ''/s/runs/prr-ab.json'' = Inr v"
    using assms(15) by (cases "parseRunRecord (Some (JObj (created_object input))) ''/s/runs/prr-ab.json''") auto
  have "\<exists>st'. writeRecordUnlocked run_env_sample (store_of [r]) ''prr-ab'' (created_object input) True = Inr st'"
    using f by (simp add: writeRecordUnlocked_def p v store_of_def)
  then obtain st' where st': "writeRecordUnlocked run_env_sample (store_of [r]) ''prr-ab'' (created_object input) True = Inr st'" by blast
  have "rbind (writeRecordUnlocked run_env_sample (store_of [r]) ''prr-ab'' (new_run_object run_env_sample input Disp_Consume ''p'' run_head None 2) True)
      (\<lambda>st'. Inr (Run_Created (new_run_object run_env_sample input Disp_Consume ''p'' run_head None 2), st')) = Inr (Run_Created (created_object input), st')"
    using st' by (simp add: created_object_def)
  then have "create_locked run_env_sample (store_of [r]) input Disp_Consume ''p'' run_head = Inr (Run_Created (created_object input), st')"
    using assms(5-7,10,11,13,14) store_of_reads [OF assms(9), of run_env_sample]
    by (simp add: create_locked_def legacy_bindings_def filled_def e p o' List.map_filter_def)
  then show ?thesis
    using assms(1-3,7,8) sample_input_checks(1,6) by (simp add: createPackReviewRun_def)
qed

lemma sample_created:
  "\<exists>st'. createPackReviewRun run_env_sample (store_of [sample_run]) sample_input = Inr (Run_Created (created_object sample_input), st')"
  using sample_parsed_as(1) sample_bound(1) sample_not_reused sample_target(1) created_reads(1) sample_input_checks(2,4)
  by (intro created_written) (simp_all add: sample_fields sample_input_def)

lemma replacement_created:
  "\<exists>st'. createPackReviewRun run_env_sample (store_of [native_run]) replace_input = Inr (Run_Created (created_object replace_input), st')"
  using sample_parsed_as(2) sample_bound(2) native_not_reused sample_target(2) created_reads(2) sample_input_checks(3,5)
  by (intro created_written) (simp_all add: replace_input_def sample_input_def native_run_def sample_run_def)

end
