(* ===== verification/Run_Outcomes.thy ===== *)
theory Run_Outcomes
  imports Run_Properties Run_Targets Run_Stale_Samples Run_Create_Samples
begin

text \<open>
  What the operations on runs of one target come to: which stores read, which run is the newest, what
  a creation adds, how the lock loop ends, and the samples on which late failures and stale runs are
  closed.
\<close>

section \<open>Late and stale runs\<close>

lemma late_failure_ignored_witness:
  "rr_status sample_updated = rr_status sample_run \<and> same_verdict sample_run sample_updated"
proof -
  have "rr_reviewRound sample_run \<noteq> None" by (simp add: sample_fields)
  moreover have "patch_value sample_patch ''failureReason'' = Some (JStr ''gpt_source_non_complete:x'')"
    by (simp add: sample_patch_def patch_value_def)
  moreover have "js_starts_with ''gpt_source_non_complete:'' ''gpt_source_non_complete:x''" by (simp add: js_starts_with_def)
  moreover have "existing_run (store_of [sample_run]) ''prr-1'' = Inr sample_run" using sample_store(1) by simp
  ultimately show ?thesis
    using late_failure_ignored [OF sample_late_failure _ sample_persisted, of "''gpt_source_non_complete:x''"] by blast
qed

lemma stale_run_closed_witness:
  "rr_reviewRound open_run = Some open_round \<and> list_ex (\<lambda>slot. sl_lifecycle slot = Slot_Invocation_Started) (gr_slots open_round)
     \<and> existing_run (store_of [ended_run]) ''prr-1'' = Inr ended_run \<and> isPackReviewStaleTerminalRun ended_run
     \<and> (\<exists>round. rr_reviewRound ended_run = Some round \<and> list_all (\<lambda>slot. sl_lifecycle slot = Slot_Terminal) (gr_slots round))"
proof -
  have "aggregate_committed (store_of [open_run]) open_run = Inr False" by (rule uncommitted) (simp add: open_fields)
  moreover have "list_ex (\<lambda>slot. sl_lifecycle slot = Slot_Invocation_Started) (gr_slots open_round)" by (simp add: open_round_def)
  ultimately show ?thesis
    using stale_run_closed [OF open_terminalized store_of_reads [OF closed_parsed_as(1)] open_existing(1)] by (simp add: open_fields)
qed

section \<open>Stores that read\<close>

text \<open>
  C25: A store reads exactly when every file named as a record holds a JSON value that parses as a
  record of that name, no two records have one id, and no two live runs have one target; what is read
  is then those records in the order of the files.
\<close>
lemma store_reads_iff:
  "readRecordsUnlocked env st = Inr rs \<longleftrightarrow>
     list_all2 (\<lambda>(name, f) r. name = run_file_name (rr_id r)
                 \<and> (case f of Run_Broken e \<Rightarrow> False | Run_Json v \<Rightarrow> parseRunRecord (Some v) [] = Inr r))
       (filter (\<lambda>(name, f). js_ends_with ''.json'' name) (st_files st)) rs
     \<and> distinct (map rr_id rs)
     \<and> sorted_wrt (\<lambda>a b. \<not> (live_run env a \<and> live_run env b \<and> samePackReviewRunIdentity (re_cwd env) a b)) rs"
proof -
  have "file_of_run = (\<lambda>(name, f) r. name = run_file_name (rr_id r)
      \<and> (case f of Run_Broken e \<Rightarrow> False | Run_Json v \<Rightarrow> parseRunRecord (Some v) [] = Inr r))"
    proof (intro ext)
    fix e :: "string \<times> run_file" and r
    show "file_of_run e r = (case e of (name, f) \<Rightarrow> \<lambda>r. name = run_file_name (rr_id r)
        \<and> (case f of Run_Broken e \<Rightarrow> False | Run_Json v \<Rightarrow> parseRunRecord (Some v) [] = Inr r)) r"
      by (cases e; cases "snd e") (auto simp: file_of_run_def parse_Some_Inr)
  qed
  moreover have "(\<lambda>a b. \<not> (live_run env a \<and> live_run env b \<and> samePackReviewRunIdentity (re_cwd env) a b))
      = (\<lambda>a b. live_run env a \<longrightarrow> live_run env b \<longrightarrow> \<not> samePackReviewRunIdentity (re_cwd env) a b)" by auto
  ultimately show ?thesis
    unfolding readable_def [symmetric] readable_iff by (simp only: case_prod_unfold)
qed

section \<open>The newest run\<close>

text \<open>
  C15: The order of the required runs of a target: the newer run that is found is a required run of
  the same target, newer than the given one and newer than every other required run of the target;
  none is found only for an advisory run or one newer than all other required runs of its target; and
  the order is left undecided only when it has two different runs it cannot tell apart.
\<close>
lemma required_run_order:
  assumes "distinct (map rr_id records)"
  shows "case resolvePackReviewRequiredRunOrder env records run of
      Order_Newer n \<Rightarrow> \<not> advisory_run run \<and> n \<in> set records \<and> \<not> advisory_run n \<and> rival env run n \<and> newer_run env n run
        \<and> (\<forall>c\<in>set records. \<not> advisory_run c \<and> rival env run c \<longrightarrow> c = n \<or> newer_run env n c)
    | Order_None \<Rightarrow> advisory_run run \<or> (\<forall>c\<in>set records. \<not> advisory_run c \<and> rival env run c \<longrightarrow> newer_run env run c)
    | Order_Ambiguous \<Rightarrow> \<not> advisory_run run \<and> undecided env (filter (\<lambda>c. \<not> advisory_run c) records) run"
proof -
  let ?required = "filter (\<lambda>c. \<not> advisory_run c) records"
  note ids = distinct_ids_filter [OF assms, of "\<lambda>c. \<not> advisory_run c"]
  show ?thesis
  proof (cases "advisory_run run \<or> hasLegacyOrderAmbiguity env ?required run")
    case True
    with legacy_undecided [OF _ ids] show ?thesis by (auto simp: resolvePackReviewRequiredRunOrder_def resolvePackReviewRunOrder_def)
  next
    case False
    then have r: "resolvePackReviewRequiredRunOrder env records run = newest_after env run None ?required"
      by (simp add: resolvePackReviewRequiredRunOrder_def resolvePackReviewRunOrder_def)
    show ?thesis
    proof (cases "newest_after env run None ?required")
      case (Order_Newer n)
      from newest_after_Newer [OF this] False r Order_Newer show ?thesis by auto
    next
      case Order_None
      from newest_after_None [OF this] r Order_None show ?thesis by auto
    next
      case Order_Ambiguous
      from newest_after_Ambiguous [OF this ids] False r Order_Ambiguous show ?thesis by simp
    qed
  qed
qed

definition later_run :: run_record where
  "later_run = native_run\<lparr>rr_id := ''prr-3'', rr_sameKeyOrder := Some 2\<rparr>"

lemma later_run_found: "resolvePackReviewRequiredRunOrder run_env_sample [sample_run, later_run] sample_run = Order_Newer later_run"
  by code_simp

lemma required_run_order_witness: "rival run_env_sample sample_run later_run \<and> newer_run run_env_sample later_run sample_run"
proof -
  have "distinct (map rr_id [sample_run, later_run])" by (simp add: later_run_def)
  from required_run_order [OF this, where env = run_env_sample and run = sample_run] show ?thesis by (simp add: later_run_found)
qed

section \<open>A created run\<close>

lemma replacement_same_target: "samePackReviewRunIdentity ''/w'' native_run replacement_run"
  by code_simp



text \<open>
  The replacement of a live run: the creation succeeds and leaves two live runs of one target, so the
  store does not read until one of them ends or becomes stale.
\<close>

lemma replacement_live: "live_run run_env_sample native_run \<and> live_run run_env_sample replacement_run"
  by code_simp

lemma created_file:
  "createPackReviewRun env st input = Inr (Run_Created obj, st') \<Longrightarrow>
     \<exists>v. parsed_as obj v \<and> st' = st\<lparr>st_files := put_file (run_file_name (new_run_id (re_uuid env))) (Run_Json (JObj (run_object v))) (st_files st)\<rparr>"
  by (erule create_Created) blast

lemma replacement_files:
  "filter (\<lambda>e. js_ends_with ''.json'' (fst e))
     (put_file (run_file_name ''prr-ab'') (Run_Json x) [(run_file_name ''prr-2'', Run_Json y)])
   = [(run_file_name ''prr-2'', Run_Json y), (run_file_name ''prr-ab'', Run_Json x)]"
  by (simp add: put_file_def run_file_name_def js_ends_with_def)

lemma replaced_live_run_blocks_reading:
  "\<exists>st'. createPackReviewRun run_env_sample (store_of [native_run]) replace_input = Inr (Run_Created (created_object replace_input), st')
     \<and> (\<forall>rs. readRecordsUnlocked run_env_sample st' \<noteq> Inr rs)"
proof -
  from replacement_created obtain st' where
    c: "createPackReviewRun run_env_sample (store_of [native_run]) replace_input = Inr (Run_Created (created_object replace_input), st')" by blast
  have e: "re_cwd run_env_sample = ''/w''" "new_run_id (re_uuid run_env_sample) = ''prr-ab''" by code_simp+
  have v: "parsed_as (created_object replace_input) replacement_run" using replacement_parsed by (simp add: parseRunRecord_iff)
  from created_file [OF c] obtain w where w: "parsed_as (created_object replace_input) w"
    and st': "st' = (store_of [native_run])\<lparr>st_files := put_file (run_file_name ''prr-ab'') (Run_Json (JObj (run_object w))) (st_files (store_of [native_run]))\<rparr>"
    unfolding e by blast
  have w: "w = replacement_run" using parsed_as_unique v w by blast
  have "\<not> readable run_env_sample st' rs" for rs
  proof
    assume "readable run_env_sample st' rs"
    moreover have "filter (\<lambda>e. js_ends_with ''.json'' (fst e)) (st_files st')
        = [(run_file_name ''prr-2'', Run_Json (JObj (run_object native_run))), (run_file_name ''prr-ab'', Run_Json (JObj (run_object replacement_run)))]"
      by (simp add: st' w store_of_def replacement_files)
    ultimately obtain a b where rs: "rs = [a, b]" and "file_of_run (run_file_name ''prr-2'', Run_Json (JObj (run_object native_run))) a"
      "file_of_run (run_file_name ''prr-ab'', Run_Json (JObj (run_object replacement_run))) b"
      and alone: "live_run run_env_sample a \<longrightarrow> live_run run_env_sample b \<longrightarrow> \<not> samePackReviewRunIdentity (re_cwd run_env_sample) a b"
      unfolding readable_iff by (auto simp: list_all2_Cons1)
    then have "a = native_run" "b = replacement_run"
      using sample_parsed_as(2) parsed_reread [OF v] by (auto simp: file_of_run_def dest: parsed_as_unique)
    with alone replacement_live replacement_same_target e show False by simp
  qed
  with c show ?thesis unfolding readable_def by blast
qed

section \<open>The store lock\<close>

definition lock_response :: "run_env \<Rightarrow> nat \<Rightarrow> lock_action" where
  "lock_response env n =
     (case re_probe env n of
        Lock_Held m owner age \<Rightarrow> if lockIsAbandoned (re_kill env) owner age then Lock_Removed else Lock_Waited
      | Lock_Free \<Rightarrow> Lock_Waited)"

lemma acquire_from_eq:
  "acquire_from (re_probe env) (re_kill env) n k =
     (case find (\<lambda>m. re_probe env m = Lock_Free) [n..<n + k] of
        Some m \<Rightarrow> (map (lock_response env) [n..<m], Inr ())
      | None \<Rightarrow> (map (lock_response env) [n..<n + k], Inl ''pack review run store unavailable: store_lock_timeout''))"
proof (induction k arbitrary: n)
  case (Suc k)
  have upt: "[n..<n + Suc k] = n # [Suc n..<Suc n + k]" by (simp add: upt_rec)
  have below: "find (\<lambda>m. re_probe env m = Lock_Free) [Suc n..<Suc n + k] = Some m \<Longrightarrow> Suc n \<le> m" for m
    by (auto simp: find_Some_iff simp del: upt_Suc)
  show ?case
  proof (cases "re_probe env n")
    case Lock_Free
    then show ?thesis unfolding upt by simp
  next
    case (Lock_Held message owner age)
    show ?thesis
    proof (cases "find (\<lambda>m. re_probe env m = Lock_Free) [Suc n..<Suc n + k]")
      case None
      with Suc.IH [of "Suc n"] Lock_Held show ?thesis unfolding upt by (simp add: lock_response_def del: upt_Suc)
    next
      case (Some m)
      with below have "[n..<m] = n # [Suc n..<m]" by (simp add: upt_conv_Cons Suc_le_lessD)
      with Suc.IH [of "Suc n"] Lock_Held Some show ?thesis unfolding upt by (simp add: lock_response_def del: upt_Suc)
    qed
  qed
qed simp

text \<open>
  Taking the store lock ends after at most four hundred attempts: at the first attempt that finds
  the lock free it succeeds, and without one it fails with a timeout. Before that every attempt has
  either removed the lock, which needs a recorded owner that is not alive or an unreadable owner
  file of at least thirty seconds, or waited.
\<close>
lemma store_lock_attempts:
  "acquireStoreLock env =
     (case find (\<lambda>n. re_probe env n = Lock_Free) [0..<400] of
        Some n \<Rightarrow> (map (lock_response env) [0..<n], Inr ())
      | None \<Rightarrow> (map (lock_response env) [0..<400], Inl ''pack review run store unavailable: store_lock_timeout''))"
  unfolding acquireStoreLock_def using acquire_from_eq [of env 0 400] by (simp only: add_0)

end
