(* ===== verification/Comment_Review.thy ===== *)
theory Comment_Review
  imports Run_Update Direct_Review
begin

text \<open>
  The comment review of a run, \<open>scripts/lib/github-review-reconciliation.ts\<close>: it is posted once, found
  again after an ambiguous answer, and then the earlier blocking reviews of the same actor are
  dismissed. The asynchronous function is a tree of requests; between two requests the code runs
  alone, at a request any other process may run. \<open>Date.parse\<close> and \<open>localeCompare\<close> are parameters.
\<close>

section \<open>Reviews in order\<close>

definition numericReviewId :: "json \<Rightarrow> int option" where
  "numericReviewId v =
     (let raw = json_to_string v in if raw \<noteq> [] \<and> list_all is_digit raw then Some (digits_int raw) else None)"

definition reviewIdKey :: "json \<Rightarrow> string" where
  "reviewIdKey v =
     (case numericReviewId v of
        Some n \<Rightarrow> ''numeric:'' @ show_int n
      | None \<Rightarrow> (case v of JStr s \<Rightarrow> ''string:'' | _ \<Rightarrow> ''number:'') @ json_to_string v)"

definition sameReviewId :: "json \<Rightarrow> json \<Rightarrow> bool" where
  "sameReviewId a b \<longleftrightarrow> reviewIdKey a = reviewIdKey b"

definition compareReviewIds :: "(string \<Rightarrow> string \<Rightarrow> int) \<Rightarrow> json \<Rightarrow> json \<Rightarrow> int" where
  "compareReviewIds locale_compare a b =
     (case (numericReviewId a, numericReviewId b) of
        (Some m, Some n) \<Rightarrow> if m < n then -1 else if n < m then 1 else 0
      | (Some m, None) \<Rightarrow> -1
      | (None, Some n) \<Rightarrow> 1
      | (None, None) \<Rightarrow> locale_compare (reviewIdKey a) (reviewIdKey b))"

text \<open>A difference with an unreadable time is \<open>NaN\<close>, which a sort takes for equal.\<close>

definition compareReviewOrder ::
  "(string \<Rightarrow> int option) \<Rightarrow> (string \<Rightarrow> string \<Rightarrow> int) \<Rightarrow> github_review \<Rightarrow> github_review \<Rightarrow> int" where
  "compareReviewOrder date locale_compare left right =
     (case (date (gr_submittedAt left), date (gr_submittedAt right)) of
        (Some a, Some b) \<Rightarrow> if a \<noteq> b then a - b else compareReviewIds locale_compare (gr_id left) (gr_id right)
      | _ \<Rightarrow> 0)"

text \<open>A stable sort.\<close>

fun insert_review :: "('a \<Rightarrow> 'a \<Rightarrow> int) \<Rightarrow> 'a \<Rightarrow> 'a list \<Rightarrow> 'a list" where
  "insert_review cmp x [] = [x]"
| "insert_review cmp x (y # ys) = (if cmp x y \<le> 0 then x # y # ys else y # insert_review cmp x ys)"

definition sort_reviews :: "('a \<Rightarrow> 'a \<Rightarrow> int) \<Rightarrow> 'a list \<Rightarrow> 'a list" where
  "sort_reviews cmp xs = foldr (insert_review cmp) xs []"

definition last_approval :: "github_review list \<Rightarrow> nat" where
  "last_approval eligible =
     (case filter (\<lambda>i. gr_state (eligible ! i) = ''APPROVED'') [0..<length eligible] of [] \<Rightarrow> 0 | i # is \<Rightarrow> Suc (last (i # is)))"

definition selectActiveSameActorBlockingReviewIds ::
  "(github_review \<Rightarrow> github_review \<Rightarrow> int) \<Rightarrow> github_review list \<Rightarrow> string \<Rightarrow> github_review option \<Rightarrow> string + json list" where
  "selectActiveSameActorBlockingReviewIds cmp reviews actorLogin strictlyBefore =
     (let actor = js_lower (js_trim actorLogin);
          ordered = sort_reviews cmp (filter (\<lambda>r. js_lower (gr_userLogin r) = actor) reviews)
      in
      if actor = [] then Inl ''GitHub review reconciliation requires an actor login''
      else
      rbind (case strictlyBefore of
               None \<Rightarrow> Inr (length ordered)
             | Some b \<Rightarrow>
                 if list_ex (\<lambda>r. sameReviewId (gr_id r) (gr_id b)) ordered
                 then Inr (length (takeWhile (\<lambda>r. \<not> sameReviewId (gr_id r) (gr_id b)) ordered))
                 else Inl (''confirmed GitHub COMMENT review '' @ json_to_string (gr_id b) @ '' is absent from actor review order''))
        (\<lambda>boundary.
      let eligible = take boundary ordered
      in Inr (map gr_id (filter (\<lambda>r. gr_state r = ''CHANGES_REQUESTED'') (drop (last_approval eligible) eligible)))))"

definition reconciliationMarker :: "string \<Rightarrow> string" where
  "reconciliationMarker runId = ''Run: `'' @ runId @ ''`''"

definition findUniquePostedComment ::
  "(github_review \<Rightarrow> github_review \<Rightarrow> int) \<Rightarrow> github_review list \<Rightarrow> string \<Rightarrow> run_record \<Rightarrow> string + github_review option" where
  "findUniquePostedComment cmp reviews actorLogin run =
     (case sort_reviews cmp (filter (\<lambda>r. js_lower (gr_userLogin r) = js_lower actorLogin \<and> gr_state r = ''COMMENTED''
             \<and> js_includes (reconciliationMarker (rr_id run)) (gr_body r)) reviews) of
        [] \<Rightarrow> Inr None
      | [candidate] \<Rightarrow>
          if gr_commitId candidate \<noteq> rr_targetSha run
          then Inl (''GitHub COMMENT recovery for '' @ rr_id run @ '' has target commit ''
                 @ single_quoted (if gr_commitId candidate = [] then ''<missing>'' else gr_commitId candidate)
                 @ '', expected '' @ single_quoted (rr_targetSha run))
          else Inr (Some candidate)
      | candidates \<Rightarrow> Inl (''ambiguous GitHub COMMENT recovery found '' @ show_int (int (length candidates))
                          @ '' matching reviews for '' @ rr_id run))"

section \<open>The durable state\<close>

text \<open>The state is the object stored in the run; \<open>text_at\<close> reads a string of it.\<close>

definition reconciliation :: "run_record \<Rightarrow> json option" where
  "reconciliation run = map_of (rr_rest run) ''githubReviewReconciliation''"

definition text_at :: "js_object \<Rightarrow> string \<Rightarrow> string" where
  "text_at state k = string_or [] (map_of state k)"

definition post_outcomes :: "string list" where
  "post_outcomes = [''not_attempted'', ''definitely_rejected'', ''ambiguous'', ''accepted'']"

definition spread_ids :: "json option \<Rightarrow> string + json list" where
  "spread_ids v =
     (case v of
        None \<Rightarrow> Inr [] | Some JNull \<Rightarrow> Inr [] | Some (JArr xs) \<Rightarrow> Inr xs | Some (JStr s) \<Rightarrow> Inr (map (\<lambda>c. JStr [c]) s)
      | _ \<Rightarrow> Inl ''review ids are not iterable'')"

definition normalizedState :: "run_record \<Rightarrow> string + js_object option" where
  "normalizedState run =
     (let raw = reconciliation run; prepared = (js_prop raw ''phase'' = Some (JStr ''prepared''));
          outcome = js_coalesce (js_prop raw ''postOutcome'') (Some (JStr (if prepared then ''ambiguous'' else ''accepted'')));
          accepted = (outcome = Some (JStr ''accepted''))
      in
      if \<not> truthy raw then Inr None
      else
      rbind (guards
        [(js_prop raw ''schemaVersion'' \<noteq> Some (JInt 1) \<or> js_prop raw ''event'' \<noteq> Some (JStr ''COMMENT''),
          ''corrupt GitHub review reconciliation state for '' @ rr_id run),
         (trimPackReviewValue (js_prop raw ''actorLogin'') = [] \<or> trimPackReviewValue (js_prop raw ''commentBody'') = [],
          ''incomplete GitHub review reconciliation state for '' @ rr_id run),
         (outcome \<notin> set (map (\<lambda>s. Some (JStr s)) post_outcomes), ''corrupt GitHub COMMENT POST outcome for '' @ rr_id run),
         (\<not> prepared \<and> \<not> accepted \<or> prepared \<and> accepted, ''inconsistent GitHub COMMENT POST outcome for '' @ rr_id run)]) (\<lambda>_.
      rbind (spread_ids (js_prop raw ''pendingDismissalReviewIds'')) (\<lambda>pending.
      rbind (spread_ids (js_prop raw ''dismissedReviewIds'')) (\<lambda>dismissed.
      Inr (Some (js_spread (case json_object raw of None \<Rightarrow> [] | Some obj \<Rightarrow> obj)
        [(''postOutcome'', outcome), (''pendingDismissalReviewIds'', Some (JArr pending)), (''dismissedReviewIds'', Some (JArr dismissed))]))))))"

definition requireConfirmedCommentReview :: "github_review list \<Rightarrow> js_object \<Rightarrow> run_record \<Rightarrow> string + github_review" where
  "requireConfirmedCommentReview reviews state run =
     (case map_of state ''commentReviewId'' of
        None \<Rightarrow> Inl (''GitHub COMMENT reconciliation has no posted review id for '' @ rr_id run)
      | Some reviewId \<Rightarrow>
          (case filter (\<lambda>r. sameReviewId (gr_id r) reviewId) reviews of
             [review] \<Rightarrow>
               if js_lower (gr_userLogin review) \<noteq> js_lower (text_at state ''actorLogin'') \<or> gr_state review \<noteq> ''COMMENTED''
                  \<or> \<not> js_includes (reconciliationMarker (rr_id run)) (gr_body review) \<or> gr_commitId review \<noteq> rr_targetSha run
               then Inl (''GitHub COMMENT review '' @ json_to_string reviewId @ '' does not match reconciliation '' @ rr_id run)
               else Inr review
           | matches \<Rightarrow> Inl (''GitHub COMMENT review '' @ json_to_string reviewId @ '' lookup returned ''
                            @ show_int (int (length matches)) @ '' matches'')))"

text \<open>Who may claim the post, and who may note that it is still waiting.\<close>

datatype election_kind = Elect_Poster | Elect_Loser

definition election_open :: "election_kind \<Rightarrow> js_object \<Rightarrow> run_record option \<Rightarrow> string + bool" where
  "election_open kind state stored =
     (case stored of
        None \<Rightarrow> Inr False
      | Some run \<Rightarrow>
          rbind (normalizedState run) (\<lambda>prior.
          Inr (case (kind, prior) of
             (Elect_Loser, None) \<Rightarrow> False
           | (Elect_Loser, Some p) \<Rightarrow> js_same (map_of p ''commentBody'') (map_of state ''commentBody'')
               \<and> map_of p ''postOutcome'' \<noteq> Some (JStr ''accepted'') \<and> map_of p ''phase'' \<noteq> Some (JStr ''complete'')
           | (Elect_Poster, None) \<Rightarrow> True
           | (Elect_Poster, Some p) \<Rightarrow> map_of p ''phase'' = Some (JStr ''prepared'')
               \<and> js_same (map_of p ''commentBody'') (map_of state ''commentBody'')
               \<and> js_same (map_of p ''actorLogin'') (map_of state ''actorLogin'')
               \<and> map_of p ''postOutcome'' \<in> {Some (JStr ''not_attempted''), Some (JStr ''definitely_rejected'')})))"

fun uniqueIds_from :: "string list \<Rightarrow> json list \<Rightarrow> json list" where
  "uniqueIds_from seen [] = []"
| "uniqueIds_from seen (v # vs) =
     (if reviewIdKey v \<in> set seen then uniqueIds_from seen vs else v # uniqueIds_from (reviewIdKey v # seen) vs)"

definition uniqueIds :: "json list \<Rightarrow> json list" where
  "uniqueIds vs = uniqueIds_from [] vs"

end
