(* ===== verification/Comment_Io.thy ===== *)
theory Comment_Io
  imports Comment_Review
begin

text \<open>
  The asynchronous reconciliation of a comment review, \<open>reconcileGithubCommentReview\<close> and
  \<open>recoverIncompleteGithubCommentReviewForHead\<close> of \<open>scripts/lib/github-review-reconciliation.ts\<close>, as
  programs: each request of the store, of the clock or of GitHub has the rest of the function as a
  function of its answer. An error of the store ends the function, errors of GitHub are answers.
\<close>

section \<open>Programs\<close>

datatype post_failure = Definitely_Rejected | Ambiguous_Post

fun failure_text :: "post_failure \<Rightarrow> string" where
  "failure_text Definitely_Rejected = ''definitely_rejected''"
| "failure_text Ambiguous_Post = ''ambiguous''"

text \<open>A \<open>GithubReviewPostError\<close> with its outcome, or any other error.\<close>

datatype post_error = Post_Error post_failure string | Plain_Error string

datatype comment_result = Reconciled json string "json list" js_object | Recovered "run_record option"

datatype comment_io =
    Finish comment_result
  | Throw string
  | Clock "string \<Rightarrow> comment_io"
  | Read_Run string "run_record option \<Rightarrow> comment_io"
  | List_Runs "run_record list \<Rightarrow> comment_io"
  | Write_Run string js_patch comment_io
  | End_Run string run_status js_patch "run_record \<Rightarrow> comment_io"
  | Elect string election_kind js_object js_object "bool \<Rightarrow> comment_io"
  | Actor "string + string \<Rightarrow> comment_io"
  | List_Reviews "string + github_review list \<Rightarrow> comment_io"
  | Post_Review string string string "post_error + json \<times> string \<Rightarrow> comment_io"
  | Dismiss json "string option \<Rightarrow> comment_io"

primrec and_then :: "comment_io \<Rightarrow> (comment_result \<Rightarrow> comment_io) \<Rightarrow> comment_io" where
  "and_then (Finish r) f = f r"
| "and_then (Throw e) f = Throw e"
| "and_then (Clock k) f = Clock (\<lambda>t. and_then (k t) f)"
| "and_then (Read_Run i k) f = Read_Run i (\<lambda>r. and_then (k r) f)"
| "and_then (List_Runs k) f = List_Runs (\<lambda>rs. and_then (k rs) f)"
| "and_then (Write_Run i p k) f = Write_Run i p (and_then k f)"
| "and_then (End_Run i s p k) f = End_Run i s p (\<lambda>r. and_then (k r) f)"
| "and_then (Elect i kind state nxt k) f = Elect i kind state nxt (\<lambda>won. and_then (k won) f)"
| "and_then (Actor k) f = Actor (\<lambda>a. and_then (k a) f)"
| "and_then (List_Reviews k) f = List_Reviews (\<lambda>a. and_then (k a) f)"
| "and_then (Post_Review i body commit k) f = Post_Review i body commit (\<lambda>a. and_then (k a) f)"
| "and_then (Dismiss v k) f = Dismiss v (\<lambda>a. and_then (k a) f)"

definition error_text :: "post_error \<Rightarrow> string" where
  "error_text e = (case e of Post_Error outcome message \<Rightarrow> message | Plain_Error message \<Rightarrow> message)"

definition classifyPostError :: "post_error \<Rightarrow> post_failure" where
  "classifyPostError e = (case e of Post_Error outcome message \<Rightarrow> outcome | Plain_Error message \<Rightarrow> Ambiguous_Post)"

section \<open>Writing and reading the state\<close>

definition persistState :: "string \<Rightarrow> js_object \<Rightarrow> (js_object \<Rightarrow> comment_io) \<Rightarrow> comment_io" where
  "persistState runId state k =
     Clock (\<lambda>now. let nxt = js_set state ''updatedAtUtc'' (Some (JStr now))
       in Write_Run runId [(''githubReviewReconciliation'', Some (JObj nxt))] (k nxt))"

definition electState :: "string \<Rightarrow> election_kind \<Rightarrow> js_object \<Rightarrow> (js_object option \<Rightarrow> comment_io) \<Rightarrow> comment_io" where
  "electState runId kind state k =
     Clock (\<lambda>now. let nxt = js_set state ''updatedAtUtc'' (Some (JStr now))
       in Elect runId kind state nxt (\<lambda>won. k (if won then Some nxt else None)))"

definition read_state :: "run_record \<Rightarrow> (js_object option \<Rightarrow> comment_io) \<Rightarrow> comment_io" where
  "read_state current k =
     Read_Run (rr_id current) (\<lambda>found.
       case normalizedState (case found of None \<Rightarrow> current | Some r \<Rightarrow> r) of Inl e \<Rightarrow> Throw e | Inr state \<Rightarrow> k state)"

definition ids_at :: "js_object \<Rightarrow> string \<Rightarrow> json list" where
  "ids_at state k = json_array (map_of state k)"

definition reconciled :: "json \<Rightarrow> string \<Rightarrow> js_object \<Rightarrow> comment_result" where
  "reconciled reviewId url state = Reconciled reviewId url (ids_at state ''dismissedReviewIds'') state"

text \<open>A state whose post is accepted ends the call with it.\<close>

definition accepted_result :: "js_object \<Rightarrow> comment_result option" where
  "accepted_result state =
     (case (map_of state ''postOutcome'', map_of state ''commentReviewId'') of
        (Some (JStr outcome), Some reviewId) \<Rightarrow>
          if outcome = ''accepted'' then Some (reconciled reviewId (trimPackReviewValue (map_of state ''commentReviewUrl'')) state) else None
      | _ \<Rightarrow> None)"

section \<open>The dismissals\<close>

fun dismiss_all :: "string \<Rightarrow> js_object \<Rightarrow> json list \<Rightarrow> (js_object \<Rightarrow> comment_io) \<Rightarrow> comment_io" where
  "dismiss_all runId state [] k = k state"
| "dismiss_all runId state (v # vs) k =
     Dismiss v (\<lambda>failed. case failed of
        Some message \<Rightarrow> persistState runId (js_set state ''lastError'' (Some (JStr message))) (\<lambda>_. Throw message)
      | None \<Rightarrow> persistState runId
          (js_spread state
            [(''dismissedReviewIds'', Some (JArr (uniqueIds (ids_at state ''dismissedReviewIds'' @ [v])))),
             (''pendingDismissalReviewIds'', Some (JArr (filter (\<lambda>u. reviewIdKey u \<noteq> reviewIdKey v) (ids_at state ''pendingDismissalReviewIds'')))),
             (''lastError'', None)])
          (\<lambda>state. dismiss_all runId state vs k))"

definition pending_ids :: "js_object \<Rightarrow> json list \<Rightarrow> json list" where
  "pending_ids state active =
     filter (\<lambda>v. reviewIdKey v \<notin> set (map reviewIdKey (ids_at state ''dismissedReviewIds''))) active"

definition conclude :: "(github_review \<Rightarrow> github_review \<Rightarrow> int) \<Rightarrow> run_record \<Rightarrow> js_object \<Rightarrow> comment_io" where
  "conclude cmp current state =
     (case map_of state ''commentReviewId'' of
        None \<Rightarrow> Throw (''GitHub COMMENT reconciliation has no posted review id for '' @ rr_id current)
      | Some reviewId \<Rightarrow>
          let finished = (\<lambda>state. Finish (reconciled reviewId (trimPackReviewValue (map_of state ''commentReviewUrl'')) state))
          in if text_at state ''phase'' \<notin> {''comment_posted'', ''dismissals_pending''} then finished state
             else List_Reviews (\<lambda>answer.
               case rbind answer (\<lambda>reviews. rbind (requireConfirmedCommentReview reviews state current) (\<lambda>confirmed.
                      selectActiveSameActorBlockingReviewIds cmp reviews (text_at state ''actorLogin'') (Some confirmed))) of
                 Inl e \<Rightarrow> Throw e
               | Inr active \<Rightarrow>
                   persistState (rr_id current)
                     (js_spread state [(''phase'', Some (JStr ''dismissals_pending'')),
                        (''pendingDismissalReviewIds'', Some (JArr (pending_ids state active))), (''lastError'', None)]) (\<lambda>state.
                   dismiss_all (rr_id current) state (ids_at state ''pendingDismissalReviewIds'') (\<lambda>state.
                   persistState (rr_id current)
                     (js_spread state [(''phase'', Some (JStr ''complete'')), (''pendingDismissalReviewIds'', Some (JArr [])),
                        (''lastError'', None)]) finished))))"

section \<open>The post\<close>

definition record_posted :: "(github_review \<Rightarrow> github_review \<Rightarrow> int) \<Rightarrow> run_record \<Rightarrow> js_object \<Rightarrow> json \<times> string \<Rightarrow> comment_io" where
  "record_posted cmp current state posted =
     persistState (rr_id current)
       (js_spread state [(''phase'', Some (JStr ''comment_posted'')), (''postOutcome'', Some (JStr ''accepted'')),
          (''commentReviewId'', Some (fst posted)), (''commentReviewUrl'', Some (JStr (snd posted))), (''lastError'', None)])
       (conclude cmp current)"

text \<open>The comment is not visible yet: unless the poster has finished meanwhile, that is noted and thrown.\<close>

definition keep_waiting :: "run_record \<Rightarrow> js_object \<Rightarrow> string \<Rightarrow> comment_io" where
  "keep_waiting current state message =
     electState (rr_id current) Elect_Loser (js_set state ''lastError'' (Some (JStr message))) (\<lambda>recorded.
       case recorded of
         Some _ \<Rightarrow> Throw message
       | None \<Rightarrow> read_state current (\<lambda>latest.
           case Option.bind latest accepted_result of Some r \<Rightarrow> Finish r | None \<Rightarrow> Throw message))"

definition changed_error :: "run_record \<Rightarrow> string" where
  "changed_error current = ''GitHub review reconciliation changed for '' @ rr_id current @ ''; observe the original run''"

text \<open>The caller that did not win the post looks for the comment of the one that did.\<close>

definition observe_comment ::
  "(github_review \<Rightarrow> github_review \<Rightarrow> int) \<Rightarrow> run_record \<Rightarrow> string \<Rightarrow> bool \<Rightarrow> js_object \<Rightarrow> comment_io" where
  "observe_comment cmp current body lostElection state0 =
     List_Reviews (\<lambda>answer. read_state current (\<lambda>latest.
       let state = (case latest of None \<Rightarrow> state0 | Some s \<Rightarrow> s) in
       if map_of state ''commentBody'' \<noteq> Some (JStr body)
       then Throw (changed_error current)
       else (case accepted_result state of
         Some r \<Rightarrow> Finish r
       | None \<Rightarrow>
           (case answer of
              Inl e \<Rightarrow> keep_waiting current state (''ambiguous POST recovery lookup failed: '' @ e @ ''; observe the original run '' @ rr_id current
                               @ '' and retry readback'')
            | Inr reviews \<Rightarrow>
                (case findUniquePostedComment cmp reviews (text_at state ''actorLogin'') current of
                   Inl e \<Rightarrow> Throw e
                 | Inr None \<Rightarrow> keep_waiting current state (''GitHub COMMENT POST outcome remains ambiguous for '' @ rr_id current
                       @ ''; accepted review is not yet observable; observe the original run and retry readback without reposting'')
                 | Inr (Some observed) \<Rightarrow>
                     if lostElection then Finish (reconciled (gr_id observed) (gr_url observed) state)
                     else record_posted cmp current state (gr_id observed, gr_url observed))))))"

definition post_comment :: "(github_review \<Rightarrow> github_review \<Rightarrow> int) \<Rightarrow> run_record \<Rightarrow> js_object \<Rightarrow> comment_io" where
  "post_comment cmp current state0 =
     Post_Review (rr_id current) (text_at state0 ''commentBody'') (rr_targetSha current) (\<lambda>answer.
       case answer of
         Inr posted \<Rightarrow> record_posted cmp current state0 posted
       | Inl postError \<Rightarrow>
           persistState (rr_id current)
             (js_spread state0 [(''postOutcome'', Some (JStr (failure_text (classifyPostError postError)))), (''lastError'', Some (JStr (error_text postError)))])
             (\<lambda>state.
           if classifyPostError postError = Definitely_Rejected then Throw (error_text postError)
           else
             let failed = (\<lambda>detail thrown. persistState (rr_id current)
                   (js_set state ''lastError'' (Some (JStr (error_text postError @ ''; '' @ detail)))) (\<lambda>_. Throw thrown)) in
             List_Reviews (\<lambda>found.
               case found of
                 Inl e \<Rightarrow> failed (''recovery lookup failed: '' @ e) (error_text postError)
               | Inr reviews \<Rightarrow>
                   (case findUniquePostedComment cmp reviews (text_at state ''actorLogin'') current of
                      Inl e \<Rightarrow> failed e e
                    | Inr None \<Rightarrow> Throw (error_text postError)
                    | Inr (Some observed) \<Rightarrow> record_posted cmp current state (gr_id observed, gr_url observed)))))"

text \<open>The caller that lost the election goes on from the state of the one that won it.\<close>

definition lost_post :: "(github_review \<Rightarrow> github_review \<Rightarrow> int) \<Rightarrow> run_record \<Rightarrow> string \<Rightarrow> comment_io" where
  "lost_post cmp current body =
     read_state current (\<lambda>latest.
       case latest of
         None \<Rightarrow> Throw (changed_error current)
       | Some state \<Rightarrow>
           if map_of state ''commentBody'' \<noteq> Some (JStr body) then Throw (changed_error current)
           else (case accepted_result state of
             Some r \<Rightarrow> Finish r
           | None \<Rightarrow> if text_at state ''phase'' = ''prepared'' then observe_comment cmp current body True state
                     else conclude cmp current state))"

definition claim_post :: "(github_review \<Rightarrow> github_review \<Rightarrow> int) \<Rightarrow> run_record \<Rightarrow> string \<Rightarrow> js_object \<Rightarrow> comment_io" where
  "claim_post cmp current body state =
     Clock (\<lambda>attempted. electState (rr_id current) Elect_Poster
       (js_spread state [(''postOutcome'', Some (JStr ''ambiguous'')), (''postAttemptedAtUtc'', Some (JStr attempted)), (''lastError'', None)])
       (\<lambda>claimed. case claimed of
          Some won \<Rightarrow> if map_of won ''commentBody'' \<noteq> Some (JStr body) then Throw (changed_error current) else post_comment cmp current won
        | None \<Rightarrow> lost_post cmp current body))"

definition post_phase :: "(github_review \<Rightarrow> github_review \<Rightarrow> int) \<Rightarrow> run_record \<Rightarrow> string \<Rightarrow> js_object \<Rightarrow> comment_io" where
  "post_phase cmp current body state =
     (if text_at state ''phase'' \<noteq> ''prepared'' then conclude cmp current state
      else if text_at state ''postOutcome'' = ''ambiguous'' then observe_comment cmp current body False state
      else claim_post cmp current body state)"

definition prepared_state :: "string \<Rightarrow> string \<Rightarrow> string \<Rightarrow> js_object" where
  "prepared_state actorLogin body now =
     [(''schemaVersion'', JInt 1), (''event'', JStr ''COMMENT''), (''phase'', JStr ''prepared''), (''actorLogin'', JStr actorLogin),
      (''commentBody'', JStr body), (''postOutcome'', JStr ''not_attempted''), (''pendingDismissalReviewIds'', JArr []),
      (''dismissedReviewIds'', JArr []), (''preparedAtUtc'', JStr now), (''updatedAtUtc'', JStr now)]"

definition reconcileGithubCommentReview :: "(github_review \<Rightarrow> github_review \<Rightarrow> int) \<Rightarrow> run_record \<Rightarrow> string \<Rightarrow> comment_io" where
  "reconcileGithubCommentReview cmp run body =
     Read_Run (rr_id run) (\<lambda>found.
       let current = (case found of None \<Rightarrow> run | Some r \<Rightarrow> r) in
       case normalizedState current of
         Inl e \<Rightarrow> Throw e
       | Inr (Some state) \<Rightarrow>
           if map_of state ''commentBody'' \<noteq> Some (JStr body)
           then Throw (''GitHub review reconciliation body changed for '' @ rr_id current)
           else post_phase cmp current body state
       | Inr None \<Rightarrow> Actor (\<lambda>answer.
           case answer of
             Inl e \<Rightarrow> Throw e
           | Inr login \<Rightarrow>
               if js_trim login = [] then Throw ''GitHub authenticated actor lookup returned no login''
               else Clock (\<lambda>now. post_phase cmp current body (prepared_state (js_trim login) body now))))"

section \<open>Recovery\<close>

definition recovered_status :: "run_record \<Rightarrow> run_status" where
  "recovered_status run =
     (let blocking = (if rr_findings run \<noteq> [] then list_ex blocking_finding (rr_findings run) else rr_verdict run = Some Verdict_Findings)
      in if rr_status run \<in> {Up_To_Date, Commented, Changes_Requested} then rr_status run
         else if blocking then Changes_Requested
         else if rr_verdict run = Some Verdict_Clean \<and> rr_findings run = [] then Up_To_Date else Commented)"

definition incomplete_candidate :: "int \<Rightarrow> string \<Rightarrow> run_record \<Rightarrow> bool" where
  "incomplete_candidate prNumber headSha run \<longleftrightarrow>
     rr_prNumber run = prNumber \<and> rr_targetSha run = headSha \<and> truthy (reconciliation run)
     \<and> (js_prop (reconciliation run) ''phase'' \<noteq> Some (JStr ''complete'') \<or> map_of (rr_rest run) ''githubReviewId'' = None)"

definition recoverIncompleteGithubCommentReviewForHead ::
  "(github_review \<Rightarrow> github_review \<Rightarrow> int) \<Rightarrow> int \<Rightarrow> string \<Rightarrow> comment_io" where
  "recoverIncompleteGithubCommentReviewForHead cmp prNumber headSha =
     List_Runs (\<lambda>runs.
       case filter (incomplete_candidate prNumber headSha) runs of
         [] \<Rightarrow> Finish (Recovered None)
       | [run] \<Rightarrow>
           (case normalizedState run of
              Inl e \<Rightarrow> Throw e
            | Inr None \<Rightarrow> Finish (Recovered None)
            | Inr (Some state) \<Rightarrow>
                and_then (reconcileGithubCommentReview cmp run (text_at state ''commentBody'')) (\<lambda>result.
                case result of
                  Recovered r \<Rightarrow> Finish result
                | Reconciled reviewId url dismissed reconciled_state \<Rightarrow>
                    Clock (\<lambda>now. End_Run (rr_id run) (recovered_status run)
                      [(''exitCode'', Some (JInt 0)), (''githubReviewId'', Some reviewId), (''githubReviewUrl'', Some (JStr url)),
                       (''githubReviewEvent'', Some (JStr ''COMMENT'')), (''githubReviewReconciliation'', Some (JObj reconciled_state)),
                       (''deliveryOutcomes'', Some (JObj (js_set (rr_delivery run) ''githubComment''
                          (Some (JObj [(''state'', JStr ''succeeded''), (''recordedAtUtc'', JStr now), (''reason'', JStr ''comment_recovered''),
                             (''idempotencyKey'', JStr (''github-comment:'' @ rr_id run @ '':'' @ rr_targetSha run))])))))]
                      (\<lambda>r. Finish (Recovered (Some r))))))
       | _ \<Rightarrow> Throw (''ambiguous incomplete GitHub COMMENT reconciliations for PR #'' @ show_int prNumber @ '' head '' @ headSha))"

end
