(* ===== verification/Comment_Machine.thy ===== *)
theory Comment_Machine
  imports Comment_Io Run_Machine
begin

text \<open>
  Any number of callers of the reconciliation, run by run, over one store: at each request of a
  caller the others may proceed, and so may every other operation of the run store that leaves the
  state of the reconciliation alone. A call may end at any request, by an error or because its
  process dies. The answers of GitHub are arbitrary.
\<close>

section \<open>The store under the state\<close>

definition elect_run ::
  "run_env \<Rightarrow> run_store \<Rightarrow> string \<Rightarrow> election_kind \<Rightarrow> js_object \<Rightarrow> js_object \<Rightarrow> run_error + bool \<times> run_store" where
  "elect_run env st runId kind state nxt =
     (let open = (\<lambda>records. election_open kind state (List.find (\<lambda>r. rr_id r = runId) records)) in
      rbind (withStoreLock env (rbind (readRecordsUnlocked env st) open)) (\<lambda>_.
      map_sum id (\<lambda>(r, st'). (r \<noteq> None, st'))
        (updatePackReviewRunIf env st runId (\<lambda>records. open records = Inr True)
          (\<lambda>_. [(''githubReviewReconciliation'', Some (JObj nxt))]))))"

definition recorded :: "run_store \<Rightarrow> string \<Rightarrow> json option" where
  "recorded st i = (case existing_run st i of Inl e \<Rightarrow> None | Inr r \<Rightarrow> reconciliation r)"

lemma reconciliation_key: "''githubReviewReconciliation'' \<notin> set run_keys"
  by (simp add: run_keys_def)

lemma recorded_at: "run_at st i r \<Longrightarrow> recorded st i = reconciliation r"
  by (simp add: recorded_def existing_run_Inr [symmetric])

lemma recorded_none: "(\<And>r. \<not> run_at st i r) \<Longrightarrow> recorded st i = None"
  by (cases "existing_run st i") (simp_all add: recorded_def existing_run_Inr)

lemma recorded_cong: "(\<And>r. run_at st' i r \<longleftrightarrow> run_at st i r) \<Longrightarrow> recorded st' i = recorded st i"
  by (cases "\<exists>r. run_at st i r") (auto simp: recorded_at recorded_none)

lemma parsed_reconciliation: "parsed_as raw r \<Longrightarrow> reconciliation r = map_of raw ''githubReviewReconciliation''"
  using reconciliation_key by (simp add: reconciliation_def parsed_as_def map_of_without_keys)

lemma object_reconciliation: "map_of (run_object r) ''githubReviewReconciliation'' = reconciliation r"
  using arg_cong [OF run_object_rest [of r], of "\<lambda>obj. map_of obj ''githubReviewReconciliation''"] reconciliation_key
  by (simp add: reconciliation_def map_of_without_keys)

lemma build_reconciliation:
  assumes "buildUpdatedPackReviewRun env st r p path = Inr q"
  shows "reconciliation q = (case map_of p ''githubReviewReconciliation'' of None \<Rightarrow> reconciliation r | Some v \<Rightarrow> v)"
proof -
  from assms obtain c rd where "parsed_as (js_set (update_candidate env r p c) ''reviewRound'' rd) q" by (auto elim!: build_Inr)
  from parsed_reconciliation [OF this] show ?thesis
    by (simp add: candidate_defs object_reconciliation cong: option.case_cong)
qed

lemma locked_recorded:
  assumes "update_locked env st j f = Inr (q, st')" "files_named st"
  shows "\<exists>r. run_at st j r \<and> recorded st' i =
    (if i = j then (case map_of (f r) ''githubReviewReconciliation'' of None \<Rightarrow> recorded st i | Some v \<Rightarrow> v) else recorded st i)"
proof -
  from assms(1) obtain r raw path where r: "run_at st j r" and b: "buildUpdatedPackReviewRun env st r (f r) path = Inr q"
    and p: "parsed_as raw q" and id: "rr_id q = rr_id r"
    and st': "st' = st\<lparr>st_files := put_file (run_file_name (rr_id r)) (Run_Json (JObj (run_object q))) (st_files st)\<rparr>"
    by (rule update_locked_Inr)
  have j: "rr_id r = j" using assms(2) r by (simp add: files_named_def)
  note at = run_at_put [OF p st' [unfolded j]]
  show ?thesis
  proof (intro exI conjI)
    show "recorded st' i = (if i = j then (case map_of (f r) ''githubReviewReconciliation'' of None \<Rightarrow> recorded st i | Some v \<Rightarrow> v) else recorded st i)"
    proof (cases "i = j")
      case True
      have "run_id_ok j" using r by (simp add: run_at_def)
      then have "run_at st' j q" using at [of j q] by simp
      then show ?thesis unfolding True recorded_at [OF r] by (simp add: recorded_at build_reconciliation [OF b])
    next
      case False
      then have "recorded st' i = recorded st i" by (intro recorded_cong) (simp add: at)
      with False show ?thesis by simp
    qed
  qed (rule r)
qed

lemma update_recorded:
  assumes "updatePackReviewRun env st j p = Inr (q, st')" "files_named st"
  shows "recorded st' i = (if i = j then (case map_of p ''githubReviewReconciliation'' of None \<Rightarrow> recorded st i | Some v \<Rightarrow> v) else recorded st i)"
    and "run_at st' j q"
proof -
  have l: "update_locked env st j (\<lambda>_. p) = Inr (q, st')" using assms(1) by (simp add: updatePackReviewRun_def withStoreLock_Inr)
  from locked_recorded [OF this assms(2)]
  show "recorded st' i = (if i = j then (case map_of p ''githubReviewReconciliation'' of None \<Rightarrow> recorded st i | Some v \<Rightarrow> v) else recorded st i)"
    by blast
  from l obtain r raw where r: "run_at st j r" and p: "parsed_as raw q"
    and st': "st' = st\<lparr>st_files := put_file (run_file_name (rr_id r)) (Run_Json (JObj (run_object q))) (st_files st)\<rparr>"
    by (rule update_locked_Inr)
  have "rr_id r = j" using assms(2) r by (simp add: files_named_def)
  moreover have "run_id_ok j" using r by (simp add: run_at_def)
  ultimately show "run_at st' j q" using run_at_put [OF p st', of j q] by simp
qed

lemma terminal_recorded:
  assumes "setPackReviewRunTerminal env st j s p = Inr (q, st')" "files_named st"
  shows "recorded st' i = (if i = j then (case map_of p ''githubReviewReconciliation'' of None \<Rightarrow> recorded st i | Some v \<Rightarrow> v) else recorded st i)"
proof -
  have "updatePackReviewRun env st j (terminal_patch env s p) = Inr (q, st')"
    using assms(1) by (auto simp: setPackReviewRunTerminal_def split: if_splits)
  moreover have "map_of (terminal_patch env s p) ''githubReviewReconciliation'' = map_of p ''githubReviewReconciliation''"
    by (simp add: terminal_patch_def)
  ultimately show ?thesis using update_recorded(1) assms(2) by fastforce
qed

lemma update_if_recorded:
  assumes "updatePackReviewRunIf env st j f g = Inr (r, st')" "files_named st"
  shows "r = None \<and> st' = st \<or> (\<exists>x rs. run_at st j x \<and> r \<noteq> None \<and> readRecordsUnlocked env st = Inr rs \<and> f rs \<and> recorded st' i =
    (if i = j then (case map_of (g x) ''githubReviewReconciliation'' of None \<Rightarrow> recorded st i | Some v \<Rightarrow> v) else recorded st i))"
proof -
  from assms(1) obtain rs where rs: "readRecordsUnlocked env st = Inr rs"
    and body: "(if \<not> f rs then Inr (None, st) else map_sum id (\<lambda>(r, st'). (Some r, st')) (update_locked env st j g)) = Inr (r, st')"
    unfolding updatePackReviewRunIf_def withStoreLock_Inr rbind_Inr by blast
  show ?thesis
  proof (cases "f rs")
    case False
    with body show ?thesis by simp
  next
    case True
    with body obtain q where l: "update_locked env st j g = Inr (q, st')" and q: "r = Some q" by (auto simp: map_sum_Inr)
    from locked_recorded [OF l assms(2)] rs True q show ?thesis by blast
  qed
qed

text \<open>An election is won only when it is open for the stored run, and then the new state is stored.\<close>

lemma elect_recorded:
  assumes "elect_run env st j kind state nxt = Inr (won, st')" "files_named st"
  shows "if won then recorded st' i = (if i = j then Some (JObj nxt) else recorded st i)
      \<and> (\<exists>r. run_at st j r \<and> election_open kind state (Some r) = Inr True)
    else st' = st"
proof -
  let ?open = "\<lambda>records. election_open kind state (List.find (\<lambda>r. rr_id r = j) records)"
  from assms(1) obtain r where u: "updatePackReviewRunIf env st j (\<lambda>records. ?open records = Inr True)
      (\<lambda>_. [(''githubReviewReconciliation'', Some (JObj nxt))]) = Inr (r, st')" and won: "won = (r \<noteq> None)"
    by (auto simp: elect_run_def Let_def rbind_Inr map_sum_Inr)
  from update_if_recorded [OF u assms(2), of i] show ?thesis
  proof (elim disjE exE conjE)
    fix x rs assume x: "run_at st j x" and rs: "readRecordsUnlocked env st = Inr rs" "?open rs = Inr True" and "r \<noteq> None"
      and rec: "recorded st' i = (if i = j then (case map_of [(''githubReviewReconciliation'', Some (JObj nxt))] ''githubReviewReconciliation'' of
          None \<Rightarrow> recorded st i | Some v \<Rightarrow> v) else recorded st i)"
    have some: "List.find (\<lambda>r. rr_id r = j) rs \<noteq> None" 
    proof
      assume "List.find (\<lambda>r. rr_id r = j) rs = None"
      with rs(2) show False by (simp add: election_open_def)
    qed
    then obtain y where y: "List.find (\<lambda>r. rr_id r = j) rs = Some y" by blast
    then have "y \<in> set rs" "rr_id y = j" by (auto simp: find_Some_iff)
    moreover have "x \<in> set rs" "rr_id x = j" using readable_run_at [of env st rs j x] x rs(1) by (auto simp: readable_def)
    moreover have "distinct (map rr_id rs)" using rs(1) readable_iff by (auto simp: readable_def)
    ultimately have "y = x" by (metis distinct_map inj_onD)
    with y rs(2) x rec won \<open>r \<noteq> None\<close> show ?thesis by auto
  qed (use won in simp)
qed

section \<open>Operations that leave the state alone\<close>

definition leaves_state :: "js_patch \<Rightarrow> bool" where
  "leaves_state p \<longleftrightarrow> map_of p ''githubReviewReconciliation'' = None"

fun quiet_call :: "run_call \<Rightarrow> bool" where
  "quiet_call (Call_Update runId changes) = leaves_state changes"
| "quiet_call (Call_Update_If runId predicate changes) = (\<forall>r. leaves_state (changes r))"
| "quiet_call (Call_Terminal runId status changes) = leaves_state changes"
| "quiet_call _ = True"

lemma created_recorded:
  assumes "createPackReviewRun env st input = Inr (outcome, st')"
  shows "recorded st' i = recorded st i"
proof (cases outcome)
  case (Run_Reused reason r)
  with assms show ?thesis by (auto dest: create_reused)
next
  case (Run_Created obj)
  show ?thesis
  proof (rule create_Created [OF assms [unfolded Run_Created]])
    fix rs bindings repository d sha v
    let ?id = "new_run_id (re_uuid env)"
    assume obj: "obj = new_run_object env input d (trim_or ''orchestrator-pack'' (ci_projectId input)) sha repository
         (next_order (List.map_filter rr_sameKeyOrder
          (filter (matches_target env input (trim_or ''orchestrator-pack'' (ci_projectId input)) sha repository)
             (map (bind_repository (re_cwd env) bindings) rs))))"
      and v: "parsed_as obj v" and new: "map_of (st_files st) (run_file_name ?id) = None" and ok: "run_id_ok ?id"
      and st': "st' = st\<lparr>st_files := put_file (run_file_name ?id) (Run_Json (JObj (run_object v))) (st_files st)\<rparr>"
    note at = run_at_put [OF v st']
    show ?thesis
    proof (cases "i = ?id")
      case True
      have "reconciliation v = None"
        using parsed_reconciliation [OF v] by (simp add: obj new_run_object_def map_of_js_spread)
      moreover have "run_at st' ?id v" using at ok by simp
      moreover have "\<not> run_at st ?id r" for r using new by (simp add: run_at_def)
      ultimately show ?thesis using True by (simp add: recorded_at recorded_none)
    next
      case False
      then show ?thesis by (intro recorded_cong) (simp add: at)
    qed
  qed
qed

lemma stale_recorded:
  assumes "files_named st"
  shows "recorded (snd (fail_stale_run env st j recovered)) i = recorded st i"
proof -
  have "map_of (stale_patch recovered) ''githubReviewReconciliation'' = None" by (auto simp: stale_patch_def split: option.splits)
  with terminal_recorded [OF _ assms] show ?thesis by (auto simp: fail_stale_run_def split: sum.splits)
qed

lemma terminalize_recorded:
  assumes "files_named st"
  shows "recorded (snd (terminalizePackReviewStaleRun env st j)) i = recorded st i"
proof -
  have round: "recorded st' i = recorded st i \<and> files_named st'"
    if "updatePackReviewRun env st j [(''reviewRound'', x)] = Inr (q, st')" for x q st'
    using update_recorded(1) [OF that assms, of i] updatePackReviewRun_evolves [OF that assms] evolves_named by auto
  show ?thesis
    by (auto simp: terminalizePackReviewStaleRun_def assms stale_recorded round split: sum.splits option.splits)
qed

lemma quiet_recorded:
  assumes "files_named st" "quiet_call c"
  shows "recorded (call_after env c st) i = recorded st i"
proof (cases c)
  case (Call_Create input)
  then show ?thesis by (auto simp: store_after_def created_recorded split: sum.splits)
next
  case (Call_Update j p)
  with assms update_recorded(1) show ?thesis by (auto simp: store_after_def leaves_state_def split: sum.splits)
next
  case (Call_Update_If j f g)
  show ?thesis
  proof (cases "updatePackReviewRunIf env st j f g")
    case (Inr x)
    then obtain r st' where u: "updatePackReviewRunIf env st j f g = Inr (r, st')" by (cases x) simp
    from update_if_recorded [OF u assms(1), of i] assms(2) have "recorded st' i = recorded st i"
      by (auto simp: Call_Update_If leaves_state_def)
    with u show ?thesis by (simp add: Call_Update_If store_after_def)
  qed (simp add: Call_Update_If store_after_def)
next
  case (Call_Heartbeat j)
  with assms update_recorded(1) show ?thesis
    by (auto simp: store_after_def heartbeatPackReviewRun_def split: sum.splits)
next
  case (Call_Terminal j s p)
  with assms terminal_recorded show ?thesis by (auto simp: store_after_def leaves_state_def split: sum.splits)
next
  case (Call_Terminalize_Stale j)
  with assms show ?thesis by (simp add: terminalize_recorded)
next
  case (Authority_Changes a)
  have "existing_run (st\<lparr>st_authority := a\<rparr>) i = existing_run st i"
    by (simp add: existing_run_def read_run_def)
  with Authority_Changes show ?thesis by (simp add: recorded_def)
qed

end
