(* ===== verification/Comment_Calls.thy ===== *)
theory Comment_Calls
  imports Comment_Machine "HOL-Library.Multiset"
begin

text \<open>
  The interleaved calls of the reconciliation and what each of them may still do: while no post of a
  run has been definitely rejected, every state written for it says that a post was attempted, and a
  post follows only the election its caller has won.
\<close>

section \<open>Interleavings\<close>

record comment_world =
  cw_store :: run_store
  cw_posts :: "string list"
  cw_rejected :: "string list"
  cw_calls :: "comment_io list"

text \<open>A request of the store, the clock or GitHub answered, posts excepted.\<close>

inductive answered :: "run_store \<Rightarrow> comment_io \<Rightarrow> run_store \<Rightarrow> comment_io \<Rightarrow> bool" where
  answered_clock: "answered st (Clock k) st (k t)"
| answered_read: "getPackReviewRun env st i = Inr r \<Longrightarrow> answered st (Read_Run i k) st (k r)"
| answered_list: "\<lbrakk>withStoreLock env (readRecordsUnlocked env st) = Inr rs;
      mset rows = mset (map (\<lambda>r. consumerRow env r (now_ms env)) (filter (of_project p) rs))\<rbrakk> \<Longrightarrow> answered st (List_Runs k) st (k rows)"
| answered_write: "updatePackReviewRun env st i p = Inr (q, st') \<Longrightarrow> answered st (Write_Run i p k) st' k"
| answered_end: "setPackReviewRunTerminal env st i s p = Inr (q, st') \<Longrightarrow> answered st (End_Run i s p k) st' (k q)"
| answered_elect: "elect_run env st i kind state nxt = Inr (won, st') \<Longrightarrow> answered st (Elect i kind state nxt k) st' (k won)"
| answered_actor: "answered st (Actor k) st (k a)"
| answered_reviews: "answered st (List_Reviews k) st (k answer)"
| answered_dismissal: "answered st (Dismiss v k) st (k answer')"
| answered_stop: "answered st p st (Throw e)"

definition rejects :: "post_error + json \<times> string \<Rightarrow> bool" where
  "rejects answer \<longleftrightarrow> (case answer of Inl e \<Rightarrow> classifyPostError e = Definitely_Rejected | Inr posted \<Rightarrow> False)"

inductive comment_step :: "comment_world \<Rightarrow> comment_world \<Rightarrow> bool" where
  step_reconcile: "run_at (cw_store w) (rr_id run) run \<Longrightarrow>
     comment_step w (w\<lparr>cw_calls := cw_calls w @ [reconcileGithubCommentReview cmp run body]\<rparr>)"
| step_recover: "comment_step w (w\<lparr>cw_calls := cw_calls w @ [recoverIncompleteGithubCommentReviewForHead cmp prNumber headSha]\<rparr>)"
| step_other: "quiet_call c \<Longrightarrow> comment_step w (w\<lparr>cw_store := call_after env c (cw_store w)\<rparr>)"
| step_answer: "\<lbrakk>n < length (cw_calls w); answered (cw_store w) (cw_calls w ! n) st' p\<rbrakk> \<Longrightarrow>
     comment_step w (w\<lparr>cw_store := st', cw_calls := (cw_calls w)[n := p]\<rparr>)"
| step_post: "\<lbrakk>n < length (cw_calls w); cw_calls w ! n = Post_Review i body commit k\<rbrakk> \<Longrightarrow>
     comment_step w (w\<lparr>cw_posts := i # cw_posts w, cw_rejected := (if rejects answer then i # cw_rejected w else cw_rejected w),
                       cw_calls := (cw_calls w)[n := k answer]\<rparr>)"

definition start_world :: "run_store \<Rightarrow> comment_world" where
  "start_world st = \<lparr>cw_store = st, cw_posts = [], cw_rejected = [], cw_calls = []\<rparr>"

section \<open>States of an attempted post\<close>

definition attempted :: "json option \<Rightarrow> bool" where
  "attempted v \<longleftrightarrow> (\<exists>state. v = Some (JObj state) \<and> map_of state ''postOutcome'' \<in> {Some (JStr ''ambiguous''), Some (JStr ''accepted'')})"

lemma attempted_JObj [simp]: "attempted (Some (JObj state)) \<longleftrightarrow>
    map_of state ''postOutcome'' = Some (JStr ''ambiguous'') \<or> map_of state ''postOutcome'' = Some (JStr ''accepted'')"
  by (auto simp: attempted_def)

definition fine :: "json option \<Rightarrow> bool" where
  "fine v \<longleftrightarrow> v = None \<or> attempted v"

lemma normalized_attempted:
  assumes "normalizedState r = Inr (Some state)" "fine (reconciliation r)"
  shows "attempted (Some (JObj state))"
  using assms
  by (auto simp: normalizedState_def fine_def attempted_def rbind_Inr Let_def truthy_def js_prop_def js_coalesce_def nullish_def
      json_object_def map_of_js_spread split: if_splits)

lemma normalized_closed:
  assumes "attempted (reconciliation r)"
  shows "election_open Elect_Poster state (Some r) \<noteq> Inr True"
proof
  assume "election_open Elect_Poster state (Some r) = Inr True"
  then obtain prior where p: "normalizedState r = Inr prior"
    "case prior of None \<Rightarrow> True | Some p \<Rightarrow> map_of p ''postOutcome'' \<in> {Some (JStr ''not_attempted''), Some (JStr ''definitely_rejected'')}"
    by (auto simp: election_open_def rbind_Inr split: option.splits)
  show False
  proof (cases prior)
    case None
    with p(1) assms show False by (auto simp: normalizedState_def attempted_def Let_def truthy_def rbind_Inr split: if_splits)
  next
    case (Some state)
    have "fine (reconciliation r)" using assms by (simp add: fine_def)
    with normalized_attempted p Some show False by fastforce
  qed
qed

section \<open>What a call may still do\<close>

text \<open>
  \<open>calm Q p i permit\<close>: the program posts for the run \<open>i\<close> only with the permit, gets one only by an
  election, writes only attempted states for it and finishes with a result in \<open>Q\<close>, as long as what it
  reads of the run is fine and no post is rejected.
\<close>

definition writes_fine :: "string \<Rightarrow> string \<Rightarrow> js_patch \<Rightarrow> bool" where
  "writes_fine i j p \<longleftrightarrow> (j = i \<longrightarrow> (case map_of p ''githubReviewReconciliation'' of None \<Rightarrow> True | Some v \<Rightarrow> attempted v))"

definition reads_fine :: "string \<Rightarrow> string \<Rightarrow> run_record option \<Rightarrow> bool" where
  "reads_fine i j found \<longleftrightarrow> (case found of None \<Rightarrow> True | Some r \<Rightarrow> rr_id r = j \<and> (j = i \<longrightarrow> fine (reconciliation r)))"

primrec calm :: "(comment_result \<Rightarrow> bool) \<Rightarrow> comment_io \<Rightarrow> string \<Rightarrow> bool \<Rightarrow> bool" where
  "calm Q (Finish r) i permit \<longleftrightarrow> Q r"
| "calm Q (Throw e) i permit \<longleftrightarrow> True"
| "calm Q (Clock k) i permit \<longleftrightarrow> (\<forall>t. calm Q (k t) i False)"
| "calm Q (Read_Run j k) i permit \<longleftrightarrow> (\<forall>r. reads_fine i j r \<longrightarrow> calm Q (k r) i False)"
| "calm Q (List_Runs k) i permit \<longleftrightarrow> (\<forall>rs. (\<forall>r\<in>set rs. rr_id r = i \<longrightarrow> fine (reconciliation r)) \<longrightarrow> calm Q (k rs) i False)"
| "calm Q (Write_Run j p k) i permit \<longleftrightarrow> writes_fine i j p \<and> calm Q k i False"
| "calm Q (End_Run j s p k) i permit \<longleftrightarrow> writes_fine i j p \<and> (\<forall>r. calm Q (k r) i False)"
| "calm Q (Elect j kind state nxt k) i permit \<longleftrightarrow>
     (j = i \<longrightarrow> attempted (Some (JObj nxt))) \<and> calm Q (k True) i (j = i \<and> kind = Elect_Poster) \<and> calm Q (k False) i False"
| "calm Q (Actor k) i permit \<longleftrightarrow> (\<forall>a. calm Q (k a) i False)"
| "calm Q (List_Reviews k) i permit \<longleftrightarrow> (\<forall>a. calm Q (k a) i False)"
| "calm Q (Post_Review j body commit k) i permit \<longleftrightarrow>
     (j = i \<longrightarrow> permit) \<and> (\<forall>a. (j = i \<longrightarrow> \<not> rejects a) \<longrightarrow> calm Q (k a) i False)"
| "calm Q (Dismiss v k) i permit \<longleftrightarrow> (\<forall>a. calm Q (k a) i False)"

lemma calm_permit: "calm Q p i False \<Longrightarrow> calm Q p i permit"
  by (cases p) auto

lemma calm_then:
  assumes "calm Q p i permit" "\<And>r. Q r \<Longrightarrow> calm R (f r) i False"
  shows "calm R (and_then p f) i permit"
  using assms(1)
proof (induction p arbitrary: permit)
  case (Finish r)
  with assms(2) show ?case by (auto intro: calm_permit)
qed auto

section \<open>The reconciliation is calm\<close>

definition own :: "string \<Rightarrow> string \<Rightarrow> js_object \<Rightarrow> bool" where
  "own i j state \<longleftrightarrow> (j = i \<longrightarrow> attempted (Some (JObj state)))"

definition result_own :: "string \<Rightarrow> string \<Rightarrow> comment_result \<Rightarrow> bool" where
  "result_own i j r \<longleftrightarrow> (case r of Reconciled v url dismissed state \<Rightarrow> own i j state | Recovered x \<Rightarrow> True)"

lemma own_cong: "map_of state' ''postOutcome'' = map_of state ''postOutcome'' \<Longrightarrow> own i j state' \<longleftrightarrow> own i j state"
  by (simp add: own_def)

lemma own_set [simp]: "k \<noteq> ''postOutcome'' \<Longrightarrow> own i j (js_set state k v) \<longleftrightarrow> own i j state"
  by (rule own_cong) simp

lemma own_spread [simp]: "map_of p ''postOutcome'' = None \<Longrightarrow> own i j (js_spread state p) \<longleftrightarrow> own i j state"
  by (rule own_cong) (simp add: map_of_js_spread)

lemma own_outcome: "map_of p ''postOutcome'' \<in> {Some (Some (JStr ''ambiguous'')), Some (Some (JStr ''accepted''))} \<Longrightarrow> own i j (js_spread state p)"
  by (auto simp: own_def map_of_js_spread)

lemma calm_persist:
  assumes "own i j state" "\<And>state'. own i j state' \<Longrightarrow> calm Q (k state') i False"
  shows "calm Q (persistState j state k) i permit"
  using assms by (auto simp: persistState_def writes_fine_def Let_def own_def)

lemma calm_elect:
  assumes "own i j state" "\<And>state'. own i j state' \<Longrightarrow> calm Q (k (Some state')) i (j = i \<and> kind = Elect_Poster)" "calm Q (k None) i False"
  shows "calm Q (electState j kind state k) i permit"
  using assms by (auto simp: electState_def Let_def own_def)

lemma calm_read:
  assumes "rr_id current = j" "own_read i j current" "\<And>state. (case state of None \<Rightarrow> True | Some s \<Rightarrow> own i j s) \<Longrightarrow> calm Q (k state) i False"
    and "own_read i j = (\<lambda>r. j = i \<longrightarrow> fine (reconciliation r))"
  shows "calm Q (read_state current k) i permit"
proof -
  have "case state of None \<Rightarrow> True | Some s \<Rightarrow> own i j s"
    if "reads_fine i j found" "normalizedState (case found of None \<Rightarrow> current | Some r \<Rightarrow> r) = Inr state" for found state
    using that assms(2) normalized_attempted unfolding assms(4) own_def reads_fine_def
    by (cases found; cases state) auto
  with assms(1,3) show ?thesis by (auto simp: read_state_def split: sum.splits)
qed

text \<open>A call knows a run it has read, and the state it keeps for it.\<close>

definition knows :: "string \<Rightarrow> string \<Rightarrow> run_record \<Rightarrow> bool" where
  "knows i j current \<longleftrightarrow> rr_id current = j \<and> (j = i \<longrightarrow> fine (reconciliation current))"

lemma calm_read_state:
  assumes "knows i j current" "\<And>state. (case state of None \<Rightarrow> True | Some s \<Rightarrow> own i j s) \<Longrightarrow> calm Q (k state) i False"
  shows "calm Q (read_state current k) i permit"
  using assms calm_read [of current j "\<lambda>i j r. j = i \<longrightarrow> fine (reconciliation r)" i Q k permit] by (simp add: knows_def)

lemma calm_dismiss:
  assumes "own i j state" "\<And>state'. own i j state' \<Longrightarrow> calm Q (k state') i False"
  shows "calm Q (dismiss_all j state vs k) i permit"
  using assms(1)
proof (induction vs arbitrary: state permit)
  case Nil
  with assms(2) show ?case by (auto intro: calm_permit)
next
  case (Cons v vs)
  show ?case
    using Cons.prems by (auto split: option.splits intro!: calm_persist Cons.IH)
qed

lemma calm_conclude:
  assumes "knows i j current" "own i j state"
  shows "calm (result_own i j) (conclude cmp current state) i permit"
  using assms
  by (auto simp: conclude_def Let_def knows_def result_own_def reconciled_def split: option.splits sum.splits
      intro!: calm_persist calm_dismiss)

lemma calm_posted:
  assumes "knows i j current"
  shows "calm (result_own i j) (record_posted cmp current state posted) i permit"
proof -
  have "rr_id current = j" using assms by (simp add: knows_def)
  with assms show ?thesis unfolding record_posted_def by (auto intro!: calm_persist calm_conclude own_outcome)
qed

lemma accepted_own: "accepted_result state = Some r \<Longrightarrow> own i j state \<Longrightarrow> result_own i j r"
  by (auto simp: accepted_result_def reconciled_def result_own_def split: option.splits json.splits if_splits)

lemma calm_waiting:
  assumes "knows i j current" "own i j state"
  shows "calm (result_own i j) (keep_waiting current state message) i permit"
proof -
  have "rr_id current = j" using assms(1) by (simp add: knows_def)
  with assms show ?thesis
    unfolding keep_waiting_def
    by (auto split: option.splits bind_split simp: accepted_own intro!: calm_elect calm_read_state)
qed

lemma calm_observe:
  assumes "knows i j current" "own i j state"
  shows "calm (result_own i j) (observe_comment cmp current body lost state) i permit"
proof -
  have step: "calm (result_own i j)
      (if map_of s ''commentBody'' \<noteq> Some (JStr body) then Throw e
       else (case accepted_result s of Some r \<Rightarrow> Finish r | None \<Rightarrow> rest)) i False"
    if "own i j s" "calm (result_own i j) rest i False" for s e rest
    using that accepted_own by (auto split: option.splits)
  show ?thesis
    unfolding observe_comment_def Let_def calm.simps
    by (intro allI calm_read_state [OF assms(1)] step)
      (auto split: option.splits sum.splits simp: assms(2) calm_posted [OF assms(1)] result_own_def reconciled_def
        intro!: calm_waiting [OF assms(1)])
qed

lemma own_failure:
  "(j = i \<longrightarrow> classifyPostError e \<noteq> Definitely_Rejected) \<Longrightarrow>
     own i j (js_spread state [(''postOutcome'', Some (JStr (failure_text (classifyPostError e)))), (''lastError'', Some (JStr m))])"
  by (cases "classifyPostError e") (simp_all add: own_def map_of_js_spread)

lemma calm_post:
  assumes "knows i j current" "own i j state"
  shows "calm (result_own i j) (post_comment cmp current state) i (j = i)"
proof -
  have id: "rr_id current = j" using assms(1) by (simp add: knows_def)
  show ?thesis
    unfolding post_comment_def Let_def calm.simps id
    by (auto split: sum.splits option.splits simp: rejects_def calm_posted [OF assms(1)] own_failure intro!: calm_persist)
qed

lemma calm_lost:
  assumes "knows i j current"
  shows "calm (result_own i j) (lost_post cmp current body) i permit"
  unfolding lost_post_def
  by (rule calm_read_state [OF assms])
    (auto split: option.splits simp: accepted_own calm_observe [OF assms] calm_conclude [OF assms])

lemma calm_claim:
  assumes "knows i j current"
  shows "calm (result_own i j) (claim_post cmp current body state) i permit"
proof -
  have "rr_id current = j" using assms by (simp add: knows_def)
  then show ?thesis
    unfolding claim_post_def calm.simps
    by (intro allI calm_elect own_outcome) (simp_all add: calm_lost [OF assms] calm_post [OF assms])
qed

lemma calm_phase:
  assumes "knows i j current"
    and "own i j state \<or> text_at state ''phase'' = ''prepared'' \<and> text_at state ''postOutcome'' \<noteq> ''ambiguous''"
  shows "calm (result_own i j) (post_phase cmp current body state) i permit"
  using assms(2)
  by (auto simp: post_phase_def calm_claim [OF assms(1)] calm_observe [OF assms(1)] calm_conclude [OF assms(1)])

lemma calm_reconcile:
  assumes "reads_fine i (rr_id run) (Some run)"
  shows "calm (result_own i (rr_id run)) (reconcileGithubCommentReview cmp run body) i permit"
proof -
  have phase: "calm (result_own i (rr_id run)) (case normalizedState c of
         Inl e \<Rightarrow> Throw e
       | Inr (Some state) \<Rightarrow>
           if map_of state ''commentBody'' \<noteq> Some (JStr body) then Throw (''GitHub review reconciliation body changed for '' @ rr_id c)
           else post_phase cmp c body state
       | Inr None \<Rightarrow> Actor (\<lambda>answer. case answer of Inl e \<Rightarrow> Throw e
           | Inr login \<Rightarrow> if js_trim login = [] then Throw ''GitHub authenticated actor lookup returned no login''
               else Clock (\<lambda>now. post_phase cmp c body (prepared_state (js_trim login) body now)))) i False"
    if "knows i (rr_id run) c" for c
  proof -
    have "own i (rr_id run) state" if "normalizedState c = Inr (Some state)" for state
      using normalized_attempted [OF that] \<open>knows i (rr_id run) c\<close> by (auto simp: knows_def own_def)
    then show ?thesis
      by (auto split: sum.splits option.splits intro!: calm_phase [OF that] simp: text_at_def prepared_state_def)
  qed
  have "knows i (rr_id run) (case found of None \<Rightarrow> run | Some r \<Rightarrow> r)" if "reads_fine i (rr_id run) found" for found
    using that assms by (cases found) (auto simp: reads_fine_def knows_def)
  then show ?thesis
    unfolding reconcileGithubCommentReview_def Let_def calm.simps using phase by blast
qed

lemma calm_recover: "calm (\<lambda>r. True) (recoverIncompleteGithubCommentReviewForHead cmp prNumber headSha) i permit"
proof -
  have one: "calm (\<lambda>r. True) (and_then (reconcileGithubCommentReview cmp run body) (\<lambda>result.
      case result of
        Recovered r \<Rightarrow> Finish result
      | Reconciled reviewId url dismissed state \<Rightarrow> Clock (\<lambda>now. End_Run (rr_id run) s (p reviewId url state now) (\<lambda>r. Finish (Recovered (Some r)))))) i False"
    if "rr_id run = i \<longrightarrow> fine (reconciliation run)"
      "\<And>reviewId url state now. map_of (p reviewId url state now) ''githubReviewReconciliation'' = Some (Some (JObj state))" for run body s p
    using calm_reconcile [of i run cmp body False] that
    by (intro calm_then [where Q = "result_own i (rr_id run)"])
      (auto simp: reads_fine_def result_own_def own_def writes_fine_def split: comment_result.splits)
  show ?thesis
    unfolding recoverIncompleteGithubCommentReviewForHead_def
    by (auto split: list.splits sum.splits option.splits simp: filter_eq_Cons_iff intro!: one)
qed

end
