(* ===== verification/Comment_Posts.thy ===== *)
theory Comment_Posts
  imports Comment_Calls
begin

text \<open>
  The comment of a run is posted once: the invariant of the interleaved calls, and the reviews that
  a reconciliation dismisses.
\<close>

section \<open>What a call reads is what is stored\<close>

lemma readable_listed:
  assumes "readable env st rs" "r \<in> set rs"
  shows "run_at st (rr_id r) r"
proof -
  let ?es = "filter (\<lambda>e. js_ends_with ''.json'' (fst e)) (st_files st)"
  let ?n = "run_file_name (rr_id r)"
  have all: "list_all2 file_of_run ?es rs" and ids: "distinct (map rr_id rs)" using assms(1) by (simp_all add: readable_iff)
  obtain e where e: "e \<in> set ?es" "file_of_run e r" using list_all2_right_ex [OF all assms(2)] by blast
  have fst: "fst e = ?n" using e(2) by (auto simp: file_of_run_def)
  have "fst e \<in> fst ` set (st_files st)" using e(1) by (intro imageI) simp
  then have "map_of (st_files st) ?n \<noteq> None" by (simp add: fst map_of_eq_None_iff)
  then obtain f where f: "map_of (st_files st) ?n = Some f" by blast
  then have "(?n, f) \<in> set ?es" using e(1) fst by (auto dest: map_of_SomeD)
  from list_all2_left [OF all this] obtain q where q: "q \<in> set rs" "file_of_run (?n, f) q" by blast
  then have "rr_id q = rr_id r" by (auto simp: file_of_run_def)
  with ids q(1) assms(2) have "q = r" by (metis distinct_map inj_onD)
  with q(2) f show ?thesis using parsed_id by (auto simp: file_of_run_def run_at_def)
qed

lemma got_run: "getPackReviewRun env st j = Inr (Some r) \<Longrightarrow> run_at st j r"
  by (auto simp: getPackReviewRun_def withStoreLock_Inr existing_run_Inr [symmetric] existing_run_def)

lemma row_reconciliation: "reconciliation (consumerRow env r now) = reconciliation r" "rr_id (consumerRow env r now) = rr_id r"
  by (simp_all add: reconciliation_def consumerRow_def map_of_js_spread)

section \<open>One answer\<close>

lemma calm_any: "calm Q p i permit \<Longrightarrow> calm (\<lambda>r. True) p i permit"
  by (induction p arbitrary: permit) auto

lemma answered_named:
  assumes "answered st p st' p'" "files_named st"
  shows "files_named st'"
  using assms
proof (cases rule: answered.cases)
  case (answered_elect env i kind state nxt won k)
  then obtain f g r where "updatePackReviewRunIf env st i f g = Inr (r, st')"
    by (auto simp: elect_run_def Let_def rbind_Inr map_sum_Inr)
  then have "st' = call_after env (Call_Update_If i f g) st" by (simp add: store_after_def)
  with assms(2) call_evolves evolves_named show ?thesis by blast
qed (auto dest: updatePackReviewRun_evolves setTerminal_evolves evolves_named)

text \<open>
  A calm call stays calm and keeps what is stored; only winning an election gives a permit, and it
  does so where no post was attempted before.
\<close>

lemma answered_calm:
  assumes "answered st p st' p'" "calm Q p i permit" "files_named st" "fine (recorded st i)"
  shows "fine (recorded st' i) \<and> (attempted (recorded st i) \<longrightarrow> attempted (recorded st' i))
    \<and> (calm Q p' i False \<or> calm Q p' i True \<and> attempted (recorded st' i) \<and> \<not> attempted (recorded st i))"
  using assms(1)
proof (cases rule: answered.cases)
  case (answered_read env j r k)
  have "rr_id x = j \<and> (j = i \<longrightarrow> fine (reconciliation x))" if "r = Some x" for x
    using got_run [of env st j x] answered_read that assms(3,4) by (auto simp: files_named_def recorded_at)
  then have "reads_fine i j r" by (cases r) (simp_all add: reads_fine_def)
  with answered_read assms show ?thesis by simp
next
  case (answered_list env rs rows p k)
  have "fine (reconciliation r)" if "r \<in> set rows" "rr_id r = i" for r
  proof -
    from answered_list have "set rows = set (map (\<lambda>r. consumerRow env r (now_ms env)) (filter (of_project p) rs))"
      by (metis set_mset_mset)
    with that obtain x where x: "x \<in> set rs" "r = consumerRow env x (now_ms env)" by auto
    have "readable env st rs" using answered_list by (simp add: withStoreLock_Inr readable_def)
    from readable_listed [OF this x(1)] assms(4) that x(2) show ?thesis by (auto simp: row_reconciliation recorded_at)
  qed
  with answered_list assms show ?thesis by simp
next
  case (answered_write env j patch q)
  from update_recorded(1) [OF answered_write(2) assms(3), of i] answered_write assms show ?thesis
    by (auto simp: writes_fine_def fine_def split: option.splits if_splits)
next
  case (answered_end env j s patch q k)
  from terminal_recorded [OF answered_end(3) assms(3), of i] answered_end assms show ?thesis
    by (auto simp: writes_fine_def fine_def split: option.splits if_splits)
next
  case (answered_elect env j kind state nxt won k)
  note rec = elect_recorded [OF answered_elect(3) assms(3), of i]
  have closed: "\<not> attempted (recorded st i)" if "won" "j = i" "kind = Elect_Poster"
    using rec that normalized_closed recorded_at by fastforce
  show ?thesis
  proof (cases won)
    case True
    with rec closed answered_elect(2) assms(2,4) show ?thesis
      by (cases "j = i \<and> kind = Elect_Poster") (auto simp: answered_elect(1) fine_def split: if_splits)
  next
    case False
    with rec answered_elect assms show ?thesis by simp
  qed
qed (use assms in auto)

section \<open>The invariant of the calls\<close>

text \<open>A call that may post next is one that is calm only with the permit.\<close>

definition may_post :: "string \<Rightarrow> comment_io \<Rightarrow> bool" where
  "may_post i p \<longleftrightarrow> \<not> calm (\<lambda>r. True) p i False"

definition posts_due :: "string \<Rightarrow> comment_world \<Rightarrow> nat" where
  "posts_due i w = count_list (cw_posts w) i + length (filter (may_post i) (cw_calls w))"

definition settled_run :: "string \<Rightarrow> comment_world \<Rightarrow> bool" where
  "settled_run i w \<longleftrightarrow> fine (recorded (cw_store w) i) \<and> (\<forall>p\<in>set (cw_calls w). calm (\<lambda>r. True) p i True)
     \<and> (posts_due i w = 0 \<or> posts_due i w = 1 \<and> attempted (recorded (cw_store w) i))"

definition comment_invariant :: "string \<Rightarrow> comment_world \<Rightarrow> bool" where
  "comment_invariant i w \<longleftrightarrow> files_named (cw_store w) \<and> (i \<in> set (cw_rejected w) \<or> settled_run i w)"

lemma filter_update:
  "n < length xs \<Longrightarrow> length (filter P (xs[n := x])) + (if P (xs ! n) then 1 else 0) = length (filter P xs) + (if P x then 1 else 0)"
proof (induction xs arbitrary: n)
  case (Cons y ys)
  show ?case
  proof (cases n)
    case (Suc m)
    with Cons.IH [of m] Cons.prems show ?thesis by (cases "P y") simp_all
  qed simp
qed simp

lemma calls_update: "(\<forall>p\<in>set xs. P p) \<Longrightarrow> P x \<Longrightarrow> \<forall>p\<in>set (xs[n := x]). P p"
  using set_update_subset_insert [of xs n x] by auto

lemma settled_answer:
  assumes "settled_run i w" "files_named (cw_store w)" "n < length (cw_calls w)" "answered (cw_store w) (cw_calls w ! n) st' p"
  shows "settled_run i (w\<lparr>cw_store := st', cw_calls := (cw_calls w)[n := p]\<rparr>)"
proof -
  let ?old = "cw_calls w ! n"
  have all: "\<forall>p\<in>set (cw_calls w). calm (\<lambda>r. True) p i True" using assms(1) by (simp add: settled_run_def)
  then have "calm (\<lambda>r. True) ?old i True" using assms(3) by simp
  then have calm: "calm (\<lambda>r. True) ?old i (may_post i ?old)" by (cases "may_post i ?old") (simp_all add: may_post_def)
  have fine: "fine (recorded (cw_store w) i)" using assms(1) by (simp add: settled_run_def)
  from answered_calm [OF assms(4) calm assms(2) fine]
  have keeps: "fine (recorded st' i)" "attempted (recorded (cw_store w) i) \<longrightarrow> attempted (recorded st' i)"
    and p: "\<not> may_post i p \<or> attempted (recorded st' i) \<and> \<not> attempted (recorded (cw_store w) i)" and "calm (\<lambda>r. True) p i True"
    by (auto simp: may_post_def intro: calm_permit)
  then have calls: "\<forall>p\<in>set ((cw_calls w)[n := p]). calm (\<lambda>r. True) p i True" using all by (intro calls_update)
  note due = filter_update [OF assms(3), of "may_post i" p]
  from assms(1) keeps p calls due show ?thesis
    by (auto simp: settled_run_def posts_due_def simp del: length_0_conv split: if_splits)
qed

lemma settled_post:
  assumes "settled_run i w" "n < length (cw_calls w)" "cw_calls w ! n = Post_Review j body commit k" "j = i \<longrightarrow> \<not> rejects answer"
  shows "settled_run i (w\<lparr>cw_posts := j # cw_posts w, cw_rejected := rej, cw_calls := (cw_calls w)[n := k answer]\<rparr>)"
proof -
  have all: "\<forall>p\<in>set (cw_calls w). calm (\<lambda>r. True) p i True" using assms(1) by (simp add: settled_run_def)
  then have "calm (\<lambda>r. True) (Post_Review j body commit k) i True" using assms(2,3) nth_mem by fastforce
  then have next_call: "calm (\<lambda>r. True) (k answer) i False" and "\<forall>a. (j = i \<longrightarrow> \<not> rejects a) \<longrightarrow> calm (\<lambda>r. True) (k a) i False"
    using assms(4) by auto
  then have old: "may_post i (Post_Review j body commit k) \<longleftrightarrow> j = i" by (auto simp: may_post_def)
  have calls: "\<forall>p\<in>set ((cw_calls w)[n := k answer]). calm (\<lambda>r. True) p i True"
    using all calm_permit [OF next_call] by (intro calls_update)
  have "\<not> may_post i (k answer)" using next_call by (simp add: may_post_def)
  with filter_update [OF assms(2), of "may_post i" "k answer"] assms(3) old assms(1) calls show ?thesis
    by (auto simp: settled_run_def posts_due_def simp del: length_0_conv split: if_splits)
qed

lemma settled_call:
  assumes "settled_run i w" "calm (\<lambda>r. True) p i False"
  shows "settled_run i (w\<lparr>cw_calls := cw_calls w @ [p]\<rparr>)"
  using assms calm_permit [OF assms(2)] by (auto simp: settled_run_def posts_due_def may_post_def)

lemma invariant_step:
  assumes "comment_step w w'" "comment_invariant i w"
  shows "comment_invariant i w'"
  using assms
proof (cases rule: comment_step.cases)
  case (step_reconcile run cmp body)
  have "reads_fine i (rr_id run) (Some run)" if "settled_run i w"
    using step_reconcile that by (auto simp: settled_run_def reads_fine_def recorded_at)
  with step_reconcile assms(2) show ?thesis
    by (auto simp: comment_invariant_def intro!: settled_call calm_any [OF calm_reconcile] elim: settled_run_def [THEN iffD1, THEN conjunct1])
next
  case (step_recover cmp prNumber headSha)
  with assms(2) calm_recover show ?thesis by (auto simp: comment_invariant_def intro!: settled_call)
next
  case (step_other c env)
  have "files_named (cw_store w)" using assms(2) by (simp add: comment_invariant_def)
  then have "files_named (call_after env c (cw_store w))" using call_evolves evolves_named by blast
  with step_other assms(2) quiet_recorded show ?thesis
    by (auto simp: comment_invariant_def settled_run_def posts_due_def)
next
  case (step_answer n st' p)
  with assms(2) answered_named settled_answer show ?thesis by (auto simp: comment_invariant_def)
next
  case (step_post n j body commit k answer)
  let ?rej = "if rejects answer then j # cw_rejected w else cw_rejected w"
  have "settled_run i w'" if "settled_run i w" "\<not> (j = i \<and> rejects answer)"
    using settled_post [OF that(1), of n j body commit k answer ?rej] step_post that(2) by blast
  with step_post assms(2) show ?thesis by (auto simp: comment_invariant_def)
qed

lemma calls_reach_invariant:
  assumes "comment_step\<^sup>*\<^sup>* (start_world st) w" "files_named st" "recorded st i = None"
  shows "comment_invariant i w"
  using assms(1)
proof (induction rule: rtranclp_induct)
  case base
  from assms(2,3) show ?case by (simp add: comment_invariant_def settled_run_def posts_due_def start_world_def fine_def)
qed (rule invariant_step)

section \<open>The comment is posted once\<close>

text \<open>
  C6: Whatever callers reconcile the comment of a run at the same time, in this process or in others,
  stop or are killed at any of their requests, and whatever GitHub answers, the comment of the run is
  posted at most once as long as no post of it is definitely rejected; once it is posted, the stored
  state says for ever that a post was attempted.
\<close>
lemma comment_posted_once:
  assumes "files_named st" "recorded st i = None" "comment_step\<^sup>*\<^sup>* (start_world st) w" "i \<notin> set (cw_rejected w)"
  shows "count_list (cw_posts w) i = 0 \<or> count_list (cw_posts w) i = 1 \<and> attempted (recorded (cw_store w) i)"
  using calls_reach_invariant [OF assms(3,1,2)] assms(4)
  by (auto simp: comment_invariant_def settled_run_def posts_due_def)

section \<open>The reviews that are dismissed\<close>

lemma last_approval_drop: "drop (last_approval xs) xs = rev (takeWhile (\<lambda>r. gr_state r \<noteq> ''APPROVED'') (rev xs))"
proof (induction xs rule: rev_induct)
  case (snoc x xs)
  have old: "filter (\<lambda>i. gr_state ((xs @ [x]) ! i) = ''APPROVED'') [0..<length xs] = filter (\<lambda>i. gr_state (xs ! i) = ''APPROVED'') [0..<length xs]"
    by (rule filter_cong) (auto simp: nth_append)
  show ?case
  proof (cases "gr_state x = ''APPROVED''")
    case True
    have "last_approval (xs @ [x]) = Suc (length xs)"
      using True by (cases "filter (\<lambda>i. gr_state (xs ! i) = ''APPROVED'') [0..<length xs]") (simp_all add: last_approval_def old)
    with True show ?thesis by simp
  next
    case False
    have "last_approval xs \<le> length xs"
    proof (cases "filter (\<lambda>i. gr_state (xs ! i) = ''APPROVED'') [0..<length xs]")
      case (Cons j js)
      then have "last (j # js) \<in> set (filter (\<lambda>i. gr_state (xs ! i) = ''APPROVED'') [0..<length xs])"
        by (metis last_in_set list.distinct(1))
      then have "last (j # js) < length xs" by simp
      with Cons show ?thesis by (simp add: last_approval_def)
    qed (simp add: last_approval_def)
    moreover have "last_approval (xs @ [x]) = last_approval xs" using False by (simp add: last_approval_def old)
    ultimately show ?thesis using snoc.IH False by simp
  qed
qed (simp add: last_approval_def)

lemma first_split:
  "(\<exists>y ys. xs = before @ y # ys \<and> P y \<and> list_all (\<lambda>x. \<not> P x) before) \<longleftrightarrow> list_ex P xs \<and> before = takeWhile (\<lambda>x. \<not> P x) xs"
proof
  assume "\<exists>y ys. xs = before @ y # ys \<and> P y \<and> list_all (\<lambda>x. \<not> P x) before"
  then obtain y ys where "xs = before @ y # ys" "P y" "list_all (\<lambda>x. \<not> P x) before" by blast
  then show "list_ex P xs \<and> before = takeWhile (\<lambda>x. \<not> P x) xs" by (simp add: list_all_iff)
next
  assume r: "list_ex P xs \<and> before = takeWhile (\<lambda>x. \<not> P x) xs"
  then obtain y ys where d: "dropWhile (\<lambda>x. \<not> P x) xs = y # ys" by (cases "dropWhile (\<lambda>x. \<not> P x) xs") (auto simp: list_ex_iff)
  then have "P y" using hd_dropWhile [of "\<lambda>x. \<not> P x" xs] by simp
  moreover have "xs = before @ y # ys" using r d takeWhile_dropWhile_id [of "\<lambda>x. \<not> P x" xs] by simp
  moreover have "list_all (\<lambda>x. \<not> P x) before" using r by (auto simp: list_all_iff dest: set_takeWhileD)
  ultimately show "\<exists>y ys. xs = before @ y # ys \<and> P y \<and> list_all (\<lambda>x. \<not> P x) before" by blast
qed

text \<open>
  C14: After a comment is confirmed exactly those reviews are selected for dismissal that the same
  actor wrote, requesting changes, after its last approval and before the comment, in their order;
  with no actor or with a comment that is not among the actor's reviews none are, by an error.
\<close>
lemma blocking_reviews_selected:
  "selectActiveSameActorBlockingReviewIds cmp reviews actorLogin (Some comment) = Inr ids \<longleftrightarrow>
     js_lower (js_trim actorLogin) \<noteq> []
     \<and> (\<exists>before confirmed later.
          sort_reviews cmp (filter (\<lambda>r. js_lower (gr_userLogin r) = js_lower (js_trim actorLogin)) reviews) = before @ confirmed # later
          \<and> sameReviewId (gr_id confirmed) (gr_id comment)
          \<and> list_all (\<lambda>r. \<not> sameReviewId (gr_id r) (gr_id comment)) before
          \<and> ids = map gr_id (filter (\<lambda>r. gr_state r = ''CHANGES_REQUESTED'')
              (rev (takeWhile (\<lambda>r. gr_state r \<noteq> ''APPROVED'') (rev before)))))"
proof -
  let ?ordered = "sort_reviews cmp (filter (\<lambda>r. js_lower (gr_userLogin r) = js_lower (js_trim actorLogin)) reviews)"
  let ?same = "\<lambda>r. sameReviewId (gr_id r) (gr_id comment)"
  let ?ids = "\<lambda>before. map gr_id (filter (\<lambda>r. gr_state r = ''CHANGES_REQUESTED'') (rev (takeWhile (\<lambda>r. gr_state r \<noteq> ''APPROVED'') (rev before))))"
  have "take (length (takeWhile (\<lambda>r. \<not> ?same r) ?ordered)) ?ordered = takeWhile (\<lambda>r. \<not> ?same r) ?ordered"
    by (metis takeWhile_eq_take length_take min.absorb2 length_takeWhile_le)
  then have "selectActiveSameActorBlockingReviewIds cmp reviews actorLogin (Some comment) = Inr ids \<longleftrightarrow>
      js_lower (js_trim actorLogin) \<noteq> [] \<and> list_ex ?same ?ordered \<and> ids = ?ids (takeWhile (\<lambda>r. \<not> ?same r) ?ordered)"
    by (auto simp: selectActiveSameActorBlockingReviewIds_def Let_def last_approval_drop)
  also have "\<dots> \<longleftrightarrow> js_lower (js_trim actorLogin) \<noteq> [] \<and> (\<exists>before. (\<exists>confirmed later. ?ordered = before @ confirmed # later \<and> ?same confirmed
        \<and> list_all (\<lambda>r. \<not> ?same r) before) \<and> ids = ?ids before)"
    unfolding first_split by blast
  finally show ?thesis by blast
qed

end
