(* ===== verification/Comment_Samples.thy ===== *)
theory Comment_Samples
  imports Comment_Posts Run_Terminal_Samples
begin

text \<open>
  One caller of the reconciliation on a store with one queued run, up to its post: what it stores when
  it claims the post, and that it then posts.
\<close>

section \<open>The claim of the post\<close>

definition claimed_state :: js_object where
  "claimed_state =
     [(''updatedAtUtc'', JStr ''t''), (''postOutcome'', JStr ''ambiguous''), (''postAttemptedAtUtc'', JStr ''t''),
      (''schemaVersion'', JInt 1), (''event'', JStr ''COMMENT''), (''phase'', JStr ''prepared''), (''actorLogin'', JStr ''bot''),
      (''commentBody'', JStr ''b''), (''pendingDismissalReviewIds'', JArr []), (''dismissedReviewIds'', JArr []),
      (''preparedAtUtc'', JStr ''t'')]"

definition unclaimed_state :: js_object where
  "unclaimed_state = js_spread (prepared_state ''bot'' ''b'' ''t'')
     [(''postOutcome'', Some (JStr ''ambiguous'')), (''postAttemptedAtUtc'', Some (JStr ''t'')), (''lastError'', None)]"

lemma claimed_next: "js_set unclaimed_state ''updatedAtUtc'' (Some (JStr ''t'')) = claimed_state"
  by code_simp

definition claim_patch :: js_patch where
  "claim_patch = [(''githubReviewReconciliation'', Some (JObj claimed_state))]"

definition claim_overrides :: js_patch where
  "claim_overrides =
     [(''heartbeatAtUtc'', Some (JStr ''t0'')), (''updatedAt'', Some (JStr ''t0'')), (''schemaVersion'', Some (JInt 1)),
      (''canonicalRepository'', None), (''accountingVersion'', None), (''reviewCycleId'', None), (''logicalRoundOrdinal'', None),
      (''logicalRoundCap'', None), (''boundIssueSnapshotDigest'', None), (''automaticBudgetDisposition'', Some (JStr ''consume'')),
      (''sameKeyOrder'', Some (JInt 1)), (''id'', Some (JStr ''prr-2'')), (''runId'', Some (JStr ''prr-2'')),
      (''key'', Some (JStr (''pr-7-'' @ run_head))), (''prNumber'', Some (JInt 7)), (''targetSha'', Some (JStr run_head)),
      (''headSha'', Some (JStr run_head)), (''deliveryOutcomes'', Some (JObj []))]"

lemma claim_value: "k \<noteq> ''githubReviewReconciliation'' \<Longrightarrow> patch_value claim_patch k = None"
  by (simp add: claim_patch_def patch_value_def)

lemma claim_clock: "now_ms run_env_sample = 0 \<and> re_isoText run_env_sample 0 = ''t0''"
  by code_simp

lemma claim_merged: "merge_delivery run_env_sample native_run claim_patch = []"
  by (simp add: merge_delivery_def claim_value native_fields json_object_def)

lemma claim_active: "string_or (status_text Queued) None \<in> set (map status_text PACK_REVIEW_ACTIVE_STATUSES)"
  by code_simp

lemma claim_overridden: "update_overrides run_env_sample native_run claim_patch c = claim_overrides"
proof -
  have got: "patch_value claim_patch ''status'' = None" "patch_value claim_patch ''canonicalRepository'' = None"
    "patch_value claim_patch ''accountingVersion'' = None" "patch_value claim_patch ''reviewCycleId'' = None"
    "patch_value claim_patch ''logicalRoundOrdinal'' = None" "patch_value claim_patch ''logicalRoundCap'' = None"
    "patch_value claim_patch ''boundIssueSnapshotDigest'' = None"
    by (simp_all add: claim_value)
  show ?thesis
    unfolding update_overrides_def stored_fields_def Let_def list.map append.simps run_object_all claim_merged claim_clock [THEN conjunct1]
      claim_clock [THEN conjunct2] native_fields(7) got
    by (simp only: if_True if_False claim_active [unfolded list.map] native_open append.simps append_Nil2 native_fields option.map run_accounting.simps js_coalesce_def
        nullish_simps option.simps claim_overrides_def run_disposition_text.simps sample_ids native_absent)
qed

definition claim_object :: js_object where
  "claim_object =
     [(''heartbeatAtUtc'', JStr ''t0''), (''updatedAt'', JStr ''t0''), (''schemaVersion'', JInt 1),
      (''automaticBudgetDisposition'', JStr ''consume''), (''sameKeyOrder'', JInt 1), (''id'', JStr ''prr-2''), (''runId'', JStr ''prr-2''),
      (''key'', JStr (''pr-7-'' @ run_head)), (''prNumber'', JInt 7), (''targetSha'', JStr run_head), (''headSha'', JStr run_head),
      (''deliveryOutcomes'', JObj []), (''githubReviewReconciliation'', JObj claimed_state),
      (''projectId'', JStr ''p''), (''status'', JStr ''queued''), (''latestRunStatus'', JStr ''queued''), (''linkedSessionId'', JStr []), (''startReason'', JStr []), (''surface'', JStr ''s''),
      (''trustedPackRoot'', JStr ''/t''), (''sourceRepoRoot'', JStr ''/r''), (''resolvedReviewer'', JStr ''codex''),
      (''runnerPid'', JInt 9), (''createdAt'', JStr ''t0''), (''findings'', JArr [])]"

lemma claim_candidate: "update_candidate run_env_sample native_run claim_patch c = claim_object"
  unfolding update_candidate_def claim_overridden by code_simp

definition claimed_run :: run_record where
  "claimed_run = native_run\<lparr>rr_heartbeatAtUtc := ''t0'', rr_updatedAt := ''t0'',
     rr_rest := [(''githubReviewReconciliation'', JObj claimed_state)]\<rparr>"

lemma claimed_parsed: "parseRunRecord (Some (JObj claim_object)) path = Inr claimed_run"
  by code_simp

lemma claimed_fields: "rr_id claimed_run = ''prr-2''"
  by (simp add: claimed_run_def)

lemma claim_roundless: "map_of claim_object ''reviewRound'' = None" "js_set claim_object ''reviewRound'' None = claim_object"
  by code_simp+

lemma claim_built:
  "buildUpdatedPackReviewRun run_env_sample (store_of [native_run]) native_run claim_patch path = Inr claimed_run"
  using uncommitted [of native_run "[native_run]"]
  by (simp add: buildUpdatedPackReviewRun_def claim_candidate claim_roundless updated_round_def native_fields nullish_def claimed_parsed)

lemma claim_locked: "update_locked run_env_sample (store_of [native_run]) ''prr-2'' (\<lambda>r. claim_patch) = Inr (claimed_run, store_of [claimed_run])"
proof -
  have "parsed_as (run_object claimed_run) claimed_run"
    using claimed_parsed by (intro parsed_reread) (simp add: parseRunRecord_iff)
  with claim_built native_record_path sample_store(2) claimed_fields show ?thesis
    by (simp add: update_locked_def writeRecordUnlocked_def parseRunRecord_iff [THEN iffD2] store_of_def put_single)
qed

lemma native_unreconciled: "normalizedState native_run = Inr None" "reconciliation native_run = None"
  by code_simp+

lemma claim_elected:
  "elect_run run_env_sample (store_of [native_run]) ''prr-2'' Elect_Poster unclaimed_state claimed_state = Inr (True, store_of [claimed_run])"
  using claim_locked sample_store(4)
  by (simp add: elect_run_def Let_def updatePackReviewRunIf_def election_open_def native_unreconciled claim_patch_def)

section \<open>The caller alone\<close>

definition alone :: "run_store \<Rightarrow> string list \<Rightarrow> comment_io \<Rightarrow> comment_world" where
  "alone st posts p = \<lparr>cw_store = st, cw_posts = posts, cw_rejected = [], cw_calls = [p]\<rparr>"

lemma alone_step: "comment_step\<^sup>*\<^sup>* w (alone st posts p) \<Longrightarrow> answered st p st' p' \<Longrightarrow> comment_step\<^sup>*\<^sup>* w (alone st' posts p')"
  using step_answer [of 0 "alone st posts p" st' p'] by (simp add: alone_def rtranclp.rtrancl_into_rtrancl)

lemma alone_start:
  assumes "run_at st (rr_id run) run"
  shows "comment_step\<^sup>*\<^sup>* (start_world st) (alone st [] (reconcileGithubCommentReview cmp run body))"
  using step_reconcile [of "start_world st" run cmp body] assms by (auto simp: alone_def start_world_def)

lemma native_reads: "getPackReviewRun run_env_sample (store_of [native_run]) ''prr-2'' = Inr (Some native_run)"
  using sample_store(2) by (auto simp: getPackReviewRun_def existing_run_def rbind_Inr split: option.splits)

lemma caller_claims: "comment_step\<^sup>*\<^sup>* (start_world (store_of [native_run]))
    (alone (store_of [claimed_run]) [] (post_comment cmp native_run claimed_state))"
proof -
  let ?st = "store_of [native_run]"
  have "run_at ?st (rr_id native_run) native_run" using sample_store(2) by (simp add: existing_run_Inr)
  from alone_start [OF this, of cmp "''b''"]
  have "comment_step\<^sup>*\<^sup>* (start_world ?st) (alone ?st [] (reconcileGithubCommentReview cmp native_run ''b''))" .
  from alone_step [OF this [unfolded reconcileGithubCommentReview_def Let_def sample_ids] answered_read [OF native_reads]]
  have "comment_step\<^sup>*\<^sup>* (start_world ?st) (alone ?st [] (Actor (\<lambda>answer. case answer of Inl e \<Rightarrow> Throw e
      | Inr login \<Rightarrow> if js_trim login = [] then Throw ''GitHub authenticated actor lookup returned no login''
        else Clock (\<lambda>now. post_phase cmp native_run ''b'' (prepared_state (js_trim login) ''b'' now)))))"
    unfolding option.case native_unreconciled sum.case .
  from alone_step [OF this answered_actor [of _ _ "Inr ''bot''"]]
  have "comment_step\<^sup>*\<^sup>* (start_world ?st) (alone ?st [] (Clock (\<lambda>now. post_phase cmp native_run ''b'' (prepared_state ''bot'' ''b'' now))))"
    by (simp add: js_trim_def js_space_def)
  from alone_step [OF this answered_clock [of _ _ "''t''"]]
  have "comment_step\<^sup>*\<^sup>* (start_world ?st) (alone ?st [] (claim_post cmp native_run ''b'' (prepared_state ''bot'' ''b'' ''t'')))"
    by (simp add: post_phase_def prepared_state_def text_at_def)
  from alone_step [OF this [unfolded claim_post_def] answered_clock [of _ _ "''t''"], folded unclaimed_state_def]
  have "comment_step\<^sup>*\<^sup>* (start_world ?st) (alone ?st [] (Clock (\<lambda>now. let nxt = js_set unclaimed_state ''updatedAtUtc'' (Some (JStr now))
      in Elect ''prr-2'' Elect_Poster unclaimed_state nxt (\<lambda>won. case if won then Some nxt else None of
          Some won \<Rightarrow> if map_of won ''commentBody'' \<noteq> Some (JStr ''b'') then Throw (changed_error native_run) else post_comment cmp native_run won
        | None \<Rightarrow> lost_post cmp native_run ''b''))))"
    unfolding electState_def sample_ids .
  note elects = alone_step [OF this answered_clock [of _ _ "''t''"], unfolded Let_def claimed_next]
  have "map_of claimed_state ''commentBody'' = Some (JStr ''b'')" by (simp add: claimed_state_def)
  with alone_step [OF elects answered_elect [OF claim_elected]] show ?thesis by simp
qed

lemma caller_posts: "comment_step\<^sup>*\<^sup>* (start_world (store_of [native_run]))
    (alone (store_of [claimed_run]) [''prr-2''] (record_posted cmp native_run claimed_state posted))"
proof -
  have "comment_step (alone st [] (Post_Review j body commit k)) (alone st [j] (k (Inr posted)))" for st j body commit k
    using step_post [of 0 "alone st [] (Post_Review j body commit k)" j body commit k "Inr posted"] by (simp add: alone_def rejects_def)
  from rtranclp.rtrancl_into_rtrancl [OF caller_claims [unfolded post_comment_def] this] show ?thesis by simp
qed

lemma comment_posted_once_witness:
  "\<exists>w. comment_step\<^sup>*\<^sup>* (start_world (store_of [native_run])) w \<and> cw_posts w = [''prr-2''] \<and> attempted (recorded (cw_store w) ''prr-2'')"
proof -
  let ?w = "alone (store_of [claimed_run]) [''prr-2''] (record_posted (\<lambda>a b. 0) native_run claimed_state (JInt 5, ''u''))"
  have "files_named (store_of [native_run])" using sample_store(4) by (rule readable_named [unfolded readable_def])
  moreover have "recorded (store_of [native_run]) ''prr-2'' = None"
    using sample_store(2) native_unreconciled by (simp add: recorded_def)
  moreover have "''prr-2'' \<notin> set (cw_rejected ?w)" by (simp add: alone_def)
  ultimately have "count_list (cw_posts ?w) ''prr-2'' = 0 \<or> count_list (cw_posts ?w) ''prr-2'' = 1 \<and> attempted (recorded (cw_store ?w) ''prr-2'')"
    by (rule comment_posted_once [OF _ _ caller_posts])
  then have "cw_posts ?w = [''prr-2''] \<and> attempted (recorded (cw_store ?w) ''prr-2'')" by (simp add: alone_def)
  with caller_posts show ?thesis by blast
qed

section \<open>A stale rejection\<close>

text \<open>
  Why rejections are excluded: a caller that read the state of a rejected post may still write it
  back, as one that lost, after another caller has claimed the post, and the post is open again.
\<close>

definition rejected_state :: js_object where
  "rejected_state = js_set claimed_state ''postOutcome'' (Some (JStr ''definitely_rejected''))"

lemma stale_rejection_reopens:
  "election_open Elect_Loser rejected_state (Some claimed_run) = Inr True"
  "election_open Elect_Poster unclaimed_state (Some claimed_run) = Inr False"
  "election_open Elect_Poster unclaimed_state (Some (claimed_run\<lparr>rr_rest := [(''githubReviewReconciliation'', JObj rejected_state)]\<rparr>)) = Inr True"
  by code_simp+

end
